(* ===== verification/Prelude.thy ===== *)
theory Prelude
  imports Main "HOL-Library.Word" "HOL-Library.List_Lexorder"
begin

text \<open>
  Shared ground of the development: the model of Rust's \<open>Result\<close> (with the panic
  made a third outcome), stateful actions for the code that threads effects, decimal
  printing for \<open>format!\<close>, the byte encodings of fixed-width integers, and the
  list lemmas that the component theories use.
\<close>

section \<open>Collections of facts\<close>

named_theorems rust_defs \<open>unfolding of the result and action combinators\<close>
named_theorems byte_simps \<open>lengths and round trips of byte encodings\<close>

section \<open>Results: \<open>Ok\<close>, \<open>Err\<close> and the panic\<close>

text \<open>
  A Rust computation of type \<open>Result<T, E>\<close> returns \<open>Ok\<close> or \<open>Err\<close>; a failing
  \<open>assert!\<close>, \<open>unwrap\<close> or subslice index makes it \<open>Panic\<close>.
\<close>

datatype ('a, 'e) result = Ok 'a | Err 'e | Panic

text \<open>The operator \<open>?\<close>: go on with the value, or return the error at once.\<close>

primrec rbind :: "('a, 'e) result \<Rightarrow> ('a \<Rightarrow> ('b, 'e) result) \<Rightarrow> ('b, 'e) result" where
  "rbind (Ok x) f = f x"
| "rbind (Err e) f = Err e"
| "rbind Panic f = Panic"

text \<open>\<open>Result::map_err\<close>, \<open>Result::map\<close>, \<open>Option::ok_or\<close> and \<open>Result::unwrap_or\<close>.\<close>

primrec map_err :: "('e \<Rightarrow> 'f) \<Rightarrow> ('a, 'e) result \<Rightarrow> ('a, 'f) result" where
  "map_err g (Ok x) = Ok x"
| "map_err g (Err e) = Err (g e)"
| "map_err g Panic = Panic"

primrec map_ok :: "('a \<Rightarrow> 'b) \<Rightarrow> ('a, 'e) result \<Rightarrow> ('b, 'e) result" where
  "map_ok g (Ok x) = Ok (g x)"
| "map_ok g (Err e) = Err e"
| "map_ok g Panic = Panic"

primrec ok_or :: "'a option \<Rightarrow> 'e \<Rightarrow> ('a, 'e) result" where
  "ok_or None e = Err e"
| "ok_or (Some x) e = Ok x"

primrec is_ok :: "('a, 'e) result \<Rightarrow> bool" where
  "is_ok (Ok x) = True"
| "is_ok (Err e) = False"
| "is_ok Panic = False"

primrec is_err :: "('a, 'e) result \<Rightarrow> bool" where
  "is_err (Ok x) = False"
| "is_err (Err e) = True"
| "is_err Panic = False"

lemma rbind_Ok_conv [simp]: "rbind r f = Ok y \<longleftrightarrow> (\<exists>x. r = Ok x \<and> f x = Ok y)"
  by (cases r) auto

lemma rbind_Err_conv:
  "rbind r f = Err e \<longleftrightarrow> r = Err e \<or> (\<exists>x. r = Ok x \<and> f x = Err e)"
  by (cases r) auto

lemma rbind_Panic_conv:
  "rbind r f = Panic \<longleftrightarrow> r = Panic \<or> (\<exists>x. r = Ok x \<and> f x = Panic)"
  by (cases r) auto

lemma map_ok_Panic_conv: "map_ok f r = Panic \<longleftrightarrow> r = Panic"
  by (cases r) auto

lemma map_err_Ok_conv [simp]: "map_err g r = Ok y \<longleftrightarrow> r = Ok y"
  by (cases r) auto

lemma map_err_Err_conv [simp]: "map_err g r = Err e \<longleftrightarrow> (\<exists>e'. r = Err e' \<and> e = g e')"
  by (cases r) auto

lemma map_err_Panic_conv [simp]: "map_err g r = Panic \<longleftrightarrow> r = Panic"
  by (cases r) auto

lemma ok_or_Ok_conv [simp]: "ok_or x e = Ok y \<longleftrightarrow> x = Some y"
  by (cases x) auto

lemma ok_or_Err_conv [simp]: "ok_or x e = Err e' \<longleftrightarrow> x = None \<and> e' = e"
  by (cases x) auto

lemma ok_or_not_Panic [simp]: "ok_or x e \<noteq> Panic"
  by (cases x) auto

lemma is_ok_conv: "is_ok r \<longleftrightarrow> (\<exists>x. r = Ok x)"
  by (cases r) auto

section \<open>Actions: results computed over a state\<close>

text \<open>
  An action takes the state and returns its result with the state it leaves behind; a
  failing step keeps the effects made so far, as the code does.
\<close>

type_synonym ('s, 'a, 'e) action = "'s \<Rightarrow> ('a, 'e) result \<times> 's"

definition aret :: "'a \<Rightarrow> ('s, 'a, 'e) action" where
  "aret x s = (Ok x, s)"

definition afail :: "'e \<Rightarrow> ('s, 'a, 'e) action" where
  "afail e s = (Err e, s)"

definition alift :: "('a, 'e) result \<Rightarrow> ('s, 'a, 'e) action" where
  "alift r s = (r, s)"

definition abind :: "('s, 'a, 'e) action \<Rightarrow> ('a \<Rightarrow> ('s, 'b, 'e) action) \<Rightarrow> ('s, 'b, 'e) action" where
  "abind m f s = (case m s of
       (Ok x, s') \<Rightarrow> f x s'
     | (Err e, s') \<Rightarrow> (Err e, s')
     | (Panic, s') \<Rightarrow> (Panic, s'))"

definition amap_err :: "('e \<Rightarrow> 'f) \<Rightarrow> ('s, 'a, 'e) action \<Rightarrow> ('s, 'a, 'f) action" where
  "amap_err g m s = (case m s of (r, s') \<Rightarrow> (map_err g r, s'))"

text \<open>Actions on one half of a pair of states.\<close>

definition on_fst :: "('s, 'a, 'e) action \<Rightarrow> ('s \<times> 't, 'a, 'e) action" where
  "on_fst m p = (case m (fst p) of (r, s) \<Rightarrow> (r, (s, snd p)))"

definition on_snd :: "('t, 'a, 'e) action \<Rightarrow> ('s \<times> 't, 'a, 'e) action" where
  "on_snd m p = (case m (snd p) of (r, t) \<Rightarrow> (r, (fst p, t)))"

definition aget :: "('s \<Rightarrow> ('a, 'e) result) \<Rightarrow> ('s, 'a, 'e) action" where
  "aget f s = (f s, s)"

definition aput :: "('s \<Rightarrow> 's) \<Rightarrow> ('s, unit, 'e) action" where
  "aput f s = (Ok (), f s)"

lemmas action_defs [rust_defs] = aget_def aput_def on_fst_def on_snd_def aret_def afail_def alift_def abind_def amap_err_def

lemma abind_eq_Ok:
  "abind m f s = (Ok y, t) \<longleftrightarrow> (\<exists>x u. m s = (Ok x, u) \<and> f x u = (Ok y, t))"
  by (auto simp: abind_def split: prod.splits result.splits)

text \<open>Inversion of a successful action, one primitive at a time.\<close>

lemma alift_eq_Ok: "alift r s = (Ok y, t) \<longleftrightarrow> r = Ok y \<and> t = s"
  by (auto simp: alift_def)

lemma afail_eq_Ok: "afail e s = (Ok y, t) \<longleftrightarrow> False"
  by (simp add: afail_def)

lemma aret_eq_Ok: "aret x s = (Ok y, t) \<longleftrightarrow> x = y \<and> t = s"
  by (auto simp: aret_def)

lemma aget_eq_Ok: "aget g s = (Ok y, t) \<longleftrightarrow> g s = Ok y \<and> t = s"
  by (auto simp: aget_def)

lemma amap_err_eq_Ok: "amap_err g m s = (Ok y, t) \<longleftrightarrow> m s = (Ok y, t)"
  by (auto simp: amap_err_def split: prod.splits)

lemmas action_eq_Ok = abind_eq_Ok alift_eq_Ok afail_eq_Ok aret_eq_Ok aget_eq_Ok amap_err_eq_Ok

text \<open>
  A relation between the states before and after that is reflexive and transitive, and
  that every step of a composed action respects, is respected by the whole action. The
  frame rules of the use cases (traces only grow, an identity is not touched) are
  instances.
\<close>

locale frame_relation =
  fixes rel :: "'s \<Rightarrow> 's \<Rightarrow> bool"
  assumes frame_refl: "rel s s"
    and frame_trans: "rel s t \<Longrightarrow> rel t u \<Longrightarrow> rel s u"
begin

definition keeps :: "('s, 'a, 'e) action \<Rightarrow> bool" where
  "keeps m \<longleftrightarrow> (\<forall>s. rel s (snd (m s)))"

lemma keepsI: "(\<And>s. rel s (snd (m s))) \<Longrightarrow> keeps m"
  by (simp add: keeps_def)

lemma keepsD: "keeps m \<Longrightarrow> m s = (r, t) \<Longrightarrow> rel s t"
  unfolding keeps_def by (metis snd_conv)

lemma keeps_aret: "keeps (aret x)"
  by (simp add: keeps_def aret_def frame_refl)

lemma keeps_afail: "keeps (afail e)"
  by (simp add: keeps_def afail_def frame_refl)

lemma keeps_alift: "keeps (alift r)"
  by (simp add: keeps_def alift_def frame_refl)

lemma keeps_amap_err: "keeps m \<Longrightarrow> keeps (amap_err g m)"
  by (simp add: keeps_def amap_err_def split: prod.splits) (metis snd_conv)

lemma keeps_abind:
  assumes "keeps m" and "\<And>x. keeps (f x)"
  shows "keeps (abind m f)"
proof (rule keepsI)
  fix s
  obtain r u where m: "m s = (r, u)" by (cases "m s")
  have su: "rel s u" using assms(1) m by (rule keepsD)
  show "rel s (snd (abind m f s))"
  proof (cases r)
    case (Ok x)
    have "rel u (snd (f x u))" using assms(2) by (simp add: keeps_def)
    with su have "rel s (snd (f x u))" by (rule frame_trans)
    then show ?thesis by (simp add: abind_def m Ok)
  qed (simp_all add: abind_def m su)
qed

lemmas keeps_rules = keeps_aret keeps_afail keeps_alift keeps_amap_err keeps_abind

end

text \<open>
  The contract of an entity that is changed only through checked operations: each call
  keeps the invariant and the immutable core, and a rejected call changes nothing. What
  holds of one call then holds of every sequence of calls.
\<close>

locale entity =
  fixes exec :: "'op \<Rightarrow> ('s, 'a, 'e) action"
    and inv :: "'s \<Rightarrow> bool"
    and core :: "'s \<Rightarrow> 'c"
  assumes exec_inv: "inv s \<Longrightarrow> inv (snd (exec op s))"
    and exec_core: "core (snd (exec op s)) = core s"
    and exec_err: "exec op s = (Err e, t) \<Longrightarrow> t = s"
begin

lemma run_inv: "inv s \<Longrightarrow> inv (fold (\<lambda>op s. snd (exec op s)) ops s)"
  by (induction ops arbitrary: s) (auto intro: exec_inv)

lemma run_core: "core (fold (\<lambda>op s. snd (exec op s)) ops s) = core s"
  by (induction ops arbitrary: s) (auto simp: exec_core)

lemma run_rejected:
  "(\<And>op. op \<in> set ops \<Longrightarrow> is_err (fst (exec op s))) \<Longrightarrow> fold (\<lambda>op s. snd (exec op s)) ops s = s"
proof (induction ops)
  case (Cons op ops)
  obtain r t where e: "exec op s = (r, t)" by (cases "exec op s")
  have "is_err r" using Cons.prems [of op] e by simp
  then have "t = s" using exec_err e by (cases r) auto
  with Cons e show ?case by simp
qed simp

end

section \<open>Decimal numbers in formatted text\<close>

fun nat_str :: "nat \<Rightarrow> string" where
  "nat_str n = (if n < 10 then [char_of (48 + n)] else nat_str (n div 10) @ [char_of (48 + n mod 10)])"

declare nat_str.simps [simp del]

section \<open>Fixed-width integers as bytes\<close>

type_synonym byte = "8 word"
type_synonym bytes = "8 word list"

primrec nat_to_le :: "nat \<Rightarrow> nat \<Rightarrow> bytes" where
  "nat_to_le 0 x = []"
| "nat_to_le (Suc n) x = word_of_nat (x mod 256) # nat_to_le n (x div 256)"

primrec le_to_nat :: "bytes \<Rightarrow> nat" where
  "le_to_nat [] = 0"
| "le_to_nat (b # bs) = unat b + 256 * le_to_nat bs"

text \<open>Unfolds an encoding at a literal width, for evaluation.\<close>

lemma nat_to_le_numeral:
  "nat_to_le (numeral k) x = word_of_nat (x mod 256) # nat_to_le (pred_numeral k) (x div 256)"
  by (subst numeral_eq_Suc) (rule nat_to_le.simps)

lemma length_nat_to_le [simp, byte_simps]: "length (nat_to_le n x) = n"
  by (induction n arbitrary: x) auto

lemma le_to_nat_bound: "le_to_nat bs < 256 ^ length bs"
proof (induction bs)
  case (Cons b bs)
  have "unat b < 256" using unsigned_less [of b, where ?'a = nat] by simp
  with Cons.IH show ?case by simp
qed simp

lemma le_to_nat_of_nat_to_le: "le_to_nat (nat_to_le n x) = x mod 256 ^ n"
proof (induction n arbitrary: x)
  case (Suc n)
  have "unat (word_of_nat (x mod 256) :: 8 word) = x mod 256"
    by (simp add: unat_of_nat)
  with Suc show ?case by (simp add: mod_mult2_eq)
qed simp

lemma nat_to_le_of_le_to_nat: "length bs = n \<Longrightarrow> nat_to_le n (le_to_nat bs) = bs"
proof (induction n arbitrary: bs)
  case (Suc n)
  then obtain b bs' where bs: "bs = b # bs'" "length bs' = n" by (cases bs) auto
  have "unat b < 256" using unsigned_less [of b, where ?'a = nat] by simp
  with bs Suc.IH [of bs'] show ?case by simp
qed simp

text \<open>\<open>u32::to_be_bytes\<close>, \<open>u32::from_be_bytes\<close>, and the little-endian forms.\<close>

definition u32_to_be :: "32 word \<Rightarrow> bytes" where
  "u32_to_be w = rev (nat_to_le 4 (unat w))"

definition u32_from_be :: "bytes \<Rightarrow> 32 word" where
  "u32_from_be bs = word_of_nat (le_to_nat (rev bs))"

definition u16_to_le :: "16 word \<Rightarrow> bytes" where
  "u16_to_le w = nat_to_le 2 (unat w)"

definition u64_to_le :: "64 word \<Rightarrow> bytes" where
  "u64_to_le w = nat_to_le 8 (unat w)"

definition u64_from_le :: "bytes \<Rightarrow> 64 word" where
  "u64_from_le bs = word_of_nat (le_to_nat bs)"

lemma length_u32_to_be [simp, byte_simps]: "length (u32_to_be w) = 4"
  by (simp add: u32_to_be_def)

lemma length_u16_to_le [simp, byte_simps]: "length (u16_to_le w) = 2"
  by (simp add: u16_to_le_def)

lemma length_u64_to_le [simp, byte_simps]: "length (u64_to_le w) = 8"
  by (simp add: u64_to_le_def)

lemma u32_roundtrip [simp, byte_simps]: "u32_from_be (u32_to_be w) = w"
proof -
  have "unat w < 256 ^ 4" using unsigned_less [of w, where ?'a = nat] by simp
  then show ?thesis
    by (simp add: u32_from_be_def u32_to_be_def le_to_nat_of_nat_to_le)
qed

lemma u64_roundtrip [simp, byte_simps]: "u64_from_le (u64_to_le w) = w"
proof -
  have "unat w < 256 ^ 8" using unsigned_less [of w, where ?'a = nat] by simp
  then show ?thesis
    by (simp add: u64_from_le_def u64_to_le_def le_to_nat_of_nat_to_le)
qed

lemma u64_roundtrip_bytes [byte_simps]: "length bs = 8 \<Longrightarrow> u64_to_le (u64_from_le bs) = bs"
proof -
  assume len: "length bs = 8"
  then have "le_to_nat bs < 2 ^ 64" using le_to_nat_bound [of bs] by simp
  with len show ?thesis
    by (simp add: u64_from_le_def u64_to_le_def unat_of_nat nat_to_le_of_le_to_nat)
qed

lemma u32_to_be_inject: "u32_to_be v = u32_to_be w \<longleftrightarrow> v = w"
  by (metis u32_roundtrip)

lemma u64_to_le_inject: "u64_to_le v = u64_to_le w \<longleftrightarrow> v = w"
  by (metis u64_roundtrip)

lemma u16_to_le_inject: "u16_to_le v = u16_to_le w \<longleftrightarrow> v = w"
proof
  assume eq: "u16_to_le v = u16_to_le w"
  have "unat v < 256 ^ 2" "unat w < 256 ^ 2"
    using unsigned_less [of v, where ?'a = nat] unsigned_less [of w, where ?'a = nat] by simp_all
  moreover have "le_to_nat (u16_to_le v) = le_to_nat (u16_to_le w)" using eq by simp
  ultimately have "unat v = unat w"
    by (simp add: u16_to_le_def le_to_nat_of_nat_to_le)
  then show "v = w" by (rule unsigned_word_eqI)
qed simp

section \<open>Slices\<close>

text \<open>\<open>&bytes[i..j]\<close> where \<open>i \<le> j \<le> len\<close> has been established.\<close>

definition subslice :: "nat \<Rightarrow> nat \<Rightarrow> 'a list \<Rightarrow> 'a list" where
  "subslice i j xs = take (j - i) (drop i xs)"

lemma length_subslice [simp, byte_simps]:
  "length (subslice i j xs) = min (j - i) (length xs - i)"
  by (simp add: subslice_def min.commute)

lemma subslice_append: "i \<le> j \<Longrightarrow> j \<le> k \<Longrightarrow> subslice i j xs @ subslice j k xs = subslice i k xs"
proof -
  assume le: "i \<le> j" "j \<le> k"
  have d: "drop j xs = drop (j - i) (drop i xs)" using le by simp
  have "subslice i j xs @ subslice j k xs = take (j - i) (drop i xs) @ take (k - j) (drop (j - i) (drop i xs))"
    by (simp only: subslice_def d)
  also have "\<dots> = take ((j - i) + (k - j)) (drop i xs)"
    by (simp only: take_add)
  finally show ?thesis using le by (simp add: subslice_def)
qed

lemma subslice_all [simp]: "length xs \<le> n \<Longrightarrow> subslice 0 n xs = xs"
  by (simp add: subslice_def)

end
