(* ===== verification/Rust_Str.thy ===== *)
theory Rust_Str
  imports Prelude
begin

text \<open>
  Rust strings. A \<open>char\<close> is a Unicode scalar value, modelled by its code point; a
  \<open>String\<close> or \<open>&str\<close> is the list of its scalars, and \<open>len\<close> counts the bytes
  of its UTF-8 encoding. Byte slicing panics away from a character boundary.
  \<open>String::from_utf8_lossy\<close> replaces each maximal ill-formed chunk by U+FFFD.
\<close>

section \<open>Characters and strings\<close>

type_synonym rchar = nat
type_synonym rstr = "nat list"

definition is_scalar :: "rchar \<Rightarrow> bool" where
  "is_scalar c \<longleftrightarrow> c < 55296 \<or> (57344 \<le> c \<and> c < 1114112)"

definition valid_str :: "rstr \<Rightarrow> bool" where
  "valid_str s \<longleftrightarrow> list_all is_scalar s"

text \<open>A string literal of the source (ASCII).\<close>

definition lit :: "string \<Rightarrow> rstr" where
  "lit s = map of_char s"

text \<open>ASCII text as an argument of an error.\<close>

definition ascii_str :: "rstr \<Rightarrow> string" where
  "ascii_str s = map char_of s"

text \<open>\<open>char::is_control\<close>: general category Cc.\<close>

definition is_control :: "rchar \<Rightarrow> bool" where
  "is_control c \<longleftrightarrow> c < 32 \<or> (127 \<le> c \<and> c < 160)"

definition is_ascii_hexdigit :: "rchar \<Rightarrow> bool" where
  "is_ascii_hexdigit c \<longleftrightarrow> (48 \<le> c \<and> c \<le> 57) \<or> (65 \<le> c \<and> c \<le> 70) \<or> (97 \<le> c \<and> c \<le> 102)"

section \<open>UTF-8\<close>

definition len_utf8 :: "rchar \<Rightarrow> nat" where
  "len_utf8 c = (if c < 128 then 1 else if c < 2048 then 2 else if c < 65536 then 3 else 4)"

definition encode_char :: "rchar \<Rightarrow> nat list" where
  "encode_char c =
     (if c < 128 then [c]
      else if c < 2048 then [192 + c div 64, 128 + c mod 64]
      else if c < 65536 then [224 + c div 4096, 128 + c div 64 mod 64, 128 + c mod 64]
      else [240 + c div 262144, 128 + c div 4096 mod 64, 128 + c div 64 mod 64, 128 + c mod 64])"

definition str_bytes :: "rstr \<Rightarrow> bytes" where
  "str_bytes s = map word_of_nat (concat (map encode_char s))"

text \<open>\<open>str::len\<close>.\<close>

definition str_len :: "rstr \<Rightarrow> nat" where
  "str_len s = sum_list (map len_utf8 s)"

text \<open>\<open>&s[..n]\<close>: the prefix of \<open>n\<close> bytes, or a panic off a character boundary.\<close>

fun str_prefix :: "nat \<Rightarrow> rstr \<Rightarrow> rstr option" where
  "str_prefix 0 s = Some []"
| "str_prefix (Suc n) [] = None"
| "str_prefix (Suc n) (c # s) =
     (if len_utf8 c \<le> Suc n then map_option (Cons c) (str_prefix (Suc n - len_utf8 c) s) else None)"

definition is_cont :: "nat \<Rightarrow> bool" where
  "is_cont b \<longleftrightarrow> 128 \<le> b \<and> b < 192"

definition second3 :: "nat \<Rightarrow> nat \<Rightarrow> bool" where
  "second3 b c \<longleftrightarrow>
     (b = 224 \<and> 160 \<le> c \<and> c < 192) \<or> (225 \<le> b \<and> b \<le> 236 \<and> is_cont c)
     \<or> (b = 237 \<and> 128 \<le> c \<and> c < 160) \<or> (238 \<le> b \<and> b \<le> 239 \<and> is_cont c)"

definition second4 :: "nat \<Rightarrow> nat \<Rightarrow> bool" where
  "second4 b c \<longleftrightarrow>
     (b = 240 \<and> 144 \<le> c \<and> c < 192) \<or> (241 \<le> b \<and> b \<le> 243 \<and> is_cont c)
     \<or> (b = 244 \<and> 128 \<le> c \<and> c < 144)"

text \<open>
  One step of the lossy decoder: the character read from the front (the replacement
  character for an ill-formed chunk) and the number of bytes it takes.
\<close>

definition lossy_step :: "nat \<Rightarrow> nat list \<Rightarrow> rchar \<times> nat" where
  "lossy_step b bs =
     (if b < 128 then (b, 1)
      else if 194 \<le> b \<and> b \<le> 223 then
        (case bs of c # _ \<Rightarrow> if is_cont c then ((b - 192) * 64 + (c - 128), 2) else (65533, 1)
         | [] \<Rightarrow> (65533, 1))
      else if 224 \<le> b \<and> b \<le> 239 then
        (case bs of [] \<Rightarrow> (65533, 1)
         | c # bs' \<Rightarrow> if \<not> second3 b c then (65533, 1)
             else (case bs' of [] \<Rightarrow> (65533, 2)
               | d # _ \<Rightarrow> if is_cont d
                   then ((b - 224) * 4096 + (c - 128) * 64 + (d - 128), 3) else (65533, 2)))
      else if 240 \<le> b \<and> b \<le> 244 then
        (case bs of [] \<Rightarrow> (65533, 1)
         | c # bs' \<Rightarrow> if \<not> second4 b c then (65533, 1)
             else (case bs' of [] \<Rightarrow> (65533, 2)
               | d # bs'' \<Rightarrow> if \<not> is_cont d then (65533, 2)
                   else (case bs'' of [] \<Rightarrow> (65533, 3)
                     | e # _ \<Rightarrow> if is_cont e
                         then ((b - 240) * 262144 + (c - 128) * 4096 + (d - 128) * 64 + (e - 128), 4)
                         else (65533, 3))))
      else (65533, 1))"

function lossy_nats :: "nat list \<Rightarrow> rstr" where
  "lossy_nats [] = []"
| "lossy_nats (b # bs) = (case lossy_step b bs of (c, n) \<Rightarrow> c # lossy_nats (drop (n - 1) bs))"
  by pat_completeness auto
termination
  by (relation "measure length") auto

definition from_utf8_lossy :: "bytes \<Rightarrow> rstr" where
  "from_utf8_lossy bs = lossy_nats (map unat bs)"

section \<open>Facts\<close>

lemma lit_Nil [simp]: "lit [] = []"
  by (simp add: lit_def)

lemma len_utf8_pos [simp]: "0 < len_utf8 c"
  by (simp add: len_utf8_def)

lemma length_encode_char [simp]: "length (encode_char c) = len_utf8 c"
  by (simp add: encode_char_def len_utf8_def)

lemma length_str_bytes [simp]: "length (str_bytes s) = str_len s"
  by (induction s) (auto simp: str_bytes_def str_len_def)

lemma str_len_Nil [simp]: "str_len [] = 0"
  by (simp add: str_len_def)

lemma str_len_Cons [simp]: "str_len (c # s) = len_utf8 c + str_len s"
  by (simp add: str_len_def)

lemma str_len_append [simp]: "str_len (s @ t) = str_len s + str_len t"
  by (simp add: str_len_def)

lemma str_len_eq_0 [simp]: "str_len s = 0 \<longleftrightarrow> s = []"
  by (cases s) auto

lemma length_le_str_len: "length s \<le> str_len s"
proof (induction s)
  case (Cons c s)
  have "1 \<le> len_utf8 c" using len_utf8_pos [of c] by linarith
  with Cons show ?case by simp
qed simp

lemma str_len_ascii: "\<forall>c\<in>set s. c < 128 \<Longrightarrow> str_len s = length s"
  by (induction s) (auto simp: len_utf8_def)

text \<open>A byte prefix, where it exists, is a prefix of exactly that many bytes.\<close>

lemma str_prefix_Some:
  "str_prefix n s = Some p \<Longrightarrow> str_len p = n \<and> (\<exists>t. s = p @ t)"
  by (induction n s arbitrary: p rule: str_prefix.induct) (auto split: if_splits)

text \<open>The slice exists exactly at the boundaries between characters.\<close>

lemma str_prefix_append: "str_prefix (str_len p) (p @ t) = Some p"
proof (induction p)
  case (Cons c p)
  obtain k where k: "len_utf8 c + str_len p = Suc k"
    using len_utf8_pos [of c] by (metis Suc_pred add_gr_0)
  have "Suc k - len_utf8 c = str_len p" "len_utf8 c \<le> Suc k"
    using k [symmetric] by simp_all
  then show ?case using Cons.IH by (simp add: k)
qed simp

lemma str_prefix_iff: "str_prefix n s = Some p \<longleftrightarrow> str_len p = n \<and> (\<exists>t. s = p @ t)"
  using str_prefix_Some str_prefix_append by blast

lemma str_prefix_ascii:
  assumes "\<forall>c\<in>set s. c < 128" and "n \<le> length s"
  shows "str_prefix n s = Some (take n s)"
proof -
  have "\<forall>c\<in>set (take n s). c < 128" using assms(1) by (meson in_set_takeD)
  then have "str_len (take n s) = n" using assms(2) by (simp add: str_len_ascii)
  then show ?thesis unfolding str_prefix_iff by (metis append_take_drop_id)
qed

text \<open>The base-64 digits of a code point.\<close>

lemma base64_two: "(c::nat) div 4096 * 4096 + c div 64 mod 64 * 64 + c mod 64 = c"
proof -
  have d: "c div 4096 = c div 64 div 64" by (simp flip: div_mult2_eq)
  have "c div 64 = c div 64 div 64 * 64 + c div 64 mod 64" by simp
  moreover have "c = c div 64 * 64 + c mod 64" by simp
  ultimately show ?thesis unfolding d by linarith
qed

lemma base64_three:
  "(c::nat) div 262144 * 262144 + c div 4096 mod 64 * 4096 + c div 64 mod 64 * 64 + c mod 64 = c"
proof -
  have d: "c div 262144 = c div 4096 div 64" by (simp flip: div_mult2_eq)
  have "c div 4096 = c div 4096 div 64 * 64 + c div 4096 mod 64" by simp
  then show ?thesis unfolding d using base64_two [of c] by linarith
qed

text \<open>Decoding what was encoded gives the character back.\<close>

lemma lossy_step_encode:
  assumes "is_scalar c" and "encode_char c = b # bs"
  shows "lossy_step b (bs @ rest) = (c, Suc (length bs))"
proof -
  consider "c < 128" | "128 \<le> c" "c < 2048" | "2048 \<le> c" "c < 65536" | "65536 \<le> c" "c < 1114112"
    using assms(1) unfolding is_scalar_def by linarith
  then show ?thesis
  proof cases
    case 1
    with assms(2) show ?thesis by (auto simp: encode_char_def lossy_step_def)
  next
    case 2
    then have r: "2 \<le> c div 64" "c div 64 \<le> 31" by linarith+
    have "c div 64 * 64 + c mod 64 = c" by simp
    with 2 r assms(2) show ?thesis
      by (auto simp: encode_char_def lossy_step_def is_cont_def)
  next
    case 3
    define x y z where "x = c div 4096" and "y = c div 64 mod 64" and "z = c mod 64"
    have x: "x \<le> 15" using 3 by (simp add: x_def)
    have y: "y < 64" and z: "z < 64" by (simp_all add: y_def z_def)
    have c: "c = x * 4096 + y * 64 + z" unfolding x_def y_def z_def by (simp only: base64_two)
    have "x = 0 \<longrightarrow> 32 \<le> y" "x = 13 \<longrightarrow> y < 32"
      using 3 assms(1) y z unfolding is_scalar_def c by auto
    then have s3: "second3 (224 + x) (128 + y)"
      using x y unfolding second3_def is_cont_def by auto
    have "b = 224 + x" "bs = [128 + y, 128 + z]"
      using 3 assms(2) by (auto simp: encode_char_def x_def y_def z_def)
    with x y z s3 show ?thesis
      by (simp add: lossy_step_def is_cont_def c)
  next
    case 4
    define w x y z where "w = c div 262144" and "x = c div 4096 mod 64"
      and "y = c div 64 mod 64" and "z = c mod 64"
    have w: "w \<le> 4" using 4 by (simp add: w_def)
    have xyz: "x < 64" "y < 64" "z < 64" by (simp_all add: x_def y_def z_def)
    have c: "c = w * 262144 + x * 4096 + y * 64 + z" unfolding w_def x_def y_def z_def by (simp only: base64_three)
    have "w = 0 \<longrightarrow> 16 \<le> x" "w = 4 \<longrightarrow> x < 16"
      using 4 xyz unfolding c by auto
    then have s4: "second4 (240 + w) (128 + x)"
      using w xyz(1) unfolding second4_def is_cont_def by auto
    have "b = 240 + w" "bs = [128 + x, 128 + y, 128 + z]"
      using 4 assms(2) by (auto simp: encode_char_def w_def x_def y_def z_def)
    with w xyz s4 show ?thesis
      by (simp add: lossy_step_def is_cont_def c)
  qed
qed

lemma lossy_nats_encode:
  "list_all is_scalar s \<Longrightarrow> lossy_nats (concat (map encode_char s)) = s"
proof (induction s)
  case (Cons c s)
  obtain b bs where e: "encode_char c = b # bs"
    using length_encode_char [of c] len_utf8_pos [of c] by (cases "encode_char c") auto
  have "lossy_step b (bs @ concat (map encode_char s)) = (c, Suc (length bs))"
    using Cons.prems e by (intro lossy_step_encode) auto
  with Cons e show ?case by simp
qed simp

lemma encode_char_bytes: "is_scalar c \<Longrightarrow> b \<in> set (encode_char c) \<Longrightarrow> b < 256"
proof -
  assume a: "is_scalar c" and b: "b \<in> set (encode_char c)"
  have d1: "c div 64 < 32" if "c < 2048" using that by linarith
  have d2: "c div 4096 < 16" if "c < 65536" using that by linarith
  have d3: "c div 262144 < 8" if "c < 1114112" using that by linarith
  have m: "c mod 64 < 64" "c div 64 mod 64 < 64" "c div 4096 mod 64 < 64" by simp_all
  have "c < 1114112" using a by (auto simp: is_scalar_def)
  with b d1 d2 d3 m show "b < 256"
    unfolding encode_char_def by (auto split: if_splits)
qed

lemma from_utf8_lossy_str_bytes: "valid_str s \<Longrightarrow> from_utf8_lossy (str_bytes s) = s"
proof -
  assume v: "valid_str s"
  let ?ns = "concat (map encode_char s)"
  have "\<forall>n\<in>set ?ns. n < 256"
    using v encode_char_bytes by (auto simp: valid_str_def list_all_iff)
  then have "map (unat \<circ> (word_of_nat :: nat \<Rightarrow> 8 word)) ?ns = ?ns"
    by (intro map_idI) (simp add: unat_of_nat del: set_concat)
  then have "map unat (str_bytes s) = ?ns" by (simp only: str_bytes_def map_map)
  then show ?thesis
    using v by (simp add: from_utf8_lossy_def valid_str_def lossy_nats_encode)
qed

end
