(* ===== verification/Crates.thy ===== *)
theory Crates
  imports Rust_Str
begin

text \<open>
  The third-party crates the program calls, as parameters of the model. A value of the
  record \<open>crates\<close> holds one function per library entry point; definitions take it as
  their first argument. What the program relies on is stated as named predicates over
  that record, each the documented behaviour of one crate. Reference functions that
  satisfy the predicates stand at the end; only witnesses use them.
\<close>

section \<open>Values owned by libraries\<close>

text \<open>\<open>uuid::Uuid\<close> is 16 bytes; \<open>DateTime<Utc>\<close> and \<open>Instant\<close> are nanosecond counts.\<close>

type_synonym uuid = "128 word"
type_synonym datetime = int
type_synonym instant = int

definition seconds :: "int \<Rightarrow> int" where
  "seconds n = n * 1000000000"

text \<open>\<open>DateTime::timestamp\<close>: whole seconds since the epoch.\<close>

definition timestamp :: "datetime \<Rightarrow> int" where
  "timestamp t = t div 1000000000"

lemma seconds_mono [simp]: "seconds a \<le> seconds b \<longleftrightarrow> a \<le> b"
  by (simp add: seconds_def)

lemma seconds_add: "seconds (a + b) = seconds a + seconds b"
  by (simp add: seconds_def algebra_simps)

section \<open>The library functions\<close>

record crates =
  hex_encode :: "bytes \<Rightarrow> rstr"
  hex_decode :: "rstr \<Rightarrow> bytes option"
  ct_eq :: "bytes \<Rightarrow> bytes \<Rightarrow> bool"
  blake3 :: "bytes \<Rightarrow> bytes"
  ed_public :: "bytes \<Rightarrow> bytes"
  ed_sign :: "bytes \<Rightarrow> bytes \<Rightarrow> bytes"
  ed_key_ok :: "bytes \<Rightarrow> bool"
  ed_verify :: "bytes \<Rightarrow> bytes \<Rightarrow> bytes \<Rightarrow> bool"
  x_public :: "bytes \<Rightarrow> bytes"
  x_dh :: "bytes \<Rightarrow> bytes \<Rightarrow> bytes"
  argon2_params :: "nat \<Rightarrow> nat \<Rightarrow> nat \<Rightarrow> (unit, string) result"
  argon2_hash :: "bytes \<Rightarrow> bytes \<Rightarrow> (bytes, string) result"
  chacha_encrypt :: "bytes \<Rightarrow> bytes \<Rightarrow> bytes \<Rightarrow> bytes option"
  chacha_decrypt :: "bytes \<Rightarrow> bytes \<Rightarrow> bytes \<Rightarrow> bytes option"
  uuid_string :: "uuid \<Rightarrow> rstr"
  rfc3339 :: "datetime \<Rightarrow> rstr"
  dt_debug :: "datetime \<Rightarrow> string"

section \<open>Documented behaviour, as named hypotheses\<close>

definition hex_digit :: "nat \<Rightarrow> rchar" where
  "hex_digit n = (if n < 10 then 48 + n else 87 + n)"

definition hex_value :: "rchar \<Rightarrow> nat option" where
  "hex_value c =
     (if 48 \<le> c \<and> c \<le> 57 then Some (c - 48)
      else if 65 \<le> c \<and> c \<le> 70 then Some (c - 55)
      else if 97 \<le> c \<and> c \<le> 102 then Some (c - 87)
      else None)"

definition hex_pair :: "byte \<Rightarrow> rstr" where
  "hex_pair b = [hex_digit (unat b div 16), hex_digit (unat b mod 16)]"

definition lower_hex :: "bytes \<Rightarrow> rstr" where
  "lower_hex bs = concat (map hex_pair bs)"

fun unhex :: "rstr \<Rightarrow> bytes option" where
  "unhex [] = Some []"
| "unhex [c] = None"
| "unhex (c # d # s) =
     (case (hex_value c, hex_value d, unhex s) of
        (Some x, Some y, Some bs) \<Rightarrow> Some (word_of_nat (16 * x + y) # bs)
      | _ \<Rightarrow> None)"

text \<open>\<open>hex\<close>: two lower-case digits per byte; decoding accepts both cases.\<close>

definition hex_ok :: "crates \<Rightarrow> bool" where
  "hex_ok K \<longleftrightarrow> (\<forall>bs. hex_encode K bs = lower_hex bs) \<and> (\<forall>s. hex_decode K s = unhex s)"

text \<open>\<open>subtle\<close>: the comparison of equal-length slices is equality.\<close>

definition ct_eq_ok :: "crates \<Rightarrow> bool" where
  "ct_eq_ok K \<longleftrightarrow> (\<forall>a b. length a = length b \<longrightarrow> ct_eq K a b = (a = b))"

text \<open>\<open>blake3\<close>: a 32-byte digest.\<close>

definition blake3_ok :: "crates \<Rightarrow> bool" where
  "blake3_ok K \<longleftrightarrow> (\<forall>m. length (blake3 K m) = 32)"

text \<open>
  \<open>ed25519-dalek\<close>: a public key is 32 bytes and a well-formed point, a signature is 64
  bytes, and a signature made with a secret key verifies under its public key.
\<close>

definition ed25519_ok :: "crates \<Rightarrow> bool" where
  "ed25519_ok K \<longleftrightarrow>
     (\<forall>sk. length (ed_public K sk) = 32) \<and> (\<forall>sk. ed_key_ok K (ed_public K sk))
     \<and> (\<forall>sk m. length (ed_sign K sk m) = 64)
     \<and> (\<forall>sk m. ed_verify K (ed_public K sk) m (ed_sign K sk m))"

text \<open>\<open>x25519-dalek\<close>: 32-byte keys and a commutative agreement.\<close>

definition x25519_ok :: "crates \<Rightarrow> bool" where
  "x25519_ok K \<longleftrightarrow>
     (\<forall>sk. length (x_public K sk) = 32)
     \<and> (\<forall>a b. x_dh K a (x_public K b) = x_dh K b (x_public K a))"

text \<open>
  \<open>argon2\<close> and \<open>chacha20poly1305\<close>: the parameters (64 MB, 3 passes, 4 lanes) are legal and
  every passphrase shorter than 4 GB with a 32-byte salt gives a 32-byte key; sealing adds a 16-byte tag and opening with the same
  key and nonce inverts it.
\<close>

definition argon2_ok :: "crates \<Rightarrow> bool" where
  "argon2_ok K \<longleftrightarrow> argon2_params K 65536 3 4 = Ok () \<and>
     (\<forall>p salt. length p < 2 ^ 32 \<longrightarrow> length salt = 32 \<longrightarrow>
        (\<exists>k. argon2_hash K p salt = Ok k \<and> length k = 32))"

definition chacha_ok :: "crates \<Rightarrow> bool" where
  "chacha_ok K \<longleftrightarrow>
     (\<forall>k n m. length k = 32 \<longrightarrow> length n = 12 \<longrightarrow>
        (\<exists>c. chacha_encrypt K k n m = Some c \<and> length c = length m + 16
             \<and> chacha_decrypt K k n c = Some m))"

section \<open>Facts about hexadecimal text\<close>

lemma hex_okD:
  assumes "hex_ok K"
  shows "hex_encode K bs = lower_hex bs" and "hex_decode K s = unhex s"
  using assms by (simp_all add: hex_ok_def)

lemma ct_eq_okD: "ct_eq_ok K \<Longrightarrow> length a = length b \<Longrightarrow> ct_eq K a b \<longleftrightarrow> a = b"
  by (simp add: ct_eq_ok_def)

lemma length_lower_hex [simp, byte_simps]: "length (lower_hex bs) = 2 * length bs"
  by (induction bs) (auto simp: lower_hex_def hex_pair_def)

lemma unat_byte_lt: "unat (b :: byte) < 256"
  using unsigned_less [of b, where ?'a = nat] by simp

lemma unat_byte_nibbles: "unat (b :: byte) div 16 < 16" "unat b mod 16 < 16"
  using unat_byte_lt [of b] by simp_all

lemma hex_value_digit: "n < 16 \<Longrightarrow> hex_value (hex_digit n) = Some n"
  by (auto simp: hex_value_def hex_digit_def)

lemma is_hexdigit_value: "is_ascii_hexdigit c \<longleftrightarrow> (\<exists>v. hex_value c = Some v)"
  by (auto simp: is_ascii_hexdigit_def hex_value_def)

lemma hex_value_bound: "hex_value c = Some v \<Longrightarrow> v < 16"
  by (auto simp: hex_value_def split: if_splits)

lemma byte_of_nibbles: "word_of_nat (16 * (unat b div 16) + unat b mod 16) = (b :: byte)"
  by simp

lemma unhex_lower_hex: "unhex (lower_hex bs) = Some bs"
  by (induction bs)
     (auto simp: lower_hex_def hex_pair_def hex_value_digit unat_byte_nibbles byte_of_nibbles)

lemma unhex_length: "unhex s = Some bs \<Longrightarrow> length s = 2 * length bs"
  by (induction s arbitrary: bs rule: unhex.induct) (auto split: option.splits)

section \<open>Reference functions\<close>

text \<open>
  A cheap model of the cryptographic crates that satisfies the hypotheses above: it shows
  that they are consistent and gives witnesses something to compute with.
\<close>

definition pad_to :: "nat \<Rightarrow> bytes \<Rightarrow> bytes" where
  "pad_to n bs = take n (bs @ replicate n 0)"

definition ref_crates :: crates where
  "ref_crates = \<lparr>
     hex_encode = lower_hex, hex_decode = unhex, ct_eq = (=),
     blake3 = pad_to 32, ed_public = pad_to 32,
     ed_sign = (\<lambda>sk m. pad_to 32 sk @ pad_to 32 m),
     ed_key_ok = (\<lambda>k. length k = 32),
     ed_verify = (\<lambda>k m s. s = k @ pad_to 32 m),
     x_public = pad_to 32, x_dh = (\<lambda>a b. map2 (+) (pad_to 32 a) b),
     argon2_params = (\<lambda>m t p. Ok ()), argon2_hash = (\<lambda>p s. Ok (pad_to 32 p)),
     chacha_encrypt = (\<lambda>k n m. Some (replicate 16 (hd (k @ [0])) @ m)),
     chacha_decrypt = (\<lambda>k n c. if take 16 c = replicate 16 (hd (k @ [0])) then Some (drop 16 c) else None),
     uuid_string = (\<lambda>u. []), rfc3339 = (\<lambda>t. []), dt_debug = (\<lambda>t. []) \<rparr>"

lemma length_pad_to [simp]: "length (pad_to n bs) = n"
  by (simp add: pad_to_def)

lemma pad_to_pad_to [simp]: "length bs = n \<Longrightarrow> pad_to n bs = bs"
  by (simp add: pad_to_def)

lemma ref_hex_ok: "hex_ok ref_crates"
  by (simp add: hex_ok_def ref_crates_def)

lemma ref_ct_eq_ok: "ct_eq_ok ref_crates"
  by (simp add: ct_eq_ok_def ref_crates_def)

lemma ref_blake3_ok: "blake3_ok ref_crates"
  by (simp add: blake3_ok_def ref_crates_def)

lemma ref_ed25519_ok: "ed25519_ok ref_crates"
  by (simp add: ed25519_ok_def ref_crates_def)

lemma ref_argon2_ok: "argon2_ok ref_crates"
  by (simp add: argon2_ok_def ref_crates_def)

lemma ref_chacha_ok: "chacha_ok ref_crates"
  by (simp add: chacha_ok_def ref_crates_def)

lemma map2_add_commute: "length xs = length ys \<Longrightarrow> map2 (+) xs ys = map2 (+) ys (xs :: bytes)"
  by (induction xs ys rule: list_induct2) (auto simp: add.commute)

lemma ref_x25519_ok: "x25519_ok ref_crates"
  by (auto simp: x25519_ok_def ref_crates_def intro!: map2_add_commute)

lemmas ref_crates_ok =
  ref_hex_ok ref_ct_eq_ok ref_blake3_ok ref_ed25519_ok ref_argon2_ok ref_chacha_ok ref_x25519_ok

end
