(* ===== verification/Domain_Errors.thy ===== *)
theory Domain_Errors
  imports Crates
begin

text \<open>
  \<open>crates/domain/src/errors/domain_error.rs\<close>: the error enums of the domain layer, their
  \<open>Display\<close> text, the size limits and the two input validators.
\<close>

section \<open>Limits\<close>

definition MAX_DISPLAY_NAME_LEN :: nat where "MAX_DISPLAY_NAME_LEN = 64"
definition MAX_MESSAGE_CONTENT_LEN :: nat where "MAX_MESSAGE_CONTENT_LEN = 65536"
definition MAX_RECIPIENTS :: nat where "MAX_RECIPIENTS = 50"

lemmas limit_defs = MAX_DISPLAY_NAME_LEN_def MAX_MESSAGE_CONTENT_LEN_def MAX_RECIPIENTS_def

section \<open>Error enums\<close>

datatype identity_error =
    Id_InvalidParameters | Id_NotFound | Id_AlreadyExists
  | Id_KeyGenerationFailed | Id_InvalidKeyMaterial | Id_Locked

datatype peer_error =
    Peer_NotFound | Peer_AlreadyExists | Peer_Unreachable
  | Peer_InvalidData | Peer_Blocked | Peer_HandshakeFailed

datatype message_error =
    Msg_NotFound | Msg_TooLarge | Msg_InvalidFormat
  | Msg_DeliveryFailed | Msg_Expired | Msg_RecipientLimitExceeded

datatype domain_error =
    Identity identity_error
  | Peer peer_error
  | Message message_error
  | Cryptographic
  | Validation string string
  | ResourceLimit string
  | ConcurrentModification
  | Cancelled
  | Internal

type_synonym 'a domain_result = "('a, domain_error) result"

section \<open>Display text\<close>

fun display_identity_error :: "identity_error \<Rightarrow> string" where
  "display_identity_error Id_InvalidParameters = ''invalid identity parameters''"
| "display_identity_error Id_NotFound = ''identity not found''"
| "display_identity_error Id_AlreadyExists = ''identity already exists''"
| "display_identity_error Id_KeyGenerationFailed = ''key generation failed''"
| "display_identity_error Id_InvalidKeyMaterial = ''invalid key material''"
| "display_identity_error Id_Locked = ''identity locked''"

fun display_peer_error :: "peer_error \<Rightarrow> string" where
  "display_peer_error Peer_NotFound = ''peer not found''"
| "display_peer_error Peer_AlreadyExists = ''peer already exists''"
| "display_peer_error Peer_Unreachable = ''peer unreachable''"
| "display_peer_error Peer_InvalidData = ''invalid peer data''"
| "display_peer_error Peer_Blocked = ''peer blocked''"
| "display_peer_error Peer_HandshakeFailed = ''handshake failed''"

fun display_message_error :: "message_error \<Rightarrow> string" where
  "display_message_error Msg_NotFound = ''message not found''"
| "display_message_error Msg_TooLarge = ''message too large''"
| "display_message_error Msg_InvalidFormat = ''invalid message format''"
| "display_message_error Msg_DeliveryFailed = ''delivery failed''"
| "display_message_error Msg_Expired = ''message expired''"
| "display_message_error Msg_RecipientLimitExceeded = ''recipient limit exceeded''"

fun display_domain_error :: "domain_error \<Rightarrow> string" where
  "display_domain_error (Identity e) = ''identity error: '' @ display_identity_error e"
| "display_domain_error (Peer e) = ''peer error: '' @ display_peer_error e"
| "display_domain_error (Message e) = ''message error: '' @ display_message_error e"
| "display_domain_error Cryptographic = ''cryptographic operation failed''"
| "display_domain_error (Validation f r) = ''validation failed: '' @ f @ '' - '' @ r"
| "display_domain_error (ResourceLimit r) = ''resource limit exceeded: '' @ r"
| "display_domain_error ConcurrentModification = ''concurrent modification detected''"
| "display_domain_error Cancelled = ''operation cancelled''"
| "display_domain_error Internal = ''internal error''"

section \<open>Validators\<close>

definition validate_display_name :: "rstr \<Rightarrow> unit domain_result" where
  "validate_display_name name =
     (if name = [] then Err (Validation ''display_name'' ''cannot be empty'')
      else if str_len name > MAX_DISPLAY_NAME_LEN then
        Err (ResourceLimit (''display_name exceeds '' @ nat_str MAX_DISPLAY_NAME_LEN @ '' bytes''))
      else if list_ex is_control name then
        Err (Validation ''display_name'' ''contains control characters'')
      else Ok ())"

definition validate_message_content :: "bytes \<Rightarrow> unit domain_result" where
  "validate_message_content content =
     (if content = [] then Err (Validation ''content'' ''cannot be empty'')
      else if length content > MAX_MESSAGE_CONTENT_LEN then
        Err (ResourceLimit (''content exceeds '' @ nat_str MAX_MESSAGE_CONTENT_LEN @ '' bytes''))
      else Ok ())"

text \<open>What the validators accept, as predicates for the invariants of the entities.\<close>

definition valid_display_name :: "rstr \<Rightarrow> bool" where
  "valid_display_name name \<longleftrightarrow>
     name \<noteq> [] \<and> str_len name \<le> 64 \<and> (\<forall>c\<in>set name. \<not> is_control c)"

definition valid_content :: "bytes \<Rightarrow> bool" where
  "valid_content content \<longleftrightarrow> content \<noteq> [] \<and> length content \<le> 65536"

lemma validate_display_name_Ok [simp]:
  "validate_display_name name = Ok u \<longleftrightarrow> valid_display_name name"
  by (auto simp: validate_display_name_def valid_display_name_def limit_defs list_ex_iff)

lemma validate_message_content_Ok [simp]:
  "validate_message_content c = Ok u \<longleftrightarrow> valid_content c"
  by (auto simp: validate_message_content_def valid_content_def limit_defs)

lemma validate_display_name_not_Panic [simp]: "validate_display_name name \<noteq> Panic"
  by (simp add: validate_display_name_def)

lemma validate_display_name_invalid: "\<not> valid_display_name name \<Longrightarrow> is_err (validate_display_name name)"
  by (auto simp: validate_display_name_def valid_display_name_def limit_defs list_ex_iff)

lemma validate_message_content_not_Panic [simp]: "validate_message_content c \<noteq> Panic"
  by (simp add: validate_message_content_def)

end
