(* ===== verification/Fingerprint.thy ===== *)
theory Fingerprint
  imports Domain_Errors
begin

text \<open>
  \<open>crates/domain/src/identity/fingerprint.rs\<close>: 20-byte identity fingerprints, their
  hexadecimal parser and printer, and the order on them that recipient lists are sorted
  by. The printed form and the serialised form both parse back to the same fingerprint.
\<close>

section \<open>Data\<close>

definition FINGERPRINT_BYTES :: nat where "FINGERPRINT_BYTES = 20"
definition FINGERPRINT_STRING_LEN :: nat where "FINGERPRINT_STRING_LEN = 49"

datatype fingerprint = Fingerprint (as_bytes: bytes)

text \<open>The array type \<open>[u8; 20]\<close> of the source.\<close>

definition wf_fingerprint :: "fingerprint \<Rightarrow> bool" where
  "wf_fingerprint fp \<longleftrightarrow> length (as_bytes fp) = 20"

section \<open>Operations\<close>

definition fp_from_bytes :: "bytes \<Rightarrow> fingerprint domain_result" where
  "fp_from_bytes bs =
     (if length bs \<noteq> FINGERPRINT_BYTES then
        Err (Validation ''fingerprint''
          (''expected '' @ nat_str FINGERPRINT_BYTES @ '' bytes, got '' @ nat_str (length bs)))
      else Ok (Fingerprint bs))"

text \<open>\<open>slice::chunks(n)\<close> for a positive \<open>n\<close>.\<close>

function chunks :: "nat \<Rightarrow> 'a list \<Rightarrow> 'a list list" where
  "chunks n xs = (if n = 0 \<or> xs = [] then [] else take n xs # chunks n (drop n xs))"
  by pat_completeness auto
termination
  by (relation "measure (\<lambda>(n, xs). length xs)") auto

declare chunks.simps [simp del]

text \<open>\<open>u8::from_str_radix(s, 16)\<close>.\<close>

definition radix16_digits :: "rstr \<Rightarrow> nat option" where
  "radix16_digits ds =
     fold (\<lambda>c acc. case (acc, hex_value c) of
             (Some a, Some v) \<Rightarrow> if 16 * a + v < 256 then Some (16 * a + v) else None
           | _ \<Rightarrow> None) ds (Some 0)"

definition u8_from_str_radix16 :: "rstr \<Rightarrow> byte option" where
  "u8_from_str_radix16 s =
     (case s of [] \<Rightarrow> None
      | c # cs \<Rightarrow> map_option word_of_nat
          (radix16_digits (if c = 43 \<and> cs \<noteq> [] then cs else s)))"

text \<open>The loop of \<open>from_hex\<close> over the two-character chunks.\<close>

fun parse_hex_chunks :: "rstr list \<Rightarrow> bytes domain_result" where
  "parse_hex_chunks [] = Ok []"
| "parse_hex_chunks (chunk # rest) =
     (if list_ex (\<lambda>c. 128 \<le> c) chunk then Err (Validation ''fingerprint'' ''invalid hex encoding'')
      else case u8_from_str_radix16 chunk of
        None \<Rightarrow> Err (Validation ''fingerprint'' ''invalid hex digit'')
      | Some b \<Rightarrow> map_ok (Cons b) (parse_hex_chunks rest))"

definition from_hex :: "rstr \<Rightarrow> fingerprint domain_result" where
  "from_hex hex =
     (let cleaned = filter is_ascii_hexdigit hex
      in if str_len cleaned \<noteq> FINGERPRINT_BYTES * 2 then
           Err (Validation ''fingerprint''
             (''expected '' @ nat_str (FINGERPRINT_BYTES * 2) @ '' hex chars, got '' @ nat_str (str_len cleaned)))
         else map_ok Fingerprint (parse_hex_chunks (chunks 2 cleaned)))"

definition constant_time_eq :: "crates \<Rightarrow> fingerprint \<Rightarrow> fingerprint \<Rightarrow> bool" where
  "constant_time_eq K a b = ct_eq K (as_bytes a) (as_bytes b)"

definition to_ascii_uppercase :: "rstr \<Rightarrow> rstr" where
  "to_ascii_uppercase s = map (\<lambda>c. if 97 \<le> c \<and> c \<le> 122 then c - 32 else c) s"

fun join_dash :: "rstr list \<Rightarrow> rstr" where
  "join_dash [] = []"
| "join_dash [c] = c"
| "join_dash (c # d # cs) = c @ 45 # join_dash (d # cs)"

definition to_formatted_string :: "crates \<Rightarrow> fingerprint \<Rightarrow> rstr" where
  "to_formatted_string K fp =
     join_dash (chunks 4 (to_ascii_uppercase (hex_encode K (as_bytes fp))))"

text \<open>\<open>Display\<close> and \<open>Debug\<close>.\<close>

definition display_fingerprint :: "crates \<Rightarrow> fingerprint \<Rightarrow> rstr" where
  "display_fingerprint K fp = to_formatted_string K fp"

definition debug_fingerprint :: "crates \<Rightarrow> fingerprint \<Rightarrow> rstr" where
  "debug_fingerprint K fp = lit ''Fingerprint('' @ to_formatted_string K fp @ lit '')''"

text \<open>The \<open>serde\<close> implementations: the plain hexadecimal string.\<close>

definition fp_serialize :: "crates \<Rightarrow> fingerprint \<Rightarrow> rstr" where
  "fp_serialize K fp = hex_encode K (as_bytes fp)"

definition fp_deserialize :: "rstr \<Rightarrow> (fingerprint, string) result" where
  "fp_deserialize s = map_err display_domain_error (from_hex s)"

section \<open>Order: \<open>a.as_bytes().cmp(b.as_bytes())\<close>\<close>

instantiation fingerprint :: linorder
begin

definition less_eq_fingerprint :: "fingerprint \<Rightarrow> fingerprint \<Rightarrow> bool" where
  "less_eq_fingerprint a b \<longleftrightarrow> as_bytes a \<le> as_bytes b"

definition less_fingerprint :: "fingerprint \<Rightarrow> fingerprint \<Rightarrow> bool" where
  "less_fingerprint a b \<longleftrightarrow> as_bytes a < as_bytes b"

instance
  by standard
     (auto simp: less_eq_fingerprint_def less_fingerprint_def fingerprint.expand)

end

section \<open>Parsing\<close>

lemma length_chunks_2:
  "length xs = 2 * n \<Longrightarrow> length (chunks 2 xs) = n \<and> (\<forall>c\<in>set (chunks 2 xs). length c = 2 \<and> set c \<subseteq> set xs)"
proof (induction n arbitrary: xs)
  case 0
  then show ?case by (simp add: chunks.simps)
next
  case (Suc n)
  then obtain a b ys where xs: "xs = a # b # ys" "length ys = 2 * n"
    by (cases xs; cases "tl xs") auto
  have "chunks 2 xs = [a, b] # chunks 2 ys" by (subst chunks.simps) (simp add: xs)
  with Suc.IH [OF xs(2)] xs show ?case by auto
qed

lemma radix16_pair:
  assumes "hex_value c = Some x" and "hex_value d = Some y"
  shows "u8_from_str_radix16 [c, d] = Some (word_of_nat (16 * x + y))"
proof -
  have "x < 16" "y < 16" using assms hex_value_bound by blast+
  moreover have "c \<noteq> 43" using assms(1) by (auto simp: hex_value_def)
  ultimately show ?thesis
    using assms by (simp add: u8_from_str_radix16_def radix16_digits_def)
qed

lemma hexdigit_ascii: "is_ascii_hexdigit c \<Longrightarrow> c < 128"
  by (auto simp: is_ascii_hexdigit_def)

lemma parse_hex_chunks_Ok:
  assumes "\<forall>c\<in>set cs. length c = 2 \<and> list_all is_ascii_hexdigit c"
  shows "\<exists>bs. parse_hex_chunks cs = Ok bs \<and> length bs = length cs"
  using assms
proof (induction cs)
  case (Cons c cs)
  then obtain a b where c: "c = [a, b]" "is_ascii_hexdigit a" "is_ascii_hexdigit b"
    by (cases c; cases "tl c") auto
  then obtain x y where "hex_value a = Some x" "hex_value b = Some y"
    by (auto simp: is_hexdigit_value)
  moreover have "a < 128" "b < 128" using c hexdigit_ascii by auto
  moreover obtain bs where "parse_hex_chunks cs = Ok bs" "length bs = length cs"
    using Cons by auto
  ultimately show ?case by (simp add: c radix16_pair)
qed simp

lemma str_len_hexdigits: "list_all is_ascii_hexdigit s \<Longrightarrow> str_len s = length s"
  by (rule str_len_ascii) (auto simp: list_all_iff hexdigit_ascii)

lemma list_all_filter [simp]: "list_all P (filter P xs)"
  by (simp add: list_all_iff)

text \<open>Pairs of digits parse back to the byte, whatever the case of the digits.\<close>

definition is_hex_of :: "rstr \<Rightarrow> bytes \<Rightarrow> bool" where
  "is_hex_of s bs \<longleftrightarrow> map hex_value s = map Some (concat (map (\<lambda>b. [unat b div 16, unat b mod 16]) bs))"

lemma is_hex_of_Cons:
  "is_hex_of s (b # bs) \<longleftrightarrow>
     (\<exists>c d t. s = c # d # t \<and> hex_value c = Some (unat b div 16)
        \<and> hex_value d = Some (unat b mod 16) \<and> is_hex_of t bs)"
  by (cases s; cases "tl s") (auto simp: is_hex_of_def)

lemma is_hex_of_Nil [simp]: "is_hex_of s [] \<longleftrightarrow> s = []"
  by (simp add: is_hex_of_def)

lemma is_hex_of_digits: "is_hex_of s bs \<Longrightarrow> list_all is_ascii_hexdigit s \<and> length s = 2 * length bs"
  by (induction bs arbitrary: s) (auto simp: is_hex_of_Cons is_hexdigit_value)

lemma parse_hex_chunks_is_hex_of:
  "is_hex_of s bs \<Longrightarrow> parse_hex_chunks (chunks 2 s) = Ok bs"
proof (induction bs arbitrary: s)
  case Nil
  then show ?case by (simp add: chunks.simps)
next
  case (Cons b bs)
  then obtain c d t where s: "s = c # d # t" "hex_value c = Some (unat b div 16)"
    "hex_value d = Some (unat b mod 16)" and t: "is_hex_of t bs"
    by (auto simp: is_hex_of_Cons)
  have "c < 128" "d < 128"
    using s(2,3) hexdigit_ascii is_hexdigit_value by blast+
  moreover have "chunks 2 s = [c, d] # chunks 2 t" by (subst chunks.simps) (simp add: s(1))
  ultimately show ?case
    using Cons.IH [OF t] radix16_pair [OF s(2,3)] by simp
qed

lemma from_hex_is_hex_of:
  assumes "is_hex_of (filter is_ascii_hexdigit s) (as_bytes fp)" and "wf_fingerprint fp"
  shows "from_hex s = Ok fp"
proof -
  have "str_len (filter is_ascii_hexdigit s) = 40"
    using is_hex_of_digits [OF assms(1)] assms(2) by (simp add: str_len_hexdigits wf_fingerprint_def)
  then show ?thesis
    using parse_hex_chunks_is_hex_of [OF assms(1)]
    by (simp add: from_hex_def FINGERPRINT_BYTES_def)
qed

lemma is_hex_of_lower_hex: "is_hex_of (lower_hex bs) bs"
  by (induction bs)
     (auto simp: is_hex_of_def lower_hex_def hex_pair_def hex_value_digit unat_byte_nibbles)

lemma hex_value_upper: "hex_value (if 97 \<le> c \<and> c \<le> 122 then c - 32 else c) = hex_value c"
  by (auto simp: hex_value_def)

lemma is_hex_of_upper: "is_hex_of s bs \<Longrightarrow> is_hex_of (to_ascii_uppercase s) bs"
  by (simp add: is_hex_of_def to_ascii_uppercase_def comp_def hex_value_upper)

section \<open>Printing\<close>

lemma join_dash_filter: "filter is_ascii_hexdigit (join_dash cs) = filter is_ascii_hexdigit (concat cs)"
  by (induction cs rule: join_dash.induct) (auto simp: is_ascii_hexdigit_def)

lemma concat_chunks: "0 < n \<Longrightarrow> concat (chunks n xs) = xs"
proof (induction n xs rule: chunks.induct)
  case (1 n xs)
  show ?case
  proof (cases "xs = []")
    case True
    then show ?thesis by (simp add: chunks.simps)
  next
    case False
    with "1" show ?thesis by (subst chunks.simps) simp
  qed
qed

lemma formatted_is_hex_of:
  assumes "hex_ok K"
  shows "is_hex_of (filter is_ascii_hexdigit (to_formatted_string K fp)) (as_bytes fp)"
proof -
  let ?u = "to_ascii_uppercase (lower_hex (as_bytes fp))"
  have u: "is_hex_of ?u (as_bytes fp)" by (intro is_hex_of_upper is_hex_of_lower_hex)
  have "filter is_ascii_hexdigit (to_formatted_string K fp) = filter is_ascii_hexdigit ?u"
    by (simp add: to_formatted_string_def hex_okD [OF assms] join_dash_filter concat_chunks)
  also have "\<dots> = ?u" using is_hex_of_digits [OF u] by (simp add: list_all_iff)
  finally show ?thesis using u by simp
qed

lemma length_join_dash: "cs \<noteq> [] \<Longrightarrow> length (join_dash cs) + 1 = sum_list (map length cs) + length cs"
  by (induction cs rule: join_dash.induct) auto

lemma length_chunks_4: "length xs = 4 * n \<Longrightarrow> length (chunks 4 xs) = n"
proof (induction n arbitrary: xs)
  case (Suc n)
  then have "xs \<noteq> []" by auto
  moreover have "length (drop 4 xs) = 4 * n" using Suc.prems by simp
  ultimately show ?case using Suc.IH by (subst chunks.simps) simp
qed (simp add: chunks.simps)

lemma sum_length_chunks: "0 < n \<Longrightarrow> sum_list (map length (chunks n xs)) = length xs"
  by (metis concat_chunks length_concat)

lemma formatted_length:
  assumes "hex_ok K" and "wf_fingerprint fp"
  shows "length (to_formatted_string K fp) = 49"
proof -
  let ?u = "to_ascii_uppercase (lower_hex (as_bytes fp))"
  have u: "length ?u = 40" using assms(2) by (simp add: to_ascii_uppercase_def wf_fingerprint_def)
  have c: "length (chunks 4 ?u) = 10" using length_chunks_4 [of ?u 10] u by simp
  then have "chunks 4 ?u \<noteq> []" by auto
  from length_join_dash [OF this] have "length (join_dash (chunks 4 ?u)) + 1 = 50"
    by (simp add: sum_length_chunks c u)
  then show ?thesis by (simp add: to_formatted_string_def hex_okD [OF assms(1)])
qed

lemma formatted_inject:
  assumes "hex_ok K" and "wf_fingerprint a" and "wf_fingerprint b"
  shows "to_formatted_string K a = to_formatted_string K b \<longleftrightarrow> a = b"
  using assms by (metis formatted_is_hex_of from_hex_is_hex_of result.inject(1))

lemma set_join_dash: "set (join_dash cs) \<subseteq> insert 45 (set (concat cs))"
  by (induction cs rule: join_dash.induct) auto

lemma formatted_chars:
  assumes "hex_ok K" and "c \<in> set (to_formatted_string K fp)"
  shows "c = 45 \<or> is_ascii_hexdigit c"
proof -
  let ?u = "to_ascii_uppercase (lower_hex (as_bytes fp))"
  have "list_all is_ascii_hexdigit ?u"
    using is_hex_of_digits [OF is_hex_of_upper [OF is_hex_of_lower_hex]] by blast
  moreover have "c = 45 \<or> c \<in> set ?u" using set_join_dash [of "chunks 4 ?u"] assms
    by (auto simp: to_formatted_string_def hex_okD [OF assms(1)] concat_chunks simp del: set_concat)
  ultimately show ?thesis by (auto simp: list_all_iff)
qed

lemma constant_time_eq_iff:
  "ct_eq_ok K \<Longrightarrow> wf_fingerprint a \<Longrightarrow> wf_fingerprint b \<Longrightarrow> constant_time_eq K a b \<longleftrightarrow> a = b"
  by (cases a; cases b) (simp add: constant_time_eq_def ct_eq_okD wf_fingerprint_def)

lemma from_hex_wf: "from_hex s = Ok fp \<Longrightarrow> wf_fingerprint fp"
proof -
  assume ok: "from_hex s = Ok fp"
  let ?c = "filter is_ascii_hexdigit s"
  have len: "length ?c = 2 * 20"
    using ok str_len_hexdigits [of ?c] by (auto simp: from_hex_def FINGERPRINT_BYTES_def Let_def split: if_splits)
  from length_chunks_2 [OF this]
  have ch: "length (chunks 2 ?c) = 20" "\<forall>c\<in>set (chunks 2 ?c). length c = 2 \<and> list_all is_ascii_hexdigit c"
    by (auto simp: list_all_iff)
  with parse_hex_chunks_Ok obtain bs where "parse_hex_chunks (chunks 2 ?c) = Ok bs" "length bs = 20"
    by metis
  with ok show ?thesis
    by (auto simp: from_hex_def Let_def wf_fingerprint_def split: if_splits)
qed

lemma parse_hex_chunks_not_Panic: "parse_hex_chunks cs \<noteq> Panic"
  by (induction cs) (auto simp: map_ok_Panic_conv split: option.splits)

lemma from_hex_not_Panic [simp]: "from_hex s \<noteq> Panic"
  by (simp add: from_hex_def Let_def map_ok_Panic_conv parse_hex_chunks_not_Panic)

lemma fp_from_bytes_wf: "fp_from_bytes bs = Ok fp \<longleftrightarrow> length bs = 20 \<and> fp = Fingerprint bs"
  by (auto simp: fp_from_bytes_def FINGERPRINT_BYTES_def)

lemma fp_from_bytes_not_Panic [simp]: "fp_from_bytes bs \<noteq> Panic"
  by (simp add: fp_from_bytes_def)

section \<open>Properties\<close>

text \<open>
  C39: printing a fingerprint and parsing the text gives the same fingerprint, and the
  text has the declared 49 characters; so do the \<open>serde\<close> forms.
\<close>

theorem fingerprint_text_roundtrip:
  assumes "hex_ok K" and "wf_fingerprint fp"
  shows "from_hex (to_formatted_string K fp) = Ok fp
    \<and> length (to_formatted_string K fp) = FINGERPRINT_STRING_LEN
    \<and> fp_deserialize (fp_serialize K fp) = Ok fp"
proof (intro conjI)
  show "from_hex (to_formatted_string K fp) = Ok fp"
    using assms by (intro from_hex_is_hex_of formatted_is_hex_of)
  show "length (to_formatted_string K fp) = FINGERPRINT_STRING_LEN"
    using assms by (simp add: formatted_length FINGERPRINT_STRING_LEN_def)
  have "filter is_ascii_hexdigit (lower_hex (as_bytes fp)) = lower_hex (as_bytes fp)"
    using is_hex_of_digits [OF is_hex_of_lower_hex] by (simp add: list_all_iff)
  then have "from_hex (lower_hex (as_bytes fp)) = Ok fp"
    using assms(2) by (intro from_hex_is_hex_of) (simp_all add: is_hex_of_lower_hex)
  then show "fp_deserialize (fp_serialize K fp) = Ok fp"
    by (simp add: fp_deserialize_def fp_serialize_def hex_okD [OF assms(1)])
qed

theorem fingerprint_text_roundtrip_witness:
  "from_hex (to_formatted_string ref_crates (Fingerprint (replicate 20 0xAB))) = Ok (Fingerprint (replicate 20 0xAB))"
proof -
  have "wf_fingerprint (Fingerprint (replicate 20 0xAB))" by (simp add: wf_fingerprint_def)
  from fingerprint_text_roundtrip [OF ref_hex_ok this] show ?thesis by simp
qed

text \<open>
  \<open>from_hex\<close> accepts a text exactly when it holds 40 hexadecimal digits, whatever
  stands between them; it never panics, every accepted value has 20 bytes, and the only
  error it can return is the digit count.
\<close>

theorem from_hex_total:
  "(if length (filter is_ascii_hexdigit s) = 40
    then \<exists>fp. from_hex s = Ok fp \<and> wf_fingerprint fp
    else from_hex s = Err (Validation ''fingerprint''
       (''expected '' @ nat_str 40 @ '' hex chars, got '' @ nat_str (length (filter is_ascii_hexdigit s)))))
   \<and> from_hex s = from_hex (filter is_ascii_hexdigit s)"
proof -
  let ?c = "filter is_ascii_hexdigit s"
  have len: "str_len ?c = length ?c" by (simp add: str_len_hexdigits)
  have ok: "\<exists>fp. from_hex s = Ok fp" if "length ?c = 40"
  proof -
    have "length ?c = 2 * 20" using that by simp
    from length_chunks_2 [OF this] obtain bs where "parse_hex_chunks (chunks 2 ?c) = Ok bs"
      using parse_hex_chunks_Ok [of "chunks 2 ?c"] by (auto simp: list_all_iff)
    with that len show ?thesis by (simp add: from_hex_def FINGERPRINT_BYTES_def)
  qed
  have err: "from_hex s = Err (Validation ''fingerprint''
      (''expected '' @ nat_str 40 @ '' hex chars, got '' @ nat_str (length ?c)))" if "length ?c \<noteq> 40"
    using that len by (simp add: from_hex_def FINGERPRINT_BYTES_def)
  have "from_hex s = from_hex ?c" by (simp add: from_hex_def)
  with ok err from_hex_wf [of s] show ?thesis by (metis (full_types))
qed

end
