(* ===== verification/Nonce_Cache.thy ===== *)
theory Nonce_Cache
  imports Fingerprint
begin

text \<open>
  \<open>NonceCache\<close> of \<open>crates/security/src/noise/handshake.rs\<close>: the replay cache of handshake
  nonces, a hash set beside a queue that keeps insertion order and insertion times. The
  clock reading is an argument (the code reads the clock again in \<open>elapsed\<close>; the model uses
  one reading per call).
\<close>

section \<open>Model\<close>

definition NONCE_CACHE_TTL_SECS :: int where "NONCE_CACHE_TTL_SECS = 60"

type_synonym nonce_key = "fingerprint \<times> bytes"

record nonce_cache =
  nc_inner :: "nonce_key set"
  nc_order :: "(nonce_key \<times> instant) list"
  nc_max_entries :: nat

definition nonce_cache_new :: "nat \<Rightarrow> nonce_cache" where
  "nonce_cache_new max_entries = \<lparr> nc_inner = {}, nc_order = [], nc_max_entries = max_entries \<rparr>"

text \<open>The \<open>while let\<close> loop that evicts expired entries from the front.\<close>

fun evict_expired :: "instant \<Rightarrow> nonce_key set \<Rightarrow> (nonce_key \<times> instant) list
    \<Rightarrow> nonce_key set \<times> (nonce_key \<times> instant) list" where
  "evict_expired now inner [] = (inner, [])"
| "evict_expired now inner ((k, t) # order) =
     (if now - t > seconds NONCE_CACHE_TTL_SECS then evict_expired now (inner - {k}) order
      else (inner, (k, t) # order))"

definition evict_oldest :: "nat \<Rightarrow> nonce_key set \<times> (nonce_key \<times> instant) list
    \<Rightarrow> nonce_key set \<times> (nonce_key \<times> instant) list" where
  "evict_oldest max_entries = (\<lambda>(inner, order).
     if card inner \<ge> max_entries then
       (case order of [] \<Rightarrow> (inner, order) | (k, t) # rest \<Rightarrow> (inner - {k}, rest))
     else (inner, order))"

definition check_and_insert :: "instant \<Rightarrow> fingerprint \<Rightarrow> bytes \<Rightarrow> nonce_cache \<Rightarrow> bool \<times> nonce_cache" where
  "check_and_insert now fp nonce c =
     (let (inner, order) = evict_expired now (nc_inner c) (nc_order c);
          key = (fp, nonce) in
      if key \<in> inner then (False, c\<lparr> nc_inner := inner, nc_order := order \<rparr>)
      else
        let (inner', order') = evict_oldest (nc_max_entries c) (inner, order) in
        (True, c\<lparr> nc_inner := insert key inner', nc_order := order' @ [(key, now)] \<rparr>))"

section \<open>Invariant\<close>

text \<open>
  The set holds exactly the keys of the queue, each queued once, in order of insertion
  time; the size never exceeds the limit (one entry when the limit is zero).
\<close>

definition wf_cache :: "instant \<Rightarrow> nonce_cache \<Rightarrow> bool" where
  "wf_cache now c \<longleftrightarrow>
     nc_inner c = fst ` set (nc_order c) \<and> distinct (map fst (nc_order c))
     \<and> sorted (map snd (nc_order c)) \<and> (\<forall>(k, t)\<in>set (nc_order c). t \<le> now)
     \<and> length (nc_order c) \<le> max 1 (nc_max_entries c)"

definition fresh_at :: "instant \<Rightarrow> nonce_key \<times> instant \<Rightarrow> bool" where
  "fresh_at now = (\<lambda>(k, t). now - t \<le> seconds NONCE_CACHE_TTL_SECS)"

lemma evict_expired_eq:
  assumes "distinct (map fst order)" and "sorted (map snd order)"
  shows "evict_expired now (fst ` set order) order =
    (fst ` set (filter (fresh_at now) order), filter (fresh_at now) order)"
  using assms
proof (induction order)
  case (Cons e order)
  obtain k t where e: "e = (k, t)" by (cases e)
  show ?case
  proof (cases "now - t > seconds NONCE_CACHE_TTL_SECS")
    case True
    have "k \<notin> fst ` set order" using Cons.prems(1) e by simp
    then have "fst ` set (e # order) - {k} = fst ` set order" using e by auto
    then show ?thesis using True Cons e by (simp add: fresh_at_def)
  next
    case False
    have "\<forall>x\<in>set order. fresh_at now x"
      using False Cons.prems(2) e by (auto simp: fresh_at_def)
    then have "filter (fresh_at now) order = order" by simp
    then show ?thesis using False e by (simp add: fresh_at_def)
  qed
qed simp

text \<open>The cache after the call, in closed form, for a well-formed cache.\<close>

lemma check_and_insert_eq:
  assumes "wf_cache now0 c"
  shows "check_and_insert now fp nonce c =
    (let kept = filter (fresh_at now) (nc_order c) in
     if (fp, nonce) \<in> fst ` set kept then
       (False, c\<lparr> nc_inner := fst ` set kept, nc_order := kept \<rparr>)
     else
       let kept' = (if length kept \<ge> nc_max_entries c then tl kept else kept) @ [((fp, nonce), now)] in
       (True, c\<lparr> nc_inner := fst ` set kept', nc_order := kept' \<rparr>))"
proof -
  let ?kept = "filter (fresh_at now) (nc_order c)"
  have e: "evict_expired now (nc_inner c) (nc_order c) = (fst ` set ?kept, ?kept)"
    using assms evict_expired_eq unfolding wf_cache_def by metis
  have d: "distinct (map fst ?kept)" using assms by (simp add: wf_cache_def distinct_map_filter)
  then have card: "card (fst ` set ?kept) = length ?kept"
    using distinct_card by fastforce
  have "evict_oldest (nc_max_entries c) (fst ` set ?kept, ?kept) =
      (let r = if length ?kept \<ge> nc_max_entries c then tl ?kept else ?kept in (fst ` set r, r))"
    using d card unfolding evict_oldest_def
    by (cases ?kept) (force simp: Let_def)+
  then show ?thesis unfolding check_and_insert_def e by (simp add: Let_def)
qed

lemma set_tl_subset: "set (tl xs) \<subseteq> set xs"
  by (cases xs) auto

lemma check_and_insert_wf:
  assumes "wf_cache now0 c" and "now0 \<le> now"
  shows "wf_cache now (snd (check_and_insert now fp nonce c))"
proof -
  let ?kept = "filter (fresh_at now) (nc_order c)"
  have d: "distinct (map fst ?kept)" "sorted (map snd ?kept)" "length ?kept \<le> max 1 (nc_max_entries c)"
      "\<forall>(k, t)\<in>set ?kept. t \<le> now"
    using assms length_filter_le [of "fresh_at now" "nc_order c"]
    by (auto simp: wf_cache_def distinct_map_filter sorted_filter simp del: length_filter_le)
  define r where "r = (if length ?kept \<ge> nc_max_entries c then tl ?kept else ?kept)"
  have r: "distinct (map fst r)" "sorted (map snd r)" "\<forall>(k, t)\<in>set r. t \<le> now" "set r \<subseteq> set ?kept"
    unfolding r_def using d set_tl_subset [of ?kept] by (auto simp: map_tl distinct_tl sorted_tl)
  have "length r < max 1 (nc_max_entries c)"
    unfolding r_def using d(3) by (cases ?kept) auto
  moreover have eq: "check_and_insert now fp nonce c =
      (if (fp, nonce) \<in> fst ` set ?kept then (False, c\<lparr> nc_inner := fst ` set ?kept, nc_order := ?kept \<rparr>)
       else (True, c\<lparr> nc_inner := fst ` set (r @ [((fp, nonce), now)]), nc_order := r @ [((fp, nonce), now)] \<rparr>))"
    unfolding check_and_insert_eq [OF assms(1)] Let_def r_def ..
  moreover have "(fp, nonce) \<notin> fst ` set r" if "(fp, nonce) \<notin> fst ` set ?kept"
    using that r(4) by blast
  ultimately show ?thesis
    using d r(1-3) by (cases "(fp, nonce) \<in> fst ` set ?kept") (auto simp: eq wf_cache_def sorted_append)
qed

section \<open>Histories\<close>

text \<open>A history of calls: clock reading, fingerprint and nonce of each.\<close>

type_synonym nonce_call = "instant \<times> fingerprint \<times> bytes"

definition run_checks :: "nonce_call list \<Rightarrow> nonce_cache \<Rightarrow> nonce_cache" where
  "run_checks calls c = fold (\<lambda>(now, fp, nonce) c. snd (check_and_insert now fp nonce c)) calls c"

lemma run_checks_simps [simp]:
  "run_checks [] c = c"
  "run_checks ((now, fp, nonce) # calls) c = run_checks calls (snd (check_and_insert now fp nonce c))"
  "run_checks (calls @ calls') c = run_checks calls' (run_checks calls c)"
  by (simp_all add: run_checks_def)

lemma nonce_cache_new_wf: "wf_cache now (nonce_cache_new n)"
  by (simp add: wf_cache_def nonce_cache_new_def)

lemma max_entries_kept [simp]: "nc_max_entries (snd (check_and_insert now fp nonce c)) = nc_max_entries c"
  by (simp add: check_and_insert_def Let_def split: prod.splits)

lemma run_checks_max_entries [simp]: "nc_max_entries (run_checks calls c) = nc_max_entries c"
  by (induction calls arbitrary: c) auto

lemma run_checks_wf:
  assumes "wf_cache now0 c" and "sorted (now0 # map fst calls @ [T])"
  shows "wf_cache (last (now0 # map fst calls)) (run_checks calls c)"
  using assms
proof (induction calls arbitrary: c now0)
  case (Cons call calls)
  obtain now fp nonce where call: "call = (now, fp, nonce)" by (cases call)
  have "wf_cache now (snd (check_and_insert now fp nonce c))"
    using Cons.prems call by (intro check_and_insert_wf) auto
  from Cons.IH [OF this] Cons.prems(2) show ?case by (simp add: call)
qed simp

text \<open>A key queued at \<open>t\<close> with at most \<open>j\<close> entries behind it.\<close>

definition queued :: "nonce_key \<Rightarrow> instant \<Rightarrow> nat \<Rightarrow> nonce_cache \<Rightarrow> bool" where
  "queued k t j c \<longleftrightarrow> (\<exists>pre post. nc_order c = pre @ (k, t) # post \<and> length post \<le> j)"

lemma queued_kept:
  assumes "queued k t j c" and "now - t \<le> seconds NONCE_CACHE_TTL_SECS"
  obtains pre post where "filter (fresh_at now) (nc_order c) = pre @ (k, t) # post" "length post \<le> j"
proof -
  from assms(1) obtain pre post where o: "nc_order c = pre @ (k, t) # post" "length post \<le> j"
    unfolding queued_def by blast
  have "filter (fresh_at now) (nc_order c) = filter (fresh_at now) pre @ (k, t) # filter (fresh_at now) post"
    using o(1) assms(2) by (simp add: fresh_at_def)
  moreover have "length (filter (fresh_at now) post) \<le> j"
    using o(2) length_filter_le [of "fresh_at now" post] by linarith
  ultimately show ?thesis by (rule that)
qed

lemma queued_step:
  assumes "wf_cache now0 c" and "queued k t j c" and "now - t \<le> seconds NONCE_CACHE_TTL_SECS"
    and "Suc j < nc_max_entries c"
  shows "queued k t (Suc j) (snd (check_and_insert now fp nonce c))"
proof -
  obtain pre post where kept: "filter (fresh_at now) (nc_order c) = pre @ (k, t) # post" "length post \<le> j"
    using assms(2,3) by (rule queued_kept)
  have r: "\<exists>pre'. (if length (pre @ (k, t) # post) \<ge> nc_max_entries c
      then tl (pre @ (k, t) # post) else pre @ (k, t) # post) = pre' @ (k, t) # post"
    using assms(4) kept(2) by (cases pre) auto
  then obtain pre' where pre': "(if length (pre @ (k, t) # post) \<ge> nc_max_entries c
      then tl (pre @ (k, t) # post) else pre @ (k, t) # post) = pre' @ (k, t) # post" ..
  show ?thesis
  proof (cases "(fp, nonce) \<in> fst ` set (pre @ (k, t) # post)")
    case True
    then have "nc_order (snd (check_and_insert now fp nonce c)) = pre @ (k, t) # post"
      unfolding check_and_insert_eq [OF assms(1)] kept(1) Let_def by simp
    then show ?thesis using kept(2) unfolding queued_def by fastforce
  next
    case False
    then have "nc_order (snd (check_and_insert now fp nonce c)) = pre' @ (k, t) # (post @ [((fp, nonce), now)])"
      unfolding check_and_insert_eq [OF assms(1)] kept(1) Let_def pre' by auto
    then show ?thesis using kept(2) unfolding queued_def by fastforce
  qed
qed

lemma queued_run:
  assumes "wf_cache now0 c" and "queued k t j c" and "sorted (now0 # map fst calls @ [T])"
    and "T - t \<le> seconds NONCE_CACHE_TTL_SECS" and "j + length calls < nc_max_entries c"
  shows "queued k t (j + length calls) (run_checks calls c)"
  using assms
proof (induction calls arbitrary: c now0 j)
  case (Cons call calls)
  obtain now fp nonce where call: "call = (now, fp, nonce)" by (cases call)
  let ?c = "snd (check_and_insert now fp nonce c)"
  have le: "now0 \<le> now" "now \<le> T" using Cons.prems(3) call by auto
  have "wf_cache now ?c" using Cons.prems(1) le(1) by (rule check_and_insert_wf)
  moreover have "queued k t (Suc j) ?c"
    using Cons.prems le by (intro queued_step) auto
  moreover have "sorted (now # map fst calls @ [T])" using Cons.prems(3) call by simp
  ultimately show ?case using Cons.IH [of now ?c "Suc j"] Cons.prems(4,5) by (simp add: call)
qed simp

lemma accepted_queued:
  assumes "wf_cache now0 c" and "fst (check_and_insert t fp nonce c)"
  shows "queued (fp, nonce) t 0 (snd (check_and_insert t fp nonce c))"
  using assms(2) unfolding check_and_insert_eq [OF assms(1)] queued_def by (auto simp: Let_def split: if_splits)

lemma queued_rejected:
  assumes "wf_cache now0 c" and "queued (fp, nonce) t j c" and "now - t \<le> seconds NONCE_CACHE_TTL_SECS"
  shows "\<not> fst (check_and_insert now fp nonce c)"
proof -
  obtain pre post where "filter (fresh_at now) (nc_order c) = pre @ ((fp, nonce), t) # post"
    using assms(2,3) by (rule queued_kept)
  then show ?thesis unfolding check_and_insert_eq [OF assms(1)] by (simp add: Let_def)
qed

text \<open>Everything the queue holds was presented in the history.\<close>

lemma order_from_history:
  "set (nc_order (run_checks calls (nonce_cache_new n)))
     \<subseteq> (\<lambda>(now, fp, nonce). ((fp, nonce), now)) ` set calls"
proof (induction calls rule: rev_induct)
  case (snoc call calls)
  obtain now fp nonce where call: "call = (now, fp, nonce)" by (cases call)
  let ?c = "run_checks calls (nonce_cache_new n)"
  have ev: "set (snd (evict_expired now inner order)) \<subseteq> set order" for inner order
    by (induction now inner order rule: evict_expired.induct) auto
  have old: "set (snd (evict_oldest m (inner, order))) \<subseteq> set order" for m inner order
    by (auto simp: evict_oldest_def split: list.splits)
  obtain inner order where e: "evict_expired now (nc_inner ?c) (nc_order ?c) = (inner, order)" by fastforce
  obtain inner' order' where o: "evict_oldest (nc_max_entries ?c) (inner, order) = (inner', order')" by fastforce
  have "set order \<subseteq> set (nc_order ?c)" "set order' \<subseteq> set order"
    using ev [of "nc_inner ?c" "nc_order ?c"] old [of "nc_max_entries ?c" inner order] e o by simp_all
  then have "set (nc_order (snd (check_and_insert now fp nonce ?c))) \<subseteq> insert ((fp, nonce), now) (set (nc_order ?c))"
    unfolding check_and_insert_def e Let_def prod.case o by (simp split: if_split) blast
  with snoc call show ?case by force
qed (simp add: nonce_cache_new_def)

section \<open>Properties\<close>

text \<open>
  C9: replay protection of one cache. Once a nonce of a peer was accepted at time \<open>t\<close>, the
  same nonce of the same peer is rejected at every time up to 60 s later, whatever was
  presented before and as long as fewer calls than the capacity of the cache came in
  between.
\<close>

theorem replay_rejected:
  assumes "sorted (map fst earlier @ t # map fst between @ [t'])"
    and "fst (check_and_insert t fp nonce (run_checks earlier (nonce_cache_new n)))"
    and "t' - t \<le> seconds 60" and "length between < n"
  shows "\<not> fst (check_and_insert t' fp nonce
      (run_checks (earlier @ (t, fp, nonce) # between) (nonce_cache_new n)))"
proof -
  define t0 where "t0 = hd (map fst earlier @ [t])"
  let ?c = "run_checks earlier (nonce_cache_new n)" and ?d = "snd (check_and_insert t fp nonce (run_checks earlier (nonce_cache_new n)))"
  have "sorted (t0 # map fst earlier @ [t])"
    using assms(1) unfolding t0_def by (cases earlier) (auto simp: sorted_append)
  then have "wf_cache (last (t0 # map fst earlier)) ?c"
    by (rule run_checks_wf [OF nonce_cache_new_wf])
  moreover have "last (t0 # map fst earlier) \<le> t"
    using assms(1) unfolding t0_def by (cases earlier rule: rev_cases) (auto simp: sorted_append)
  ultimately have wf: "wf_cache t ?d" and q: "queued (fp, nonce) t 0 ?d"
    using assms(2) by (auto intro: check_and_insert_wf accepted_queued)
  have s: "sorted (t # map fst between @ [t'])" using assms(1) by (auto simp: sorted_append)
  have "queued (fp, nonce) t (0 + length between) (run_checks between ?d)"
    using assms(3,4) by (intro queued_run [OF wf q s]) (simp_all add: NONCE_CACHE_TTL_SECS_def nonce_cache_new_def)
  with run_checks_wf [OF wf s] assms(3) show ?thesis
    by (auto simp: NONCE_CACHE_TTL_SECS_def dest: queued_rejected)
qed

theorem replay_rejected_witness:
  "\<not> fst (check_and_insert (seconds 50) (Fingerprint [1]) [9]
      (run_checks [(0, Fingerprint [1], [9]), (seconds 20, Fingerprint [2], [9])] (nonce_cache_new 10000)))"
proof -
  have "fst (check_and_insert 0 (Fingerprint [1]) [9] (run_checks [] (nonce_cache_new 10000)))"
    by (simp add: check_and_insert_def nonce_cache_new_def evict_oldest_def Let_def)
  from replay_rejected [OF _ this, of "[(seconds 20, Fingerprint [2], [9])]" "seconds 50"]
  show ?thesis by (simp add: seconds_def)
qed

text \<open>
  the cache never rejects a fresh nonce and stays bounded. In any history on a new cache
  with a monotone clock, a rejected nonce was presented by the same peer within the last 60 s, and
  the cache holds at most \<open>max_entries\<close> entries, each of them once.
\<close>

theorem nonce_cache_exact_and_bounded:
  assumes "sorted (map fst calls @ [now])"
  shows "(fst (check_and_insert now fp nonce (run_checks calls (nonce_cache_new n)))
      \<or> (\<exists>t. (t, fp, nonce) \<in> set calls \<and> now - t \<le> seconds 60))
    \<and> card (nc_inner (run_checks calls (nonce_cache_new n))) \<le> max 1 n
    \<and> length (nc_order (run_checks calls (nonce_cache_new n))) = card (nc_inner (run_checks calls (nonce_cache_new n)))"
proof -
  let ?c = "run_checks calls (nonce_cache_new n)"
  define t0 where "t0 = hd (map fst calls @ [now])"
  have "sorted (t0 # map fst calls @ [now])"
    using assms unfolding t0_def by (cases calls) (auto simp: sorted_append)
  then have wf: "wf_cache (last (t0 # map fst calls)) ?c"
    by (rule run_checks_wf [OF nonce_cache_new_wf])
  then have "card (nc_inner ?c) = length (nc_order ?c)" "length (nc_order ?c) \<le> max 1 n"
    using distinct_card [of "map fst (nc_order ?c)"] by (auto simp: wf_cache_def nonce_cache_new_def)
  moreover have "\<exists>t. (t, fp, nonce) \<in> set calls \<and> now - t \<le> seconds 60"
    if "\<not> fst (check_and_insert now fp nonce ?c)"
  proof -
    have "(fp, nonce) \<in> fst ` set (filter (fresh_at now) (nc_order ?c))"
      using that unfolding check_and_insert_eq [OF wf] by (auto simp: Let_def split: if_splits)
    then obtain t where "((fp, nonce), t) \<in> set (nc_order ?c)" "now - t \<le> seconds 60"
      by (auto simp: fresh_at_def NONCE_CACHE_TTL_SECS_def)
    with order_from_history [of calls n] show ?thesis by auto
  qed
  ultimately show ?thesis by auto
qed

theorem nonce_cache_exact_and_bounded_witness:
  "fst (check_and_insert (seconds 61) (Fingerprint [1]) [9]
      (run_checks [(0, Fingerprint [1], [9])] (nonce_cache_new 10000)))"
  using nonce_cache_exact_and_bounded [of "[(0, Fingerprint [1], [9])]" "seconds 61" "Fingerprint [1]" "[9]" 10000]
  by (simp add: seconds_def)

end
