(* ===== verification/Identity.thy ===== *)
theory Identity
  imports Fingerprint
begin

text \<open>
  \<open>crates/domain/src/identity/identity.rs\<close>: the local identity, its builder and its
  updates. The clock and the fresh UUID that \<open>build\<close> and \<open>set_display_name\<close> read are
  arguments.
\<close>

definition ED25519_PUBLIC_KEY_LEN :: nat where "ED25519_PUBLIC_KEY_LEN = 32"
definition X25519_PUBLIC_KEY_LEN :: nat where "X25519_PUBLIC_KEY_LEN = 32"

record identity =
  ident_id :: uuid
  ident_display_name :: rstr
  ident_ed25519_public :: bytes
  ident_x25519_public :: bytes
  ident_fingerprint :: fingerprint
  ident_created_at :: datetime
  ident_updated_at :: datetime

record identity_builder =
  ib_display_name :: "rstr option"
  ib_ed25519_public :: "bytes option"
  ib_x25519_public :: "bytes option"
  ib_fingerprint :: "fingerprint option"

definition identity_builder_new :: identity_builder where
  "identity_builder_new = \<lparr> ib_display_name = None, ib_ed25519_public = None,
     ib_x25519_public = None, ib_fingerprint = None \<rparr>"

definition with_display_name :: "rstr \<Rightarrow> identity_builder \<Rightarrow> identity_builder" where
  "with_display_name name b = b\<lparr> ib_display_name := Some name \<rparr>"

definition with_ed25519_public :: "bytes \<Rightarrow> identity_builder \<Rightarrow> identity_builder" where
  "with_ed25519_public key b = b\<lparr> ib_ed25519_public := Some key \<rparr>"

definition with_x25519_public :: "bytes \<Rightarrow> identity_builder \<Rightarrow> identity_builder" where
  "with_x25519_public key b = b\<lparr> ib_x25519_public := Some key \<rparr>"

definition with_fingerprint :: "fingerprint \<Rightarrow> identity_builder \<Rightarrow> identity_builder" where
  "with_fingerprint fp b = b\<lparr> ib_fingerprint := Some fp \<rparr>"

definition identity_build :: "datetime \<Rightarrow> uuid \<Rightarrow> identity_builder \<Rightarrow> identity domain_result" where
  "identity_build now fresh b =
     rbind (ok_or (ib_display_name b) (Validation ''display_name'' ''required'')) (\<lambda>name.
     rbind (validate_display_name name) (\<lambda>_.
     rbind (ok_or (ib_ed25519_public b) (Validation ''ed25519_public'' ''required'')) (\<lambda>ed.
     rbind (ok_or (ib_x25519_public b) (Validation ''x25519_public'' ''required'')) (\<lambda>x.
     rbind (ok_or (ib_fingerprint b) (Validation ''fingerprint'' ''required'')) (\<lambda>fp.
     Ok \<lparr> ident_id = fresh, ident_display_name = name, ident_ed25519_public = ed,
          ident_x25519_public = x, ident_fingerprint = fp,
          ident_created_at = now, ident_updated_at = now \<rparr>)))))"

text \<open>The result with the identity after the call: an error leaves it as it was.\<close>

definition identity_set_display_name :: "datetime \<Rightarrow> rstr \<Rightarrow> (identity, unit, domain_error) action" where
  "identity_set_display_name now name i =
     (case validate_display_name name of
        Ok _ \<Rightarrow> (Ok (), i\<lparr> ident_display_name := name, ident_updated_at := now \<rparr>)
      | Err e \<Rightarrow> (Err e, i)
      | Panic \<Rightarrow> (Panic, i))"

definition verify_fingerprint ::
  "crates \<Rightarrow> (bytes \<Rightarrow> bytes \<Rightarrow> fingerprint) \<Rightarrow> identity \<Rightarrow> bool domain_result" where
  "verify_fingerprint K derive i =
     Ok (constant_time_eq K (ident_fingerprint i)
          (derive (ident_ed25519_public i) (ident_x25519_public i)))"

text \<open>The documented invariant of an identity.\<close>

definition wf_identity :: "identity \<Rightarrow> bool" where
  "wf_identity i \<longleftrightarrow> valid_display_name (ident_display_name i)
     \<and> length (ident_ed25519_public i) = 32 \<and> length (ident_x25519_public i) = 32
     \<and> wf_fingerprint (ident_fingerprint i) \<and> ident_created_at i \<le> ident_updated_at i"

definition wf_identity_builder :: "identity_builder \<Rightarrow> bool" where
  "wf_identity_builder b \<longleftrightarrow>
     pred_option (\<lambda>k. length k = 32) (ib_ed25519_public b)
     \<and> pred_option (\<lambda>k. length k = 32) (ib_x25519_public b)
     \<and> pred_option wf_fingerprint (ib_fingerprint b)"

lemmas identity_builder_defs =
  identity_builder_new_def with_display_name_def with_ed25519_public_def
  with_x25519_public_def with_fingerprint_def

lemma identity_build_Ok:
  "identity_build now fresh b = Ok i \<longleftrightarrow>
     (\<exists>name ed x fp. ib_display_name b = Some name \<and> valid_display_name name
        \<and> ib_ed25519_public b = Some ed \<and> ib_x25519_public b = Some x \<and> ib_fingerprint b = Some fp
        \<and> i = \<lparr> ident_id = fresh, ident_display_name = name, ident_ed25519_public = ed,
               ident_x25519_public = x, ident_fingerprint = fp,
               ident_created_at = now, ident_updated_at = now \<rparr>)"
  by (auto simp: identity_build_def)

lemma identity_build_not_Panic [simp]: "identity_build now fresh b \<noteq> Panic"
  by (simp add: identity_build_def rbind_Panic_conv)

lemma identity_build_wf: "wf_identity_builder b \<Longrightarrow> identity_build now fresh b = Ok i \<Longrightarrow> wf_identity i"
  by (auto simp: identity_build_Ok wf_identity_def wf_identity_builder_def)

lemma identity_set_display_name_cases:
  "identity_set_display_name now name i =
     (if valid_display_name name
      then (Ok (), i\<lparr> ident_display_name := name, ident_updated_at := now \<rparr>)
      else (validate_display_name name, i))"
  by (cases "validate_display_name name")
     (auto simp: identity_set_display_name_def valid_display_name_def validate_display_name_def
        list_ex_iff limit_defs split: if_splits)

text \<open>
  an identity built from complete, well-sized parts satisfies the documented
  invariant; a display-name update keeps it and every other field, and a rejected update
  leaves the identity unchanged.
\<close>

theorem identity_update_keeps_invariant:
  assumes "wf_identity i" and "ident_updated_at i \<le> now"
    and "identity_set_display_name now name i = (r, i')"
  shows "wf_identity i' \<and> ident_id i' = ident_id i \<and> ident_fingerprint i' = ident_fingerprint i
    \<and> ident_ed25519_public i' = ident_ed25519_public i \<and> ident_x25519_public i' = ident_x25519_public i
    \<and> (if valid_display_name name then r = Ok () \<and> ident_display_name i' = name
       else is_err r \<and> i' = i)"
proof (cases "valid_display_name name")
  case True
  with assms show ?thesis
    by (auto simp: identity_set_display_name_cases wf_identity_def)
next
  case False
  with validate_display_name_invalid have "is_err (validate_display_name name)" .
  with False assms show ?thesis by (auto simp: identity_set_display_name_cases)
qed

theorem identity_update_keeps_invariant_witness:
  "\<exists>i i'. wf_identity i \<and> identity_set_display_name 5 (lit ''Bob'') i = (Ok (), i')
     \<and> wf_identity i' \<and> ident_display_name i' = lit ''Bob''"
proof -
  define i where "i = \<lparr> ident_id = 7, ident_display_name = lit ''Alice'',
    ident_ed25519_public = replicate 32 1, ident_x25519_public = replicate 32 2,
    ident_fingerprint = Fingerprint (replicate 20 3), ident_created_at = 0, ident_updated_at = 0 \<rparr>"
  have wf: "wf_identity i"
    by (simp add: i_def wf_identity_def wf_fingerprint_def valid_display_name_def lit_def
        str_len_def len_utf8_def is_control_def)
  have v: "valid_display_name (lit ''Bob'')"
    by (simp add: valid_display_name_def lit_def str_len_def len_utf8_def is_control_def)
  obtain r i' where s: "identity_set_display_name 5 (lit ''Bob'') i = (r, i')" by fastforce
  have "ident_updated_at i \<le> 5" by (simp add: i_def)
  from identity_update_keeps_invariant [OF wf this s] v s wf show ?thesis by auto
qed

end
