(* ===== verification/Security_Keys.thy ===== *)
theory Security_Keys
  imports Identity
begin

text \<open>
  \<open>crates/security/src/error.rs\<close>, \<open>keys/ed25519.rs\<close>, \<open>keys/x25519.rs\<close>,
  \<open>keys/identity_keys.rs\<close> and \<open>fingerprint/derive.rs\<close>: the security errors and how they
  surface as domain errors, the key pairs with their consistency checks, and the
  fingerprint derived from the public keys. Random bytes are arguments.
\<close>

section \<open>Errors\<close>

datatype security_error =
    KeyGeneration | InvalidPublicKey string | InvalidSignature | FingerprintMismatch
  | HandshakeFailed string | HandshakeTimeout nat | HandshakeCancelled
  | IdentityBindingFailed string | ReplayDetected string | DecryptionFailed | EncryptionFailed
  | Storage string | InvalidPassphrase | Serialization string | RandomnessFailed
  | MessageTooLarge nat nat | TransportClosed | Sec_Internal string

type_synonym 'a security_result = "('a, security_error) result"

fun display_security_error :: "security_error \<Rightarrow> string" where
  "display_security_error KeyGeneration = ''key generation failed''"
| "display_security_error (InvalidPublicKey e) = ''invalid public key: '' @ e"
| "display_security_error InvalidSignature = ''invalid signature''"
| "display_security_error FingerprintMismatch = ''fingerprint mismatch''"
| "display_security_error (HandshakeFailed e) = ''handshake failed: '' @ e"
| "display_security_error (HandshakeTimeout n) = ''handshake timed out after '' @ nat_str n @ ''s''"
| "display_security_error HandshakeCancelled = ''handshake cancelled''"
| "display_security_error (IdentityBindingFailed e) = ''identity binding failed: '' @ e"
| "display_security_error (ReplayDetected e) = ''replay detected: '' @ e"
| "display_security_error DecryptionFailed = ''decryption failed''"
| "display_security_error EncryptionFailed = ''encryption failed''"
| "display_security_error (Storage e) = ''storage error: '' @ e"
| "display_security_error InvalidPassphrase = ''invalid passphrase''"
| "display_security_error (Serialization e) = ''serialization error: '' @ e"
| "display_security_error RandomnessFailed = ''randomness generation failed''"
| "display_security_error (MessageTooLarge n limit) =
     ''message too large: '' @ nat_str n @ '' bytes, max '' @ nat_str limit"
| "display_security_error TransportClosed = ''transport closed''"
| "display_security_error (Sec_Internal e) = ''internal invariant violated: '' @ e"

text \<open>\<open>From<SecurityError> for DomainError\<close>.\<close>

fun domain_of_security :: "security_error \<Rightarrow> domain_error" where
  "domain_of_security FingerprintMismatch = Identity Id_InvalidKeyMaterial"
| "domain_of_security (HandshakeFailed _) = Peer Peer_HandshakeFailed"
| "domain_of_security (HandshakeTimeout _) = Peer Peer_HandshakeFailed"
| "domain_of_security HandshakeCancelled = Cancelled"
| "domain_of_security InvalidPassphrase = Identity Id_Locked"
| "domain_of_security (MessageTooLarge _ _) = Message Msg_TooLarge"
| "domain_of_security TransportClosed = Peer Peer_Unreachable"
| "domain_of_security _ = Cryptographic"

section \<open>Ed25519\<close>

definition ed25519_public_from_bytes :: "bytes \<Rightarrow> bytes security_result" where
  "ed25519_public_from_bytes bs =
     (if length bs \<noteq> 32 then Err (InvalidPublicKey ''Ed25519 public key must be 32 bytes'') else Ok bs)"

definition ed25519_verify :: "crates \<Rightarrow> bytes \<Rightarrow> bytes \<Rightarrow> bytes \<Rightarrow> unit security_result" where
  "ed25519_verify K public message signature =
     (if \<not> ed_key_ok K public then Err (InvalidPublicKey ''invalid Ed25519 key'')
      else if \<not> ed_verify K public message signature then Err InvalidSignature
      else Ok ())"

record ed25519_keypair =
  ed_pub :: bytes
  ed_secret :: bytes

definition ed25519_generate :: "crates \<Rightarrow> bytes \<Rightarrow> ed25519_keypair security_result" where
  "ed25519_generate K seed = Ok \<lparr> ed_pub = ed_public K seed, ed_secret = seed \<rparr>"

definition ed25519_from_parts :: "crates \<Rightarrow> bytes \<Rightarrow> bytes \<Rightarrow> ed25519_keypair security_result" where
  "ed25519_from_parts K secret public =
     (if ed_public K secret \<noteq> public then Err (InvalidPublicKey ''public key mismatch'')
      else Ok \<lparr> ed_pub = public, ed_secret = secret \<rparr>)"

definition ed25519_sign :: "crates \<Rightarrow> ed25519_keypair \<Rightarrow> bytes \<Rightarrow> bytes" where
  "ed25519_sign K kp message = ed_sign K (ed_secret kp) message"

section \<open>X25519\<close>

definition x25519_public_from_bytes :: "bytes \<Rightarrow> bytes security_result" where
  "x25519_public_from_bytes bs =
     (if length bs \<noteq> 32 then Err (InvalidPublicKey ''X25519 public key must be 32 bytes'') else Ok bs)"

record x25519_keypair =
  x_pub :: bytes
  x_secret :: bytes

definition x25519_generate :: "crates \<Rightarrow> bytes \<Rightarrow> x25519_keypair security_result" where
  "x25519_generate K seed = Ok \<lparr> x_pub = x_public K seed, x_secret = seed \<rparr>"

definition x25519_from_parts :: "crates \<Rightarrow> bytes \<Rightarrow> bytes \<Rightarrow> x25519_keypair security_result" where
  "x25519_from_parts K secret public =
     (if x_public K secret \<noteq> public then Err (InvalidPublicKey ''public key mismatch'')
      else Ok \<lparr> x_pub = public, x_secret = secret \<rparr>)"

definition diffie_hellman :: "crates \<Rightarrow> x25519_keypair \<Rightarrow> bytes \<Rightarrow> bytes security_result" where
  "diffie_hellman K kp remote =
     (let shared = x_dh K (x_secret kp) remote in
      if ct_eq K shared (replicate 32 0) then Err (InvalidPublicKey ''low-order point'')
      else Ok shared)"

section \<open>Identity keys and the fingerprint\<close>

definition derive_fingerprint :: "crates \<Rightarrow> bytes \<Rightarrow> bytes \<Rightarrow> fingerprint security_result" where
  "derive_fingerprint K ed x =
     (let hash = blake3 K (ed @ x) in
      map_err (\<lambda>e. Sec_Internal (''fingerprint construction failed: '' @ display_domain_error e))
        (fp_from_bytes (take 20 hash)))"

record identity_keys =
  ik_ed25519 :: ed25519_keypair
  ik_x25519 :: x25519_keypair

definition identity_keys_generate :: "crates \<Rightarrow> bytes \<Rightarrow> bytes \<Rightarrow> identity_keys security_result" where
  "identity_keys_generate K ed_seed x_seed =
     rbind (ed25519_generate K ed_seed) (\<lambda>ed.
     rbind (x25519_generate K x_seed) (\<lambda>x.
     Ok \<lparr> ik_ed25519 = ed, ik_x25519 = x \<rparr>))"

definition identity_keys_from_parts ::
  "crates \<Rightarrow> ed25519_keypair \<Rightarrow> x25519_keypair \<Rightarrow> identity_keys security_result" where
  "identity_keys_from_parts K ed x =
     rbind (map_err (\<lambda>e. Sec_Internal (''fingerprint derivation failed: '' @ display_security_error e))
              (derive_fingerprint K (ed_pub ed) (x_pub x))) (\<lambda>_.
     Ok \<lparr> ik_ed25519 = ed, ik_x25519 = x \<rparr>)"

definition keys_fingerprint :: "crates \<Rightarrow> identity_keys \<Rightarrow> fingerprint security_result" where
  "keys_fingerprint K ik = derive_fingerprint K (ed_pub (ik_ed25519 ik)) (x_pub (ik_x25519 ik))"

definition to_domain_identity ::
  "crates \<Rightarrow> datetime \<Rightarrow> uuid \<Rightarrow> identity_keys \<Rightarrow> rstr \<Rightarrow> identity security_result" where
  "to_domain_identity K now fresh ik name =
     rbind (keys_fingerprint K ik) (\<lambda>fp.
     map_err (\<lambda>e. Sec_Internal (''domain identity build failed: '' @ display_domain_error e))
       (identity_build now fresh
         (with_fingerprint fp
         (with_x25519_public (x_pub (ik_x25519 ik))
         (with_ed25519_public (ed_pub (ik_ed25519 ik))
         (with_display_name name identity_builder_new))))))"

definition public_eq :: "identity_keys \<Rightarrow> identity_keys \<Rightarrow> bool" where
  "public_eq a b \<longleftrightarrow> ed_pub (ik_ed25519 a) = ed_pub (ik_ed25519 b) \<and> x_pub (ik_x25519 a) = x_pub (ik_x25519 b)"

text \<open>Keys whose public halves belong to the secret halves, and have their array sizes.\<close>

definition wf_keys :: "crates \<Rightarrow> identity_keys \<Rightarrow> bool" where
  "wf_keys K ik \<longleftrightarrow>
     ed_pub (ik_ed25519 ik) = ed_public K (ed_secret (ik_ed25519 ik))
     \<and> x_pub (ik_x25519 ik) = x_public K (x_secret (ik_x25519 ik))
     \<and> length (ed_secret (ik_ed25519 ik)) = 32 \<and> length (x_secret (ik_x25519 ik)) = 32"

section \<open>Lemmas\<close>

lemma derive_fingerprint_Ok:
  assumes "blake3_ok K"
  shows "derive_fingerprint K ed x = Ok (Fingerprint (take 20 (blake3 K (ed @ x))))"
  using assms by (simp add: derive_fingerprint_def fp_from_bytes_def blake3_ok_def FINGERPRINT_BYTES_def)

lemma derived_wf: "blake3_ok K \<Longrightarrow> wf_fingerprint (Fingerprint (take 20 (blake3 K m)))"
  by (simp add: wf_fingerprint_def blake3_ok_def)

text \<open>Comparing a derived fingerprint with a parsed one is equality.\<close>

lemma derived_eq:
  assumes "ct_eq_ok K" and "blake3_ok K" and "derive_fingerprint K ed x = Ok c" and "from_hex s = Ok f"
  shows "constant_time_eq K c f \<longleftrightarrow> c = f"
proof -
  have "wf_fingerprint c" using assms(3) derived_wf [OF assms(2)] derive_fingerprint_Ok [OF assms(2)] by auto
  then show ?thesis using assms(4) from_hex_wf constant_time_eq_iff [OF assms(1)] by blast
qed

lemma wf_keys_lengths:
  assumes "wf_keys K ik" and "ed25519_ok K" and "x25519_ok K"
  shows "length (ed_pub (ik_ed25519 ik)) = 32" "length (x_pub (ik_x25519 ik)) = 32"
  using assms by (simp_all add: wf_keys_def ed25519_ok_def x25519_ok_def)

lemma generated_wf_keys:
  "length ed_seed = 32 \<Longrightarrow> length x_seed = 32 \<Longrightarrow>
     identity_keys_generate K ed_seed x_seed = Ok ik \<Longrightarrow> wf_keys K ik"
  by (auto simp: identity_keys_generate_def ed25519_generate_def x25519_generate_def wf_keys_def)

lemma own_signature_verifies:
  assumes "ed25519_ok K" and "ed_pub kp = ed_public K (ed_secret kp)"
  shows "ed25519_verify K (ed_pub kp) m (ed25519_sign K kp m) = Ok ()"
  using assms by (simp add: ed25519_verify_def ed25519_sign_def ed25519_ok_def)

lemma keys_fingerprint_Ok:
  "blake3_ok K \<Longrightarrow> keys_fingerprint K ik =
     Ok (Fingerprint (take 20 (blake3 K (ed_pub (ik_ed25519 ik) @ x_pub (ik_x25519 ik)))))"
  by (simp add: keys_fingerprint_def derive_fingerprint_Ok)

section \<open>Properties\<close>

text \<open>
  generated identity keys are usable: their signatures verify under their own public key,
  splitting them into parts and reassembling gives the same keys, and the domain identity
  made from them with a valid name is well formed and carries the fingerprint derived from
  its own two public keys.
\<close>

theorem generated_keys_correct:
  assumes "ed25519_ok K" and "x25519_ok K" and "blake3_ok K"
    and "length ed_seed = 32" and "length x_seed = 32" and "valid_display_name name"
  shows "\<exists>ik i fp. identity_keys_generate K ed_seed x_seed = Ok ik
    \<and> ed25519_verify K (ed_pub (ik_ed25519 ik)) m (ed25519_sign K (ik_ed25519 ik) m) = Ok ()
    \<and> rbind (ed25519_from_parts K ed_seed (ed_pub (ik_ed25519 ik))) (\<lambda>ed.
        rbind (x25519_from_parts K x_seed (x_pub (ik_x25519 ik))) (identity_keys_from_parts K ed)) = Ok ik
    \<and> keys_fingerprint K ik = Ok fp
    \<and> to_domain_identity K now fresh ik name = Ok i \<and> wf_identity i \<and> ident_fingerprint i = fp"
proof -
  obtain ik where ik: "identity_keys_generate K ed_seed x_seed = Ok ik"
    and ik_def: "ik = \<lparr> ik_ed25519 = \<lparr> ed_pub = ed_public K ed_seed, ed_secret = ed_seed \<rparr>,
             ik_x25519 = \<lparr> x_pub = x_public K x_seed, x_secret = x_seed \<rparr> \<rparr>"
    by (simp add: identity_keys_generate_def ed25519_generate_def x25519_generate_def)
  have wf: "wf_keys K ik" using assms(4,5) ik by (rule generated_wf_keys)
  define fp where "fp = Fingerprint (take 20 (blake3 K (ed_pub (ik_ed25519 ik) @ x_pub (ik_x25519 ik))))"
  have fp: "keys_fingerprint K ik = Ok fp" "wf_fingerprint fp"
    unfolding fp_def using assms(3) by (simp_all add: keys_fingerprint_Ok derived_wf)
  have parts: "rbind (ed25519_from_parts K ed_seed (ed_pub (ik_ed25519 ik))) (\<lambda>ed.
        rbind (x25519_from_parts K x_seed (x_pub (ik_x25519 ik))) (identity_keys_from_parts K ed)) = Ok ik"
    using assms(3)
    by (simp add: ed25519_from_parts_def x25519_from_parts_def identity_keys_from_parts_def
        derive_fingerprint_Ok ik_def)
  obtain i where "to_domain_identity K now fresh ik name = Ok i" "wf_identity i" "ident_fingerprint i = fp"
    using fp assms(6) wf_keys_lengths [OF wf assms(1,2)]
    by (simp add: to_domain_identity_def identity_build_def with_fingerprint_def with_x25519_public_def
        with_ed25519_public_def with_display_name_def identity_builder_new_def wf_identity_def)
  moreover have "ed25519_verify K (ed_pub (ik_ed25519 ik)) m (ed25519_sign K (ik_ed25519 ik) m) = Ok ()"
    using assms(1) wf by (intro own_signature_verifies) (simp_all add: wf_keys_def)
  ultimately show ?thesis using ik parts fp(1) by blast
qed

theorem generated_keys_correct_witness:
  "\<exists>ik i fp. identity_keys_generate ref_crates (replicate 32 3) (replicate 32 4) = Ok ik
    \<and> to_domain_identity ref_crates 7 1 ik [65] = Ok i \<and> ident_fingerprint i = fp
    \<and> keys_fingerprint ref_crates ik = Ok fp"
proof -
  have "valid_display_name [65]"
    by (simp add: valid_display_name_def str_len_def len_utf8_def is_control_def)
  from generated_keys_correct [OF ref_ed25519_ok ref_x25519_ok ref_blake3_ok,
      of "replicate 32 3" "replicate 32 4" "[65]" "[]" 7 1] this
  show ?thesis by auto
qed

text \<open>
  key agreement. Two key pairs that passed generation or \<open>from_parts\<close> compute the same
  shared secret from each other's public key, or both reject it as a low-order point; an
  accepted secret is never all zeros.
\<close>

theorem diffie_hellman_agrees:
  assumes "x25519_ok K" and "ct_eq_ok K"
    and "x25519_from_parts K a pa = Ok alice" and "x25519_from_parts K b pb = Ok bob"
  shows "diffie_hellman K alice (x_pub bob) = diffie_hellman K bob (x_pub alice)
    \<and> diffie_hellman K alice (x_pub bob) \<noteq> Ok (replicate 32 0)"
proof -
  have "x_dh K (x_secret alice) (x_pub bob) = x_dh K (x_secret bob) (x_pub alice)"
    using assms by (auto simp: x25519_ok_def x25519_from_parts_def split: if_splits)
  moreover have "ct_eq K (replicate 32 0) (replicate 32 0)"
    using assms(2) by (simp add: ct_eq_ok_def)
  ultimately show ?thesis by (auto simp: diffie_hellman_def Let_def split: if_splits)
qed

theorem diffie_hellman_agrees_witness:
  "diffie_hellman ref_crates \<lparr> x_pub = replicate 32 1, x_secret = replicate 32 1 \<rparr> (replicate 32 2)
     = diffie_hellman ref_crates \<lparr> x_pub = replicate 32 2, x_secret = replicate 32 2 \<rparr> (replicate 32 1)"
proof -
  have "x25519_from_parts ref_crates (replicate 32 v) (replicate 32 v)
      = Ok \<lparr> x_pub = replicate 32 v, x_secret = replicate 32 v \<rparr>" for v
    by (simp add: x25519_from_parts_def ref_crates_def)
  from diffie_hellman_agrees [OF ref_x25519_ok ref_ct_eq_ok this this]
  show ?thesis by simp
qed

end
