(* ===== verification/Identity_Bind.thy ===== *)
theory Identity_Bind
  imports Security_Keys
begin

text \<open>
  \<open>crates/security/src/noise/identity_bind.rs\<close>: the signed payload that binds an identity to
  a Noise handshake, its 149-byte encoding, and its verification. Clock and random nonce
  are arguments; an \<open>i64\<close> time stamp is a 64-bit word read as signed.
\<close>

section \<open>Data\<close>

record bind_payload =
  bp_version :: byte
  bp_ed25519_public :: bytes
  bp_x25519_public :: bytes
  bp_timestamp :: "64 word"
  bp_nonce :: bytes
  bp_signature :: bytes

record verified_identity =
  vi_ed25519_public :: bytes
  vi_x25519_public :: bytes
  vi_fingerprint :: fingerprint
  vi_timestamp :: "64 word"
  vi_nonce :: bytes

text \<open>The array sizes of the struct.\<close>

definition wf_payload :: "bind_payload \<Rightarrow> bool" where
  "wf_payload p \<longleftrightarrow> length (bp_ed25519_public p) = 32 \<and> length (bp_x25519_public p) = 32
     \<and> length (bp_nonce p) = 12 \<and> length (bp_signature p) = 64"

definition TIMESTAMP_SKEW_SECS :: int where "TIMESTAMP_SKEW_SECS = 30"
definition DOMAIN_SEPARATOR :: bytes where "DOMAIN_SEPARATOR = str_bytes (lit ''rubix-identity-bind-v1'')"

section \<open>Operations\<close>

definition signature_payload :: "bind_payload \<Rightarrow> bytes" where
  "signature_payload p =
     DOMAIN_SEPARATOR @ [bp_version p] @ bp_ed25519_public p @ bp_x25519_public p
       @ u64_to_le (bp_timestamp p) @ bp_nonce p"

definition bind_create :: "crates \<Rightarrow> datetime \<Rightarrow> bytes \<Rightarrow> ed25519_keypair \<Rightarrow> bytes \<Rightarrow> bind_payload security_result" where
  "bind_create K now nonce ed x =
     (let payload = \<lparr> bp_version = 1, bp_ed25519_public = ed_pub ed, bp_x25519_public = x,
            bp_timestamp = word_of_int (timestamp now), bp_nonce = nonce, bp_signature = replicate 64 0 \<rparr>;
          sig = ed25519_sign K ed (signature_payload payload) in
      Ok (payload\<lparr> bp_signature := sig \<rparr>))"

definition bind_to_bytes :: "bind_payload \<Rightarrow> bytes" where
  "bind_to_bytes p =
     [bp_version p] @ bp_ed25519_public p @ bp_x25519_public p @ u64_to_le (bp_timestamp p)
       @ bp_nonce p @ bp_signature p"

definition bind_from_bytes :: "bytes \<Rightarrow> bind_payload security_result" where
  "bind_from_bytes bs =
     (if length bs \<noteq> 149 then
        Err (IdentityBindingFailed (''invalid payload size: expected 149, got '' @ nat_str (length bs)))
      else Ok \<lparr> bp_version = bs ! 0, bp_ed25519_public = subslice 1 33 bs, bp_x25519_public = subslice 33 65 bs,
          bp_timestamp = u64_from_le (subslice 65 73 bs), bp_nonce = subslice 73 85 bs,
          bp_signature = subslice 85 149 bs \<rparr>)"

text \<open>\<open>i64::checked_add\<close> and \<open>checked_sub\<close>, on the mathematical result.\<close>

definition checked_i64 :: "int \<Rightarrow> int option" where
  "checked_i64 x = (if - (2 ^ 63) \<le> x \<and> x < 2 ^ 63 then Some x else None)"

definition verify_signature_and_freshness ::
  "crates \<Rightarrow> datetime \<Rightarrow> bind_payload \<Rightarrow> (bytes \<times> bytes) security_result" where
  "verify_signature_and_freshness K clock p =
     (if bp_version p \<noteq> 1 then
        Err (IdentityBindingFailed (''unsupported version '' @ nat_str (unat (bp_version p))))
      else
        let now = timestamp clock in
        rbind (ok_or (checked_i64 (now + TIMESTAMP_SKEW_SECS)) (Sec_Internal ''timestamp overflow'')) (\<lambda>max_future.
        rbind (ok_or (checked_i64 (now - TIMESTAMP_SKEW_SECS)) (Sec_Internal ''timestamp underflow'')) (\<lambda>min_past.
        if sint (bp_timestamp p) > max_future then Err (ReplayDetected ''timestamp in future'')
        else if sint (bp_timestamp p) < min_past then Err (ReplayDetected ''timestamp too old'')
        else
          rbind (map_err (\<lambda>_. IdentityBindingFailed ''invalid ed25519 key'')
                   (ed25519_public_from_bytes (bp_ed25519_public p))) (\<lambda>ed_pub.
          rbind (map_err (\<lambda>_. IdentityBindingFailed ''invalid x25519 key'')
                   (x25519_public_from_bytes (bp_x25519_public p))) (\<lambda>x_pub.
          rbind (map_err (\<lambda>_. IdentityBindingFailed ''signature verification failed'')
                   (ed25519_verify K ed_pub (signature_payload p) (bp_signature p))) (\<lambda>_.
          Ok (ed_pub, x_pub)))))))"

definition bind_verify_unbound :: "crates \<Rightarrow> datetime \<Rightarrow> bind_payload \<Rightarrow> verified_identity security_result" where
  "bind_verify_unbound K clock p =
     rbind (verify_signature_and_freshness K clock p) (\<lambda>(ed_pub, x_pub).
     rbind (map_err (\<lambda>e. IdentityBindingFailed (''fingerprint derive: '' @ display_security_error e))
              (derive_fingerprint K ed_pub x_pub)) (\<lambda>fp.
     Ok \<lparr> vi_ed25519_public = ed_pub, vi_x25519_public = x_pub, vi_fingerprint = fp,
          vi_timestamp = bp_timestamp p, vi_nonce = bp_nonce p \<rparr>))"

definition bind_verify :: "crates \<Rightarrow> datetime \<Rightarrow> fingerprint \<Rightarrow> bind_payload \<Rightarrow> verified_identity security_result" where
  "bind_verify K clock expected_fp p =
     rbind (verify_signature_and_freshness K clock p) (\<lambda>(ed_pub, x_pub).
     rbind (map_err (\<lambda>e. IdentityBindingFailed (''fingerprint derive: '' @ display_security_error e))
              (derive_fingerprint K ed_pub x_pub)) (\<lambda>fp.
     if \<not> ct_eq K (as_bytes fp) (as_bytes expected_fp) then Err FingerprintMismatch
     else Ok \<lparr> vi_ed25519_public = ed_pub, vi_x25519_public = x_pub, vi_fingerprint = fp,
          vi_timestamp = bp_timestamp p, vi_nonce = bp_nonce p \<rparr>))"

section \<open>Encoding\<close>

lemma length_bind_to_bytes: "wf_payload p \<Longrightarrow> length (bind_to_bytes p) = 149"
  by (simp add: wf_payload_def bind_to_bytes_def)

lemma bind_from_to_bytes:
  assumes "wf_payload p"
  shows "bind_from_bytes (bind_to_bytes p) = Ok p"
proof -
  obtain v ed x ts n sg where p: "p = \<lparr> bp_version = v, bp_ed25519_public = ed, bp_x25519_public = x,
      bp_timestamp = ts, bp_nonce = n, bp_signature = sg \<rparr>" by (cases p)
  have len: "length ed = 32" "length x = 32" "length n = 12" "length sg = 64"
    using assms by (simp_all add: p wf_payload_def)
  let ?bs = "v # ed @ x @ u64_to_le ts @ n @ sg"
  have "subslice 1 33 ?bs = ed" "subslice 33 65 ?bs = x" "subslice 65 73 ?bs = u64_to_le ts"
    "subslice 73 85 ?bs = n" "subslice 85 149 ?bs = sg"
    using len by (simp_all add: subslice_def)
  then show ?thesis using length_bind_to_bytes [OF assms]
    by (simp add: bind_from_bytes_def bind_to_bytes_def p)
qed

lemma bind_from_bytes_wf: "bind_from_bytes bs = Ok p \<Longrightarrow> wf_payload p"
  by (auto simp: bind_from_bytes_def wf_payload_def split: if_splits)

lemma bind_to_from_bytes:
  assumes "bind_from_bytes bs = Ok p"
  shows "bind_to_bytes p = bs"
proof -
  have len: "length bs = 149" using assms by (auto simp: bind_from_bytes_def split: if_splits)
  then obtain b rest where bs: "bs = b # rest" by (cases bs) auto
  then have h: "[bs ! 0] = subslice 0 (Suc 0) bs" by (simp add: subslice_def)
  have "u64_to_le (u64_from_le (subslice 65 73 bs)) = subslice 65 73 bs"
    using len by (intro u64_roundtrip_bytes) simp
  then have "bind_to_bytes p = subslice 0 1 bs @ subslice 1 33 bs @ subslice 33 65 bs @ subslice 65 73 bs
      @ subslice 73 85 bs @ subslice 85 149 bs"
    using assms len h by (auto simp: bind_from_bytes_def bind_to_bytes_def)
  also have "\<dots> = subslice 0 149 bs" by (simp add: subslice_append)
  finally show ?thesis using len by simp
qed

lemma signature_payload_inject:
  assumes "wf_payload p" and "wf_payload q" and "signature_payload p = signature_payload q"
  shows "p\<lparr> bp_signature := s \<rparr> = q\<lparr> bp_signature := s \<rparr>"
  using assms by (cases p; cases q) (simp add: wf_payload_def signature_payload_def u64_to_le_inject)

section \<open>Verification\<close>

lemma checked_i64_Some: "checked_i64 y = Some z \<longleftrightarrow> - (2 ^ 63) \<le> y \<and> y < 2 ^ 63 \<and> z = y"
  by (auto simp: checked_i64_def)

lemma verify_freshness_Ok:
  "verify_signature_and_freshness K clock p = Ok (ed, x) \<longleftrightarrow>
     bp_version p = 1 \<and> - (2 ^ 63) \<le> timestamp clock - 30 \<and> timestamp clock + 30 < 2 ^ 63
     \<and> \<bar>sint (bp_timestamp p) - timestamp clock\<bar> \<le> 30
     \<and> length (bp_ed25519_public p) = 32 \<and> length (bp_x25519_public p) = 32
     \<and> ed25519_verify K (bp_ed25519_public p) (signature_payload p) (bp_signature p) = Ok ()
     \<and> ed = bp_ed25519_public p \<and> x = bp_x25519_public p"
  by (auto simp: verify_signature_and_freshness_def Let_def TIMESTAMP_SKEW_SECS_def checked_i64_Some
      ed25519_public_from_bytes_def x25519_public_from_bytes_def)

lemma bind_verify_Ok:
  assumes "ct_eq_ok K" and "blake3_ok K" and "wf_fingerprint fp"
  shows "bind_verify K clock fp p = Ok v \<longleftrightarrow>
    verify_signature_and_freshness K clock p = Ok (bp_ed25519_public p, bp_x25519_public p)
    \<and> derive_fingerprint K (bp_ed25519_public p) (bp_x25519_public p) = Ok fp
    \<and> v = \<lparr> vi_ed25519_public = bp_ed25519_public p, vi_x25519_public = bp_x25519_public p,
           vi_fingerprint = fp, vi_timestamp = bp_timestamp p, vi_nonce = bp_nonce p \<rparr>"
proof -
  have "ct_eq K (take 20 (blake3 K m)) (as_bytes fp) \<longleftrightarrow> Fingerprint (take 20 (blake3 K m)) = fp" for m
    using assms by (cases fp) (simp add: ct_eq_okD blake3_ok_def wf_fingerprint_def)
  then show ?thesis
    by (auto simp: bind_verify_def derive_fingerprint_Ok [OF assms(2)] verify_freshness_Ok)
qed

lemma bind_created_verifies:
  assumes "ct_eq_ok K" and "blake3_ok K" and "ed25519_ok K" and "x25519_ok K" and "wf_keys K ik"
    and "length nonce = 12" and "keys_fingerprint K ik = Ok fp" and "\<bar>timestamp created\<bar> < 2 ^ 62"
    and p: "bind_create K created nonce (ik_ed25519 ik) (x_pub (ik_x25519 ik)) = Ok p"
    and "\<bar>timestamp created - timestamp clock\<bar> \<le> 30"
  shows "wf_payload p \<and> bind_verify K clock fp p =
    Ok \<lparr> vi_ed25519_public = ed_pub (ik_ed25519 ik), vi_x25519_public = x_pub (ik_x25519 ik),
         vi_fingerprint = fp, vi_timestamp = bp_timestamp p, vi_nonce = nonce \<rparr>"
proof -
  have fields: "bp_version p = 1" "bp_ed25519_public p = ed_pub (ik_ed25519 ik)"
    "bp_x25519_public p = x_pub (ik_x25519 ik)" "bp_timestamp p = word_of_int (timestamp created)"
    "bp_nonce p = nonce" "bp_signature p = ed25519_sign K (ik_ed25519 ik) (signature_payload p)"
    using p by (auto simp: bind_create_def Let_def signature_payload_def)
  have "length (bp_signature p) = 64"
    using assms(3) fields(6) by (simp add: ed25519_sign_def ed25519_ok_def)
  then have wf: "wf_payload p"
    using fields assms(6) wf_keys_lengths [OF assms(5,3,4)] by (simp add: wf_payload_def)
  have ts: "sint (bp_timestamp p) = timestamp created"
    using assms(8) unfolding fields(4) sint_sbintrunc' by (intro signed_take_bit_int_eq_self) auto
  have fp: "fp = Fingerprint (take 20 (blake3 K (ed_pub (ik_ed25519 ik) @ x_pub (ik_x25519 ik))))"
    using assms(7) keys_fingerprint_Ok [OF assms(2), of ik] by simp
  then have wf_fp: "wf_fingerprint fp" using derived_wf [OF assms(2)] by simp
  have "ed25519_verify K (bp_ed25519_public p) (signature_payload p) (bp_signature p) = Ok ()"
    unfolding fields(2,6) using assms(3,5) by (intro own_signature_verifies) (simp_all add: wf_keys_def)
  then have "bind_verify K clock fp p = Ok \<lparr> vi_ed25519_public = bp_ed25519_public p,
      vi_x25519_public = bp_x25519_public p, vi_fingerprint = fp, vi_timestamp = bp_timestamp p, vi_nonce = bp_nonce p \<rparr>"
    unfolding bind_verify_Ok [OF assms(1,2) wf_fp] verify_freshness_Ok derive_fingerprint_Ok [OF assms(2)]
      fields(2,3) fp [symmetric]
    using assms(8,10) ts wf_keys_lengths [OF assms(5,3,4)] fields(1) by auto
  then show ?thesis using wf fields by simp
qed

section \<open>Properties\<close>

text \<open>
  the 149-byte encoding is exact in both directions: every well-formed payload is read back
  unchanged, a byte string is accepted if and only if it has 149 bytes, and an accepted
  one is the encoding of what was read.
\<close>

theorem bind_bytes_roundtrip:
  "(wf_payload p \<longrightarrow> bind_from_bytes (bind_to_bytes p) = Ok p)
   \<and> (case bind_from_bytes bs of
        Ok q \<Rightarrow> length bs = 149 \<and> wf_payload q \<and> bind_to_bytes q = bs
      | Err e \<Rightarrow> length bs \<noteq> 149
      | Panic \<Rightarrow> False)"
proof (intro conjI impI)
  show "wf_payload p \<Longrightarrow> bind_from_bytes (bind_to_bytes p) = Ok p" by (rule bind_from_to_bytes)
  show "case bind_from_bytes bs of Ok q \<Rightarrow> length bs = 149 \<and> wf_payload q \<and> bind_to_bytes q = bs
      | Err e \<Rightarrow> length bs \<noteq> 149 | Panic \<Rightarrow> False"
  proof (cases "bind_from_bytes bs")
    case (Ok q)
    have "length bs = 149" using Ok by (simp add: bind_from_bytes_def split: if_splits)
    with Ok bind_from_bytes_wf [OF Ok] bind_to_from_bytes [OF Ok] show ?thesis by simp
  qed (simp_all add: bind_from_bytes_def split: if_splits)
qed

theorem bind_bytes_roundtrip_witness:
  "bind_from_bytes (bind_to_bytes \<lparr> bp_version = 1, bp_ed25519_public = replicate 32 2,
      bp_x25519_public = replicate 32 3, bp_timestamp = -5, bp_nonce = replicate 12 4,
      bp_signature = replicate 64 5 \<rparr>)
   = Ok \<lparr> bp_version = 1, bp_ed25519_public = replicate 32 2,
      bp_x25519_public = replicate 32 3, bp_timestamp = -5, bp_nonce = replicate 12 4,
      bp_signature = replicate 64 5 \<rparr>"
  using bind_bytes_roundtrip [of "\<lparr> bp_version = 1, bp_ed25519_public = replicate 32 2,
      bp_x25519_public = replicate 32 3, bp_timestamp = -5, bp_nonce = replicate 12 4,
      bp_signature = replicate 64 5 \<rparr>" "[]"]
  by (simp add: wf_payload_def)

text \<open>
  C6: what a successful verification means. \<open>verify\<close> returns an identity exactly if the
  payload has version 1, its time stamp is within 30 s of the local clock (whose window
  does not overflow), the signature over the canonical bytes is valid for the embedded
  Ed25519 key, and the fingerprint derived from the embedded keys is the expected one; the
  identity returned consists of those keys, that fingerprint, and the signed time stamp and
  nonce.
\<close>

theorem bind_verify_sound_complete:
  assumes "ct_eq_ok K" and "blake3_ok K" and "wf_fingerprint fp" and "wf_payload p"
  shows "bind_verify K clock fp p = Ok v \<longleftrightarrow>
    bp_version p = 1 \<and> \<bar>sint (bp_timestamp p) - timestamp clock\<bar> \<le> 30
    \<and> - (2 ^ 63) \<le> timestamp clock - 30 \<and> timestamp clock + 30 < 2 ^ 63
    \<and> ed_key_ok K (bp_ed25519_public p)
    \<and> ed_verify K (bp_ed25519_public p) (signature_payload p) (bp_signature p)
    \<and> fp = Fingerprint (take 20 (blake3 K (bp_ed25519_public p @ bp_x25519_public p)))
    \<and> v = \<lparr> vi_ed25519_public = bp_ed25519_public p, vi_x25519_public = bp_x25519_public p,
           vi_fingerprint = fp, vi_timestamp = bp_timestamp p, vi_nonce = bp_nonce p \<rparr>"
  unfolding bind_verify_Ok [OF assms(1-3)] verify_freshness_Ok derive_fingerprint_Ok [OF assms(2)]
  using assms(4) by (auto simp: ed25519_verify_def wf_payload_def split: if_splits)


theorem bind_verify_sound_complete_witness:
  "is_ok (bind_verify ref_crates (seconds 1000) (Fingerprint (replicate 20 7))
      \<lparr> bp_version = 1, bp_ed25519_public = replicate 32 7, bp_x25519_public = replicate 32 3,
        bp_timestamp = 970, bp_nonce = replicate 12 4,
        bp_signature = replicate 32 7 @ take 32 DOMAIN_SEPARATOR @ [1] @ replicate 9 7 \<rparr>)"
proof -
  let ?p = "\<lparr> bp_version = 1, bp_ed25519_public = replicate 32 7, bp_x25519_public = replicate 32 3,
        bp_timestamp = 970, bp_nonce = replicate 12 4,
        bp_signature = replicate 32 7 @ take 32 DOMAIN_SEPARATOR @ [1] @ replicate 9 7 \<rparr>"
  have sep: "length DOMAIN_SEPARATOR = 22"
    by (simp add: DOMAIN_SEPARATOR_def str_bytes_def lit_def encode_char_def)
  have "pad_to 32 (signature_payload ?p) = take 32 DOMAIN_SEPARATOR @ [1] @ replicate 9 7"
    using sep by (simp add: pad_to_def signature_payload_def take_Cons')
  moreover have "wf_payload ?p" using sep by (simp add: wf_payload_def)
  ultimately show ?thesis
    using bind_verify_sound_complete [OF ref_ct_eq_ok ref_blake3_ok, of "Fingerprint (replicate 20 7)" ?p "seconds 1000"]
    by (auto simp: is_ok_conv wf_fingerprint_def ref_crates_def timestamp_def seconds_def pad_to_def)
qed

text \<open>
  an honest handshake payload is accepted. A payload created from well-formed identity keys and
  any 12-byte nonce survives encoding and decoding and verifies against the fingerprint of
  those keys on every clock that is at most 30 s away from the creator's; the identity
  returned carries the creator's keys and nonce.
\<close>

theorem bind_create_verify:
  assumes "ct_eq_ok K" and "blake3_ok K" and "ed25519_ok K" and "x25519_ok K" and "wf_keys K ik"
    and "length nonce = 12" and "keys_fingerprint K ik = Ok fp"
    and "\<bar>timestamp created\<bar> < 2 ^ 62" and "\<bar>timestamp created - timestamp clock\<bar> \<le> 30"
  shows "\<exists>p v. bind_create K created nonce (ik_ed25519 ik) (x_pub (ik_x25519 ik)) = Ok p
    \<and> rbind (bind_from_bytes (bind_to_bytes p)) (bind_verify K clock fp) = Ok v
    \<and> vi_ed25519_public v = ed_pub (ik_ed25519 ik) \<and> vi_x25519_public v = x_pub (ik_x25519 ik)
    \<and> vi_fingerprint v = fp \<and> vi_nonce v = nonce"
proof -
  obtain p where p: "bind_create K created nonce (ik_ed25519 ik) (x_pub (ik_x25519 ik)) = Ok p"
    by (simp add: bind_create_def Let_def)
  from bind_created_verifies [OF assms(1-8) p assms(9)] p show ?thesis
    by (auto simp: bind_from_to_bytes)
qed

theorem bind_create_verify_witness:
  "\<exists>p v. bind_create ref_crates (seconds 500) (replicate 12 9) \<lparr> ed_pub = replicate 32 1, ed_secret = replicate 32 1 \<rparr> (replicate 32 2) = Ok p
    \<and> rbind (bind_from_bytes (bind_to_bytes p)) (bind_verify ref_crates (seconds 530) (Fingerprint (replicate 20 1))) = Ok v
    \<and> vi_nonce v = replicate 12 9"
proof -
  let ?ik = "\<lparr> ik_ed25519 = \<lparr> ed_pub = replicate 32 1, ed_secret = replicate 32 1 \<rparr>,
      ik_x25519 = \<lparr> x_pub = replicate 32 2, x_secret = replicate 32 2 \<rparr> \<rparr>"
  have "wf_keys ref_crates ?ik" by (simp add: wf_keys_def ref_crates_def)
  moreover have "keys_fingerprint ref_crates ?ik = Ok (Fingerprint (replicate 20 1))"
    unfolding keys_fingerprint_Ok [OF ref_blake3_ok] by (simp add: ref_crates_def pad_to_def)
  ultimately show ?thesis
    using bind_create_verify [OF ref_ct_eq_ok ref_blake3_ok ref_ed25519_ok ref_x25519_ok, of ?ik "replicate 12 9"
        "Fingerprint (replicate 20 1)" "seconds 500" "seconds 530"]
    by (auto simp: timestamp_def seconds_def)
qed

text \<open>
  the signed bytes determine the payload. Two well-formed payloads with the same
  signature input agree in every field except the signature, so a signature cannot be
  moved to other keys, another time or another nonce.
\<close>

theorem signature_input_unambiguous:
  assumes "wf_payload p" and "wf_payload q" and "signature_payload p = signature_payload q"
  shows "q = p\<lparr> bp_signature := bp_signature q \<rparr>"
  using signature_payload_inject [OF assms, of "bp_signature q"] by simp

theorem signature_input_unambiguous_witness:
  "\<lparr> bp_version = 1, bp_ed25519_public = replicate 32 7, bp_x25519_public = replicate 32 3,
        bp_timestamp = 970, bp_nonce = replicate 12 4, bp_signature = replicate 64 0 \<rparr>
   = \<lparr> bp_version = 1, bp_ed25519_public = replicate 32 7, bp_x25519_public = replicate 32 3,
        bp_timestamp = 970, bp_nonce = replicate 12 4, bp_signature = replicate 64 1 \<rparr>
      \<lparr> bp_signature := replicate 64 0 \<rparr>"
  using signature_input_unambiguous [of
      "\<lparr> bp_version = 1, bp_ed25519_public = replicate 32 7, bp_x25519_public = replicate 32 3,
        bp_timestamp = 970, bp_nonce = replicate 12 4, bp_signature = replicate 64 1 \<rparr>"
      "\<lparr> bp_version = 1, bp_ed25519_public = replicate 32 7, bp_x25519_public = replicate 32 3,
        bp_timestamp = 970, bp_nonce = replicate 12 4, bp_signature = replicate 64 0 \<rparr>"]
  by (simp add: wf_payload_def signature_payload_def)

end
