(* ===== verification/Byte_Stream.thy ===== *)
theory Byte_Stream
  imports Crates
begin

text \<open>
  The two ends of a connection as the code sees them through \<open>AsyncReadExt\<close> and
  \<open>AsyncWriteExt\<close>, and the contract shared by the two length-prefixed framings of the
  program (\<open>protocol/codec.rs\<close> and the handshake messages of \<open>noise/handshake.rs\<close>).
\<close>

section \<open>Streams\<close>

text \<open>
  \<open>rx\<close> are the bytes that will arrive, \<open>rx_end\<close> the error a read meets when it needs more;
  \<open>tx\<close> are the bytes written so far, and a write or flush fails when \<open>tx_fault\<close> or
  \<open>flush_fault\<close> says so for the number of bytes already written.
\<close>

datatype io_error = Io_Error (is_eof: bool) (io_text: string)

record io =
  rx :: bytes
  rx_end :: io_error
  tx :: bytes
  tx_fault :: "nat \<Rightarrow> string option"
  flush_fault :: "nat \<Rightarrow> string option"

definition read_exact :: "nat \<Rightarrow> (io, bytes, io_error) action" where
  "read_exact n s =
     (if n \<le> length (rx s) then (Ok (take n (rx s)), s\<lparr> rx := drop n (rx s) \<rparr>)
      else (Err (rx_end s), s\<lparr> rx := [] \<rparr>))"

text \<open>A write succeeds as a whole or fails as a whole; the bytes that a failing one may have sent are not modelled.\<close>

definition write_all :: "bytes \<Rightarrow> (io, unit, string) action" where
  "write_all d s =
     (case tx_fault s (length (tx s)) of
        Some e \<Rightarrow> (Err e, s)
      | None \<Rightarrow> (Ok (), s\<lparr> tx := tx s @ d \<rparr>))"

definition flush :: "(io, unit, string) action" where
  "flush s = (case flush_fault s (length (tx s)) of Some e \<Rightarrow> (Err e, s) | None \<Rightarrow> (Ok (), s))"

text \<open>A connection whose writes succeed.\<close>

definition healthy :: "io \<Rightarrow> bool" where
  "healthy s \<longleftrightarrow> tx_fault s = (\<lambda>_. None) \<and> flush_fault s = (\<lambda>_. None)"

lemma read_exact_append [simp]:
  "rx s = d @ rest \<Longrightarrow> length d = n \<Longrightarrow> read_exact n s = (Ok d, s\<lparr> rx := rest \<rparr>)"
  by (simp add: read_exact_def)

lemma read_exact_cases:
  obtains (full) d rest where "rx s = d @ rest" "length d = n" "read_exact n s = (Ok d, s\<lparr> rx := rest \<rparr>)"
  | (short) "length (rx s) < n" "read_exact n s = (Err (rx_end s), s\<lparr> rx := [] \<rparr>)"
proof (cases "n \<le> length (rx s)")
  case True
  then have "rx s = take n (rx s) @ drop n (rx s)" "length (take n (rx s)) = n" by auto
  then show ?thesis using full True unfolding read_exact_def by metis
next
  case False
  then show ?thesis using short by (simp add: read_exact_def)
qed

section \<open>Length-prefixed frames\<close>

text \<open>The wire format: the payload length as a big-endian \<open>u32\<close>, then the payload.\<close>

definition wire :: "bytes \<Rightarrow> bytes" where
  "wire d = u32_to_be (word_of_nat (length d)) @ d"

primrec recv_many :: "('s, 'a, 'e) action \<Rightarrow> nat \<Rightarrow> ('s, 'a list, 'e) action" where
  "recv_many dec 0 = aret []"
| "recv_many dec (Suc n) = abind dec (\<lambda>d. abind (recv_many dec n) (\<lambda>ds. aret (d # ds)))"

lemma length_wire [simp, byte_simps]: "length (wire d) = 4 + length d"
  by (simp add: wire_def)

lemma unat_length_u32: "length d < 2 ^ 32 \<Longrightarrow> unat (word_of_nat (length d) :: 32 word) = length d"
  by (simp add: unat_of_nat)

text \<open>
  The contract of a framing with a size limit: the receiver takes exactly one well-formed
  frame off the stream, refuses an oversized one before reading its payload, and whatever
  it returns was framed within the limit.
\<close>

locale length_framing =
  fixes frame :: "bytes \<Rightarrow> bytes"
    and dec :: "(io, bytes, 'e) action"
    and limit :: nat
  assumes limit_u32: "limit < 2 ^ 32"
    and frame_wire: "length d \<le> limit \<Longrightarrow> frame d = wire d"
    and dec_frame: "length d \<le> limit \<Longrightarrow> rx s = wire d @ rest \<Longrightarrow> dec s = (Ok d, s\<lparr> rx := rest \<rparr>)"
    and dec_sound: "dec s = (Ok d, t) \<Longrightarrow> length d \<le> limit \<and> rx s = wire d @ rx t"
begin

lemma recv_frames:
  assumes "\<forall>d\<in>set ds. length d \<le> limit" and "rx s = concat (map frame ds) @ rest"
  shows "recv_many dec (length ds) s = (Ok ds, s\<lparr> rx := rest \<rparr>)"
  using assms
proof (induction ds arbitrary: s)
  case Nil
  then show ?case by (simp add: aret_def)
next
  case (Cons d ds)
  then have "dec s = (Ok d, s\<lparr> rx := concat (map frame ds) @ rest \<rparr>)"
    by (intro dec_frame) (auto simp: frame_wire)
  with Cons show ?case by (simp add: abind_def aret_def)
qed

lemma recv_many_sound:
  "recv_many dec n s = (Ok ds, t) \<Longrightarrow>
     length ds = n \<and> (\<forall>d\<in>set ds. length d \<le> limit) \<and> rx s = concat (map frame ds) @ rx t"
proof (induction n arbitrary: s ds)
  case 0
  then show ?case by (simp add: aret_def)
next
  case (Suc n)
  from Suc.prems obtain d u ds' where d: "dec s = (Ok d, u)" "recv_many dec n u = (Ok ds', t)" "ds = d # ds'"
    by (auto simp: abind_eq_Ok aret_def)
  from Suc.IH [OF d(2)] dec_sound [OF d(1)] d(3) show ?case by (auto simp: frame_wire)
qed

text \<open>A byte string is the framing of at most one sequence of payloads of a given number.\<close>

lemma frames_unambiguous:
  assumes "\<forall>d\<in>set ds. length d \<le> limit" and "\<forall>d\<in>set es. length d \<le> limit"
    and "concat (map frame ds) = concat (map frame es)" and "length ds = length es"
  shows "ds = es"
proof -
  let ?s = "\<lparr> rx = concat (map frame ds), rx_end = Io_Error True [], tx = [],
    tx_fault = \<lambda>_. None, flush_fault = \<lambda>_. None \<rparr>"
  have "recv_many dec (length ds) ?s = (Ok ds, ?s\<lparr> rx := [] \<rparr>)"
    by (rule recv_frames [OF assms(1)]) simp
  moreover have "recv_many dec (length es) ?s = (Ok es, ?s\<lparr> rx := [] \<rparr>)"
    by (rule recv_frames [OF assms(2)]) (simp add: assms(3))
  ultimately have "(Ok ds, ?s\<lparr> rx := [] \<rparr>) = (Ok es :: (bytes list, 'e) result, ?s\<lparr> rx := [] \<rparr>)"
    using assms(4) by metis
  then show ?thesis by (simp only: prod.inject result.inject)
qed

end

section \<open>Receiving a frame, with the error texts left open\<close>

text \<open>
  Both receivers of the program have the same shape: read the prefix, check the bound, read
  the payload. They differ in the bound and in the errors they report.
\<close>

definition recv_frame ::
  "nat \<Rightarrow> (io_error \<Rightarrow> 'e) \<Rightarrow> (nat \<Rightarrow> 'e) \<Rightarrow> (io_error \<Rightarrow> 'e) \<Rightarrow> (io, bytes, 'e) action" where
  "recv_frame limit len_err big_err data_err =
     abind (amap_err len_err (read_exact 4)) (\<lambda>len_bytes.
       let len = unat (u32_from_be len_bytes) in
       if len > limit then afail (big_err len)
       else amap_err data_err (read_exact len))"

lemma recv_frame_wire:
  assumes "length d \<le> limit" and "limit < 2 ^ 32" and "rx s = wire d @ rest"
  shows "recv_frame limit f g h s = (Ok d, s\<lparr> rx := rest \<rparr>)"
proof -
  have "unat (word_of_nat (length d) :: 32 word) = length d"
    using assms(1,2) by (intro unat_length_u32) simp
  then show ?thesis
    using assms by (simp add: recv_frame_def wire_def abind_def amap_err_def)
qed

lemma wire_of_prefix:
  assumes "length pre = 4" and "length d = unat (u32_from_be pre)"
  shows "wire d = pre @ d"
proof -
  have lt: "le_to_nat (rev pre) < 2 ^ 32" using le_to_nat_bound [of "rev pre"] assms(1) by simp
  then have "length d = le_to_nat (rev pre)" using assms(2) by (simp add: u32_from_be_def unat_of_nat)
  with lt assms(1) show ?thesis
    by (simp add: wire_def u32_to_be_def unat_of_nat nat_to_le_of_le_to_nat)
qed

lemma recv_frame_sound:
  assumes "recv_frame limit f g h s = (Ok d, t)"
  shows "length d \<le> limit \<and> rx s = wire d @ rx t"
proof (cases rule: read_exact_cases [of s 4])
  case (full pre rest)
  let ?len = "unat (u32_from_be pre)" and ?s = "s\<lparr> rx := rest \<rparr>"
  have le: "?len \<le> limit" and r: "amap_err h (read_exact ?len) ?s = (Ok d, t)"
    using assms full by (auto simp: recv_frame_def abind_def amap_err_def Let_def afail_def split: if_splits)
  show ?thesis
  proof (cases rule: read_exact_cases [of ?s ?len])
    case (full d' rest')
    with r have "d' = d" "t = ?s\<lparr> rx := rest' \<rparr>" by (auto simp: amap_err_def)
    with full le \<open>rx s = pre @ rest\<close> \<open>length pre = 4\<close> show ?thesis
      using wire_of_prefix [of pre d] by simp
  qed (use r in \<open>simp add: amap_err_def\<close>)
qed (use assms in \<open>simp add: recv_frame_def abind_def amap_err_def\<close>)

text \<open>What happens on a stream that does not start with a complete frame within the bound.\<close>

lemma recv_frame_short_prefix:
  "length (rx s) < 4 \<Longrightarrow> recv_frame limit f g h s = (Err (f (rx_end s)), s\<lparr> rx := [] \<rparr>)"
  by (simp add: recv_frame_def abind_def amap_err_def read_exact_def)

lemma recv_frame_oversize:
  "rx s = u32_to_be w @ rest \<Longrightarrow> unat w > limit \<Longrightarrow>
     recv_frame limit f g h s = (Err (g (unat w)), s\<lparr> rx := rest \<rparr>)"
  by (simp add: recv_frame_def abind_def amap_err_def afail_def)

lemma recv_frame_truncated:
  "rx s = u32_to_be w @ rest \<Longrightarrow> unat w \<le> limit \<Longrightarrow> length rest < unat w \<Longrightarrow>
     recv_frame limit f g h s = (Err (h (rx_end s)), s\<lparr> rx := [] \<rparr>)"
  by (simp add: recv_frame_def abind_def amap_err_def) (simp add: read_exact_def)

end
