(* ===== verification/Noise.thy ===== *)
theory Noise
  imports Nonce_Cache Identity_Bind Byte_Stream
begin

text \<open>
  \<open>crates/security/src/noise/handshake.rs\<close> and \<open>noise/transport.rs\<close>: the Noise KK handshake
  with identity binding, the framed messages it exchanges, and the transport it yields. The
  \<open>snow\<close> crate is a parameter: a record of its state-machine functions over an abstract
  handshake state \<open>'h\<close> and transport state \<open>'t\<close>.
\<close>

section \<open>The \<open>snow\<close> crate\<close>

text \<open>
  Reads and writes take the capacity of the output buffer and return the part of it that
  was filled.
\<close>

record ('h, 't) snow =
  sn_params :: "(unit, string) result"
  sn_build_initiator :: "bytes \<Rightarrow> bytes \<Rightarrow> ('h, string) result"
  sn_build_responder :: "bytes \<Rightarrow> bytes \<Rightarrow> ('h, string) result"
  sn_hs_read :: "bytes \<Rightarrow> nat \<Rightarrow> ('h, bytes, string) action"
  sn_hs_write :: "bytes \<Rightarrow> nat \<Rightarrow> ('h, bytes, string) action"
  sn_finished :: "'h \<Rightarrow> bool"
  sn_into_transport :: "'h \<Rightarrow> ('t, string) result"
  sn_write :: "bytes \<Rightarrow> nat \<Rightarrow> ('t, bytes, string) action"
  sn_read :: "bytes \<Rightarrow> nat \<Rightarrow> ('t, bytes, string) action"

text \<open>
  What the Noise KK pattern provides: two states built from matching key pairs exchange one
  message in each direction, each 48 bytes longer than its payload, and are then finished
  and yield transports that belong together.
\<close>

definition kk_exchange :: "('h, 't) snow \<Rightarrow> ('t \<Rightarrow> 't \<Rightarrow> bool) \<Rightarrow> 'h \<Rightarrow> 'h \<Rightarrow> bool" where
  "kk_exchange S paired hi hr \<longleftrightarrow>
     (\<forall>p1 p2. length p1 + 48 \<le> 4096 \<longrightarrow> length p2 + 48 \<le> 4096 \<longrightarrow>
       (\<exists>m1 m2 hi1 hi2 hr1 hr2 ti tr.
          sn_hs_write S p1 4096 hi = (Ok m1, hi1) \<and> sn_hs_read S m1 4096 hr = (Ok p1, hr1)
          \<and> sn_hs_write S p2 4096 hr1 = (Ok m2, hr2) \<and> sn_hs_read S m2 4096 hi1 = (Ok p2, hi2)
          \<and> length m1 = length p1 + 48 \<and> length m2 = length p2 + 48 \<and> sn_finished S hi2 \<and> sn_finished S hr2
          \<and> sn_into_transport S hi2 = Ok ti \<and> sn_into_transport S hr2 = Ok tr \<and> paired ti tr \<and> paired tr ti))"

definition snow_kk_ok :: "crates \<Rightarrow> ('h, 't) snow \<Rightarrow> ('t \<Rightarrow> 't \<Rightarrow> bool) \<Rightarrow> bool" where
  "snow_kk_ok K S paired \<longleftrightarrow> sn_params S = Ok () \<and>
     (\<forall>a b. length a = 32 \<longrightarrow> length b = 32 \<longrightarrow>
       (\<exists>hi hr. sn_build_initiator S a (x_public K b) = Ok hi \<and> sn_build_responder S b (x_public K a) = Ok hr
          \<and> kk_exchange S paired hi hr))"

text \<open>
  Transport messages carry a 16-byte tag and are at most 65535 bytes; what one end writes
  the other end reads, in order.
\<close>

definition snow_transport_ok :: "('h, 't) snow \<Rightarrow> ('t \<Rightarrow> 't \<Rightarrow> bool) \<Rightarrow> bool" where
  "snow_transport_ok S paired \<longleftrightarrow>
     (\<forall>m cap t. fst (sn_write S m cap t) \<noteq> Panic) \<and>
     (\<forall>m cap t. length m + 16 > 65535 \<longrightarrow> is_err (fst (sn_write S m cap t))) \<and>
     (\<forall>m cap t c t'. sn_write S m cap t = (Ok c, t') \<longrightarrow> length c = length m + 16) \<and>
     (\<forall>a b m. paired a b \<longrightarrow> length m + 16 \<le> 65535 \<longrightarrow>
       (\<exists>c a' b'. sn_write S m (length m + 16) a = (Ok c, a') \<and> sn_read S c (length c) b = (Ok m, b')
          \<and> paired a' b'))"

lemma snow_transport_okD:
  assumes "snow_transport_ok S paired"
  shows "fst (sn_write S m cap t) \<noteq> Panic"
    and "length m + 16 > 65535 \<Longrightarrow> is_err (fst (sn_write S m cap t))"
    and "sn_write S m cap t = (Ok c, t') \<Longrightarrow> length c = length m + 16"
    and "paired a b \<Longrightarrow> length m + 16 \<le> 65535 \<Longrightarrow>
      \<exists>c a' b'. sn_write S m (length m + 16) a = (Ok c, a') \<and> sn_read S c (length c) b = (Ok m, b') \<and> paired a' b'"
  using assms unfolding snow_transport_ok_def by blast+

section \<open>Handshake state\<close>

definition HANDSHAKE_TIMEOUT_SECS :: nat where "HANDSHAKE_TIMEOUT_SECS = 10"
definition MAX_HANDSHAKE_MSG_SIZE :: nat where "MAX_HANDSHAKE_MSG_SIZE = 4096"

text \<open>
  \<open>hs_cache\<close> is the content of the \<open>Arc<Mutex<NonceCache>>\<close> the handshake holds: a caller that
  shares one cache between handshakes passes on what the previous one left.
\<close>

record 'h handshake =
  hs_state :: 'h
  hs_our_identity :: identity_keys
  hs_remote_fingerprint :: "fingerprint option"
  hs_verified_remote :: "verified_identity option"
  hs_cache :: nonce_cache
  hs_cache_poisoned :: bool

definition new_handshake ::
  "('h, 't) snow \<Rightarrow> (bytes \<Rightarrow> bytes \<Rightarrow> ('h, string) result) \<Rightarrow> string \<Rightarrow> identity_keys \<Rightarrow> fingerprint \<Rightarrow> bytes
    \<Rightarrow> nonce_cache \<Rightarrow> 'h handshake security_result" where
  "new_handshake S build err our remote_fp remote_x cache =
     rbind (map_err (\<lambda>e. HandshakeFailed (''invalid params: '' @ e)) (sn_params S)) (\<lambda>_.
     rbind (map_err (\<lambda>e. HandshakeFailed (err @ e)) (build (x_secret (ik_x25519 our)) remote_x)) (\<lambda>state.
     Ok \<lparr> hs_state = state, hs_our_identity = our, hs_remote_fingerprint = Some remote_fp,
          hs_verified_remote = None, hs_cache = cache, hs_cache_poisoned = False \<rparr>))"

definition new_initiator_with_cache ::
  "('h, 't) snow \<Rightarrow> identity_keys \<Rightarrow> fingerprint \<Rightarrow> bytes \<Rightarrow> nonce_cache \<Rightarrow> 'h handshake security_result" where
  "new_initiator_with_cache S = new_handshake S (sn_build_initiator S) ''build initiator: ''"

definition new_responder_with_cache ::
  "('h, 't) snow \<Rightarrow> identity_keys \<Rightarrow> fingerprint \<Rightarrow> bytes \<Rightarrow> nonce_cache \<Rightarrow> 'h handshake security_result" where
  "new_responder_with_cache S = new_handshake S (sn_build_responder S) ''build responder: ''"

definition new_initiator ::
  "('h, 't) snow \<Rightarrow> identity_keys \<Rightarrow> fingerprint \<Rightarrow> bytes \<Rightarrow> 'h handshake security_result" where
  "new_initiator S our remote_fp remote_x =
     new_initiator_with_cache S our remote_fp remote_x (nonce_cache_new 10000)"

definition new_responder ::
  "('h, 't) snow \<Rightarrow> identity_keys \<Rightarrow> fingerprint \<Rightarrow> bytes \<Rightarrow> 'h handshake security_result" where
  "new_responder S our remote_fp remote_x =
     new_responder_with_cache S our remote_fp remote_x (nonce_cache_new 10000)"

section \<open>Handshake operations\<close>

definition on_state :: "('h, 'a, 'e) action \<Rightarrow> ('h handshake, 'a, 'e) action" where
  "on_state m h = (case m (hs_state h) of (r, s) \<Rightarrow> (r, h\<lparr> hs_state := s \<rparr>))"

definition hs_read_message :: "('h, 't) snow \<Rightarrow> bytes \<Rightarrow> ('h handshake, bytes, security_error) action" where
  "hs_read_message S input =
     (if length input > MAX_HANDSHAKE_MSG_SIZE then
        afail (HandshakeFailed (''message too large: '' @ nat_str (length input) @ '' bytes''))
      else amap_err (\<lambda>e. HandshakeFailed (''read error: '' @ e))
             (on_state (sn_hs_read S input MAX_HANDSHAKE_MSG_SIZE)))"

definition hs_write_message :: "('h, 't) snow \<Rightarrow> bytes \<Rightarrow> ('h handshake, bytes, security_error) action" where
  "hs_write_message S payload =
     amap_err (\<lambda>e. HandshakeFailed (''write error: '' @ e))
       (on_state (sn_hs_write S payload MAX_HANDSHAKE_MSG_SIZE))"

definition is_complete :: "('h, 't) snow \<Rightarrow> 'h handshake \<Rightarrow> bool" where
  "is_complete S h = sn_finished S (hs_state h)"

definition set_verified_remote :: "verified_identity \<Rightarrow> 'h handshake \<Rightarrow> 'h handshake" where
  "set_verified_remote v h = h\<lparr> hs_verified_remote := Some v \<rparr>"

record 't transport =
  tr_state :: 't
  tr_poisoned :: bool

definition into_transport :: "('h, 't) snow \<Rightarrow> 'h handshake \<Rightarrow> 't transport security_result" where
  "into_transport S h =
     (if \<not> is_complete S h then Err (HandshakeFailed ''handshake not complete'')
      else if hs_verified_remote h = None then Err (IdentityBindingFailed ''remote identity not verified'')
      else map_ok (\<lambda>t. \<lparr> tr_state = t, tr_poisoned = False \<rparr>)
             (map_err (\<lambda>e. HandshakeFailed (''into transport: '' @ e)) (sn_into_transport S (hs_state h))))"

definition create_identity_payload :: "crates \<Rightarrow> datetime \<Rightarrow> bytes \<Rightarrow> 'h handshake \<Rightarrow> bytes security_result" where
  "create_identity_payload K now nonce h =
     rbind (bind_create K now nonce (ik_ed25519 (hs_our_identity h)) (x_pub (ik_x25519 (hs_our_identity h))))
       (\<lambda>payload. Ok (bind_to_bytes payload))"

definition verify_identity_payload ::
  "crates \<Rightarrow> datetime \<Rightarrow> instant \<Rightarrow> bytes \<Rightarrow> ('h handshake, verified_identity, security_error) action" where
  "verify_identity_payload K clock inst payload_bytes h =
     (case rbind (map_err (\<lambda>e. IdentityBindingFailed (''parse: '' @ display_security_error e)) (bind_from_bytes payload_bytes)) (\<lambda>payload.
           rbind (ok_or (hs_remote_fingerprint h) (Sec_Internal ''no expected fingerprint'')) (\<lambda>expected_fp.
           rbind (bind_verify K clock expected_fp payload) (\<lambda>verified.
           if hs_cache_poisoned h then Err (Sec_Internal ''nonce cache poisoned'') else Ok verified))) of
        Ok verified \<Rightarrow>
          (let (fresh, cache) = check_and_insert inst (vi_fingerprint verified) (vi_nonce verified) (hs_cache h) in
           if fresh then (Ok verified, h\<lparr> hs_cache := cache \<rparr>)
           else (Err (ReplayDetected ''duplicate nonce''), h\<lparr> hs_cache := cache \<rparr>))
      | Err e \<Rightarrow> (Err e, h)
      | Panic \<Rightarrow> (Panic, h))"

section \<open>Framed handshake messages\<close>

definition send_message :: "bytes \<Rightarrow> (io, unit, security_error) action" where
  "send_message d =
     abind (amap_err (\<lambda>e. HandshakeFailed (''send: '' @ e)) (write_all (u32_to_be (word_of_nat (length d))))) (\<lambda>_.
     abind (amap_err (\<lambda>e. HandshakeFailed (''send: '' @ e)) (write_all d)) (\<lambda>_.
     amap_err (\<lambda>e. HandshakeFailed (''flush: '' @ e)) flush))"

definition recv_message :: "(io, bytes, security_error) action" where
  "recv_message =
     recv_frame MAX_HANDSHAKE_MSG_SIZE
       (\<lambda>e. HandshakeFailed (''recv len: '' @ io_text e))
       (\<lambda>len. HandshakeFailed (''message size '' @ nat_str len @ '' exceeds max '' @ nat_str MAX_HANDSHAKE_MSG_SIZE))
       (\<lambda>e. HandshakeFailed (''recv data: '' @ io_text e))"

section \<open>The two roles\<close>

type_synonym 'h session = "'h handshake \<times> io"

definition perform_initiator_handshake ::
  "crates \<Rightarrow> ('h, 't) snow \<Rightarrow> datetime \<Rightarrow> bytes \<Rightarrow> datetime \<Rightarrow> instant
    \<Rightarrow> ('h session, 't transport \<times> verified_identity, security_error) action" where
  "perform_initiator_handshake K S created nonce clock inst =
     abind (on_fst (aget (create_identity_payload K created nonce))) (\<lambda>identity_payload.
     abind (on_fst (hs_write_message S identity_payload)) (\<lambda>msg1.
     abind (on_snd (send_message msg1)) (\<lambda>_.
     abind (on_snd recv_message) (\<lambda>msg2.
     abind (on_fst (hs_read_message S msg2)) (\<lambda>payload2.
     abind (on_fst (verify_identity_payload K clock inst payload2)) (\<lambda>verified.
     abind (on_fst (aput (set_verified_remote verified))) (\<lambda>_.
     abind (on_fst (aget (into_transport S))) (\<lambda>transport.
     aret (transport, verified)))))))))"

definition perform_responder_handshake ::
  "crates \<Rightarrow> ('h, 't) snow \<Rightarrow> datetime \<Rightarrow> bytes \<Rightarrow> datetime \<Rightarrow> instant
    \<Rightarrow> ('h session, 't transport \<times> verified_identity, security_error) action" where
  "perform_responder_handshake K S created nonce clock inst =
     abind (on_snd recv_message) (\<lambda>msg1.
     abind (on_fst (hs_read_message S msg1)) (\<lambda>payload1.
     abind (on_fst (verify_identity_payload K clock inst payload1)) (\<lambda>verified.
     abind (on_fst (aput (set_verified_remote verified))) (\<lambda>_.
     abind (on_fst (aget (create_identity_payload K created nonce))) (\<lambda>identity_payload.
     abind (on_fst (hs_write_message S identity_payload)) (\<lambda>msg2.
     abind (on_snd (send_message msg2)) (\<lambda>_.
     abind (on_fst (aget (into_transport S))) (\<lambda>transport.
     aret (transport, verified)))))))))"

text \<open>
  \<open>timeout\<close> around \<open>select!\<close> with the cancellation token: the scheduler decides which
  branch wins; an interrupted handshake leaves some intermediate session behind.
\<close>

datatype 's race = Finished | CancelledFirst 's | TimedOut 's

fun race_with :: "'s race \<Rightarrow> ('s, 'a, security_error) action \<Rightarrow> ('s, 'a, security_error) action" where
  "race_with Finished m s = m s"
| "race_with (CancelledFirst left) m s = (Err HandshakeCancelled, left)"
| "race_with (TimedOut left) m s = (Err (HandshakeTimeout HANDSHAKE_TIMEOUT_SECS), left)"

definition run_initiator_handshake ::
  "crates \<Rightarrow> ('h, 't) snow \<Rightarrow> 'h session race \<Rightarrow> datetime \<Rightarrow> bytes \<Rightarrow> datetime \<Rightarrow> instant
    \<Rightarrow> ('h session, 't transport \<times> verified_identity, security_error) action" where
  "run_initiator_handshake K S race created nonce clock inst =
     race_with race (perform_initiator_handshake K S created nonce clock inst)"

definition run_responder_handshake ::
  "crates \<Rightarrow> ('h, 't) snow \<Rightarrow> 'h session race \<Rightarrow> datetime \<Rightarrow> bytes \<Rightarrow> datetime \<Rightarrow> instant
    \<Rightarrow> ('h session, 't transport \<times> verified_identity, security_error) action" where
  "run_responder_handshake K S race created nonce clock inst =
     race_with race (perform_responder_handshake K S created nonce clock inst)"

section \<open>Transport\<close>

definition MAX_TRANSPORT_MSG_SIZE :: nat where "MAX_TRANSPORT_MSG_SIZE = 1048576"
definition AEAD_TAG_SIZE :: nat where "AEAD_TAG_SIZE = 16"
definition MAX_TRANSPORT_FRAME_SIZE :: nat where
  "MAX_TRANSPORT_FRAME_SIZE = MAX_TRANSPORT_MSG_SIZE + AEAD_TAG_SIZE"

definition on_transport :: "('t, 'a, 'e) action \<Rightarrow> ('t transport, 'a, 'e) action" where
  "on_transport m t = (case m (tr_state t) of (r, s) \<Rightarrow> (r, t\<lparr> tr_state := s \<rparr>))"

definition transport_encrypt :: "('h, 't) snow \<Rightarrow> bytes \<Rightarrow> ('t transport, bytes, security_error) action" where
  "transport_encrypt S plaintext t =
     (if length plaintext > MAX_TRANSPORT_MSG_SIZE then
        (Err (MessageTooLarge (length plaintext) MAX_TRANSPORT_MSG_SIZE), t)
      else if tr_poisoned t then (Err (Sec_Internal ''transport state corrupted''), t)
      else amap_err (\<lambda>_. EncryptionFailed)
             (on_transport (sn_write S plaintext (length plaintext + AEAD_TAG_SIZE))) t)"

definition transport_decrypt :: "('h, 't) snow \<Rightarrow> bytes \<Rightarrow> ('t transport, bytes, security_error) action" where
  "transport_decrypt S ciphertext t =
     (if length ciphertext > MAX_TRANSPORT_FRAME_SIZE then
        (Err (MessageTooLarge (length ciphertext) MAX_TRANSPORT_FRAME_SIZE), t)
      else if tr_poisoned t then (Err (Sec_Internal ''transport state corrupted''), t)
      else amap_err (\<lambda>_. DecryptionFailed) (on_transport (sn_read S ciphertext (length ciphertext))) t)"

section \<open>Lemmas: framing\<close>

interpretation hs_frames: length_framing wire recv_message MAX_HANDSHAKE_MSG_SIZE
proof
  show "MAX_HANDSHAKE_MSG_SIZE < 2 ^ 32" by (simp add: MAX_HANDSHAKE_MSG_SIZE_def)
  show "recv_message s = (Ok d, s\<lparr> rx := rest \<rparr>)"
    if "length d \<le> MAX_HANDSHAKE_MSG_SIZE" "rx s = wire d @ rest" for d s rest
    unfolding recv_message_def using that by (intro recv_frame_wire) (simp_all add: MAX_HANDSHAKE_MSG_SIZE_def)
  show "recv_message s = (Ok d, t) \<Longrightarrow> length d \<le> MAX_HANDSHAKE_MSG_SIZE \<and> rx s = wire d @ rx t" for s d t
    unfolding recv_message_def by (rule recv_frame_sound)
qed (rule refl)

lemma send_message_healthy: "healthy s \<Longrightarrow> send_message d s = (Ok (), s\<lparr> tx := tx s @ wire d \<rparr>)"
  by (simp add: send_message_def healthy_def abind_def amap_err_def write_all_def flush_def wire_def)

section \<open>Lemmas: the steps of a handshake\<close>

lemma on_fst_Ok: "on_fst m (a, b) = (Ok x, (a', b')) \<longleftrightarrow> m a = (Ok x, a') \<and> b' = b"
  by (auto simp: on_fst_def split: prod.splits)

lemma on_snd_Ok: "on_snd m (a, b) = (Ok x, (a', b')) \<longleftrightarrow> m b = (Ok x, b') \<and> a' = a"
  by (auto simp: on_snd_def split: prod.splits)

lemma aget_Ok: "aget f s = (Ok x, t) \<longleftrightarrow> f s = Ok x \<and> t = s"
  by (auto simp: aget_def)

lemma aput_Ok: "aput f s = (Ok x, t) \<longleftrightarrow> t = f s"
  by (auto simp: aput_def)

lemma aret_Ok: "aret x s = (Ok y, t) \<longleftrightarrow> y = x \<and> t = s"
  by (auto simp: aret_def)

lemmas session_Ok = abind_eq_Ok split_paired_Ex on_fst_Ok on_snd_Ok aget_Ok aput_Ok aret_Ok

text \<open>The fields of a handshake other than the Noise state, which messages do not touch.\<close>

definition hs_frame :: "'h handshake \<Rightarrow> 'h handshake \<Rightarrow> bool" where
  "hs_frame h h' \<longleftrightarrow> h' = h\<lparr> hs_state := hs_state h' \<rparr>"

lemma hs_write_frame: "hs_write_message S p h = (r, h') \<Longrightarrow> hs_frame h h'"
  by (auto simp: hs_write_message_def amap_err_def on_state_def hs_frame_def split: prod.splits)

lemma hs_read_frame: "hs_read_message S p h = (r, h') \<Longrightarrow> hs_frame h h'"
  by (auto simp: hs_read_message_def amap_err_def on_state_def hs_frame_def afail_def split: prod.splits if_splits)

lemma hs_frame_trans: "hs_frame h1 h2 \<Longrightarrow> hs_frame h2 h3 \<Longrightarrow> hs_frame h1 h3"
  by (cases h1; cases h2; cases h3) (simp add: hs_frame_def)

lemma hs_frame_fields:
  "hs_frame h h' \<Longrightarrow> hs_remote_fingerprint h' = hs_remote_fingerprint h \<and> hs_cache h' = hs_cache h
     \<and> hs_cache_poisoned h' = hs_cache_poisoned h \<and> hs_our_identity h' = hs_our_identity h
     \<and> hs_verified_remote h' = hs_verified_remote h"
  by (cases h; cases h') (simp add: hs_frame_def)

lemma verify_identity_payload_Ok:
  "verify_identity_payload K clock inst pb h = (Ok v, h') \<longleftrightarrow>
     (\<exists>p fp c. bind_from_bytes pb = Ok p \<and> hs_remote_fingerprint h = Some fp \<and> bind_verify K clock fp p = Ok v
        \<and> \<not> hs_cache_poisoned h \<and> check_and_insert inst (vi_fingerprint v) (vi_nonce v) (hs_cache h) = (True, c)
        \<and> h' = h\<lparr> hs_cache := c \<rparr>)"
  by (auto simp: verify_identity_payload_def split: result.splits prod.splits if_splits)

text \<open>What both roles establish before they hand out a transport.\<close>

definition authenticated ::
  "crates \<Rightarrow> datetime \<Rightarrow> instant \<Rightarrow> 'h handshake \<Rightarrow> verified_identity \<Rightarrow> bool" where
  "authenticated K clock inst h v \<longleftrightarrow>
     (\<exists>p fp. wf_payload p \<and> hs_remote_fingerprint h = Some fp \<and> bind_verify K clock fp p = Ok v)
     \<and> fst (check_and_insert inst (vi_fingerprint v) (vi_nonce v) (hs_cache h))"

lemma authenticated_from_verify:
  assumes "verify_identity_payload K clock inst pb h1 = (Ok v, h2)" and "hs_frame h h1"
  shows "authenticated K clock inst h v"
proof -
  from assms(1) obtain p fp c where "bind_from_bytes pb = Ok p" "hs_remote_fingerprint h1 = Some fp"
    "bind_verify K clock fp p = Ok v" "check_and_insert inst (vi_fingerprint v) (vi_nonce v) (hs_cache h1) = (True, c)"
    by (auto simp: verify_identity_payload_Ok)
  with hs_frame_fields [OF assms(2)] bind_from_bytes_wf show ?thesis
    unfolding authenticated_def by (metis fst_conv)
qed

lemma initiator_authenticates:
  assumes "perform_initiator_handshake K S created nonce clock inst (h, s) = (Ok (tr, v), (h', s'))"
  shows "authenticated K clock inst h v"
proof -
  from assms obtain pay m1 h1 m2 h2 pb h3 s1 where
    "hs_write_message S pay h = (Ok m1, h1)" "hs_read_message S m2 h1 = (Ok pb, h2)"
    "verify_identity_payload K clock inst pb h2 = (Ok v, h3)"
    unfolding perform_initiator_handshake_def session_Ok by blast
  then show ?thesis
    using authenticated_from_verify hs_frame_trans hs_write_frame hs_read_frame by metis
qed

lemma responder_authenticates:
  assumes "perform_responder_handshake K S created nonce clock inst (h, s) = (Ok (tr, v), (h', s'))"
  shows "authenticated K clock inst h v"
proof -
  from assms obtain m1 h1 pb h2 where
    "hs_read_message S m1 h = (Ok pb, h1)" "verify_identity_payload K clock inst pb h1 = (Ok v, h2)"
    unfolding perform_responder_handshake_def session_Ok by blast
  then show ?thesis using authenticated_from_verify hs_read_frame by metis
qed

lemma race_with_Ok: "race_with race m s = (Ok x, t) \<longleftrightarrow> race = Finished \<and> m s = (Ok x, t)"
  by (cases race) auto

section \<open>Lemmas: the honest run\<close>

lemma create_identity_payload_Ok:
  assumes "ed25519_ok K" and "x25519_ok K" and "wf_keys K (hs_our_identity h)" and "length nonce = 12"
  obtains p where "create_identity_payload K now nonce h = Ok (bind_to_bytes p)" "wf_payload p"
    "bind_create K now nonce (ik_ed25519 (hs_our_identity h)) (x_pub (ik_x25519 (hs_our_identity h))) = Ok p"
proof -
  obtain p where p: "bind_create K now nonce (ik_ed25519 (hs_our_identity h)) (x_pub (ik_x25519 (hs_our_identity h))) = Ok p"
    by (simp add: bind_create_def Let_def)
  moreover have "wf_payload p"
    using p assms(1,4) wf_keys_lengths [OF assms(3,1,2)]
    by (auto simp: bind_create_def Let_def wf_payload_def ed25519_sign_def ed25519_ok_def)
  ultimately show ?thesis using that by (simp add: create_identity_payload_def)
qed

text \<open>Verification of the payload the other side made, with a cache that knows nothing of it.\<close>

lemma verify_identity_payload_honest:
  assumes "bind_verify K clock fp p = Ok v" and "wf_payload p" and "hs_remote_fingerprint h = Some fp"
    and "\<not> hs_cache_poisoned h" and "hs_cache h = nonce_cache_new n"
  shows "\<exists>c. verify_identity_payload K clock inst (bind_to_bytes p) h = (Ok v, h\<lparr> hs_cache := c \<rparr>)"
proof -
  obtain c where "check_and_insert inst (vi_fingerprint v) (vi_nonce v) (hs_cache h) = (True, c)"
    using assms(5) by (cases "n = 0") (simp_all add: check_and_insert_def nonce_cache_new_def evict_oldest_def Let_def)
  then show ?thesis using assms bind_from_to_bytes [OF assms(2)]
    by (auto simp: verify_identity_payload_Ok)
qed

lemma new_handshake_Ok:
  "new_handshake S build err our fp x cache = Ok h \<longleftrightarrow>
     sn_params S = Ok () \<and> (\<exists>st. build (x_secret (ik_x25519 our)) x = Ok st
       \<and> h = \<lparr> hs_state = st, hs_our_identity = our, hs_remote_fingerprint = Some fp,
              hs_verified_remote = None, hs_cache = cache, hs_cache_poisoned = False \<rparr>)"
  by (auto simp: new_handshake_def)

lemma snow_kk_exchange:
  assumes "snow_kk_ok K S paired" and "wf_keys K a" and "wf_keys K b"
  obtains hi hr where "sn_params S = Ok ()"
      "sn_build_initiator S (x_secret (ik_x25519 a)) (x_pub (ik_x25519 b)) = Ok hi"
      "sn_build_responder S (x_secret (ik_x25519 b)) (x_pub (ik_x25519 a)) = Ok hr"
      "kk_exchange S paired hi hr"
  using assms unfolding snow_kk_ok_def wf_keys_def by metis

lemma keys_fingerprint_wf: "blake3_ok K \<Longrightarrow> keys_fingerprint K ik = Ok fp \<Longrightarrow> wf_fingerprint fp"
  by (auto simp: keys_fingerprint_Ok derived_wf)

text \<open>
  One side of an honest run: given what the Noise state does with the two messages, each
  role goes through.
\<close>

lemma initiator_honest:
  assumes "create_identity_payload K created nonce h = Ok pay"
    and "sn_hs_write S pay 4096 (hs_state h) = (Ok m1, st1)" and "sn_hs_read S m2 4096 st1 = (Ok pay2, st2)"
    and "length m2 \<le> 4096" and "healthy s" and "rx s = wire m2 @ rest"
    and "verify_identity_payload K clock inst pay2 (h\<lparr> hs_state := st2 \<rparr>) = (Ok v, h\<lparr> hs_state := st2, hs_cache := c \<rparr>)"
    and "sn_finished S st2" and "sn_into_transport S st2 = Ok t"
  shows "\<exists>h'. perform_initiator_handshake K S created nonce clock inst (h, s) =
      (Ok (\<lparr> tr_state = t, tr_poisoned = False \<rparr>, v), (h', s\<lparr> tx := tx s @ wire m1, rx := rest \<rparr>))"
proof -
  have "recv_message (s\<lparr> tx := tx s @ wire m1 \<rparr>) = (Ok m2, s\<lparr> tx := tx s @ wire m1, rx := rest \<rparr>)"
    using assms(4,6) hs_frames.dec_frame [of m2 "s\<lparr> tx := tx s @ wire m1 \<rparr>" rest]
    by (simp add: MAX_HANDSHAKE_MSG_SIZE_def)
  then show ?thesis
    using assms
    by (simp add: perform_initiator_handshake_def action_defs hs_write_message_def hs_read_message_def on_state_def
        send_message_healthy set_verified_remote_def into_transport_def is_complete_def MAX_HANDSHAKE_MSG_SIZE_def)
qed

lemma responder_honest:
  fixes h :: "'h handshake"
  assumes "length m1 \<le> 4096" and "healthy s" and "rx s = wire m1 @ rest"
    and "sn_hs_read S m1 4096 (hs_state h) = (Ok pay1, st1)"
    and "verify_identity_payload K clock inst pay1 (h\<lparr> hs_state := st1 \<rparr>) = (Ok v, h\<lparr> hs_state := st1, hs_cache := c \<rparr>)"
    and "\<And>h' :: 'h handshake. hs_our_identity h' = hs_our_identity h \<Longrightarrow> create_identity_payload K created nonce h' = Ok pay"
    and "sn_hs_write S pay 4096 st1 = (Ok m2, st2)"
    and "sn_finished S st2" and "sn_into_transport S st2 = Ok t"
  shows "\<exists>h'. perform_responder_handshake K S created nonce clock inst (h, s) =
      (Ok (\<lparr> tr_state = t, tr_poisoned = False \<rparr>, v), (h', s\<lparr> tx := tx s @ wire m2, rx := rest \<rparr>))"
proof -
  have "recv_message s = (Ok m1, s\<lparr> rx := rest \<rparr>)"
    using assms(1,3) hs_frames.dec_frame [of m1 s rest] by (simp add: MAX_HANDSHAKE_MSG_SIZE_def)
  moreover have "healthy (s\<lparr> rx := rest \<rparr>)" using assms(2) by (simp add: healthy_def)
  ultimately show ?thesis
    using assms
    by (simp add: perform_responder_handshake_def action_defs hs_write_message_def hs_read_message_def on_state_def
        send_message_healthy set_verified_remote_def into_transport_def is_complete_def MAX_HANDSHAKE_MSG_SIZE_def)
qed

text \<open>The payload of an honest party, and what its peer makes of it.\<close>

lemma honest_payload:
  fixes inst :: instant
  assumes K: "ct_eq_ok K" "blake3_ok K" "ed25519_ok K" "x25519_ok K"
    and "wf_keys K ik" and "keys_fingerprint K ik = Ok fp" and "length nonce = 12"
    and "\<bar>timestamp created\<bar> < 2 ^ 62" and "\<bar>timestamp created - timestamp clock\<bar> \<le> 30"
  obtains bs v where "length bs = 149" and "vi_fingerprint v = fp"
    and "\<And>h :: 'h handshake. hs_our_identity h = ik \<Longrightarrow> create_identity_payload K created nonce h = Ok bs"
    and "\<And>(h :: 'h handshake) n. hs_remote_fingerprint h = Some fp \<Longrightarrow> \<not> hs_cache_poisoned h \<Longrightarrow> hs_cache h = nonce_cache_new n \<Longrightarrow>
      \<exists>c. verify_identity_payload K clock inst bs h = (Ok v, h\<lparr> hs_cache := c \<rparr>)"
proof -
  obtain p where p: "bind_create K created nonce (ik_ed25519 ik) (x_pub (ik_x25519 ik)) = Ok p"
    by (simp add: bind_create_def Let_def)
  note v = bind_created_verifies [OF K assms(5,7,6,8) p assms(9)]
  show ?thesis
  proof (rule that [of "bind_to_bytes p"])
    show "length (bind_to_bytes p) = 149" using v length_bind_to_bytes by blast
    show "create_identity_payload K created nonce h = Ok (bind_to_bytes p)" if "hs_our_identity h = ik" for h :: "'h handshake"
      using that p by (simp add: create_identity_payload_def)
    show "\<exists>c. verify_identity_payload K clock inst (bind_to_bytes p) h =
        (Ok \<lparr> vi_ed25519_public = ed_pub (ik_ed25519 ik), vi_x25519_public = x_pub (ik_x25519 ik),
         vi_fingerprint = fp, vi_timestamp = bp_timestamp p, vi_nonce = nonce \<rparr>, h\<lparr> hs_cache := c \<rparr>)"
      if "hs_remote_fingerprint h = Some fp" "\<not> hs_cache_poisoned h" "hs_cache h = nonce_cache_new n" for h :: "'h handshake" and n
      using verify_identity_payload_honest [OF _ _ that] v by blast
  qed simp
qed

text \<open>
  Two honest parties, each fed with what the other writes and anything after it. Both handshakes leave the rest of the
  input untouched.
\<close>

lemma honest_handshake:
  assumes K: "ct_eq_ok K" "blake3_ok K" "ed25519_ok K" "x25519_ok K"
    and S: "snow_kk_ok K S paired"
    and a: "wf_keys K a" "keys_fingerprint K a = Ok fp_a" "length nonce_a = 12"
    and b: "wf_keys K b" "keys_fingerprint K b = Ok fp_b" "length nonce_b = 12"
    and clocks: "\<bar>timestamp created_a\<bar> < 2 ^ 62" "\<bar>timestamp created_a - timestamp clock_b\<bar> \<le> 30"
      "\<bar>timestamp created_b\<bar> < 2 ^ 62" "\<bar>timestamp created_b - timestamp clock_a\<bar> \<le> 30"
    and io: "healthy s_a" "tx s_a = []" "healthy s_b" "tx s_b = []"
  obtains h_a h_b bytes_a bytes_b t_a t_b v_a v_b where
    "new_initiator S a fp_b (x_pub (ik_x25519 b)) = Ok h_a" and "new_responder S b fp_a (x_pub (ik_x25519 a)) = Ok h_b"
    and "\<And>rest. \<exists>h. run_initiator_handshake K S Finished created_a nonce_a clock_a inst_a (h_a, s_a\<lparr> rx := bytes_b @ rest \<rparr>) =
      (Ok (\<lparr> tr_state = t_a, tr_poisoned = False \<rparr>, v_a), (h, s_a\<lparr> rx := rest, tx := bytes_a \<rparr>))"
    and "\<And>rest. \<exists>h. run_responder_handshake K S Finished created_b nonce_b clock_b inst_b (h_b, s_b\<lparr> rx := bytes_a @ rest \<rparr>) =
      (Ok (\<lparr> tr_state = t_b, tr_poisoned = False \<rparr>, v_b), (h, s_b\<lparr> rx := rest, tx := bytes_b \<rparr>))"
    and "vi_fingerprint v_a = fp_b" and "vi_fingerprint v_b = fp_a" and "paired t_a t_b" and "paired t_b t_a"
proof -
  obtain hi hr where build: "sn_params S = Ok ()"
      "sn_build_initiator S (x_secret (ik_x25519 a)) (x_pub (ik_x25519 b)) = Ok hi"
      "sn_build_responder S (x_secret (ik_x25519 b)) (x_pub (ik_x25519 a)) = Ok hr"
    and exchange: "kk_exchange S paired hi hr"
    using S a(1) b(1) by (rule snow_kk_exchange)
  define h_a where "h_a = \<lparr> hs_state = hi, hs_our_identity = a, hs_remote_fingerprint = Some fp_b,
      hs_verified_remote = None, hs_cache = nonce_cache_new 10000, hs_cache_poisoned = False \<rparr>"
  define h_b where "h_b = \<lparr> hs_state = hr, hs_our_identity = b, hs_remote_fingerprint = Some fp_a,
      hs_verified_remote = None, hs_cache = nonce_cache_new 10000, hs_cache_poisoned = False \<rparr>"
  obtain pa va where pa: "length pa = 149" "vi_fingerprint va = fp_a"
      "\<And>h :: 'a handshake. hs_our_identity h = a \<Longrightarrow> create_identity_payload K created_a nonce_a h = Ok pa"
      "\<And>(h :: 'a handshake) n. hs_remote_fingerprint h = Some fp_a \<Longrightarrow> \<not> hs_cache_poisoned h \<Longrightarrow> hs_cache h = nonce_cache_new n \<Longrightarrow>
        \<exists>c. verify_identity_payload K clock_b inst_b pa h = (Ok va, h\<lparr> hs_cache := c \<rparr>)"
    using honest_payload [OF K a clocks(1,2)] by blast
  obtain pb vb where pb: "length pb = 149" "vi_fingerprint vb = fp_b"
      "\<And>h :: 'a handshake. hs_our_identity h = b \<Longrightarrow> create_identity_payload K created_b nonce_b h = Ok pb"
      "\<And>(h :: 'a handshake) n. hs_remote_fingerprint h = Some fp_b \<Longrightarrow> \<not> hs_cache_poisoned h \<Longrightarrow> hs_cache h = nonce_cache_new n \<Longrightarrow>
        \<exists>c. verify_identity_payload K clock_a inst_a pb h = (Ok vb, h\<lparr> hs_cache := c \<rparr>)"
    using honest_payload [OF K b clocks(3,4)] by blast
  obtain m1 m2 hi1 hi2 hr1 hr2 ti tr where ex:
      "sn_hs_write S pa 4096 hi = (Ok m1, hi1)" "sn_hs_read S m1 4096 hr = (Ok pa, hr1)"
      "sn_hs_write S pb 4096 hr1 = (Ok m2, hr2)" "sn_hs_read S m2 4096 hi1 = (Ok pb, hi2)"
      "length m1 \<le> 4096" "length m2 \<le> 4096" "sn_finished S hi2" "sn_finished S hr2"
      "sn_into_transport S hi2 = Ok ti" "sn_into_transport S hr2 = Ok tr" "paired ti tr" "paired tr ti"
    using exchange [unfolded kk_exchange_def, rule_format, of pa pb] pa(1) pb(1) by auto
  obtain c where c: "verify_identity_payload K clock_a inst_a pb (h_a\<lparr> hs_state := hi2 \<rparr>) = (Ok vb, h_a\<lparr> hs_state := hi2, hs_cache := c \<rparr>)"
    using pb(4) [of "h_a\<lparr> hs_state := hi2 \<rparr>" 10000] by (auto simp: h_a_def)
  obtain d where d: "verify_identity_payload K clock_b inst_b pa (h_b\<lparr> hs_state := hr1 \<rparr>) = (Ok va, h_b\<lparr> hs_state := hr1, hs_cache := d \<rparr>)"
    using pa(4) [of "h_b\<lparr> hs_state := hr1 \<rparr>" 10000] by (auto simp: h_b_def)
  have ca: "create_identity_payload K created_a nonce_a h_a = Ok pa" by (rule pa(3)) (simp add: h_a_def)
  have cb: "hs_our_identity h' = hs_our_identity h_b \<Longrightarrow> create_identity_payload K created_b nonce_b h' = Ok pb" for h' :: "'a handshake"
    by (rule pb(3)) (simp add: h_b_def)
  have A: "\<exists>h. perform_initiator_handshake K S created_a nonce_a clock_a inst_a (h_a, s_a\<lparr> rx := wire m2 @ rest \<rparr>) =
      (Ok (\<lparr> tr_state = ti, tr_poisoned = False \<rparr>, vb), (h, s_a\<lparr> rx := rest, tx := wire m1 \<rparr>))" for rest
    using initiator_honest [OF ca _ ex(4) ex(6) _ _ c ex(7) ex(9), of m1 "s_a\<lparr> rx := wire m2 @ rest \<rparr>" rest] ex io
    by (auto simp: h_a_def healthy_def)
  have B: "\<exists>h. perform_responder_handshake K S created_b nonce_b clock_b inst_b (h_b, s_b\<lparr> rx := wire m1 @ rest \<rparr>) =
      (Ok (\<lparr> tr_state = tr, tr_poisoned = False \<rparr>, va), (h, s_b\<lparr> rx := rest, tx := wire m2 \<rparr>))" for rest
    using responder_honest [OF ex(5) _ _ _ d cb ex(3) ex(8) ex(10), of "s_b\<lparr> rx := wire m1 @ rest \<rparr>" rest] ex io
    by (auto simp: h_b_def healthy_def)
  have new: "new_initiator S a fp_b (x_pub (ik_x25519 b)) = Ok h_a" "new_responder S b fp_a (x_pub (ik_x25519 a)) = Ok h_b"
    using build by (simp_all add: new_initiator_def new_initiator_with_cache_def new_responder_def new_responder_with_cache_def
        new_handshake_Ok h_a_def h_b_def)
  show ?thesis
    by (rule that [OF new]) (unfold run_initiator_handshake_def run_responder_handshake_def race_with.simps,
        rule A, rule B, simp_all add: ex pa(2) pb(2))
qed

section \<open>A reference instance\<close>

text \<open>
  A stand-in for \<open>snow\<close> that satisfies the two predicates, and one honest payload, for the
  witnesses below.
\<close>

definition ref_snow :: "(bool \<times> nat, nat) snow" where
  "ref_snow = \<lparr>
     sn_params = Ok (), sn_build_initiator = (\<lambda>a b. Ok (True, 0)), sn_build_responder = (\<lambda>a b. Ok (False, 0)),
     sn_hs_read = (\<lambda>m cap (i, n). (Ok (drop 48 m), (i, Suc n))),
     sn_hs_write = (\<lambda>p cap (i, n). (Ok (replicate 48 0 @ p), (i, Suc n))),
     sn_finished = (\<lambda>(i, n). n = 2), sn_into_transport = (\<lambda>h. Ok 0),
     sn_write = (\<lambda>m cap t. if length m + 16 > 65535 then (Err [], t) else (Ok (replicate 16 0 @ m), Suc t)),
     sn_read = (\<lambda>c cap t. (Ok (drop 16 c), Suc t)) \<rparr>"

lemma ref_snow_kk_ok: "snow_kk_ok K ref_snow (\<lambda>a b. True)"
  by (auto simp: snow_kk_ok_def kk_exchange_def ref_snow_def)

lemma ref_snow_transport_ok: "snow_transport_ok ref_snow (\<lambda>a b. True)"
  by (auto simp: snow_transport_ok_def ref_snow_def split: if_splits)

definition ref_keys :: identity_keys where
  "ref_keys = \<lparr> ik_ed25519 = \<lparr> ed_pub = replicate 32 1, ed_secret = replicate 32 1 \<rparr>,
     ik_x25519 = \<lparr> x_pub = replicate 32 2, x_secret = replicate 32 2 \<rparr> \<rparr>"

definition ref_payload :: bind_payload where
  "ref_payload = (case bind_create ref_crates (seconds 1000) (replicate 12 4) (ik_ed25519 ref_keys) (x_pub (ik_x25519 ref_keys)) of
     Ok p \<Rightarrow> p)"

definition ref_verified :: verified_identity where
  "ref_verified = \<lparr> vi_ed25519_public = replicate 32 1, vi_x25519_public = replicate 32 2,
     vi_fingerprint = Fingerprint (replicate 20 1), vi_timestamp = bp_timestamp ref_payload, vi_nonce = replicate 12 4 \<rparr>"

lemma ref_keys_wf: "wf_keys ref_crates ref_keys"
  by (simp add: wf_keys_def ref_keys_def ref_crates_def)

lemma ref_keys_fingerprint: "keys_fingerprint ref_crates ref_keys = Ok (Fingerprint (replicate 20 1))"
  unfolding keys_fingerprint_Ok [OF ref_blake3_ok] by (simp add: ref_keys_def ref_crates_def pad_to_def)

lemma ref_payload_verifies:
  "wf_payload ref_payload \<and>
   bind_verify ref_crates (seconds 1000) (Fingerprint (replicate 20 1)) ref_payload = Ok ref_verified"
proof -
  obtain p where p: "bind_create ref_crates (seconds 1000) (replicate 12 4) (ik_ed25519 ref_keys) (x_pub (ik_x25519 ref_keys)) = Ok p"
    by (simp add: bind_create_def Let_def)
  then have "ref_payload = p" by (simp add: ref_payload_def)
  with bind_created_verifies [OF ref_ct_eq_ok ref_blake3_ok ref_ed25519_ok ref_x25519_ok ref_keys_wf _ ref_keys_fingerprint _ p, of "seconds 1000"]
  show ?thesis by (simp add: timestamp_def seconds_def ref_verified_def ref_keys_def)
qed

definition ref_handshake :: "nonce_cache \<Rightarrow> (bool \<times> nat) handshake" where
  "ref_handshake cache = \<lparr> hs_state = (True, 0), hs_our_identity = ref_keys,
     hs_remote_fingerprint = Some (Fingerprint (replicate 20 1)), hs_verified_remote = None,
     hs_cache = cache, hs_cache_poisoned = False \<rparr>"

section \<open>Properties\<close>

text \<open>What a verified identity stands for: a fresh payload, signed by its key, whose keys hash to the expected fingerprint.\<close>

lemma authenticated_proof:
  assumes "ct_eq_ok K" and "blake3_ok K" and "hs_remote_fingerprint h = Some fp" and "wf_fingerprint fp"
    and "authenticated K clock inst h v"
  shows "vi_fingerprint v = fp
    \<and> fp = Fingerprint (take 20 (blake3 K (vi_ed25519_public v @ vi_x25519_public v)))
    \<and> \<bar>sint (vi_timestamp v) - timestamp clock\<bar> \<le> 30
    \<and> (\<exists>p. bp_ed25519_public p = vi_ed25519_public v \<and> bp_x25519_public p = vi_x25519_public v
        \<and> bp_timestamp p = vi_timestamp v \<and> bp_nonce p = vi_nonce v
        \<and> ed_verify K (vi_ed25519_public v) (signature_payload p) (bp_signature p))
    \<and> fst (check_and_insert inst fp (vi_nonce v) (hs_cache h))"
proof -
  from assms(3,5) obtain p where p: "wf_payload p" "bind_verify K clock fp p = Ok v"
    and fresh: "fst (check_and_insert inst (vi_fingerprint v) (vi_nonce v) (hs_cache h))"
    by (auto simp: authenticated_def)
  from p(2) have v: "verify_signature_and_freshness K clock p = Ok (bp_ed25519_public p, bp_x25519_public p)"
    "fp = Fingerprint (take 20 (blake3 K (bp_ed25519_public p @ bp_x25519_public p)))"
    "v = \<lparr> vi_ed25519_public = bp_ed25519_public p, vi_x25519_public = bp_x25519_public p,
       vi_fingerprint = fp, vi_timestamp = bp_timestamp p, vi_nonce = bp_nonce p \<rparr>"
    unfolding bind_verify_Ok [OF assms(1,2,4)] derive_fingerprint_Ok [OF assms(2)] by auto
  from v(1) have "\<bar>sint (bp_timestamp p) - timestamp clock\<bar> \<le> 30"
    "ed_verify K (bp_ed25519_public p) (signature_payload p) (bp_signature p)"
    unfolding verify_freshness_Ok by (auto simp: ed25519_verify_def split: if_splits)
  with v(2,3) fresh show ?thesis by auto
qed

text \<open>An initiator's run against a recorded honest answer.\<close>

definition ref_session :: io where
  "ref_session = \<lparr> rx = wire (replicate 48 0 @ bind_to_bytes ref_payload), rx_end = Io_Error True [], tx = [],
     tx_fault = \<lambda>_. None, flush_fault = \<lambda>_. None \<rparr>"

lemma ref_initiator_runs:
  "\<exists>h' s'. run_initiator_handshake ref_crates ref_snow Finished (seconds 1000) (replicate 12 9) (seconds 1000) 0
      (ref_handshake (nonce_cache_new 10000), ref_session) = (Ok (\<lparr> tr_state = 0, tr_poisoned = False \<rparr>, ref_verified), (h', s'))"
proof -
  let ?h = "ref_handshake (nonce_cache_new 10000)"
  obtain pay where pay: "create_identity_payload ref_crates (seconds 1000) (replicate 12 9) ?h = Ok pay"
    by (simp add: create_identity_payload_def bind_create_def Let_def)
  from verify_identity_payload_honest [of ref_crates "seconds 1000" "Fingerprint (replicate 20 1)" ref_payload _ "?h\<lparr> hs_state := (True, 2) \<rparr>" 10000 0]
  obtain c where c: "verify_identity_payload ref_crates (seconds 1000) 0 (bind_to_bytes ref_payload) (?h\<lparr> hs_state := (True, 2) \<rparr>) =
      (Ok ref_verified, ?h\<lparr> hs_state := (True, 2), hs_cache := c \<rparr>)"
    using ref_payload_verifies by (auto simp: ref_handshake_def)
  have "length (bind_to_bytes ref_payload) = 149" using ref_payload_verifies by (simp add: length_bind_to_bytes)
  with initiator_honest [OF pay _ _ _ _ _ c, of ref_snow "replicate 48 0 @ pay" "(True, 1)" "replicate 48 0 @ bind_to_bytes ref_payload"
      ref_session "[]" 0]
  show ?thesis by (auto simp: ref_snow_def healthy_def ref_handshake_def ref_session_def numeral_2_eq_2 run_initiator_handshake_def)
qed

text \<open>
  C1: no transport without authentication. If a handshake in either role returns a
  transport and an identity, then the remote side presented a binding payload that
  verified against the expected fingerprint (fresh, correctly signed, keys hashing to
  that fingerprint), its nonce was not in the replay cache, and the identity returned has
  exactly the expected fingerprint; a timed-out or cancelled handshake never returns one.
\<close>

theorem handshake_authenticates:
  assumes "ct_eq_ok K" and "blake3_ok K" and "hs_remote_fingerprint h = Some fp" and "wf_fingerprint fp"
    and "run_initiator_handshake K S race created nonce clock inst (h, s) = (Ok (tr, v), (h', s'))
      \<or> run_responder_handshake K S race created nonce clock inst (h, s) = (Ok (tr, v), (h', s'))"
  shows "race = Finished \<and> vi_fingerprint v = fp
    \<and> fp = Fingerprint (take 20 (blake3 K (vi_ed25519_public v @ vi_x25519_public v)))
    \<and> \<bar>sint (vi_timestamp v) - timestamp clock\<bar> \<le> 30
    \<and> (\<exists>p. bp_ed25519_public p = vi_ed25519_public v \<and> bp_x25519_public p = vi_x25519_public v
        \<and> bp_timestamp p = vi_timestamp v \<and> bp_nonce p = vi_nonce v
        \<and> ed_verify K (vi_ed25519_public v) (signature_payload p) (bp_signature p))
    \<and> fst (check_and_insert inst fp (vi_nonce v) (hs_cache h))"
proof -
  have "race = Finished" and auth: "authenticated K clock inst h v"
    using assms(5) initiator_authenticates responder_authenticates
    by (auto simp: run_initiator_handshake_def run_responder_handshake_def race_with_Ok)
  with authenticated_proof [OF assms(1-4) auth] show ?thesis by blast
qed

theorem handshake_authenticates_witness:
  "\<exists>h t v e. run_initiator_handshake ref_crates ref_snow Finished (seconds 1000) (replicate 12 9) (seconds 1000) 0
      (h, ref_session) = (Ok (t, v), e)
    \<and> hs_remote_fingerprint h = Some (Fingerprint (replicate 20 1)) \<and> vi_fingerprint v = Fingerprint (replicate 20 1)"
proof -
  let ?h = "ref_handshake (nonce_cache_new 10000)"
  from ref_initiator_runs obtain h' s' where
    r: "run_initiator_handshake ref_crates ref_snow Finished (seconds 1000) (replicate 12 9) (seconds 1000) 0
      (?h, ref_session) = (Ok (\<lparr> tr_state = 0, tr_poisoned = False \<rparr>, ref_verified), (h', s'))" by blast
  from handshake_authenticates [OF ref_ct_eq_ok ref_blake3_ok _ _ disjI1 [OF r]]
  have "vi_fingerprint ref_verified = Fingerprint (replicate 20 1)" by (simp add: ref_handshake_def wf_fingerprint_def)
  then show ?thesis using r by (intro exI [of _ ?h]) (auto simp: ref_handshake_def)
qed

text \<open>
  a shared nonce cache stops replays across connections. Once one handshake accepted a
  binding payload, another handshake that uses the same cache, after fewer other checks
  than its capacity and within 60 s, does not accept the same payload bytes.
\<close>

theorem shared_cache_rejects_replay:
  assumes "ct_eq_ok K" and "blake3_ok K"
    and "wf_cache t0 (hs_cache h)" and "sorted (t0 # inst # map fst between @ [inst'])"
    and "verify_identity_payload K clock inst payload h = (Ok v, h1)"
    and "hs_cache h2 = run_checks between (hs_cache h1)" and "length between < nc_max_entries (hs_cache h)"
    and "inst' - inst \<le> seconds 60"
    and "pred_option wf_fingerprint (hs_remote_fingerprint h)" and "pred_option wf_fingerprint (hs_remote_fingerprint h2)"
  shows "\<not> is_ok (fst (verify_identity_payload K clock' inst' payload h2))"
proof
  assume "is_ok (fst (verify_identity_payload K clock' inst' payload h2))"
  then obtain w h3 where w: "verify_identity_payload K clock' inst' payload h2 = (Ok w, h3)"
    by (cases "verify_identity_payload K clock' inst' payload h2") (auto simp: is_ok_conv)
  from assms(5) obtain p fp c where p: "bind_from_bytes payload = Ok p" "hs_remote_fingerprint h = Some fp"
    "bind_verify K clock fp p = Ok v" "check_and_insert inst (vi_fingerprint v) (vi_nonce v) (hs_cache h) = (True, c)"
    "hs_cache h1 = c" by (auto simp: verify_identity_payload_Ok)
  from w p(1) obtain fp' d where q: "hs_remote_fingerprint h2 = Some fp'" "bind_verify K clock' fp' p = Ok w"
    "check_and_insert inst' (vi_fingerprint w) (vi_nonce w) (hs_cache h2) = (True, d)"
    by (auto simp: verify_identity_payload_Ok)
  have wf: "wf_fingerprint fp" "wf_fingerprint fp'" using assms(9,10) p(2) q(1) by simp_all
  have same: "vi_fingerprint w = vi_fingerprint v" "vi_nonce w = vi_nonce v"
    using p(3) q(2) unfolding bind_verify_Ok [OF assms(1,2) wf(1)] bind_verify_Ok [OF assms(1,2) wf(2)] by auto
  have le: "t0 \<le> inst" and srt: "sorted (inst # map fst between @ [inst'])" using assms(4) by auto
  have wfc: "wf_cache inst c" using check_and_insert_wf [OF assms(3) le] p(4) by (metis snd_conv)
  have qu: "queued (vi_fingerprint v, vi_nonce v) inst 0 c"
    using accepted_queued [OF assms(3)] p(4) by (metis fst_conv snd_conv)
  have cap: "0 + length between < nc_max_entries c"
    using assms(7) max_entries_kept [of inst "vi_fingerprint v" "vi_nonce v" "hs_cache h"] p(4) by simp
  have ttl: "inst' - inst \<le> seconds NONCE_CACHE_TTL_SECS" using assms(8) by (simp add: NONCE_CACHE_TTL_SECS_def)
  have "\<not> fst (check_and_insert inst' (vi_fingerprint v) (vi_nonce v) (run_checks between c))"
    by (rule queued_rejected [OF run_checks_wf [OF wfc srt] queued_run [OF wfc qu srt ttl cap] ttl])
  with q(3) same assms(6) p(5) show False by simp
qed

theorem shared_cache_rejects_replay_witness:
  "\<exists>h1. verify_identity_payload ref_crates (seconds 1000) 0 (bind_to_bytes ref_payload) (ref_handshake (nonce_cache_new 10000)) = (Ok ref_verified, h1)
    \<and> \<not> is_ok (fst (verify_identity_payload ref_crates (seconds 1000) (seconds 60) (bind_to_bytes ref_payload) (ref_handshake (hs_cache h1))))"
proof -
  let ?h = "ref_handshake (nonce_cache_new 10000)"
  obtain c where c: "verify_identity_payload ref_crates (seconds 1000) 0 (bind_to_bytes ref_payload) ?h =
      (Ok ref_verified, ?h\<lparr> hs_cache := c \<rparr>)"
    using verify_identity_payload_honest [of ref_crates "seconds 1000" "Fingerprint (replicate 20 1)" ref_payload ref_verified ?h 10000 0]
      ref_payload_verifies by (auto simp: ref_handshake_def)
  have "\<not> is_ok (fst (verify_identity_payload ref_crates (seconds 1000) (seconds 60) (bind_to_bytes ref_payload) (ref_handshake c)))"
    using shared_cache_rejects_replay [OF ref_ct_eq_ok ref_blake3_ok _ _ c, of 0 "[]" "seconds 60" "ref_handshake c"]
    by (simp add: ref_handshake_def nonce_cache_new_wf wf_fingerprint_def seconds_def) (simp add: nonce_cache_new_def)
  with c show ?thesis by (simp add: ref_handshake_def)
qed

text \<open>
  a cache per handshake does not. Two handshakes made with \<open>new_responder\<close>, which
  creates a fresh cache each time as the server does, both accept the same captured
  payload as long as its time stamp is within 30 s of the clock.
\<close>

theorem fresh_cache_accepts_replay:
  assumes "ct_eq_ok K" and "blake3_ok K" and "wf_fingerprint fp"
    and "new_responder S our fp remote_x = Ok h" and "new_responder S our fp remote_x = Ok h2"
    and "verify_identity_payload K clock inst payload h = (Ok v, h1)"
    and "\<bar>sint (vi_timestamp v) - timestamp clock'\<bar> \<le> 30" and "\<bar>timestamp clock'\<bar> < 2 ^ 62"
  shows "fst (verify_identity_payload K clock' inst' payload h2) = Ok v"
proof -
  have h2: "hs_remote_fingerprint h2 = Some fp" "\<not> hs_cache_poisoned h2" "hs_cache h2 = nonce_cache_new 10000"
    and h: "hs_remote_fingerprint h = Some fp"
    using assms(4,5) by (auto simp: new_responder_def new_responder_with_cache_def new_handshake_Ok)
  from assms(6) h obtain p where p: "bind_from_bytes payload = Ok p" "bind_verify K clock fp p = Ok v"
    by (auto simp: verify_identity_payload_Ok)
  have wf: "wf_payload p" and enc: "bind_to_bytes p = payload"
    using p(1) by (auto intro: bind_from_bytes_wf bind_to_from_bytes)
  have "bind_verify K clock' fp p = Ok v"
    using p(2) assms(7,8) unfolding bind_verify_Ok [OF assms(1-3)] verify_freshness_Ok by auto
  from verify_identity_payload_honest [OF this wf h2, of inst'] enc show ?thesis by auto
qed

theorem fresh_cache_accepts_replay_witness:
  "\<exists>h. new_responder ref_snow ref_keys (Fingerprint (replicate 20 1)) (replicate 32 2) = Ok h
    \<and> fst (verify_identity_payload ref_crates (seconds 1000) 0 (bind_to_bytes ref_payload) h) = Ok ref_verified
    \<and> fst (verify_identity_payload ref_crates (seconds 1020) (seconds 20) (bind_to_bytes ref_payload) h) = Ok ref_verified"
proof -
  let ?h = "ref_handshake (nonce_cache_new 10000)\<lparr> hs_state := (False, 0) \<rparr>"
  have h: "new_responder ref_snow ref_keys (Fingerprint (replicate 20 1)) (replicate 32 2) = Ok ?h"
    by (simp add: new_responder_def new_responder_with_cache_def new_handshake_def ref_snow_def ref_handshake_def)
  obtain c where c: "verify_identity_payload ref_crates (seconds 1000) 0 (bind_to_bytes ref_payload) ?h =
      (Ok ref_verified, ?h\<lparr> hs_cache := c \<rparr>)"
    using verify_identity_payload_honest [of ref_crates "seconds 1000" "Fingerprint (replicate 20 1)" ref_payload ref_verified ?h 10000 0]
      ref_payload_verifies by (auto simp: ref_handshake_def)
  have "bp_timestamp ref_payload = 1000"
    by (simp add: ref_payload_def bind_create_def Let_def timestamp_def seconds_def)
  with fresh_cache_accepts_replay [OF ref_ct_eq_ok ref_blake3_ok _ h h c, of "seconds 1020" "seconds 20"]
  have "fst (verify_identity_payload ref_crates (seconds 1020) (seconds 20) (bind_to_bytes ref_payload) ?h) = Ok ref_verified"
    by (simp add: wf_fingerprint_def ref_verified_def timestamp_def seconds_def)
  with h c show ?thesis by (intro exI [of _ ?h]) simp
qed

text \<open>
  C3: honest parties connect. If both sides hold well-formed keys, know each other's fingerprint
  and X25519 key, and their clocks agree within 30 s, then the initiator and responder
  handshakes, each fed with exactly the bytes the other writes, both complete; each side
  gets the other's fingerprint as verified identity, and the two transports belong together.
\<close>

theorem honest_handshake_completes:
  assumes K: "ct_eq_ok K" "blake3_ok K" "ed25519_ok K" "x25519_ok K"
    and S: "snow_kk_ok K S paired"
    and a: "wf_keys K a" "keys_fingerprint K a = Ok fp_a" "length nonce_a = 12"
    and b: "wf_keys K b" "keys_fingerprint K b = Ok fp_b" "length nonce_b = 12"
    and clocks: "\<bar>timestamp created_a\<bar> < 2 ^ 62" "\<bar>timestamp created_a - timestamp clock_b\<bar> \<le> 30"
      "\<bar>timestamp created_b\<bar> < 2 ^ 62" "\<bar>timestamp created_b - timestamp clock_a\<bar> \<le> 30"
    and io: "healthy s_a" "tx s_a = []" "healthy s_b" "tx s_b = []"
  shows "\<exists>h_a h_b bytes_a bytes_b t_a t_b v_a v_b end_a end_b.
    new_initiator S a fp_b (x_pub (ik_x25519 b)) = Ok h_a
    \<and> new_responder S b fp_a (x_pub (ik_x25519 a)) = Ok h_b
    \<and> run_initiator_handshake K S Finished created_a nonce_a clock_a inst_a (h_a, s_a\<lparr> rx := bytes_b \<rparr>) = (Ok (t_a, v_a), end_a)
    \<and> run_responder_handshake K S Finished created_b nonce_b clock_b inst_b (h_b, s_b\<lparr> rx := bytes_a \<rparr>) = (Ok (t_b, v_b), end_b)
    \<and> tx (snd end_a) = bytes_a \<and> tx (snd end_b) = bytes_b
    \<and> vi_fingerprint v_a = fp_b \<and> vi_fingerprint v_b = fp_a
    \<and> paired (tr_state t_a) (tr_state t_b) \<and> paired (tr_state t_b) (tr_state t_a)"
proof -
  from honest_handshake [OF assms, of inst_a inst_b]
  obtain h_a h_b bytes_a bytes_b t_a t_b v_a v_b where new: "new_initiator S a fp_b (x_pub (ik_x25519 b)) = Ok h_a"
      "new_responder S b fp_a (x_pub (ik_x25519 a)) = Ok h_b"
    and run: "\<And>rest. \<exists>h. run_initiator_handshake K S Finished created_a nonce_a clock_a inst_a (h_a, s_a\<lparr> rx := bytes_b @ rest \<rparr>) =
      (Ok (\<lparr> tr_state = t_a, tr_poisoned = False \<rparr>, v_a), (h, s_a\<lparr> rx := rest, tx := bytes_a \<rparr>))"
      "\<And>rest. \<exists>h. run_responder_handshake K S Finished created_b nonce_b clock_b inst_b (h_b, s_b\<lparr> rx := bytes_a @ rest \<rparr>) =
      (Ok (\<lparr> tr_state = t_b, tr_poisoned = False \<rparr>, v_b), (h, s_b\<lparr> rx := rest, tx := bytes_b \<rparr>))"
    and ends: "vi_fingerprint v_a = fp_b" "vi_fingerprint v_b = fp_a" "paired t_a t_b" "paired t_b t_a"
    by metis
  from run(1) [of "[]"] run(2) [of "[]"] obtain ea eb where
    "run_initiator_handshake K S Finished created_a nonce_a clock_a inst_a (h_a, s_a\<lparr> rx := bytes_b \<rparr>) =
      (Ok (\<lparr> tr_state = t_a, tr_poisoned = False \<rparr>, v_a), (ea, s_a\<lparr> rx := [], tx := bytes_a \<rparr>))"
    "run_responder_handshake K S Finished created_b nonce_b clock_b inst_b (h_b, s_b\<lparr> rx := bytes_a \<rparr>) =
      (Ok (\<lparr> tr_state = t_b, tr_poisoned = False \<rparr>, v_b), (eb, s_b\<lparr> rx := [], tx := bytes_b \<rparr>))"
    by auto
  with new ends show ?thesis by (intro exI conjI) (assumption | simp)+
qed

theorem honest_handshake_completes_witness:
  "\<exists>h_a h_b bytes_a bytes_b t_a t_b v_a v_b end_a end_b.
    run_initiator_handshake ref_crates ref_snow Finished (seconds 1000) (replicate 12 4) (seconds 1010) 0
      (h_a, \<lparr> rx = bytes_b, rx_end = Io_Error True [], tx = [], tx_fault = \<lambda>_. None, flush_fault = \<lambda>_. None \<rparr>) = (Ok (t_a, v_a), end_a)
    \<and> run_responder_handshake ref_crates ref_snow Finished (seconds 1005) (replicate 12 5) (seconds 1004) 0
      (h_b, \<lparr> rx = bytes_a, rx_end = Io_Error True [], tx = [], tx_fault = \<lambda>_. None, flush_fault = \<lambda>_. None \<rparr>) = (Ok (t_b, v_b), end_b)
    \<and> tx (snd end_a) = bytes_a \<and> tx (snd end_b) = bytes_b"
proof -
  let ?s = "\<lparr> rx = [], rx_end = Io_Error True [], tx = [], tx_fault = \<lambda>_. None, flush_fault = \<lambda>_. None \<rparr>"
  have s: "healthy ?s" "tx ?s = []" by (simp_all add: healthy_def)
  have c: "\<bar>timestamp (seconds 1000)\<bar> < 2 ^ 62" "\<bar>timestamp (seconds 1000) - timestamp (seconds 1004)\<bar> \<le> 30"
    "\<bar>timestamp (seconds 1005)\<bar> < 2 ^ 62" "\<bar>timestamp (seconds 1005) - timestamp (seconds 1010)\<bar> \<le> 30"
    by (simp_all add: timestamp_def seconds_def)
  have n: "length (replicate 12 4 :: bytes) = 12" "length (replicate 12 5 :: bytes) = 12" by simp_all
  from honest_handshake_completes [OF ref_ct_eq_ok ref_blake3_ok ref_ed25519_ok ref_x25519_ok ref_snow_kk_ok
      ref_keys_wf ref_keys_fingerprint n(1) ref_keys_wf ref_keys_fingerprint n(2) c s s, of 0 0]
  show ?thesis by simp blast
qed

text \<open>
  effective size limit of the transport. Whatever \<open>encrypt\<close> returns is exactly 16 bytes
  longer than the plaintext and at most 65535 bytes; so although the code admits plaintexts of up to
  1 MiB, one of more than 65519 bytes is always refused. A larger plaintext than 1 MiB is
  refused with \<open>MessageTooLarge\<close>.
\<close>

theorem transport_encrypt_bound:
  assumes "snow_transport_ok S paired"
  shows "case transport_encrypt S m t of
      (Ok c, t') \<Rightarrow> length c = length m + 16 \<and> length c \<le> 65535
    | (Err e, t') \<Rightarrow> (length m > 1048576 \<longrightarrow> e = MessageTooLarge (length m) 1048576)
    | (Panic, t') \<Rightarrow> True"
proof -
  obtain r st where w: "sn_write S m (length m + 16) (tr_state t) = (r, st)" by fastforce
  have "length c = length m + 16 \<and> length c \<le> 65535" if "r = Ok c" for c
  proof -
    have "length c = length m + 16" using snow_transport_okD(3) [OF assms] w that by blast
    moreover have "\<not> length m + 16 > 65535"
      using snow_transport_okD(2) [OF assms, of m "length m + 16" "tr_state t"] w that by auto
    ultimately show ?thesis by simp
  qed
  with w show ?thesis
    by (cases r) (auto simp: transport_encrypt_def amap_err_def on_transport_def AEAD_TAG_SIZE_def MAX_TRANSPORT_MSG_SIZE_def)
qed

theorem transport_encrypt_bound_witness:
  "\<not> is_ok (fst (transport_encrypt ref_snow (replicate 65536 0) \<lparr> tr_state = 0, tr_poisoned = False \<rparr>))"
  using transport_encrypt_bound [OF ref_snow_transport_ok, of "replicate 65536 0" "\<lparr> tr_state = 0, tr_poisoned = False \<rparr>"]
  by (auto simp: is_ok_conv split: prod.splits)

end
