(* ===== verification/Frame_Codec.thy ===== *)
theory Frame_Codec
  imports Byte_Stream
begin

text \<open>
  \<open>crates/networking/src/error.rs\<close> and \<open>protocol/codec.rs\<close>: the network error enum with its
  \<open>Display\<close> text, and the codec for encrypted frames.
\<close>

section \<open>Network errors\<close>

datatype network_error =
    ConnectionFailed string | ConnectionTimeout string | BindFailed string | AcceptFailed string
  | Net_HandshakeFailed string | Net_HandshakeTimeout nat | Net_HandshakeCancelled
  | IdentityMismatch string | PeerRejected string | PeerNotFound string | PeerNotTrusted string
  | PeerNotConnected string | PeerLimitExceeded nat | ConnectionLimitExceeded nat
  | AlreadyConnected string | InvalidPeerData string | Net_EncryptionFailed string
  | Net_DecryptionFailed string | SendFailed string | RecvFailed string
  | FrameTooLarge nat nat | ConnectionClosed | Net_TransportClosed string
  | Net_MessageTooLarge nat nat | MdnsError string | UdpError string | Net_Internal string

fun display_network_error :: "network_error \<Rightarrow> string" where
  "display_network_error (ConnectionFailed e) = ''connection failed: '' @ e"
| "display_network_error (ConnectionTimeout e) = ''connection timeout: '' @ e"
| "display_network_error (BindFailed e) = ''bind failed: '' @ e"
| "display_network_error (AcceptFailed e) = ''accept failed: '' @ e"
| "display_network_error (Net_HandshakeFailed e) = ''handshake failed: '' @ e"
| "display_network_error (Net_HandshakeTimeout n) = ''handshake timeout after '' @ nat_str n @ ''s''"
| "display_network_error Net_HandshakeCancelled = ''handshake cancelled''"
| "display_network_error (IdentityMismatch e) = ''identity mismatch: '' @ e"
| "display_network_error (PeerRejected e) = ''peer rejected: '' @ e"
| "display_network_error (PeerNotFound e) = ''peer not found: '' @ e"
| "display_network_error (PeerNotTrusted e) = ''peer not trusted: '' @ e"
| "display_network_error (PeerNotConnected e) = ''peer not connected: '' @ e"
| "display_network_error (PeerLimitExceeded n) = ''peer limit exceeded: max '' @ nat_str n"
| "display_network_error (ConnectionLimitExceeded n) = ''connection limit exceeded: max '' @ nat_str n"
| "display_network_error (AlreadyConnected e) = ''already connected to: '' @ e"
| "display_network_error (InvalidPeerData e) = ''invalid peer data: '' @ e"
| "display_network_error (Net_EncryptionFailed e) = ''encryption failed: '' @ e"
| "display_network_error (Net_DecryptionFailed e) = ''decryption failed: '' @ e"
| "display_network_error (SendFailed e) = ''send failed: '' @ e"
| "display_network_error (RecvFailed e) = ''receive failed: '' @ e"
| "display_network_error (FrameTooLarge n limit) =
     ''frame too large: '' @ nat_str n @ '' bytes, max '' @ nat_str limit"
| "display_network_error ConnectionClosed = ''connection closed''"
| "display_network_error (Net_TransportClosed e) = ''transport closed: '' @ e"
| "display_network_error (Net_MessageTooLarge n limit) =
     ''message too large: '' @ nat_str n @ '' bytes, max '' @ nat_str limit"
| "display_network_error (MdnsError e) = ''mDNS error: '' @ e"
| "display_network_error (UdpError e) = ''UDP error: '' @ e"
| "display_network_error (Net_Internal e) = ''internal error: '' @ e"

section \<open>The codec\<close>

definition MAX_FRAME_SIZE :: nat where "MAX_FRAME_SIZE = 65536 + 64"

definition codec_encode :: "bytes \<Rightarrow> (bytes, network_error) result" where
  "codec_encode d =
     (if length d \<le> MAX_FRAME_SIZE then Ok (u32_to_be (word_of_nat (length d)) @ d) else Panic)"

definition read_error :: "string \<Rightarrow> io_error \<Rightarrow> network_error" where
  "read_error what e = (if is_eof e then ConnectionClosed else RecvFailed (what @ io_text e))"

definition codec_decode :: "(io, bytes, network_error) action" where
  "codec_decode =
     recv_frame MAX_FRAME_SIZE (read_error ''read length: '')
       (\<lambda>len. FrameTooLarge len MAX_FRAME_SIZE) (read_error ''read payload: '')"

primrec encode_all :: "bytes list \<Rightarrow> (bytes, network_error) result" where
  "encode_all [] = Ok []"
| "encode_all (d # ds) =
     rbind (codec_encode d) (\<lambda>f. rbind (encode_all ds) (\<lambda>fs. Ok (f @ fs)))"

section \<open>The contract holds\<close>

interpretation codec: length_framing "\<lambda>d. case codec_encode d of Ok f \<Rightarrow> f | _ \<Rightarrow> []" codec_decode MAX_FRAME_SIZE
proof
  show "MAX_FRAME_SIZE < 2 ^ 32" by (simp add: MAX_FRAME_SIZE_def)
  show "length d \<le> MAX_FRAME_SIZE \<Longrightarrow> (case codec_encode d of Ok f \<Rightarrow> f | _ \<Rightarrow> []) = wire d" for d
    by (simp add: codec_encode_def wire_def)
  show "codec_decode s = (Ok d, s\<lparr> rx := rest \<rparr>)"
    if "length d \<le> MAX_FRAME_SIZE" "rx s = wire d @ rest" for d s rest
    unfolding codec_decode_def using that by (intro recv_frame_wire) (simp_all add: MAX_FRAME_SIZE_def)
  show "codec_decode s = (Ok d, t) \<Longrightarrow> length d \<le> MAX_FRAME_SIZE \<and> rx s = wire d @ rx t" for s d t
    unfolding codec_decode_def by (rule recv_frame_sound)
qed

lemma codec_encode_Ok:
  "codec_encode d = Ok f \<longleftrightarrow> length d \<le> MAX_FRAME_SIZE \<and> f = wire d"
  by (auto simp: codec_encode_def wire_def)

lemma encode_all_Ok:
  "encode_all ds = Ok bs \<longleftrightarrow> (\<forall>d\<in>set ds. length d \<le> MAX_FRAME_SIZE) \<and> bs = concat (map wire ds)"
  by (induction ds arbitrary: bs) (auto simp: codec_encode_Ok)

section \<open>Properties\<close>

text \<open>
  frames survive the stream. If a sequence of payloads is encoded and the bytes arrive,
  followed by anything, then decoding that many frames gives back exactly the payloads in
  order and leaves exactly the bytes that followed.
\<close>

theorem codec_stream_roundtrip:
  assumes "encode_all ds = Ok bs" and "rx s = bs @ rest"
  shows "recv_many codec_decode (length ds) s = (Ok ds, s\<lparr> rx := rest \<rparr>)"
proof -
  have le: "\<forall>d\<in>set ds. length d \<le> MAX_FRAME_SIZE" and bs: "bs = concat (map wire ds)"
    using assms(1) by (simp_all add: encode_all_Ok)
  have "map (\<lambda>d. case codec_encode d of Ok f \<Rightarrow> f | _ \<Rightarrow> []) ds = map wire ds"
    using le by (auto simp: codec.frame_wire)
  then show ?thesis using codec.recv_frames [OF le, of s rest] bs assms(2) by (simp only:)
qed

theorem codec_stream_roundtrip_witness:
  "recv_many codec_decode 3
     \<lparr> rx = [0, 0, 0, 2, 7, 8, 0, 0, 0, 0, 0, 0, 0, 1, 9, 42], rx_end = Io_Error True [], tx = [],
       tx_fault = \<lambda>_. None, flush_fault = \<lambda>_. None \<rparr>
   = (Ok [[7, 8], [], [9]],
      \<lparr> rx = [42], rx_end = Io_Error True [], tx = [], tx_fault = \<lambda>_. None, flush_fault = \<lambda>_. None \<rparr>)"
proof -
  have "encode_all [[7, 8], [], [9]] = Ok [0, 0, 0, 2, 7, 8, 0, 0, 0, 0, 0, 0, 0, 1, 9]"
    by (simp add: codec_encode_def MAX_FRAME_SIZE_def u32_to_be_def nat_to_le_numeral)
  from codec_stream_roundtrip [OF this, of
      "\<lparr> rx = [0, 0, 0, 2, 7, 8, 0, 0, 0, 0, 0, 0, 0, 1, 9, 42], rx_end = Io_Error True [], tx = [],
         tx_fault = \<lambda>_. None, flush_fault = \<lambda>_. None \<rparr>" "[42]"]
  show ?thesis by (simp add: eval_nat_numeral)
qed

text \<open>
  C16: The decoder on arbitrary input, case by case. On fewer than four bytes it ends with the stream: \<open>ConnectionClosed\<close> at
  its regular end and \<open>RecvFailed\<close> at a fault. When the first four bytes announce more than 65600 bytes,
  the answer is always \<open>FrameTooLarge\<close> with that length, and exactly these four bytes have been taken. When the
  announced payload has not arrived in full it ends with the stream again; otherwise it is returned, and exactly its frame is taken
  off the stream. It never panics.
\<close>

theorem codec_decode_hostile_input:
  "codec_decode s =
     (let n = unat (u32_from_be (take 4 (rx s)));
          ended = (\<lambda>what. (Err (if is_eof (rx_end s) then ConnectionClosed else RecvFailed (what @ io_text (rx_end s))), s\<lparr> rx := [] \<rparr>)) in
      if length (rx s) < 4 then ended ''read length: ''
      else if 65600 < n then (Err (FrameTooLarge n 65600), s\<lparr> rx := drop 4 (rx s) \<rparr>)
      else if length (rx s) < 4 + n then ended ''read payload: ''
      else (Ok (take n (drop 4 (rx s))), s\<lparr> rx := drop (4 + n) (rx s) \<rparr>))
   \<and> (case codec_decode s of (Ok d, t) \<Rightarrow> length d \<le> 65600 \<and> rx s = wire d @ rx t | (r, t) \<Rightarrow> is_err r)"
proof (cases rule: read_exact_cases [of s 4])
  case short
  then show ?thesis
    by (simp add: codec_decode_def recv_frame_short_prefix read_error_def Let_def)
next
  case (full pre rest)
  define w where "w = u32_from_be pre"
  have pre: "pre = u32_to_be w"
    using full(2) wire_of_prefix [of pre "replicate (unat w) 0"] by (simp add: w_def wire_def)
  have front: "take 4 (rx s) = pre" "drop 4 (rx s) = rest" "length (rx s) = 4 + length rest" "drop (4 + n) (rx s) = drop n rest" for n
    using full(1,2) by simp_all
  show ?thesis
  proof (cases "unat w > MAX_FRAME_SIZE")
    case True
    then have "codec_decode s = (Err (FrameTooLarge (unat w) 65600), s\<lparr> rx := rest \<rparr>)" using full(1) pre
      by (simp add: codec_decode_def recv_frame_oversize MAX_FRAME_SIZE_def)
    then show ?thesis using True front by (simp add: Let_def w_def [symmetric] MAX_FRAME_SIZE_def)
  next
    case False
    show ?thesis
    proof (cases "length rest < unat w")
      case True
      then have "codec_decode s = (Err (read_error ''read payload: '' (rx_end s)), s\<lparr> rx := [] \<rparr>)" using False full(1) pre
        by (simp add: codec_decode_def recv_frame_truncated)
      then show ?thesis using True False front by (simp add: Let_def w_def [symmetric] MAX_FRAME_SIZE_def read_error_def)
    next
      case complete: False
      have wire: "rx s = wire (take (unat w) rest) @ drop (unat w) rest"
        using full(1) pre complete by (simp add: wire_def)
      then have "codec_decode s = (Ok (take (unat w) rest), s\<lparr> rx := drop (unat w) rest \<rparr>)"
        using False by (intro codec.dec_frame) simp_all
      then show ?thesis using wire False complete front by (simp add: Let_def w_def [symmetric] MAX_FRAME_SIZE_def)
    qed
  qed
qed

end
