(* ===== verification/Connection.thy ===== *)
theory Connection
  imports Noise Frame_Codec
begin

text \<open>
  \<open>crates/networking/src/tcp/connection.rs\<close>, \<open>client.rs\<close> and \<open>server.rs\<close>: the encrypted
  connection (Noise transport over length-prefixed frames), the client that opens one, and the
  server that accepts them behind a semaphore of ten.
\<close>

section \<open>Encrypted connections\<close>

record 't connection =
  co_stream :: io
  co_transport :: "'t transport"
  co_peer :: fingerprint

definition connection_new :: "io \<Rightarrow> 't transport \<Rightarrow> fingerprint \<Rightarrow> 't connection" where
  "connection_new s t fp = \<lparr> co_stream = s, co_transport = t, co_peer = fp \<rparr>"

definition on_stream :: "(io, 'a, 'e) action \<Rightarrow> ('t connection, 'a, 'e) action" where
  "on_stream m c = (case m (co_stream c) of (r, s) \<Rightarrow> (r, c\<lparr> co_stream := s \<rparr>))"

definition on_co_transport :: "('t transport, 'a, 'e) action \<Rightarrow> ('t connection, 'a, 'e) action" where
  "on_co_transport m c = (case m (co_transport c) of (r, t) \<Rightarrow> (r, c\<lparr> co_transport := t \<rparr>))"

fun encrypt_error :: "crates \<Rightarrow> fingerprint \<Rightarrow> security_error \<Rightarrow> network_error" where
  "encrypt_error K fp TransportClosed = Net_TransportClosed (ascii_str (to_formatted_string K fp))"
| "encrypt_error K fp (MessageTooLarge n limit) = Net_MessageTooLarge n limit"
| "encrypt_error K fp e = Net_EncryptionFailed (display_security_error e)"

fun decrypt_error :: "crates \<Rightarrow> fingerprint \<Rightarrow> security_error \<Rightarrow> network_error" where
  "decrypt_error K fp TransportClosed = Net_TransportClosed (ascii_str (to_formatted_string K fp))"
| "decrypt_error K fp e = Net_DecryptionFailed (display_security_error e)"

definition conn_send :: "crates \<Rightarrow> ('h, 't) snow \<Rightarrow> bytes \<Rightarrow> ('t connection, unit, network_error) action" where
  "conn_send K S d c =
     abind (amap_err (encrypt_error K (co_peer c)) (on_co_transport (transport_encrypt S d))) (\<lambda>encrypted.
     abind (alift (codec_encode encrypted)) (\<lambda>frame.
     amap_err SendFailed (on_stream (write_all frame)))) c"

definition conn_recv :: "crates \<Rightarrow> ('h, 't) snow \<Rightarrow> ('t connection, bytes, network_error) action" where
  "conn_recv K S c =
     abind (on_stream codec_decode) (\<lambda>encrypted.
     amap_err (decrypt_error K (co_peer c)) (on_co_transport (transport_decrypt S encrypted))) c"

primrec send_all :: "crates \<Rightarrow> ('h, 't) snow \<Rightarrow> bytes list \<Rightarrow> ('t connection, unit, network_error) action" where
  "send_all K S [] = aret ()"
| "send_all K S (d # ds) = abind (conn_send K S d) (\<lambda>_. send_all K S ds)"

section \<open>Client\<close>

text \<open>
  Outcomes that the operating system decides: the TCP connect under its 5 s timeout, and the
  cloning of the stream for the handshake. The clone is the same socket.
\<close>

datatype tcp_connect = Tcp_Timeout | Tcp_Error string | Tcp_Stream io

fun client_error :: "security_error \<Rightarrow> network_error" where
  "client_error (HandshakeTimeout s) = Net_HandshakeTimeout s"
| "client_error HandshakeCancelled = Net_HandshakeCancelled"
| "client_error FingerprintMismatch = IdentityMismatch ''peer fingerprint does not match expected''"
| "client_error e = Net_HandshakeFailed (display_security_error e)"

definition client_connect ::
  "crates \<Rightarrow> ('h, 't) snow \<Rightarrow> identity_keys \<Rightarrow> string \<Rightarrow> fingerprint \<Rightarrow> bytes \<Rightarrow> tcp_connect \<Rightarrow> string option
    \<Rightarrow> 'h session race \<Rightarrow> datetime \<Rightarrow> bytes \<Rightarrow> datetime \<Rightarrow> instant \<Rightarrow> ('t connection, network_error) result" where
  "client_connect K S our addr remote_fp remote_x tcp clone_fault race created nonce clock inst =
     (case tcp of
        Tcp_Timeout \<Rightarrow> Err (ConnectionTimeout addr)
      | Tcp_Error e \<Rightarrow> Err (ConnectionFailed (addr @ '': '' @ e))
      | Tcp_Stream stream \<Rightarrow>
          rbind (map_err (\<lambda>e. Net_HandshakeFailed (''initiator setup: '' @ display_security_error e))
                   (new_initiator S our remote_fp remote_x)) (\<lambda>handshake.
          case clone_fault of
            Some e \<Rightarrow> Err (Net_Internal (''stream clone: '' @ e))
          | None \<Rightarrow>
              (case run_initiator_handshake K S race created nonce clock inst (handshake, stream) of
                 (r, (h, stream')) \<Rightarrow>
                   map_ok (\<lambda>(transport, verified). connection_new stream' transport remote_fp)
                     (map_err client_error r))))"

section \<open>Server\<close>

text \<open>
  \<open>handle_connection\<close>. The responder handshake is an argument: the source calls
  \<open>NoiseHandshake::new_responder\<close> with the identity alone, which matches no declared
  signature.
\<close>

definition handle_connection ::
  "crates \<Rightarrow> ('h, 't) snow \<Rightarrow> 'h handshake security_result \<Rightarrow> (verified_identity \<Rightarrow> bool) option \<Rightarrow> string option \<Rightarrow> io
    \<Rightarrow> 'h session race \<Rightarrow> datetime \<Rightarrow> bytes \<Rightarrow> datetime \<Rightarrow> instant \<Rightarrow> ('t connection, network_error) result" where
  "handle_connection K S setup validator clone_fault stream race created nonce clock inst =
     rbind (map_err (\<lambda>e. Net_HandshakeFailed (''responder setup: '' @ display_security_error e)) setup) (\<lambda>handshake.
     case clone_fault of
       Some e \<Rightarrow> Err (Net_Internal (''stream clone: '' @ e))
     | None \<Rightarrow>
         (case run_responder_handshake K S race created nonce clock inst (handshake, stream) of
            (r, (h, stream')) \<Rightarrow>
              rbind (map_err (\<lambda>e. Net_HandshakeFailed (display_security_error e)) r) (\<lambda>(transport, verified).
              if (case validator of Some accept \<Rightarrow> \<not> accept verified | None \<Rightarrow> False) then
                Err (PeerRejected (ascii_str (to_formatted_string K (vi_fingerprint verified))))
              else Ok (connection_new stream' transport (vi_fingerprint verified)))))"

text \<open>
  The accept loop: every accepted socket becomes a task, which first acquires one of ten
  permits, then handles its connection, and gives the permit back. Tasks are numbered in order of
  acceptance.
\<close>

record server =
  sv_accepted :: nat
  sv_waiting :: "nat set"
  sv_handshaking :: "nat set"
  sv_stopped :: "(unit, network_error) result option"

definition HANDSHAKE_PERMITS :: nat where "HANDSHAKE_PERMITS = 10"

definition server_start :: server where
  "server_start = \<lparr> sv_accepted = 0, sv_waiting = {}, sv_handshaking = {}, sv_stopped = None \<rparr>"

inductive server_step :: "server \<Rightarrow> server \<Rightarrow> bool" where
  accept: "sv_stopped s = None \<Longrightarrow>
     server_step s (s\<lparr> sv_accepted := Suc (sv_accepted s), sv_waiting := insert (sv_accepted s) (sv_waiting s) \<rparr>)"
| accept_error: "sv_stopped s = None \<Longrightarrow> server_step s (s\<lparr> sv_stopped := Some (Err (AcceptFailed e)) \<rparr>)"
| cancelled: "sv_stopped s = None \<Longrightarrow> server_step s (s\<lparr> sv_stopped := Some (Ok ()) \<rparr>)"
| acquire: "i \<in> sv_waiting s \<Longrightarrow> card (sv_handshaking s) < HANDSHAKE_PERMITS \<Longrightarrow>
     server_step s (s\<lparr> sv_waiting := sv_waiting s - {i}, sv_handshaking := insert i (sv_handshaking s) \<rparr>)"
| handled: "i \<in> sv_handshaking s \<Longrightarrow> server_step s (s\<lparr> sv_handshaking := sv_handshaking s - {i} \<rparr>)"

inductive server_reachable :: "server \<Rightarrow> bool" where
  start: "server_reachable server_start"
| step: "server_reachable s \<Longrightarrow> server_step s t \<Longrightarrow> server_reachable t"

section \<open>Lemmas\<close>

lemma write_all_healthy: "healthy s \<Longrightarrow> write_all d s = (Ok (), s\<lparr> tx := tx s @ d \<rparr>)"
  by (simp add: write_all_def healthy_def)

lemma transport_pair:
  assumes "snow_transport_ok S paired" and "paired (tr_state a) (tr_state b)" and "length m \<le> 65519"
    and "\<not> tr_poisoned a" and "\<not> tr_poisoned b"
  obtains c a' b' where "transport_encrypt S m a = (Ok c, a\<lparr> tr_state := a' \<rparr>)"
    "transport_decrypt S c b = (Ok m, b\<lparr> tr_state := b' \<rparr>)" "paired a' b'" "length c \<le> 65535"
proof -
  have "length m + 16 \<le> 65535" using assms(3) by simp
  from snow_transport_okD(4) [OF assms(1,2) this]
  obtain c a' b' where c: "sn_write S m (length m + 16) (tr_state a) = (Ok c, a')"
    "sn_read S c (length c) (tr_state b) = (Ok m, b')" "paired a' b'" by blast
  have len: "length c = length m + 16" using snow_transport_okD(3) [OF assms(1) c(1)] .
  have "transport_encrypt S m a = (Ok c, a\<lparr> tr_state := a' \<rparr>)"
    using c(1) assms(3,4)
    by (simp add: transport_encrypt_def amap_err_def on_transport_def AEAD_TAG_SIZE_def MAX_TRANSPORT_MSG_SIZE_def)
  moreover have "transport_decrypt S c b = (Ok m, b\<lparr> tr_state := b' \<rparr>)"
    using c(2) len assms(3,5)
    by (simp add: transport_decrypt_def amap_err_def on_transport_def MAX_TRANSPORT_FRAME_SIZE_def
        AEAD_TAG_SIZE_def MAX_TRANSPORT_MSG_SIZE_def)
  moreover have "length c \<le> 65535" using len assms(3) by linarith
  ultimately show ?thesis using c(3) by (intro that)
qed

text \<open>One message through a pair of connections.\<close>

lemma send_recv_one:
  assumes "snow_transport_ok S paired" and "paired (tr_state (co_transport a)) (tr_state (co_transport b))"
    and "length m \<le> 65519" and "\<not> tr_poisoned (co_transport a)" and "\<not> tr_poisoned (co_transport b)"
    and "healthy (co_stream a)"
  obtains f ta tb where "conn_send K S m a = (Ok (), a\<lparr> co_stream := (co_stream a)\<lparr> tx := tx (co_stream a) @ f \<rparr>,
        co_transport := (co_transport a)\<lparr> tr_state := ta \<rparr> \<rparr>)"
    "\<And>b' rest. co_transport b' = co_transport b \<Longrightarrow> rx (co_stream b') = f @ rest \<Longrightarrow>
       conn_recv K S b' = (Ok m, b'\<lparr> co_stream := (co_stream b')\<lparr> rx := rest \<rparr>,
         co_transport := (co_transport b)\<lparr> tr_state := tb \<rparr> \<rparr>)"
    "paired ta tb"
proof -
  obtain c a' b' where c: "transport_encrypt S m (co_transport a) = (Ok c, (co_transport a)\<lparr> tr_state := a' \<rparr>)"
    "transport_decrypt S c (co_transport b) = (Ok m, (co_transport b)\<lparr> tr_state := b' \<rparr>)" "paired a' b'" "length c \<le> 65535"
    using assms(1-5) by (rule transport_pair)
  have le: "length c \<le> MAX_FRAME_SIZE" using c(4) by (simp add: MAX_FRAME_SIZE_def)
  have enc: "codec_encode c = Ok (wire c)" using le by (simp add: codec_encode_Ok)
  have "conn_send K S m a = (Ok (), a\<lparr> co_stream := (co_stream a)\<lparr> tx := tx (co_stream a) @ wire c \<rparr>,
        co_transport := (co_transport a)\<lparr> tr_state := a' \<rparr> \<rparr>)"
    using c(1) enc assms(6)
    by (simp add: conn_send_def action_defs on_co_transport_def on_stream_def write_all_healthy)
  moreover have "conn_recv K S b0 = (Ok m, b0\<lparr> co_stream := (co_stream b0)\<lparr> rx := rest \<rparr>,
         co_transport := (co_transport b)\<lparr> tr_state := b' \<rparr> \<rparr>)"
    if "co_transport b0 = co_transport b" "rx (co_stream b0) = wire c @ rest" for b0 rest
    using codec.dec_frame [OF le that(2)] c(2) that(1)
    by (simp add: conn_recv_def action_defs on_co_transport_def on_stream_def)
  ultimately show ?thesis using c(3) by (rule that)
qed

text \<open>Any number of messages.\<close>

lemma send_all_recv_many:
  assumes "snow_transport_ok S paired" and "paired (tr_state (co_transport a)) (tr_state (co_transport b))"
    and "\<forall>m\<in>set ms. length m \<le> 65519" and "\<not> tr_poisoned (co_transport a)" and "\<not> tr_poisoned (co_transport b)"
    and "healthy (co_stream a)"
  shows "\<exists>a' f. send_all K S ms a = (Ok (), a') \<and> tx (co_stream a') = tx (co_stream a) @ f
    \<and> (\<forall>rest. rx (co_stream b) = f @ rest \<longrightarrow>
        (\<exists>b'. recv_many (conn_recv K S) (length ms) b = (Ok ms, b') \<and> rx (co_stream b') = rest))"
  using assms(2-)
proof (induction ms arbitrary: a b)
  case Nil
  then show ?case by (intro exI [of _ a] exI [of _ "[]"]) (auto simp: aret_def)
next
  case (Cons m ms)
  then have m: "length m \<le> 65519" by simp
  obtain f ta tb where one: "conn_send K S m a = (Ok (), a\<lparr> co_stream := (co_stream a)\<lparr> tx := tx (co_stream a) @ f \<rparr>,
        co_transport := (co_transport a)\<lparr> tr_state := ta \<rparr> \<rparr>)"
    "\<And>b' rest. co_transport b' = co_transport b \<Longrightarrow> rx (co_stream b') = f @ rest \<Longrightarrow>
       conn_recv K S b' = (Ok m, b'\<lparr> co_stream := (co_stream b')\<lparr> rx := rest \<rparr>,
         co_transport := (co_transport b)\<lparr> tr_state := tb \<rparr> \<rparr>)"
    "paired ta tb"
    using send_recv_one [OF assms(1) Cons.prems(1) m Cons.prems(3,4,5)] by metis
  let ?a = "a\<lparr> co_stream := (co_stream a)\<lparr> tx := tx (co_stream a) @ f \<rparr>, co_transport := (co_transport a)\<lparr> tr_state := ta \<rparr> \<rparr>"
    and ?b = "\<lambda>rest. b\<lparr> co_stream := (co_stream b)\<lparr> rx := rest \<rparr>, co_transport := (co_transport b)\<lparr> tr_state := tb \<rparr> \<rparr>"
  have IH: "\<exists>a' g. send_all K S ms ?a = (Ok (), a') \<and> tx (co_stream a') = tx (co_stream ?a) @ g
      \<and> (\<forall>rest. rx (co_stream (?b r)) = g @ rest \<longrightarrow>
        (\<exists>b'. recv_many (conn_recv K S) (length ms) (?b r) = (Ok ms, b') \<and> rx (co_stream b') = rest))" for r
    using one(3) Cons.prems by (intro Cons.IH) (auto simp: healthy_def)
  obtain a' g where ag: "send_all K S ms ?a = (Ok (), a')" "tx (co_stream a') = tx (co_stream ?a) @ g"
    using IH [of "[]"] by blast
  have "\<exists>b'. recv_many (conn_recv K S) (length (m # ms)) b = (Ok (m # ms), b') \<and> rx (co_stream b') = rest"
    if "rx (co_stream b) = (f @ g) @ rest" for rest
  proof -
    have "conn_recv K S b = (Ok m, ?b (g @ rest))" using that by (intro one(2)) simp_all
    moreover obtain b' where "recv_many (conn_recv K S) (length ms) (?b (g @ rest)) = (Ok ms, b')" "rx (co_stream b') = rest"
      using IH [of "g @ rest"] ag by auto
    ultimately show ?thesis by (simp add: abind_def aret_def)
  qed
  with one(1) ag show ?case by (intro exI [of _ a'] exI [of _ "f @ g"]) (simp add: abind_def)
qed

lemma client_connect_Ok:
  assumes "client_connect K S our addr remote_fp remote_x tcp clone_fault race created nonce clock inst = Ok c"
  obtains h s t v e where "tcp = Tcp_Stream s" "clone_fault = None" "race = Finished"
    "new_initiator S our remote_fp remote_x = Ok h"
    "perform_initiator_handshake K S created nonce clock inst (h, s) = (Ok (t, v), e)"
    "c = connection_new (snd e) t remote_fp"
proof -
  from assms obtain s h where s: "tcp = Tcp_Stream s" "clone_fault = None" "new_initiator S our remote_fp remote_x = Ok h"
    and r: "(case run_initiator_handshake K S race created nonce clock inst (h, s) of
                 (r, (h, stream')) \<Rightarrow> map_ok (\<lambda>(transport, verified). connection_new stream' transport remote_fp)
                     (map_err client_error r)) = Ok c"
    by (auto simp: client_connect_def split: tcp_connect.splits option.splits)
  obtain r' h' s' where run: "run_initiator_handshake K S race created nonce clock inst (h, s) = (r', (h', s'))"
    by (metis surj_pair)
  with r obtain t v where tv: "r' = Ok (t, v)" "c = connection_new s' t remote_fp"
    by (cases r') auto
  with run have "race = Finished" "perform_initiator_handshake K S created nonce clock inst (h, s) = (Ok (t, v), (h', s'))"
    by (simp_all add: run_initiator_handshake_def race_with_Ok)
  with s tv show ?thesis using that [of s h t v "(h', s')"] by simp
qed

lemma server_permits: "server_reachable s \<Longrightarrow> finite (sv_handshaking s) \<and> card (sv_handshaking s) \<le> HANDSHAKE_PERMITS
    \<and> sv_waiting s \<inter> sv_handshaking s = {} \<and> (\<forall>i\<in>sv_waiting s \<union> sv_handshaking s. i < sv_accepted s)"
proof (induction rule: server_reachable.induct)
  case start
  then show ?case by (simp add: server_start_def)
next
  case (step s t)
  from step.hyps(2) step.IH show ?case
  proof cases
    case (acquire i)
    then show ?thesis using step.IH by (auto simp: card_insert_if)
  next
    case (handled i)
    have "card (sv_handshaking s - {i}) \<le> card (sv_handshaking s)"
      using step.IH by (intro card_mono) auto
    then show ?thesis using handled step.IH by auto
  qed (auto simp: less_Suc_eq)
qed

definition ref_connection :: "bytes \<Rightarrow> nat connection" where
  "ref_connection incoming = \<lparr> co_stream = \<lparr> rx = incoming, rx_end = Io_Error True [], tx = [],
       tx_fault = \<lambda>_. None, flush_fault = \<lambda>_. None \<rparr>,
     co_transport = \<lparr> tr_state = 0, tr_poisoned = False \<rparr>, co_peer = Fingerprint (replicate 20 1) \<rparr>"

section \<open>Properties\<close>

text \<open>
  C5: messages cross an encrypted connection intact and in order. If the transports of the two
  ends belong together, then every sequence of messages of at most 65519 bytes is sent
  without error, and the receiving end, given the bytes that were written followed by
  anything, receives exactly these messages in order and leaves the rest.
\<close>

theorem connection_roundtrip:
  assumes "snow_transport_ok S paired" and "paired (tr_state (co_transport a)) (tr_state (co_transport b))"
    and "\<forall>m\<in>set ms. length m \<le> 65519" and "\<not> tr_poisoned (co_transport a)" and "\<not> tr_poisoned (co_transport b)"
    and "healthy (co_stream a)"
  shows "\<exists>a' f. send_all K S ms a = (Ok (), a') \<and> tx (co_stream a') = tx (co_stream a) @ f
    \<and> (\<forall>rest. rx (co_stream b) = f @ rest \<longrightarrow>
        (\<exists>b'. recv_many (conn_recv K S) (length ms) b = (Ok ms, b') \<and> rx (co_stream b') = rest))"
  using assms by (rule send_all_recv_many)

theorem connection_roundtrip_witness:
  "\<exists>a' f. send_all ref_crates ref_snow [[1, 2], []] (ref_connection []) = (Ok (), a') \<and> tx (co_stream a') = f
    \<and> (\<exists>b'. recv_many (conn_recv ref_crates ref_snow) 2 (ref_connection f) = (Ok [[1, 2], []], b'))"
proof -
  let ?a = "ref_connection []"
  have a: "\<not> tr_poisoned (co_transport (ref_connection x))" "healthy (co_stream ?a)" for x
    by (simp_all add: ref_connection_def healthy_def)
  have ms: "\<forall>m\<in>set [[1, 2], [] :: bytes]. length m \<le> 65519" by simp
  have step: "\<exists>a' f. send_all ref_crates ref_snow [[1, 2], []] ?a = (Ok (), a') \<and> tx (co_stream a') = f
      \<and> (\<forall>rest. rx (co_stream (ref_connection g)) = f @ rest \<longrightarrow>
        (\<exists>b'. recv_many (conn_recv ref_crates ref_snow) 2 (ref_connection g) = (Ok [[1, 2], []], b')))" for g
    using connection_roundtrip [OF ref_snow_transport_ok _ ms a(1) [of "[]"] a(1) [of g] a(2), where K = ref_crates]
    by (simp add: numeral_2_eq_2) (simp add: ref_connection_def; blast)
  from step [of "[]"] obtain a' f where f: "send_all ref_crates ref_snow [[1, 2], []] ?a = (Ok (), a')" "tx (co_stream a') = f"
    by blast
  with step [of f] have "\<exists>b'. recv_many (conn_recv ref_crates ref_snow) 2 (ref_connection f) = (Ok [[1, 2], []], b')"
    by (auto simp: ref_connection_def)
  with f show ?thesis by blast
qed

text \<open>
  sending never panics. Although the frame encoder asserts a size limit far below the
  1 MiB the transport admits, no call of \<open>send\<close> reaches that assertion: the Noise
  ciphertext is at most 65535 bytes. A plaintext longer than 65519 bytes is reported as an error.
\<close>

theorem connection_send_no_panic:
  assumes "snow_transport_ok S paired"
  shows "fst (conn_send K S d c) \<noteq> Panic \<and> (length d > 65519 \<longrightarrow> is_err (fst (conn_send K S d c)))"
proof -
  obtain r st where w: "sn_write S d (length d + 16) (tr_state (co_transport c)) = (r, st)" by fastforce
  have np: "r \<noteq> Panic" and big: "length d > 65519 \<Longrightarrow> is_err r"
    using snow_transport_okD(1,2) [OF assms, of d "length d + 16" "tr_state (co_transport c)"] w by auto
  obtain r' t' where e: "transport_encrypt S d (co_transport c) = (r', t')" by fastforce
  have r': "r' \<noteq> Panic \<and> (length d > 65519 \<longrightarrow> is_err r') \<and> (\<forall>f. r' = Ok f \<longrightarrow> r = Ok f)"
    using e w np big by (cases r)
      (auto simp: transport_encrypt_def amap_err_def on_transport_def AEAD_TAG_SIZE_def split: if_splits)
  show ?thesis
  proof (cases r')
    case (Ok f)
    with r' have "r = Ok f" by simp
    then have "length f \<le> 65535"
      using snow_transport_okD(3) [OF assms] w big by fastforce
    then have "codec_encode f = Ok (wire f)" by (simp add: codec_encode_Ok MAX_FRAME_SIZE_def)
    then show ?thesis using Ok r' e
      by (auto simp: conn_send_def action_defs on_co_transport_def on_stream_def write_all_def split: option.splits)
  qed (use r' e in \<open>auto simp: conn_send_def action_defs on_co_transport_def\<close>)
qed

theorem connection_send_no_panic_witness:
  "is_err (fst (conn_send ref_crates ref_snow (replicate 65520 7) (ref_connection [])))"
  using connection_send_no_panic [OF ref_snow_transport_ok, of ref_crates "replicate 65520 7" "ref_connection []"]
  by simp

text \<open>
  C17: the client hands out only authenticated connections. If \<open>connect\<close> succeeds, TCP was
  established, the handshake ran to its end on that stream and returned the transport of the connection, and the peer proved the expected
  fingerprint: it presented a payload that is fresh and not in the replay cache, signed by the Ed25519 key in it, with keys that hash to that
  fingerprint, with which the connection is labelled. A failure to connect, a TCP timeout, a handshake timeout and a cancellation are reported as such.
\<close>

theorem client_connect_authenticated:
  assumes "ct_eq_ok K" and "blake3_ok K" and "wf_fingerprint fp"
  shows "case client_connect K S our addr fp remote_x tcp clone_fault race created nonce clock inst of
      Ok c \<Rightarrow> co_peer c = fp \<and> race = Finished
        \<and> (\<exists>s h h' v. tcp = Tcp_Stream s \<and> new_initiator S our fp remote_x = Ok h
            \<and> run_initiator_handshake K S race created nonce clock inst (h, s) = (Ok (co_transport c, v), (h', co_stream c))
            \<and> vi_fingerprint v = fp \<and> fp = Fingerprint (take 20 (blake3 K (vi_ed25519_public v @ vi_x25519_public v)))
            \<and> \<bar>sint (vi_timestamp v) - timestamp clock\<bar> \<le> 30
            \<and> (\<exists>p. bp_ed25519_public p = vi_ed25519_public v \<and> bp_x25519_public p = vi_x25519_public v
                 \<and> bp_timestamp p = vi_timestamp v \<and> bp_nonce p = vi_nonce v
                 \<and> ed_verify K (vi_ed25519_public v) (signature_payload p) (bp_signature p))
            \<and> fst (check_and_insert inst fp (vi_nonce v) (hs_cache h)))
    | Err e \<Rightarrow> (tcp = Tcp_Timeout \<longrightarrow> e = ConnectionTimeout addr)
        \<and> (\<forall>what. tcp = Tcp_Error what \<longrightarrow> e = ConnectionFailed (addr @ '': '' @ what))
        \<and> (\<forall>s left. tcp = Tcp_Stream s \<and> clone_fault = None \<and> is_ok (new_initiator S our fp remote_x) \<longrightarrow>
             (race = TimedOut left \<longrightarrow> e = Net_HandshakeTimeout 10)
             \<and> (race = CancelledFirst left \<longrightarrow> e = Net_HandshakeCancelled))
    | Panic \<Rightarrow> True"
proof (cases "client_connect K S our addr fp remote_x tcp clone_fault race created nonce clock inst")
  case (Ok c)
  then obtain h s t v e where c: "tcp = Tcp_Stream s" "race = Finished" "new_initiator S our fp remote_x = Ok h"
    "perform_initiator_handshake K S created nonce clock inst (h, s) = (Ok (t, v), e)" "c = connection_new (snd e) t fp"
    by (rule client_connect_Ok)
  obtain h' s' where e: "e = (h', s')" by fastforce
  have "hs_remote_fingerprint h = Some fp"
    using c(3) by (auto simp: new_initiator_def new_initiator_with_cache_def new_handshake_Ok)
  note proof_of = authenticated_proof [OF assms(1,2) this assms(3) initiator_authenticates [OF c(4) [unfolded e]]]
  have "run_initiator_handshake K S race created nonce clock inst (h, s) = (Ok (co_transport c, v), (h', co_stream c))"
    "co_peer c = fp"
    using c(2,4,5) e by (simp_all add: run_initiator_handshake_def connection_new_def)
  then show ?thesis unfolding Ok result.case using c(1-3) proof_of by blast
next
  case (Err e)
  then have "(tcp = Tcp_Timeout \<longrightarrow> e = ConnectionTimeout addr)
        \<and> (\<forall>what. tcp = Tcp_Error what \<longrightarrow> e = ConnectionFailed (addr @ '': '' @ what))
        \<and> (\<forall>s left. tcp = Tcp_Stream s \<and> clone_fault = None \<and> is_ok (new_initiator S our fp remote_x) \<longrightarrow>
             (race = TimedOut left \<longrightarrow> e = Net_HandshakeTimeout 10)
             \<and> (race = CancelledFirst left \<longrightarrow> e = Net_HandshakeCancelled))"
    by (auto simp: client_connect_def run_initiator_handshake_def rbind_Err_conv is_ok_conv HANDSHAKE_TIMEOUT_SECS_def)
  then show ?thesis unfolding Err result.case .
qed simp

theorem client_connect_authenticated_witness:
  "\<exists>c p. client_connect ref_crates ref_snow ref_keys [] (Fingerprint (replicate 20 1)) (replicate 32 2)
      (Tcp_Stream ref_session) None Finished (seconds 1000) (replicate 12 9) (seconds 1000) 0 = Ok c
    \<and> co_peer c = Fingerprint (replicate 20 1)
    \<and> ed_verify ref_crates (bp_ed25519_public p) (signature_payload p) (bp_signature p)"
proof -
  have new: "new_initiator ref_snow ref_keys (Fingerprint (replicate 20 1)) (replicate 32 2) = Ok (ref_handshake (nonce_cache_new 10000))"
    by (simp add: new_initiator_def new_initiator_with_cache_def new_handshake_def ref_snow_def ref_handshake_def)
  from ref_initiator_runs obtain h' s' where
    "run_initiator_handshake ref_crates ref_snow Finished (seconds 1000) (replicate 12 9) (seconds 1000) 0
      (ref_handshake (nonce_cache_new 10000), ref_session) = (Ok (\<lparr> tr_state = 0, tr_poisoned = False \<rparr>, ref_verified), (h', s'))" by blast
  with new obtain c where c: "client_connect ref_crates ref_snow ref_keys [] (Fingerprint (replicate 20 1)) (replicate 32 2)
      (Tcp_Stream ref_session) None Finished (seconds 1000) (replicate 12 9) (seconds 1000) 0 = Ok c"
    by (simp add: client_connect_def)
  have "wf_fingerprint (Fingerprint (replicate 20 1))" by (simp add: wf_fingerprint_def)
  from client_connect_authenticated [OF ref_ct_eq_ok ref_blake3_ok this, where S = ref_snow and our = ref_keys and addr = "[]"
      and remote_x = "replicate 32 2" and tcp = "Tcp_Stream ref_session" and clone_fault = None and race = Finished
      and created = "seconds 1000" and nonce = "replicate 12 9" and clock = "seconds 1000" and inst = 0]
  show ?thesis unfolding c result.case by (metis c)
qed

text \<open>
  C18: the server bounds concurrent handshakes. In every reachable state of the accept loop at
  most ten accepted sockets are being handled, no socket both waits and is handled, and
  every one of them was accepted.
\<close>

theorem server_handshake_limit:
  assumes "server_reachable s"
  shows "card (sv_handshaking s) \<le> 10 \<and> sv_waiting s \<inter> sv_handshaking s = {}
    \<and> (\<forall>i\<in>sv_waiting s \<union> sv_handshaking s. i < sv_accepted s)"
  using server_permits [OF assms] by (auto simp: HANDSHAKE_PERMITS_def)

theorem server_handshake_limit_witness:
  "card (sv_handshaking \<lparr> sv_accepted = 1, sv_waiting = {}, sv_handshaking = {0}, sv_stopped = None \<rparr>) \<le> 10"
proof -
  have "server_reachable (server_start\<lparr> sv_accepted := 1, sv_waiting := {0} \<rparr>)"
    using server_reachable.step [OF start accept] by (simp add: server_start_def)
  from server_reachable.step [OF this acquire [of 0]]
  have "server_reachable \<lparr> sv_accepted = 1, sv_waiting = {}, sv_handshaking = {0}, sv_stopped = None \<rparr>"
    by (simp add: server_start_def HANDSHAKE_PERMITS_def)
  from server_handshake_limit [OF this] show ?thesis by simp
qed

text \<open>
  C19: the peer validator has the last word. When a validator is set, \<open>handle_connection\<close>
  returns a connection only for an identity that completed the responder handshake and that the
  validator accepts, and the connection carries its verified fingerprint.
\<close>

theorem server_respects_validator:
  assumes "handle_connection K S setup (Some accept) clone_fault stream race created nonce clock inst = Ok c"
  shows "\<exists>h t v e. setup = Ok h \<and> run_responder_handshake K S race created nonce clock inst (h, stream) = (Ok (t, v), e)
    \<and> accept v \<and> co_peer c = vi_fingerprint v \<and> co_transport c = t \<and> race = Finished"
proof -
  from assms obtain h where h: "setup = Ok h" "clone_fault = None"
    and r: "(case run_responder_handshake K S race created nonce clock inst (h, stream) of
            (r, (h, stream')) \<Rightarrow>
              rbind (map_err (\<lambda>e. Net_HandshakeFailed (display_security_error e)) r) (\<lambda>(transport, verified).
              if \<not> accept verified then Err (PeerRejected (ascii_str (to_formatted_string K (vi_fingerprint verified))))
              else Ok (connection_new stream' transport (vi_fingerprint verified)))) = Ok c"
    by (auto simp: handle_connection_def split: option.splits)
  obtain r' h' s' where run: "run_responder_handshake K S race created nonce clock inst (h, stream) = (r', (h', s'))"
    by (metis surj_pair)
  with r obtain t v where tv: "r' = Ok (t, v)" "accept v" "c = connection_new s' t (vi_fingerprint v)"
    by (auto split: if_splits)
  moreover have "race = Finished" using run tv(1) by (simp add: run_responder_handshake_def race_with_Ok)
  ultimately show ?thesis using h run by (auto simp: connection_new_def)
qed

theorem server_respects_validator_witness:
  "\<exists>c. handle_connection ref_crates ref_snow (Ok (ref_handshake (nonce_cache_new 10))) (Some (\<lambda>v. vi_nonce v = replicate 12 4)) None
      (co_stream (ref_connection (wire (replicate 48 0 @ bind_to_bytes ref_payload)))) Finished (seconds 1000) (replicate 12 9) (seconds 1000) 0 = Ok c
    \<and> co_peer c = Fingerprint (replicate 20 1)"
proof -
  let ?h = "ref_handshake (nonce_cache_new 10)" and ?s = "co_stream (ref_connection (wire (replicate 48 0 @ bind_to_bytes ref_payload)))"
  obtain c where c: "verify_identity_payload ref_crates (seconds 1000) 0 (bind_to_bytes ref_payload) (?h\<lparr> hs_state := (True, 1) \<rparr>) =
      (Ok ref_verified, ?h\<lparr> hs_state := (True, 1), hs_cache := c \<rparr>)"
    using verify_identity_payload_honest [of ref_crates "seconds 1000" "Fingerprint (replicate 20 1)" ref_payload ref_verified
        "?h\<lparr> hs_state := (True, 1) \<rparr>" 10 0] ref_payload_verifies by (auto simp: ref_handshake_def)
  obtain pay where pay: "hs_our_identity h' = hs_our_identity ?h \<Longrightarrow>
      create_identity_payload ref_crates (seconds 1000) (replicate 12 9) h' = Ok pay" for h' :: "(bool \<times> nat) handshake"
    by (simp add: create_identity_payload_def bind_create_def Let_def)
  have len: "length (replicate 48 0 @ bind_to_bytes ref_payload) \<le> 4096"
    using ref_payload_verifies by (simp add: length_bind_to_bytes)
  have "\<exists>h'. perform_responder_handshake ref_crates ref_snow (seconds 1000) (replicate 12 9) (seconds 1000) 0 (?h, ?s) =
      (Ok (\<lparr> tr_state = 0, tr_poisoned = False \<rparr>, ref_verified), (h', ?s\<lparr> tx := tx ?s @ wire (replicate 48 0 @ pay), rx := [] \<rparr>))"
    by (rule responder_honest [OF len _ _ _ c pay, where ?st2.0 = "(True, 2)" and rest = "[]"]) (simp_all add: ref_snow_def ref_connection_def ref_handshake_def healthy_def numeral_2_eq_2)
  then obtain e where run: "run_responder_handshake ref_crates ref_snow Finished (seconds 1000) (replicate 12 9) (seconds 1000) 0 (?h, ?s) =
      (Ok (\<lparr> tr_state = 0, tr_poisoned = False \<rparr>, ref_verified), e)"
    by (auto simp: run_responder_handshake_def)
  have "vi_nonce ref_verified = replicate 12 4" by (simp add: ref_verified_def)
  with run obtain c where h: "handle_connection ref_crates ref_snow (Ok ?h) (Some (\<lambda>v. vi_nonce v = replicate 12 4)) None ?s Finished
      (seconds 1000) (replicate 12 9) (seconds 1000) 0 = Ok c"
    by (cases e) (simp add: handle_connection_def)
  from server_respects_validator [OF h] run show ?thesis using h by (auto simp: ref_verified_def)
qed

end
