(* ===== verification/Secure_Store.thy ===== *)
theory Secure_Store
  imports Security_Keys
begin

text \<open>
  \<open>crates/security/src/storage/secure_store.rs\<close>: the passphrase-encrypted identity file. The
  directory is a map from file names to contents, with faults the operating system may
  report; random salt and nonce are arguments.
\<close>

section \<open>Formats\<close>

definition ARGON2_MEMORY_KB :: nat where "ARGON2_MEMORY_KB = 65536"
definition ARGON2_ITERATIONS :: nat where "ARGON2_ITERATIONS = 3"
definition ARGON2_PARALLELISM :: nat where "ARGON2_PARALLELISM = 4"
definition SALT_LEN :: nat where "SALT_LEN = 32"
definition NONCE_LEN :: nat where "NONCE_LEN = 12"
definition MAX_STORE_SIZE :: nat where "MAX_STORE_SIZE = 65536"

lemmas store_consts = ARGON2_MEMORY_KB_def ARGON2_ITERATIONS_def ARGON2_PARALLELISM_def
  SALT_LEN_def NONCE_LEN_def MAX_STORE_SIZE_def

record serializable_identity =
  si_ed25519_secret :: bytes
  si_ed25519_public :: bytes
  si_x25519_secret :: bytes
  si_x25519_public :: bytes

definition identity_to_bytes :: "serializable_identity \<Rightarrow> bytes" where
  "identity_to_bytes s = si_ed25519_secret s @ si_ed25519_public s @ si_x25519_secret s @ si_x25519_public s"

definition identity_from_bytes :: "bytes \<Rightarrow> serializable_identity security_result" where
  "identity_from_bytes bs =
     (if length bs \<noteq> 128 then Err (Storage (''invalid identity size: expected 128, got '' @ nat_str (length bs)))
      else Ok \<lparr> si_ed25519_secret = subslice 0 32 bs, si_ed25519_public = subslice 32 64 bs,
                si_x25519_secret = subslice 64 96 bs, si_x25519_public = subslice 96 128 bs \<rparr>)"

definition serializable_of_keys :: "identity_keys \<Rightarrow> serializable_identity" where
  "serializable_of_keys ik = \<lparr> si_ed25519_secret = ed_secret (ik_ed25519 ik), si_ed25519_public = ed_pub (ik_ed25519 ik),
     si_x25519_secret = x_secret (ik_x25519 ik), si_x25519_public = x_pub (ik_x25519 ik) \<rparr>"

definition keys_of_serializable :: "crates \<Rightarrow> serializable_identity \<Rightarrow> identity_keys security_result" where
  "keys_of_serializable K s =
     rbind (ed25519_from_parts K (si_ed25519_secret s) (si_ed25519_public s)) (\<lambda>ed.
     rbind (x25519_from_parts K (si_x25519_secret s) (si_x25519_public s)) (\<lambda>x.
     identity_keys_from_parts K ed x))"

record encrypted_blob =
  eb_version :: byte
  eb_salt :: bytes
  eb_nonce :: bytes
  eb_ciphertext :: bytes

definition blob_to_bytes :: "encrypted_blob \<Rightarrow> bytes" where
  "blob_to_bytes b =
     [eb_version b] @ eb_salt b @ eb_nonce b @ u32_to_be (word_of_nat (length (eb_ciphertext b))) @ eb_ciphertext b"

definition blob_from_bytes :: "bytes \<Rightarrow> encrypted_blob security_result" where
  "blob_from_bytes bs =
     (if length bs < 1 + SALT_LEN + NONCE_LEN + 4 then Err (Storage ''blob too small'')
      else
        let ct_start = 1 + SALT_LEN + NONCE_LEN;
            ct_len = unat (u32_from_be [bs ! ct_start, bs ! (ct_start + 1), bs ! (ct_start + 2), bs ! (ct_start + 3)]) in
        if length bs < ct_start + 4 + ct_len then Err (Storage ''blob truncated'')
        else Ok \<lparr> eb_version = bs ! 0, eb_salt = subslice 1 (1 + SALT_LEN) bs,
                  eb_nonce = subslice (1 + SALT_LEN) (1 + SALT_LEN + NONCE_LEN) bs,
                  eb_ciphertext = subslice (ct_start + 4) (ct_start + 4 + ct_len) bs \<rparr>)"

section \<open>Encryption\<close>

definition derive_key :: "crates \<Rightarrow> rstr \<Rightarrow> bytes \<Rightarrow> bytes security_result" where
  "derive_key K passphrase salt =
     rbind (map_err (\<lambda>e. Storage (''argon2 params: '' @ e))
              (argon2_params K ARGON2_MEMORY_KB ARGON2_ITERATIONS ARGON2_PARALLELISM)) (\<lambda>_.
     map_err (\<lambda>e. Storage (''argon2 hash: '' @ e)) (argon2_hash K (str_bytes passphrase) salt))"

definition store_encrypt :: "crates \<Rightarrow> bytes \<Rightarrow> bytes \<Rightarrow> identity_keys \<Rightarrow> rstr \<Rightarrow> bytes security_result" where
  "store_encrypt K salt nonce ik passphrase =
     (let serialized = identity_to_bytes (serializable_of_keys ik) in
      rbind (derive_key K passphrase salt) (\<lambda>derived.
      if length derived \<noteq> 32 then Err (Storage ''invalid cipher key'')
      else rbind (ok_or (chacha_encrypt K derived nonce serialized) (Storage ''encryption failed'')) (\<lambda>ciphertext.
      Ok (blob_to_bytes \<lparr> eb_version = 1, eb_salt = salt, eb_nonce = nonce, eb_ciphertext = ciphertext \<rparr>))))"

definition store_decrypt :: "crates \<Rightarrow> bytes \<Rightarrow> rstr \<Rightarrow> identity_keys security_result" where
  "store_decrypt K content passphrase =
     (if length content > MAX_STORE_SIZE then Err (Storage ''blob too large'')
      else rbind (blob_from_bytes content) (\<lambda>blob.
        if eb_version blob \<noteq> 1 then Err (Storage (''unsupported version: '' @ nat_str (unat (eb_version blob))))
        else rbind (derive_key K passphrase (eb_salt blob)) (\<lambda>derived.
          if length derived \<noteq> 32 then Err (Storage ''invalid cipher key'')
          else rbind (ok_or (chacha_decrypt K derived (eb_nonce blob) (eb_ciphertext blob)) InvalidPassphrase) (\<lambda>plaintext.
          rbind (identity_from_bytes plaintext) (keys_of_serializable K)))))"

section \<open>The directory\<close>

text \<open>
  \<open>fs_fault\<close> gives, per system call, the error it reports, if any. A write that fails may
  leave any content in the file it was writing. An operation makes each of these calls once; the probes by \<open>Path::exists\<close>, which
  several operations of one run may make, and the removals have an outcome of their own each.
\<close>

datatype prober = In_Load | In_Create | In_Load_Or_Create

datatype syscall =
    Sys_Exists prober | Sys_Metadata | Sys_Read | Sys_CreateDir | Sys_WriteTemp | Sys_Rename
  | Sys_ReadDir | Sys_Remove string

record directory =
  fs_files :: "string \<Rightarrow> bytes option"
  fs_fault :: "syscall \<Rightarrow> string option"
  fs_partial :: "bytes option"

definition STORAGE_FILE :: string where "STORAGE_FILE = ''identity.enc''"
definition TEMP_FILE :: string where "TEMP_FILE = ''identity.tmp''"

text \<open>\<open>Path::extension\<close> of a file name.\<close>

definition extension :: "string \<Rightarrow> string option" where
  "extension name =
     (let tail = takeWhile (\<lambda>c. c \<noteq> CHR ''.'') (rev name) in
      if length tail + 1 < length name then Some (rev tail) else None)"

text \<open>Neither a directory that can not be read nor a file that can not be removed is reported.\<close>

definition cleanup_temp_files :: "directory \<Rightarrow> directory" where
  "cleanup_temp_files d =
     (if fs_fault d Sys_ReadDir \<noteq> None then d
      else d\<lparr> fs_files := (\<lambda>name. if extension name = Some ''tmp'' \<and> fs_fault d (Sys_Remove name) = None then None
                                 else fs_files d name) \<rparr>)"

definition store_new :: "directory \<Rightarrow> directory" where
  "store_new d = cleanup_temp_files d"

definition syscall_fault :: "syscall \<Rightarrow> string \<Rightarrow> (directory, unit, security_error) action" where
  "syscall_fault c what d =
     (case fs_fault d c of Some e \<Rightarrow> (Err (Storage (what @ e)), d) | None \<Rightarrow> (Ok (), d))"

text \<open>\<open>Path::exists\<close>: false as well when the metadata can not be read.\<close>

definition store_exists :: "prober \<Rightarrow> directory \<Rightarrow> bool" where
  "store_exists who d \<longleftrightarrow> fs_files d STORAGE_FILE \<noteq> None \<and> fs_fault d (Sys_Exists who) = None"

definition store_load :: "crates \<Rightarrow> rstr \<Rightarrow> (directory, identity_keys, security_error) action" where
  "store_load K passphrase d =
     (if \<not> store_exists In_Load d then (Err (Storage ''identity file not found''), d)
      else let content = the (fs_files d STORAGE_FILE) in
          abind (syscall_fault Sys_Metadata ''metadata: '') (\<lambda>_.
          if length content > MAX_STORE_SIZE then
            afail (Storage (''file too large: '' @ nat_str (length content) @ '' bytes (max '' @ nat_str MAX_STORE_SIZE @ '')''))
          else abind (syscall_fault Sys_Read ''read: '') (\<lambda>_. alift (store_decrypt K content passphrase))) d)"

definition store_save :: "crates \<Rightarrow> bytes \<Rightarrow> bytes \<Rightarrow> identity_keys \<Rightarrow> rstr \<Rightarrow> (directory, unit, security_error) action" where
  "store_save K salt nonce ik passphrase =
     abind (alift (store_encrypt K salt nonce ik passphrase)) (\<lambda>encrypted.
     abind (syscall_fault Sys_CreateDir ''create dir: '') (\<lambda>_ d.
       (case fs_fault d Sys_WriteTemp of
          Some e \<Rightarrow> (Err (Storage (''write temp: '' @ e)), d\<lparr> fs_files := (fs_files d)(TEMP_FILE := fs_partial d) \<rparr>)
        | None \<Rightarrow>
            let d' = d\<lparr> fs_files := (fs_files d)(TEMP_FILE \<mapsto> encrypted) \<rparr> in
            (case fs_fault d' Sys_Rename of
               Some e \<Rightarrow> (Err (Storage (''rename: '' @ e)), d')
             | None \<Rightarrow> (Ok (), d'\<lparr> fs_files := (fs_files d')(TEMP_FILE := None, STORAGE_FILE \<mapsto> encrypted) \<rparr>)))))"

definition store_create ::
  "crates \<Rightarrow> bytes \<Rightarrow> bytes \<Rightarrow> bytes \<Rightarrow> bytes \<Rightarrow> rstr \<Rightarrow> (directory, identity_keys, security_error) action" where
  "store_create K ed_seed x_seed salt nonce passphrase d =
     (if store_exists In_Create d then (Err (Storage ''identity already exists''), d)
      else abind (alift (identity_keys_generate K ed_seed x_seed)) (\<lambda>ik.
           abind (store_save K salt nonce ik passphrase) (\<lambda>_. aret ik)) d)"

definition store_load_or_create ::
  "crates \<Rightarrow> bytes \<Rightarrow> bytes \<Rightarrow> bytes \<Rightarrow> bytes \<Rightarrow> rstr \<Rightarrow> (directory, identity_keys, security_error) action" where
  "store_load_or_create K ed_seed x_seed salt nonce passphrase d =
     (if store_exists In_Load_Or_Create d then store_load K passphrase d
      else store_create K ed_seed x_seed salt nonce passphrase d)"

section \<open>Lemmas\<close>

lemma identity_bytes_roundtrip:
  assumes "length (si_ed25519_secret s) = 32" "length (si_ed25519_public s) = 32"
    "length (si_x25519_secret s) = 32" "length (si_x25519_public s) = 32"
  shows "identity_from_bytes (identity_to_bytes s) = Ok s"
  using assms by (cases s) (simp add: identity_from_bytes_def identity_to_bytes_def subslice_def)

lemma keys_serializable_roundtrip:
  assumes "wf_keys K ik" and "blake3_ok K"
  shows "keys_of_serializable K (serializable_of_keys ik) = Ok ik"
  using assms by (cases ik) (simp add: keys_of_serializable_def serializable_of_keys_def ed25519_from_parts_def
      x25519_from_parts_def identity_keys_from_parts_def derive_fingerprint_Ok wf_keys_def)

lemma blob_bytes_roundtrip:
  assumes "length (eb_salt b) = 32" and "length (eb_nonce b) = 12" and "length (eb_ciphertext b) < 2 ^ 32"
  shows "blob_from_bytes (blob_to_bytes b @ junk) = Ok b"
proof -
  obtain v s n c where b: "b = \<lparr> eb_version = v, eb_salt = s, eb_nonce = n, eb_ciphertext = c \<rparr>" by (cases b)
  have len: "length s = 32" "length n = 12" "length c < 2 ^ 32" using assms by (simp_all add: b)
  let ?p = "u32_to_be (word_of_nat (length c))" and ?bs = "blob_to_bytes b @ junk"
  obtain p0 p1 p2 p3 where p: "?p = [p0, p1, p2, p3]"
    using length_u32_to_be [of "word_of_nat (length c)"] by (auto simp: length_Suc_conv numeral_eq_Suc simp del: length_u32_to_be)
  have bs: "?bs = v # s @ n @ ?p @ c @ junk" by (simp add: blob_to_bytes_def b)
  have ix: "?bs ! 45 = p0" "?bs ! 46 = p1" "?bs ! 47 = p2" "?bs ! 48 = p3" "?bs ! 0 = v"
    unfolding bs p using len by (simp_all add: nth_append nth_Cons')
  have "unat (u32_from_be [p0, p1, p2, p3]) = length c"
    using len(3) by (simp add: p [symmetric] unat_of_nat)
  moreover have "subslice 1 33 ?bs = s" "subslice 33 45 ?bs = n" "subslice 49 (49 + length c) ?bs = c"
    unfolding bs using len by (simp_all add: subslice_def)
  moreover have "length ?bs = 49 + length c + length junk" unfolding bs using len by simp
  ultimately show ?thesis using ix by (simp add: blob_from_bytes_def Let_def store_consts b)
qed

lemma derive_key_Ok:
  assumes "argon2_ok K" and "length (str_bytes pass) < 2 ^ 32" and "length salt = 32"
  obtains k where "derive_key K pass salt = Ok k" "length k = 32"
proof -
  have "argon2_params K 65536 3 4 = Ok ()"
    and "\<exists>k. argon2_hash K (str_bytes pass) salt = Ok k \<and> length k = 32"
    using assms unfolding argon2_ok_def by blast+
  then show ?thesis using that by (auto simp: derive_key_def store_consts)
qed

lemma store_decrypt_encrypt:
  assumes "argon2_ok K" and "chacha_ok K" and "blake3_ok K" and "ed25519_ok K" and "x25519_ok K"
    and "wf_keys K ik" and "length (str_bytes pass) < 2 ^ 32" and "length salt = 32" and "length nonce = 12"
  obtains c where "store_encrypt K salt nonce ik pass = Ok c" "length c = 193" "store_decrypt K c pass = Ok ik"
proof -
  obtain k where k: "derive_key K pass salt = Ok k" "length k = 32"
    using assms(1,7,8) by (rule derive_key_Ok)
  let ?s = "serializable_of_keys ik"
  have ser: "identity_from_bytes (identity_to_bytes ?s) = Ok ?s" and len: "length (identity_to_bytes ?s) = 128"
    using assms(6) wf_keys_lengths [OF assms(6,4,5)] identity_bytes_roundtrip [of ?s]
    by (simp_all add: serializable_of_keys_def wf_keys_def) (simp add: identity_to_bytes_def)
  obtain ct where ct: "chacha_encrypt K k nonce (identity_to_bytes ?s) = Some ct" "length ct = 144"
    "chacha_decrypt K k nonce ct = Some (identity_to_bytes ?s)"
    using assms(2) [unfolded chacha_ok_def, rule_format, OF k(2) assms(9), of "identity_to_bytes ?s"] len by auto
  define b where "b = \<lparr> eb_version = 1, eb_salt = salt, eb_nonce = nonce, eb_ciphertext = ct \<rparr>"
  have blob: "blob_from_bytes (blob_to_bytes b) = Ok b"
    using blob_bytes_roundtrip [of b "[]"] assms(8,9) ct(2) by (simp add: b_def)
  have "length (blob_to_bytes b) = 193" using assms(8,9) ct(2) by (simp add: blob_to_bytes_def b_def)
  moreover have "store_encrypt K salt nonce ik pass = Ok (blob_to_bytes b)"
    using k ct(1) by (simp add: store_encrypt_def b_def)
  moreover have "store_decrypt K (blob_to_bytes b) pass = Ok ik"
    using \<open>length (blob_to_bytes b) = 193\<close> k ct(3) ser keys_serializable_roundtrip [OF assms(6,3)]
    by (simp add: store_decrypt_def blob MAX_STORE_SIZE_def del: rbind_Ok_conv) (simp add: b_def del: rbind_Ok_conv)
  ultimately show ?thesis by (intro that)
qed

lemma store_load_content:
  assumes "fs_files d STORAGE_FILE = Some c" and "fs_fault d (Sys_Exists In_Load) = None" and "fs_fault d Sys_Metadata = None" and "fs_fault d Sys_Read = None"
    and "length c \<le> 65536"
  shows "store_load K pass d = (store_decrypt K c pass, d)"
  using assms by (simp add: store_load_def store_exists_def action_defs syscall_fault_def MAX_STORE_SIZE_def)

text \<open>What \<open>save\<close> does to the directory, on every outcome.\<close>

lemma store_save_effect:
  assumes "store_save K salt nonce ik pass d = (r, d')"
  shows "(\<forall>name. name \<noteq> STORAGE_FILE \<and> name \<noteq> TEMP_FILE \<longrightarrow> fs_files d' name = fs_files d name)
    \<and> fs_fault d' = fs_fault d
    \<and> (case r of
         Ok _ \<Rightarrow> \<exists>c. store_encrypt K salt nonce ik pass = Ok c \<and> fs_files d' STORAGE_FILE = Some c \<and> fs_files d' TEMP_FILE = None
       | Err e \<Rightarrow> fs_files d' STORAGE_FILE = fs_files d STORAGE_FILE
       | Panic \<Rightarrow> d' = d)"
  using assms
  by (cases "store_encrypt K salt nonce ik pass")
     (auto simp: store_save_def action_defs syscall_fault_def STORAGE_FILE_def TEMP_FILE_def Let_def split: option.splits)

section \<open>Properties\<close>

text \<open>
  C7: a saved identity can be loaded. If saving well-formed keys succeeds, the file is replaced
  by a 193-byte blob, no temporary file remains, and loading with the same passphrase
  returns exactly the keys that were saved.
\<close>

theorem store_save_load_roundtrip:
  assumes "argon2_ok K" and "chacha_ok K" and "blake3_ok K" and "ed25519_ok K" and "x25519_ok K"
    and "wf_keys K ik" and "length (str_bytes pass) < 2 ^ 32" and "length salt = 32" and "length nonce = 12"
    and "fs_fault d = (\<lambda>_. None)"
  shows "\<exists>d'. store_save K salt nonce ik pass d = (Ok (), d') \<and> store_load K pass d' = (Ok ik, d')
    \<and> fs_files d' TEMP_FILE = None \<and> map_option length (fs_files d' STORAGE_FILE) = Some 193"
proof -
  obtain c where c: "store_encrypt K salt nonce ik pass = Ok c" "length c = 193" "store_decrypt K c pass = Ok ik"
    using assms(1-9) by (rule store_decrypt_encrypt)
  then obtain d' where d': "store_save K salt nonce ik pass d = (Ok (), d')"
    using assms(10) by (simp add: store_save_def action_defs syscall_fault_def Let_def)
  with store_save_effect [OF d'] c(1) assms(10)
  have "fs_files d' STORAGE_FILE = Some c" "fs_files d' TEMP_FILE = None" "fs_fault d' = (\<lambda>_. None)" by auto
  with c d' show ?thesis by (auto simp: store_load_content)
qed

theorem store_save_load_roundtrip_witness:
  "\<exists>d'. store_save ref_crates (replicate 32 5) (replicate 12 6)
      \<lparr> ik_ed25519 = \<lparr> ed_pub = replicate 32 1, ed_secret = replicate 32 1 \<rparr>,
        ik_x25519 = \<lparr> x_pub = replicate 32 2, x_secret = replicate 32 2 \<rparr> \<rparr> [112]
      \<lparr> fs_files = Map.empty, fs_fault = (\<lambda>_. None), fs_partial = None \<rparr> = (Ok (), d')
    \<and> is_ok (fst (store_load ref_crates [112] d'))"
proof -
  let ?ik = "\<lparr> ik_ed25519 = \<lparr> ed_pub = replicate 32 1, ed_secret = replicate 32 1 \<rparr>,
        ik_x25519 = \<lparr> x_pub = replicate 32 2, x_secret = replicate 32 2 \<rparr> \<rparr>"
  have "wf_keys ref_crates ?ik" by (simp add: wf_keys_def ref_crates_def)
  moreover have "length (str_bytes [112]) < 2 ^ 32" by (simp add: str_bytes_def encode_char_def)
  ultimately show ?thesis
    using store_save_load_roundtrip [OF ref_argon2_ok ref_chacha_ok ref_blake3_ok ref_ed25519_ok ref_x25519_ok,
        of ?ik "[112]" "replicate 32 5" "replicate 12 6" "\<lparr> fs_files = Map.empty, fs_fault = (\<lambda>_. None), fs_partial = None \<rparr>"]
    by auto
qed

text \<open>
  C30: What may happen to a stored identity under faults. A \<open>save\<close> that does not report
  success leaves the identity file as it was. \<open>create\<close> refuses to overwrite a file that its probe sees. \<open>load_or_create\<close> changes an
  existing file only when both its own probe and that of \<open>create\<close> failed, and then it answers with the new keys, whose encryption the
  file now holds. Loading changes nothing, and removing leftover temporary files at
  start keeps the identity file and every file that is not a \<open>.tmp\<close> file.
\<close>

theorem store_never_loses_identity:
  "(case store_save K salt nonce ik pass d of
      (Ok _, d') \<Rightarrow> \<exists>c. store_encrypt K salt nonce ik pass = Ok c \<and> fs_files d' STORAGE_FILE = Some c
    | (_, d') \<Rightarrow> fs_files d' STORAGE_FILE = fs_files d STORAGE_FILE)
   \<and> (fs_files d STORAGE_FILE \<noteq> None \<and> fs_fault d (Sys_Exists In_Create) = None \<longrightarrow>
        store_create K ed_seed x_seed salt nonce pass d = (Err (Storage ''identity already exists''), d))
   \<and> (case store_load_or_create K ed_seed x_seed salt nonce pass d of (r, d') \<Rightarrow>
        fs_files d' STORAGE_FILE = fs_files d STORAGE_FILE
        \<or> (fs_files d STORAGE_FILE = None
            \<or> fs_fault d (Sys_Exists In_Load_Or_Create) \<noteq> None \<and> fs_fault d (Sys_Exists In_Create) \<noteq> None)
          \<and> (\<exists>new c. r = Ok new \<and> store_encrypt K salt nonce new pass = Ok c \<and> fs_files d' STORAGE_FILE = Some c))
   \<and> snd (store_load K pass d) = d
   \<and> (\<forall>name. extension name \<noteq> Some ''tmp'' \<longrightarrow> fs_files (store_new d) name = fs_files d name)
   \<and> fs_files (store_new d) STORAGE_FILE = fs_files d STORAGE_FILE"
proof -
  have ext: "extension STORAGE_FILE \<noteq> Some ''tmp''" by (simp add: extension_def STORAGE_FILE_def Let_def)
  have load: "snd (store_load K pass d) = d"
    by (auto simp: store_load_def action_defs syscall_fault_def Let_def split: option.splits result.splits)
  have saved: "case store_save K salt nonce i pass d of (Ok _, d') \<Rightarrow> \<exists>c. store_encrypt K salt nonce i pass = Ok c \<and> fs_files d' STORAGE_FILE = Some c
    | (_, d') \<Rightarrow> fs_files d' STORAGE_FILE = fs_files d STORAGE_FILE" for i
  proof -
    obtain r d' where s: "store_save K salt nonce i pass d = (r, d')" by fastforce
    then show ?thesis using store_save_effect [OF s] by (cases r) auto
  qed
  obtain r d' where run: "store_load_or_create K ed_seed x_seed salt nonce pass d = (r, d')" by fastforce
  have "fs_files d' STORAGE_FILE = fs_files d STORAGE_FILE
        \<or> (fs_files d STORAGE_FILE = None
            \<or> fs_fault d (Sys_Exists In_Load_Or_Create) \<noteq> None \<and> fs_fault d (Sys_Exists In_Create) \<noteq> None)
          \<and> (\<exists>new c. r = Ok new \<and> store_encrypt K salt nonce new pass = Ok c \<and> fs_files d' STORAGE_FILE = Some c)"
  proof (cases "store_exists In_Load_Or_Create d \<or> store_exists In_Create d")
    case True
    then have "d' = d" using run load by (auto simp: store_load_or_create_def store_create_def split: if_splits)
    then show ?thesis by simp
  next
    case False
    show ?thesis
    proof (cases "identity_keys_generate K ed_seed x_seed")
      case (Ok new)
      then have "abind (store_save K salt nonce new pass) (\<lambda>_. aret new) d = (r, d')"
        using run False by (simp add: store_load_or_create_def store_create_def action_defs)
      then show ?thesis using saved [of new] False
        by (auto simp: action_defs store_exists_def split: prod.splits result.splits)
    qed (use run False in \<open>auto simp: store_load_or_create_def store_create_def action_defs\<close>)
  qed
  with saved [of ik] run ext load show ?thesis
    by (auto simp: store_create_def store_new_def cleanup_temp_files_def store_exists_def)
qed

theorem store_never_loses_identity_witness:
  "store_create ref_crates [] [] [] [] [] \<lparr> fs_files = [STORAGE_FILE \<mapsto> [7]], fs_fault = (\<lambda>_. None), fs_partial = None \<rparr>
     = (Err (Storage ''identity already exists''),
        \<lparr> fs_files = [STORAGE_FILE \<mapsto> [7]], fs_fault = (\<lambda>_. None), fs_partial = None \<rparr>)"
  using store_never_loses_identity [where K = ref_crates and d = "\<lparr> fs_files = [STORAGE_FILE \<mapsto> [7]], fs_fault = (\<lambda>_. None), fs_partial = None \<rparr>"
      and salt = "[]" and nonce = "[]" and pass = "[]" and ed_seed = "[]" and x_seed = "[]"]
  by simp

text \<open>
  A probe that fails replaces the identity. If a file is there, but the two probes of \<open>load_or_create\<close> can not read its metadata while
  everything else works, the start draws a new identity, writes it over the old one and reports success.
\<close>

theorem failed_probe_replaces_identity:
  assumes "fs_fault d = (\<lambda>c. if c = Sys_Exists In_Load_Or_Create \<or> c = Sys_Exists In_Create then Some e else None)"
    and "identity_keys_generate K ed_seed x_seed = Ok new" and "store_encrypt K salt nonce new pass = Ok c"
  shows "\<exists>d'. store_load_or_create K ed_seed x_seed salt nonce pass (d\<lparr> fs_files := (fs_files d)(STORAGE_FILE \<mapsto> old) \<rparr>) = (Ok new, d')
    \<and> fs_files d' STORAGE_FILE = Some c"
  using assms by (simp add: store_load_or_create_def store_create_def store_exists_def store_save_def action_defs syscall_fault_def Let_def)

text \<open>
  hostile identity files. Whatever bytes the identity file holds, decryption gives
  keys whose public halves match their secret halves, from a file of at most 64 KB, or an
  error; it panics only if the key derivation crate does.
\<close>

theorem store_decrypt_hostile_file:
  "case store_decrypt K content pass of
     Ok ik \<Rightarrow> length content \<le> 65536 \<and> ed_pub (ik_ed25519 ik) = ed_public K (ed_secret (ik_ed25519 ik))
       \<and> x_pub (ik_x25519 ik) = x_public K (x_secret (ik_x25519 ik))
   | Err e \<Rightarrow> e = Storage ''blob too large'' \<or> length content \<le> 65536
   | Panic \<Rightarrow> argon2_params K 65536 3 4 = Panic \<or> (\<exists>salt. argon2_hash K (str_bytes pass) salt = Panic)"
proof (cases "store_decrypt K content pass")
  case (Ok ik)
  then show ?thesis
    by (auto simp: store_decrypt_def keys_of_serializable_def ed25519_from_parts_def x25519_from_parts_def
        identity_keys_from_parts_def MAX_STORE_SIZE_def split: if_splits)
next
  case (Err e)
  then show ?thesis by (auto simp: store_decrypt_def MAX_STORE_SIZE_def split: if_splits)
next
  case Panic
  have "derive_fingerprint K a b \<noteq> Panic" for a b
    by (simp add: derive_fingerprint_def fp_from_bytes_def Let_def)
  with Panic have "\<exists>salt. derive_key K pass salt = Panic"
    by (auto simp: store_decrypt_def rbind_Panic_conv blob_from_bytes_def identity_from_bytes_def keys_of_serializable_def
        ed25519_from_parts_def x25519_from_parts_def identity_keys_from_parts_def Let_def split: if_splits)
  with Panic show ?thesis by (auto simp: derive_key_def rbind_Panic_conv store_consts)
qed

end
