(* ===== verification/Message_State.thy ===== *)
theory Message_State
  imports Domain_Errors
begin

text \<open>
  \<open>crates/domain/src/message/message_state.rs\<close>: the delivery state machine. The
  executable check \<open>transition_to\<close> is shown to implement the edge relation
  \<open>delivery_step\<close>; a rank on states gives the monotonicity the module promises, with the
  explicit retry as its only exception.
\<close>

section \<open>States and transitions\<close>

datatype message_state =
    Pending
  | Sending
  | Sent (sent_at: datetime)
  | Delivered (delivered_at: datetime)
  | Read (read_at: datetime)
  | Failed (failed_at: datetime) (retryable: bool)

datatype message_state_error =
    InvalidTransition message_state message_state
  | TerminalState

fun is_terminal :: "message_state \<Rightarrow> bool" where
  "is_terminal (Read _) = True"
| "is_terminal (Failed _ _) = True"
| "is_terminal _ = False"

fun is_sent :: "message_state \<Rightarrow> bool" where
  "is_sent (Sent _) = True"
| "is_sent (Delivered _) = True"
| "is_sent (Read _) = True"
| "is_sent _ = False"

fun is_delivered :: "message_state \<Rightarrow> bool" where
  "is_delivered (Delivered _) = True"
| "is_delivered (Read _) = True"
| "is_delivered _ = False"

fun is_read :: "message_state \<Rightarrow> bool" where
  "is_read (Read _) = True"
| "is_read _ = False"

fun is_failed :: "message_state \<Rightarrow> bool" where
  "is_failed (Failed _ _) = True"
| "is_failed _ = False"

text \<open>The \<open>match\<close> on the pair of states, branch by branch in source order.\<close>

fun valid_transition :: "message_state \<Rightarrow> message_state \<Rightarrow> bool" where
  "valid_transition Pending Sending = True"
| "valid_transition Pending (Failed _ _) = True"
| "valid_transition Sending (Sent _) = True"
| "valid_transition Sending (Failed _ _) = True"
| "valid_transition (Sent _) (Delivered _) = True"
| "valid_transition (Sent _) (Failed _ _) = True"
| "valid_transition (Delivered _) (Read _) = True"
| "valid_transition (Delivered _) (Failed _ _) = True"
| "valid_transition (Read _) _ = False"
| "valid_transition (Failed _ True) Pending = True"
| "valid_transition (Failed _ _) _ = False"
| "valid_transition _ _ = False"

definition transition_to :: "message_state \<Rightarrow> message_state \<Rightarrow> (message_state, message_state_error) result" where
  "transition_to s t = (if valid_transition s t then Ok t else Err (InvalidTransition s t))"

text \<open>\<open>Display\<close> and derived \<open>Debug\<close>; \<open>hms\<close> formats a time as \<open>%H:%M:%S\<close>.\<close>

fun display_message_state :: "(datetime \<Rightarrow> string) \<Rightarrow> message_state \<Rightarrow> string" where
  "display_message_state hms Pending = ''Pending''"
| "display_message_state hms Sending = ''Sending''"
| "display_message_state hms (Sent t) = ''Sent at '' @ hms t"
| "display_message_state hms (Delivered t) = ''Delivered at '' @ hms t"
| "display_message_state hms (Read t) = ''Read at '' @ hms t"
| "display_message_state hms (Failed t r) = ''Failed'' @ (if r then '' (retryable)'' else [])"

fun debug_message_state :: "crates \<Rightarrow> message_state \<Rightarrow> string" where
  "debug_message_state K Pending = ''Pending''"
| "debug_message_state K Sending = ''Sending''"
| "debug_message_state K (Sent t) = ''Sent { sent_at: '' @ dt_debug K t @ '' }''"
| "debug_message_state K (Delivered t) = ''Delivered { delivered_at: '' @ dt_debug K t @ '' }''"
| "debug_message_state K (Read t) = ''Read { read_at: '' @ dt_debug K t @ '' }''"
| "debug_message_state K (Failed t r) =
     ''Failed { failed_at: '' @ dt_debug K t @ '', retryable: '' @ (if r then ''true'' else ''false'') @ '' }''"

fun display_state_error :: "crates \<Rightarrow> message_state_error \<Rightarrow> string" where
  "display_state_error K (InvalidTransition f t) =
     ''invalid state transition from '' @ debug_message_state K f @ '' to '' @ debug_message_state K t"
| "display_state_error K TerminalState = ''terminal state reached''"

section \<open>The abstract machine\<close>

text \<open>The edges of the lifecycle: forward delivery, failure, and retry.\<close>

inductive delivery_step :: "message_state \<Rightarrow> message_state \<Rightarrow> bool" where
  start: "delivery_step Pending Sending"
| transmit: "delivery_step Sending (Sent t)"
| deliver: "delivery_step (Sent t) (Delivered u)"
| open_msg: "delivery_step (Delivered t) (Read u)"
| fail: "\<not> is_terminal s \<Longrightarrow> delivery_step s (Failed t r)"
| retry: "delivery_step (Failed t True) Pending"

inductive_cases from_read: "delivery_step (Read t) s"
inductive_cases from_failed: "delivery_step (Failed t r) s"
inductive_simps delivery_step_simps:
  "delivery_step Pending s" "delivery_step Sending s" "delivery_step (Sent t) s"
  "delivery_step (Delivered t) s" "delivery_step (Read t) s" "delivery_step (Failed t r) s"

inductive delivery_run :: "message_state \<Rightarrow> message_state list \<Rightarrow> message_state \<Rightarrow> bool" where
  done_run: "delivery_run s [] s"
| step_run: "delivery_step s t \<Longrightarrow> delivery_run t ts u \<Longrightarrow> delivery_run s (t # ts) u"

fun rank :: "message_state \<Rightarrow> nat" where
  "rank Pending = 0"
| "rank Sending = 1"
| "rank (Sent _) = 2"
| "rank (Delivered _) = 3"
| "rank (Read _) = 4"
| "rank (Failed _ _) = 5"

lemma valid_transition_iff_step: "valid_transition s t \<longleftrightarrow> delivery_step s t"
  by (cases s; cases t; cases "retryable s") (auto simp: delivery_step_simps)

lemma transition_to_Ok [simp]: "transition_to s t = Ok u \<longleftrightarrow> delivery_step s t \<and> u = t"
  by (auto simp: transition_to_def valid_transition_iff_step)

lemma transition_to_implements:
  "transition_to s t = (if delivery_step s t then Ok t else Err (InvalidTransition s t))"
  by (simp add: transition_to_def valid_transition_iff_step)

lemma transition_to_not_Panic [simp]: "transition_to s t \<noteq> Panic"
  by (simp add: transition_to_def)

lemma transition_to_Err:
  "transition_to s t = Err e \<longleftrightarrow> \<not> delivery_step s t \<and> e = InvalidTransition s t"
  by (auto simp: transition_to_def valid_transition_iff_step)

lemma step_rank: "delivery_step s t \<Longrightarrow> rank s < rank t \<or> (is_failed s \<and> t = Pending)"
  by (cases s; cases t) (auto simp: delivery_step_simps)

lemma run_rank_no_retry:
  "delivery_run s ts u \<Longrightarrow> Pending \<notin> set ts \<Longrightarrow> rank s + length ts \<le> rank u"
proof (induction rule: delivery_run.induct)
  case (step_run s t ts u)
  then have "rank s < rank t" using step_rank by fastforce
  with step_run show ?case by simp
qed simp

lemma run_from_read: "delivery_run (Read t) ts u \<Longrightarrow> ts = [] \<and> u = Read t"
  by (erule delivery_run.cases) (auto elim: from_read)

section \<open>Histories of a message\<close>

text \<open>The requests of a history that are granted, in order; a refused one leaves the state.\<close>

fun granted :: "message_state \<Rightarrow> message_state list \<Rightarrow> message_state list" where
  "granted s [] = []"
| "granted s (t # ts) = (case transition_to s t of Ok u \<Rightarrow> u # granted u ts | _ \<Rightarrow> granted s ts)"

text \<open>
  What a history has to look like, told without edges. An attempt goes through the stages pending, sending, sent,
  delivered and read in this order, leaves none out, and may break off anywhere, by a failure unless it was read. A life is a sequence
  of attempts; all but the last end in a failure that permits a retry.
\<close>

definition attempt_shape :: "message_state list \<Rightarrow> bool" where
  "attempt_shape xs \<longleftrightarrow> map rank xs \<in> {[0], [0, 1], [0, 1, 2], [0, 1, 2, 3], [0, 1, 2, 3, 4],
     [0, 5], [0, 1, 5], [0, 1, 2, 5], [0, 1, 2, 3, 5]}"

definition life :: "message_state list \<Rightarrow> bool" where
  "life path \<longleftrightarrow> (\<exists>atts a. path = concat atts @ a \<and> attempt_shape a
     \<and> list_all (\<lambda>b. attempt_shape b \<and> (\<exists>t. last b = Failed t True)) atts)"

lemma rank_conv:
  "rank s = 0 \<longleftrightarrow> s = Pending" "rank s = Suc 0 \<longleftrightarrow> s = Sending" "rank s = 2 \<longleftrightarrow> (\<exists>t. s = Sent t)"
  "rank s = 3 \<longleftrightarrow> (\<exists>t. s = Delivered t)" "rank s = 4 \<longleftrightarrow> (\<exists>t. s = Read t)" "rank s = 5 \<longleftrightarrow> (\<exists>t r. s = Failed t r)"
  by (cases s; simp)+

lemma attempt_shape_snoc:
  assumes "ys \<noteq> []"
  shows "attempt_shape (ys @ [r]) \<longleftrightarrow> attempt_shape ys \<and> delivery_step (last ys) r \<and> r \<noteq> Pending"
proof -
  obtain zs s where ys: "ys = zs @ [s]" using assms by (metis append_butlast_last_id)
  show ?thesis unfolding ys attempt_shape_def
    by (cases s; cases r) (auto simp: delivery_step_simps append_eq_Cons_conv rank_conv)
qed

lemma attempt_shape_single: "attempt_shape [r] \<longleftrightarrow> r = Pending"
  by (simp add: attempt_shape_def rank_conv)

lemma attempt_shape_not_Nil: "attempt_shape a \<Longrightarrow> a \<noteq> []"
  by (auto simp: attempt_shape_def)

lemma life_snoc: "life (path @ [r]) \<longleftrightarrow> (if path = [] then r = Pending else life path \<and> delivery_step (last path) r)"
proof
  assume "life (path @ [r])"
  then obtain atts a where a: "path @ [r] = concat atts @ a" "attempt_shape a"
    and atts: "list_all (\<lambda>b. attempt_shape b \<and> (\<exists>t. last b = Failed t True)) atts"
    by (auto simp: life_def)
  obtain ys where ys: "a = ys @ [r]" "path = concat atts @ ys"
    using a(1) attempt_shape_not_Nil [OF a(2)] by (cases a rule: rev_cases) auto
  show "if path = [] then r = Pending else life path \<and> delivery_step (last path) r"
  proof (cases "ys = []")
    case False
    then show ?thesis using a(2) atts ys unfolding life_def by (auto simp: attempt_shape_snoc)
  next
    case True
    then have r: "r = Pending" using a(2) ys(1) by (simp add: attempt_shape_single)
    show ?thesis
    proof (cases atts rule: rev_cases)
      case (snoc bs b)
      then obtain t where b: "attempt_shape b" "last b = Failed t True" "b \<noteq> []"
        using atts attempt_shape_not_Nil by auto
      moreover have "path = concat bs @ b" using ys True snoc by simp
      moreover have "list_all (\<lambda>b. attempt_shape b \<and> (\<exists>t. last b = Failed t True)) bs" using atts snoc by simp
      ultimately show ?thesis using r unfolding life_def by (auto simp: delivery_step_simps)
    qed (use ys True r in simp)
  qed
next
  assume h: "if path = [] then r = Pending else life path \<and> delivery_step (last path) r"
  show "life (path @ [r])"
  proof (cases "path = []")
    case True
    with h show ?thesis unfolding life_def by (intro exI [of _ "[]"] exI [of _ "[Pending]"]) (simp add: attempt_shape_single)
  next
    case False
    with h obtain atts a where a: "path = concat atts @ a" "attempt_shape a"
      and atts: "list_all (\<lambda>b. attempt_shape b \<and> (\<exists>t. last b = Failed t True)) atts" and step: "delivery_step (last path) r"
      by (auto simp: life_def)
    have last: "last path = last a" using a attempt_shape_not_Nil by simp
    show ?thesis
    proof (cases "r = Pending")
      case True
      then obtain t where "last a = Failed t True" using step last by (cases "last a") (auto simp: delivery_step_simps)
      then show ?thesis using a atts True unfolding life_def
        by (intro exI [of _ "atts @ [a]"] exI [of _ "[r]"]) (auto simp: attempt_shape_single)
    next
      case False
      then have "attempt_shape (a @ [r])" using a(2) step last attempt_shape_not_Nil by (simp add: attempt_shape_snoc)
      then show ?thesis using a(1) atts unfolding life_def by (intro exI [of _ atts] exI [of _ "a @ [r]"]) simp
    qed
  qed
qed

lemma life_granted: "life (path @ [s]) \<Longrightarrow> life (path @ s # granted s ts)"
proof (induction ts arbitrary: path s)
  case (Cons t ts)
  show ?case
  proof (cases "delivery_step s t")
    case True
    then have "life ((path @ [s]) @ [t])" using Cons.prems by (subst life_snoc) simp
    from Cons.IH [OF this] True show ?thesis by (simp add: transition_to_implements)
  next
    case False
    with Cons show ?thesis by (simp add: transition_to_implements)
  qed
qed simp

lemma granted_life: "life (path @ s # ts) \<Longrightarrow> granted s ts = ts"
proof (induction ts arbitrary: path s)
  case (Cons t ts)
  have prefix: "life (xs @ ys) \<Longrightarrow> xs \<noteq> [] \<Longrightarrow> life xs" for xs ys
    by (induction ys rule: rev_induct) (auto simp: life_snoc simp flip: append_assoc)
  have "life ((path @ [s]) @ [t])" using prefix [of "path @ [s, t]" ts] Cons.prems by simp
  then have "delivery_step s t" by (subst (asm) life_snoc) simp
  with Cons.IH [of "path @ [s]" t] Cons.prems show ?case by (simp add: transition_to_implements)
qed simp

section \<open>Properties\<close>

text \<open>
  C10: the lives that the transition check permits are exactly the sequences of attempts. Whatever is requested of a
  pending message, in any order, the granted requests form a life: no stage is skipped, repeated or taken
  back, and after a failure there is nothing but a new attempt, if the failure permits one. Conversely every life is granted in full. A
  refused request reports both states. This is less than the module's comments say: a delivered message may still fail, and a
  failure that permits a retry is not terminal.
\<close>

theorem transition_to_implements_lifecycle:
  "life (Pending # granted Pending ts) \<and> (granted Pending ts = ts \<longleftrightarrow> life (Pending # ts))
   \<and> (transition_to s t = Ok t \<or> transition_to s t = Err (InvalidTransition s t))"
proof -
  have "life [Pending]" using life_snoc [of "[]" Pending] by simp
  then have "life (Pending # granted Pending us)" for us using life_granted [of "[]" Pending us] by simp
  moreover have "life (Pending # ts) \<Longrightarrow> granted Pending ts = ts" using granted_life [of "[]" Pending ts] by simp
  ultimately show ?thesis by (metis transition_to_implements)
qed

text \<open>
  without a retry the machine only moves forward: every run strictly increases the
  rank, so it makes at most five transitions; and a \<open>Read\<close> or permanently failed message
  accepts no transition at all.
\<close>

theorem lifecycle_monotone:
  assumes "delivery_run s ts u" and "Pending \<notin> set ts"
  shows "rank s + length ts \<le> rank u \<and> length ts \<le> 5
    \<and> (\<forall>t. is_err (transition_to (Read t) s)) \<and> (\<forall>t. is_err (transition_to (Failed t False) s))"
proof -
  have "rank u \<le> 5" by (cases u) auto
  moreover have "rank s + length ts \<le> rank u" using assms by (rule run_rank_no_retry)
  moreover have "\<forall>t. is_err (transition_to (Read t) s)"
    by (simp add: transition_to_def)
  moreover have "\<forall>t. is_err (transition_to (Failed t False) s)"
    by (simp add: transition_to_def)
  ultimately show ?thesis by simp
qed

theorem lifecycle_monotone_witness:
  "rank Pending + length [Sending, Sent 3, Delivered 4, Read 5] \<le> rank (Read 5)"
proof -
  have "delivery_run Pending [Sending, Sent 3, Delivered 4, Read 5] (Read 5)"
    by (intro delivery_run.intros delivery_step.intros)
  from lifecycle_monotone [OF this] show ?thesis by simp
qed

end
