(* ===== verification/Message.thy ===== *)
theory Message
  imports Message_State Fingerprint "HOL-Library.Multiset"
begin

text \<open>
  \<open>crates/domain/src/message/message.rs\<close>: the message entity, its builder with recipient
  deduplication, and the lifecycle methods. Clock and fresh UUID are arguments.
\<close>

section \<open>Data\<close>

datatype content_type = Text | Image | File | Voice

record message =
  msg_id :: uuid
  msg_sender :: fingerprint
  msg_recipients :: "fingerprint list"
  msg_content :: bytes
  msg_content_type :: content_type
  msg_state :: message_state
  msg_created_at :: datetime
  msg_sent_at :: "datetime option"
  msg_delivered_at :: "datetime option"
  msg_read_at :: "datetime option"

record message_builder =
  mb_sender :: "fingerprint option"
  mb_recipients :: "fingerprint list"
  mb_content :: "bytes option"
  mb_content_type :: content_type

section \<open>Builder\<close>

definition message_builder_new :: message_builder where
  "message_builder_new = \<lparr> mb_sender = None, mb_recipients = [], mb_content = None, mb_content_type = Text \<rparr>"

definition with_sender :: "fingerprint \<Rightarrow> message_builder \<Rightarrow> message_builder" where
  "with_sender fp b = b\<lparr> mb_sender := Some fp \<rparr>"

definition with_recipient :: "fingerprint \<Rightarrow> message_builder \<Rightarrow> message_builder" where
  "with_recipient fp b = b\<lparr> mb_recipients := mb_recipients b @ [fp] \<rparr>"

definition with_recipients :: "fingerprint list \<Rightarrow> message_builder \<Rightarrow> message_builder" where
  "with_recipients fps b = b\<lparr> mb_recipients := fps \<rparr>"

definition with_content :: "bytes \<Rightarrow> message_builder \<Rightarrow> message_builder" where
  "with_content c b = b\<lparr> mb_content := Some c \<rparr>"

definition with_content_type :: "content_type \<Rightarrow> message_builder \<Rightarrow> message_builder" where
  "with_content_type ct b = b\<lparr> mb_content_type := ct \<rparr>"

definition message_build :: "datetime \<Rightarrow> uuid \<Rightarrow> message_builder \<Rightarrow> message domain_result" where
  "message_build now fresh b =
     rbind (ok_or (mb_sender b) (Validation ''sender_fingerprint'' ''required'')) (\<lambda>sender.
     if mb_recipients b = [] then
       Err (Validation ''recipient_fingerprints'' ''at least one recipient required'')
     else if length (mb_recipients b) > MAX_RECIPIENTS then
       Err (ResourceLimit (''recipients exceed '' @ nat_str MAX_RECIPIENTS))
     else
       let recipients = remdups_adj (sort_key as_bytes (mb_recipients b)) in
       rbind (ok_or (mb_content b) (Validation ''content'' ''required'')) (\<lambda>content.
       rbind (validate_message_content content) (\<lambda>_.
       Ok \<lparr> msg_id = fresh, msg_sender = sender, msg_recipients = recipients,
            msg_content = content, msg_content_type = mb_content_type b,
            msg_state = Pending, msg_created_at = now,
            msg_sent_at = None, msg_delivered_at = None, msg_read_at = None \<rparr>)))"

section \<open>Methods\<close>

definition stamp :: "message \<Rightarrow> message" where
  "stamp m = (case msg_state m of
       Sent t \<Rightarrow> m\<lparr> msg_sent_at := Some t \<rparr>
     | Delivered t \<Rightarrow> m\<lparr> msg_delivered_at := Some t \<rparr>
     | Read t \<Rightarrow> m\<lparr> msg_read_at := Some t \<rparr>
     | _ \<Rightarrow> m)"

definition transition_state :: "crates \<Rightarrow> message_state \<Rightarrow> (message, unit, domain_error) action" where
  "transition_state K new_state m =
     (case transition_to (msg_state m) new_state of
        Ok s \<Rightarrow> (Ok (), stamp (m\<lparr> msg_state := s \<rparr>))
      | Err e \<Rightarrow> (Err (Validation ''message_state'' (display_state_error K e)), m)
      | Panic \<Rightarrow> (Panic, m))"

definition is_from :: "crates \<Rightarrow> fingerprint \<Rightarrow> message \<Rightarrow> bool" where
  "is_from K fp m = constant_time_eq K (msg_sender m) fp"

definition is_to :: "crates \<Rightarrow> fingerprint \<Rightarrow> message \<Rightarrow> bool" where
  "is_to K fp m = list_ex (\<lambda>r. constant_time_eq K r fp) (msg_recipients m)"

definition mark_sending :: "crates \<Rightarrow> (message, unit, domain_error) action" where
  "mark_sending K = transition_state K Sending"

definition mark_sent :: "crates \<Rightarrow> datetime \<Rightarrow> (message, unit, domain_error) action" where
  "mark_sent K now = transition_state K (Sent now)"

definition mark_delivered :: "crates \<Rightarrow> datetime \<Rightarrow> (message, unit, domain_error) action" where
  "mark_delivered K now = transition_state K (Delivered now)"

definition mark_read :: "crates \<Rightarrow> datetime \<Rightarrow> (message, unit, domain_error) action" where
  "mark_read K now = transition_state K (Read now)"

definition mark_failed :: "crates \<Rightarrow> datetime \<Rightarrow> bool \<Rightarrow> (message, unit, domain_error) action" where
  "mark_failed K now can_retry = transition_state K (Failed now can_retry)"

definition content_size :: "message \<Rightarrow> nat" where
  "content_size m = length (msg_content m)"

definition is_group :: "message \<Rightarrow> bool" where
  "is_group m \<longleftrightarrow> length (msg_recipients m) > 1"

lemmas mark_defs = mark_sending_def mark_sent_def mark_delivered_def mark_read_def mark_failed_def

section \<open>Invariant\<close>

text \<open>The documented invariants of the entity.\<close>

definition wf_message :: "message \<Rightarrow> bool" where
  "wf_message m \<longleftrightarrow>
     wf_fingerprint (msg_sender m) \<and> (\<forall>r\<in>set (msg_recipients m). wf_fingerprint r)
     \<and> 1 \<le> length (msg_recipients m) \<and> length (msg_recipients m) \<le> 50
     \<and> sorted (msg_recipients m) \<and> distinct (msg_recipients m) \<and> valid_content (msg_content m)"

text \<open>The time stamps agree with the state, and a later stamp implies the earlier ones.\<close>

definition stamps_ok :: "message \<Rightarrow> bool" where
  "stamps_ok m \<longleftrightarrow>
     (is_sent (msg_state m) \<longrightarrow> msg_sent_at m \<noteq> None)
     \<and> (is_delivered (msg_state m) \<longrightarrow> msg_delivered_at m \<noteq> None)
     \<and> (\<forall>t. msg_state m = Sent t \<longrightarrow> msg_sent_at m = Some t)
     \<and> (\<forall>t. msg_state m = Delivered t \<longrightarrow> msg_delivered_at m = Some t)
     \<and> (\<forall>t. msg_state m = Read t \<longleftrightarrow> msg_read_at m = Some t)
     \<and> (msg_delivered_at m \<noteq> None \<longrightarrow> msg_sent_at m \<noteq> None)
     \<and> (msg_read_at m \<noteq> None \<longrightarrow> msg_delivered_at m \<noteq> None)"

definition message_core :: "message \<Rightarrow> uuid \<times> fingerprint \<times> fingerprint list \<times> bytes \<times> content_type \<times> datetime" where
  "message_core m = (msg_id m, msg_sender m, msg_recipients m, msg_content m, msg_content_type m, msg_created_at m)"

section \<open>Lemmas\<close>

lemma wf_message_core: "message_core m = message_core m' \<Longrightarrow> wf_message m \<longleftrightarrow> wf_message m'"
  by (simp add: message_core_def wf_message_def)

lemma sort_key_as_bytes: "sort_key as_bytes = (sort :: fingerprint list \<Rightarrow> fingerprint list)"
proof
  fix xs :: "fingerprint list"
  have le: "(\<le>) = (\<lambda>a b. as_bytes a \<le> as_bytes b)"
    by (intro ext) (simp add: less_eq_fingerprint_def)
  have "sorted (map as_bytes (sort_key as_bytes xs))" by simp
  then have "sorted (sort_key as_bytes xs)" by (simp only: sorted_map le)
  then show "sort_key as_bytes xs = sort xs"
    by (intro properties_for_sort [symmetric]) simp_all
qed

lemma distinct_remdups_adj_sorted: "sorted xs \<Longrightarrow> distinct (remdups_adj xs)"
  by (induction xs rule: remdups_adj.induct) auto

lemma dedup_recipients:
  "remdups_adj (sort_key as_bytes fps) = sorted_list_of_set (set (fps :: fingerprint list))"
proof -
  have "sorted (remdups_adj (sort fps))" "distinct (remdups_adj (sort fps))"
    by (simp_all add: sorted_remdups_adj distinct_remdups_adj_sorted)
  then show ?thesis
    using sorted_list_of_set.idem_if_sorted_distinct [of "remdups_adj (sort fps)"]
    by (simp add: sort_key_as_bytes)
qed

lemma transition_state_cases:
  "transition_state K t m =
     (if delivery_step (msg_state m) t then (Ok (), stamp (m\<lparr> msg_state := t \<rparr>))
      else (Err (Validation ''message_state'' (display_state_error K (InvalidTransition (msg_state m) t))), m))"
  by (simp add: transition_state_def transition_to_def valid_transition_iff_step)

lemma stamp_core [simp]: "message_core (stamp m) = message_core m"
  by (simp add: stamp_def message_core_def split: message_state.splits)

lemma stamp_state [simp]: "msg_state (stamp m) = msg_state m"
  by (simp add: stamp_def split: message_state.splits)

lemma core_set_state [simp]: "message_core (m\<lparr> msg_state := s \<rparr>) = message_core m"
  by (simp add: message_core_def)

lemma stamps_ok_step:
  assumes "stamps_ok m" and "delivery_step (msg_state m) t"
  shows "stamps_ok (stamp (m\<lparr> msg_state := t \<rparr>))"
  using assms
  by (cases "msg_state m"; cases t) (auto simp: stamps_ok_def stamp_def delivery_step_simps)

interpretation msg: entity "transition_state K" "\<lambda>m. wf_message m \<and> stamps_ok m" message_core
proof
  fix s op
  assume "wf_message s \<and> stamps_ok s"
  then show "wf_message (snd (transition_state K op s)) \<and> stamps_ok (snd (transition_state K op s))"
    using wf_message_core [of "stamp (s\<lparr> msg_state := op \<rparr>)" s]
    by (simp add: transition_state_cases stamps_ok_step)
next
  show "message_core (snd (transition_state K op s)) = message_core s" for s op
    by (simp add: transition_state_cases)
next
  show "transition_state K op s = (Err e, t) \<Longrightarrow> t = s" for s op e t
    by (simp add: transition_state_cases split: if_splits)
qed

lemma message_build_Ok:
  "message_build now fresh b = Ok m \<longleftrightarrow>
     (\<exists>sender content. mb_sender b = Some sender \<and> mb_content b = Some content
        \<and> mb_recipients b \<noteq> [] \<and> length (mb_recipients b) \<le> 50 \<and> valid_content content
        \<and> m = \<lparr> msg_id = fresh, msg_sender = sender,
               msg_recipients = sorted_list_of_set (set (mb_recipients b)),
               msg_content = content, msg_content_type = mb_content_type b,
               msg_state = Pending, msg_created_at = now,
               msg_sent_at = None, msg_delivered_at = None, msg_read_at = None \<rparr>)"
  by (auto simp: message_build_def Let_def limit_defs dedup_recipients)

lemma message_build_not_Panic [simp]: "message_build now fresh b \<noteq> Panic"
  by (simp add: message_build_def rbind_Panic_conv Let_def)

lemma message_build_wf:
  assumes "message_build now fresh b = Ok m"
    and "pred_option wf_fingerprint (mb_sender b)" and "\<forall>r\<in>set (mb_recipients b). wf_fingerprint r"
  shows "wf_message m \<and> stamps_ok m \<and> msg_state m = Pending"
proof -
  from assms(1) have "mb_recipients b \<noteq> []" "length (mb_recipients b) \<le> 50"
    by (auto simp: message_build_Ok)
  then have "1 \<le> card (set (mb_recipients b))" "card (set (mb_recipients b)) \<le> 50"
    using card_length [of "mb_recipients b"] by (auto simp: Suc_le_eq card_gt_0_iff)
  with assms show ?thesis
    by (auto simp: message_build_Ok wf_message_def stamps_ok_def)
qed

section \<open>Properties\<close>

text \<open>
  \<open>MessageBuilder::build\<close> succeeds exactly on complete input with 1 to 50 recipient
  entries and 1 to 65536 content bytes; the message it returns lists each recipient once,
  in increasing byte order, satisfies the documented invariants and starts as \<open>Pending\<close>.
\<close>

theorem message_build_correct:
  assumes "pred_option wf_fingerprint (mb_sender b)" and "\<forall>r\<in>set (mb_recipients b). wf_fingerprint r"
  shows "case message_build now fresh b of
      Ok m \<Rightarrow> wf_message m \<and> stamps_ok m \<and> msg_state m = Pending
        \<and> set (msg_recipients m) = set (mb_recipients b) \<and> mb_sender b = Some (msg_sender m)
        \<and> mb_content b = Some (msg_content m)
    | Err e \<Rightarrow> mb_sender b = None \<or> mb_recipients b = [] \<or> length (mb_recipients b) > 50
        \<or> mb_content b = None \<or> \<not> valid_content (the (mb_content b))
    | Panic \<Rightarrow> False"
proof (cases "message_build now fresh b")
  case (Ok m)
  then have "set (msg_recipients m) = set (mb_recipients b) \<and> mb_sender b = Some (msg_sender m)
      \<and> mb_content b = Some (msg_content m)"
    by (auto simp: message_build_Ok)
  with message_build_wf [OF Ok assms] show ?thesis unfolding Ok result.case by blast
next
  case (Err e)
  then have "\<nexists>m. message_build now fresh b = Ok m" by simp
  then have "mb_sender b = None \<or> mb_recipients b = [] \<or> length (mb_recipients b) > 50
      \<or> mb_content b = None \<or> \<not> valid_content (the (mb_content b))"
    unfolding message_build_Ok by (cases "mb_sender b"; cases "mb_content b") auto
  then show ?thesis unfolding Err result.case .
qed simp

theorem message_build_correct_witness:
  "\<exists>m. message_build 9 1 (with_content [1] (with_recipient (Fingerprint (replicate 20 2))
         (with_recipient (Fingerprint (replicate 20 2)) (with_sender (Fingerprint (replicate 20 5)) message_builder_new)))) = Ok m
     \<and> wf_message m \<and> length (msg_recipients m) = 1"
proof -
  let ?b = "with_content [1] (with_recipient (Fingerprint (replicate 20 2))
         (with_recipient (Fingerprint (replicate 20 2)) (with_sender (Fingerprint (replicate 20 5)) message_builder_new)))"
  have "pred_option wf_fingerprint (mb_sender ?b)" "\<forall>r\<in>set (mb_recipients ?b). wf_fingerprint r"
    by (simp_all add: with_content_def with_recipient_def with_sender_def message_builder_new_def wf_fingerprint_def)
  from message_build_correct [OF this, of 9 1] obtain m where m: "message_build 9 1 ?b = Ok m" "wf_message m"
    "set (msg_recipients m) = set (mb_recipients ?b)"
    by (cases "message_build 9 1 ?b")
       (auto simp: with_content_def with_recipient_def with_sender_def message_builder_new_def valid_content_def)
  have "set (mb_recipients ?b) = {Fingerprint (replicate 20 2)}"
    by (simp add: with_content_def with_recipient_def with_sender_def message_builder_new_def)
  moreover have "distinct (msg_recipients m)" using m(2) by (simp add: wf_message_def)
  ultimately have "length (msg_recipients m) = 1" using m(3) distinct_card by fastforce
  with m show ?thesis by blast
qed

text \<open>
  C11: whatever lifecycle calls are made on a built message, in any order, the invariants
  and the agreement of stamps with the state are kept, and the id, sender, recipients,
  content, type and creation time never change.
\<close>

theorem message_lifecycle_invariant:
  assumes "message_build now fresh b = Ok m"
    and "pred_option wf_fingerprint (mb_sender b)" and "\<forall>r\<in>set (mb_recipients b). wf_fingerprint r"
  shows "let m' = fold (\<lambda>s m. snd (transition_state K s m)) requests m
    in wf_message m' \<and> stamps_ok m' \<and> message_core m' = message_core m"
  using message_build_wf [OF assms] msg.run_inv [of m K requests] msg.run_core [of K requests m]
  by (simp add: Let_def)

theorem message_lifecycle_invariant_witness:
  "\<exists>m. message_build 9 1 (with_content [1] (with_recipient (Fingerprint (replicate 20 2))
         (with_sender (Fingerprint (replicate 20 5)) message_builder_new))) = Ok m
     \<and> msg_id (fold (\<lambda>s m. snd (transition_state ref_crates s m)) [Sending, Read 4, Sent 10] m) = 1
     \<and> stamps_ok (fold (\<lambda>s m. snd (transition_state ref_crates s m)) [Sending, Read 4, Sent 10] m)"
proof -
  let ?b = "with_content [1] (with_recipient (Fingerprint (replicate 20 2))
         (with_sender (Fingerprint (replicate 20 5)) message_builder_new))"
  have wf: "pred_option wf_fingerprint (mb_sender ?b)" "\<forall>r\<in>set (mb_recipients ?b). wf_fingerprint r"
    by (simp_all add: with_content_def with_recipient_def with_sender_def message_builder_new_def wf_fingerprint_def)
  obtain m where m: "message_build 9 1 ?b = Ok m" "msg_id m = 1"
    by (auto simp: message_build_Ok with_content_def with_recipient_def with_sender_def
        message_builder_new_def valid_content_def)
  from message_lifecycle_invariant [OF m(1) wf, of ref_crates "[Sending, Read 4, Sent 10]"] m
  show ?thesis by (auto simp: Let_def message_core_def)
qed

end
