(* ===== verification/Peer.thy ===== *)
theory Peer
  imports Fingerprint
begin

text \<open>
  \<open>crates/domain/src/peer/peer_status.rs\<close> and \<open>peer.rs\<close>: availability of a remote peer,
  its ageing by \<open>refresh\<close>, and the peer entity with its builder and update methods. The
  clock and the fresh UUID are arguments.
\<close>

section \<open>Status\<close>

definition ONLINE_TIMEOUT_SECONDS :: int where "ONLINE_TIMEOUT_SECONDS = 30"

datatype peer_status = Online datetime | Away datetime | Offline "datetime option" | Blocked

definition online_now :: "datetime \<Rightarrow> peer_status" where
  "online_now now = Online now"

definition offline :: peer_status where
  "offline = Offline None"

definition blocked :: peer_status where
  "blocked = Blocked"

fun refresh :: "datetime \<Rightarrow> peer_status \<Rightarrow> peer_status" where
  "refresh now (Online seen) =
     (let elapsed = now - seen in
      if elapsed > seconds ONLINE_TIMEOUT_SECONDS then Away seen else Online seen)"
| "refresh now (Away seen) =
     (let elapsed = now - seen in
      if elapsed > seconds (ONLINE_TIMEOUT_SECONDS + 300) then Offline (Some seen) else Away seen)"
| "refresh now other = other"

fun is_online :: "peer_status \<Rightarrow> bool" where
  "is_online (Online _) = True"
| "is_online _ = False"

fun is_blocked :: "peer_status \<Rightarrow> bool" where
  "is_blocked Blocked = True"
| "is_blocked _ = False"

fun status_last_seen :: "peer_status \<Rightarrow> datetime option" where
  "status_last_seen (Online t) = Some t"
| "status_last_seen (Away t) = Some t"
| "status_last_seen (Offline t) = t"
| "status_last_seen Blocked = None"

text \<open>\<open>Display\<close>; the first argument is chrono's \<open>%H:%M:%S\<close> formatting.\<close>

fun display_peer_status :: "(datetime \<Rightarrow> string) \<Rightarrow> peer_status \<Rightarrow> string" where
  "display_peer_status hms (Online t) = ''Online (last seen '' @ hms t @ '')''"
| "display_peer_status hms (Away t) = ''Away (last seen '' @ hms t @ '')''"
| "display_peer_status hms (Offline _) = ''Offline''"
| "display_peer_status hms Blocked = ''Blocked''"

section \<open>The entity\<close>

definition MAX_PEER_ADDRESSES :: nat where "MAX_PEER_ADDRESSES = 10"

record peer =
  peer_id :: uuid
  peer_display_name :: rstr
  peer_fingerprint :: fingerprint
  peer_ed25519_public :: bytes
  peer_x25519_public :: bytes
  peer_addresses :: "rstr list"
  peer_status :: peer_status
  peer_verified :: bool
  peer_first_seen :: datetime
  peer_last_seen :: datetime

record peer_builder =
  pb_display_name :: "rstr option"
  pb_fingerprint :: "fingerprint option"
  pb_ed25519_public :: "bytes option"
  pb_x25519_public :: "bytes option"
  pb_addresses :: "rstr list"

definition peer_builder_new :: peer_builder where
  "peer_builder_new = \<lparr> pb_display_name = None, pb_fingerprint = None, pb_ed25519_public = None,
     pb_x25519_public = None, pb_addresses = [] \<rparr>"

definition pb_set_display_name :: "rstr \<Rightarrow> peer_builder \<Rightarrow> peer_builder" where
  "pb_set_display_name name b = b\<lparr> pb_display_name := Some name \<rparr>"

definition pb_set_fingerprint :: "fingerprint \<Rightarrow> peer_builder \<Rightarrow> peer_builder" where
  "pb_set_fingerprint fp b = b\<lparr> pb_fingerprint := Some fp \<rparr>"

definition pb_set_ed25519_public :: "bytes \<Rightarrow> peer_builder \<Rightarrow> peer_builder" where
  "pb_set_ed25519_public key b = b\<lparr> pb_ed25519_public := Some key \<rparr>"

definition pb_set_x25519_public :: "bytes \<Rightarrow> peer_builder \<Rightarrow> peer_builder" where
  "pb_set_x25519_public key b = b\<lparr> pb_x25519_public := Some key \<rparr>"

definition pb_address :: "rstr \<Rightarrow> peer_builder \<Rightarrow> peer_builder" where
  "pb_address addr b = b\<lparr> pb_addresses := pb_addresses b @ [addr] \<rparr>"

definition pb_set_addresses :: "rstr list \<Rightarrow> peer_builder \<Rightarrow> peer_builder" where
  "pb_set_addresses addrs b = b\<lparr> pb_addresses := addrs \<rparr>"

definition peer_build :: "datetime \<Rightarrow> uuid \<Rightarrow> peer_builder \<Rightarrow> peer domain_result" where
  "peer_build now fresh b =
     rbind (ok_or (pb_display_name b) (Validation ''display_name'' ''required'')) (\<lambda>name.
     rbind (validate_display_name name) (\<lambda>_.
     rbind (ok_or (pb_fingerprint b) (Validation ''fingerprint'' ''required'')) (\<lambda>fp.
     rbind (ok_or (pb_ed25519_public b) (Validation ''ed25519_public'' ''required'')) (\<lambda>ed.
     rbind (ok_or (pb_x25519_public b) (Validation ''x25519_public'' ''required'')) (\<lambda>x.
     if length (pb_addresses b) > MAX_PEER_ADDRESSES then
       Err (ResourceLimit (''peer addresses exceed '' @ nat_str MAX_PEER_ADDRESSES))
     else
       Ok \<lparr> peer_id = fresh, peer_display_name = name, peer_fingerprint = fp,
            peer_ed25519_public = ed, peer_x25519_public = x, peer_addresses = pb_addresses b,
            peer_status = offline, peer_verified = False,
            peer_first_seen = now, peer_last_seen = now \<rparr>)))))"

section \<open>Methods\<close>

definition set_display_name :: "datetime \<Rightarrow> rstr \<Rightarrow> (peer, unit, domain_error) action" where
  "set_display_name now name =
     abind (alift (validate_display_name name)) (\<lambda>_ p.
       (Ok (), p\<lparr> peer_display_name := name, peer_last_seen := now \<rparr>))"

definition set_addresses :: "datetime \<Rightarrow> rstr list \<Rightarrow> (peer, unit, domain_error) action" where
  "set_addresses now addrs p =
     (if length addrs > MAX_PEER_ADDRESSES then
        (Err (ResourceLimit (''peer addresses exceed '' @ nat_str MAX_PEER_ADDRESSES)), p)
      else (Ok (), p\<lparr> peer_addresses := addrs, peer_last_seen := now \<rparr>))"

definition set_status :: "datetime \<Rightarrow> peer_status \<Rightarrow> peer \<Rightarrow> peer" where
  "set_status now status p =
     (let p' = p\<lparr> peer_status := status \<rparr> in
      if is_online status then p'\<lparr> peer_last_seen := now \<rparr> else p')"

definition verify_peer :: "peer \<Rightarrow> peer" where
  "verify_peer p = p\<lparr> peer_verified := True \<rparr>"

definition unverify_peer :: "peer \<Rightarrow> peer" where
  "unverify_peer p = p\<lparr> peer_verified := False \<rparr>"

definition matches_fingerprint :: "crates \<Rightarrow> peer \<Rightarrow> fingerprint \<Rightarrow> bool" where
  "matches_fingerprint K p fp = constant_time_eq K (peer_fingerprint p) fp"

definition refresh_status :: "datetime \<Rightarrow> peer \<Rightarrow> peer" where
  "refresh_status now p = p\<lparr> peer_status := refresh now (peer_status p) \<rparr>"

definition add_address :: "rstr \<Rightarrow> (peer, unit, domain_error) action" where
  "add_address addr p =
     (if length (peer_addresses p) \<ge> MAX_PEER_ADDRESSES then
        (Err (ResourceLimit ''peer addresses at maximum''), p)
      else if addr \<notin> set (peer_addresses p) then
        (Ok (), p\<lparr> peer_addresses := peer_addresses p @ [addr] \<rparr>)
      else (Ok (), p))"

text \<open>The mutating methods as one type of calls, each with the clock reading it makes.\<close>

datatype peer_call =
    SetDisplayName datetime rstr | SetAddresses datetime "rstr list"
  | SetStatus datetime peer_status | VerifyPeer | UnverifyPeer
  | RefreshStatus datetime | AddAddress rstr

fun peer_exec :: "peer_call \<Rightarrow> (peer, unit, domain_error) action" where
  "peer_exec (SetDisplayName now name) p = set_display_name now name p"
| "peer_exec (SetAddresses now addrs) p = set_addresses now addrs p"
| "peer_exec (SetStatus now s) p = (Ok (), set_status now s p)"
| "peer_exec VerifyPeer p = (Ok (), verify_peer p)"
| "peer_exec UnverifyPeer p = (Ok (), unverify_peer p)"
| "peer_exec (RefreshStatus now) p = (Ok (), refresh_status now p)"
| "peer_exec (AddAddress a) p = add_address a p"

definition run_calls :: "peer_call list \<Rightarrow> peer \<Rightarrow> peer" where
  "run_calls calls p = fold (\<lambda>c p. snd (peer_exec c p)) calls p"

section \<open>Invariant\<close>

definition wf_peer :: "peer \<Rightarrow> bool" where
  "wf_peer p \<longleftrightarrow> valid_display_name (peer_display_name p) \<and> length (peer_addresses p) \<le> 10"

definition peer_core :: "peer \<Rightarrow> uuid \<times> fingerprint \<times> bytes \<times> bytes \<times> datetime" where
  "peer_core p = (peer_id p, peer_fingerprint p, peer_ed25519_public p, peer_x25519_public p, peer_first_seen p)"

lemmas peer_method_defs =
  set_display_name_def set_addresses_def set_status_def verify_peer_def unverify_peer_def
  refresh_status_def add_address_def action_defs Let_def

lemma peer_build_Ok:
  "peer_build now fresh b = Ok p \<longleftrightarrow>
     (\<exists>name fp ed x. pb_display_name b = Some name \<and> pb_fingerprint b = Some fp
        \<and> pb_ed25519_public b = Some ed \<and> pb_x25519_public b = Some x
        \<and> valid_display_name name \<and> length (pb_addresses b) \<le> 10
        \<and> p = \<lparr> peer_id = fresh, peer_display_name = name, peer_fingerprint = fp,
               peer_ed25519_public = ed, peer_x25519_public = x, peer_addresses = pb_addresses b,
               peer_status = Offline None, peer_verified = False,
               peer_first_seen = now, peer_last_seen = now \<rparr>)"
  by (auto simp: peer_build_def MAX_PEER_ADDRESSES_def offline_def)

lemma peer_build_not_Panic [simp]: "peer_build now fresh b \<noteq> Panic"
  by (simp add: peer_build_def rbind_Panic_conv)

lemma peer_build_wf: "peer_build now fresh b = Ok p \<Longrightarrow> wf_peer p \<and> \<not> peer_verified p"
  by (auto simp: peer_build_Ok wf_peer_def)

interpretation peer: entity peer_exec wf_peer peer_core
proof
  show "wf_peer s \<Longrightarrow> wf_peer (snd (peer_exec op s))" for s op
    by (cases op)
       (auto simp: peer_method_defs wf_peer_def MAX_PEER_ADDRESSES_def split: result.splits)
  show "peer_core (snd (peer_exec op s)) = peer_core s" for s op
    by (cases op) (auto simp: peer_method_defs peer_core_def split: result.splits)
  show "peer_exec op s = (Err e, t) \<Longrightarrow> t = s" for s op e t
    by (cases op) (auto simp: peer_method_defs split: result.splits if_splits)
qed

lemma exec_verified:
  "peer_verified (snd (peer_exec c p)) = (c = VerifyPeer \<or> (c \<noteq> UnverifyPeer \<and> peer_verified p))"
  by (cases c) (auto simp: peer_method_defs split: result.splits)

lemma run_calls_snoc [simp]: "run_calls (calls @ [c]) p = snd (peer_exec c (run_calls calls p))"
  by (simp add: run_calls_def)

text \<open>The verification is that of the last call that concerns it, the status of the last one that sets it, as it aged since.\<close>

definition verification_calls :: "peer_call list \<Rightarrow> peer_call list" where
  "verification_calls calls = filter (\<lambda>c. c = VerifyPeer \<or> c = UnverifyPeer) calls"

lemma run_calls_verified:
  "peer_verified (run_calls calls p) \<longleftrightarrow>
     (if verification_calls calls = [] then peer_verified p else last (verification_calls calls) = VerifyPeer)"
proof (induction calls rule: rev_induct)
  case (snoc c calls)
  then show ?case by (cases c) (auto simp: exec_verified verification_calls_def simp del: peer_exec.simps)
qed (simp add: run_calls_def verification_calls_def)

lemma exec_offline:
  "peer_status p = Offline None \<Longrightarrow> (\<forall>now s. SetStatus now s \<noteq> c) \<Longrightarrow> peer_status (snd (peer_exec c p)) = Offline None"
  by (cases c) (auto simp: peer_method_defs split: result.splits)

lemma run_calls_offline:
  "peer_status p = Offline None \<Longrightarrow> (\<forall>now s. SetStatus now s \<notin> set calls) \<Longrightarrow> peer_status (run_calls calls p) = Offline None"
proof (induction calls rule: rev_induct)
  case (snoc c calls)
  then have "peer_status (run_calls calls p) = Offline None" "\<forall>now s. SetStatus now s \<noteq> c" by auto
  then show ?case unfolding run_calls_snoc by (rule exec_offline)
qed (simp add: run_calls_def)

section \<open>Ageing of a status\<close>

lemma refresh_offline_fixed: "fold refresh ts (Offline x) = Offline x"
  by (induction ts) auto

lemma refresh_blocked_fixed: "fold refresh ts Blocked = Blocked"
  by (induction ts) auto

lemma refresh_away_run:
  "fold refresh ts (Away t) =
     (if list_ex (\<lambda>now. now - t > seconds 330) ts then Offline (Some t) else Away t)"
  by (induction ts) (auto simp: ONLINE_TIMEOUT_SECONDS_def Let_def refresh_offline_fixed)

section \<open>Properties\<close>

text \<open>
  ageing of an online peer, for every sequence of refreshes: it stays \<open>Online\<close> until the
  first refresh more than 30 s after it was last seen, is then \<open>Away\<close>, and becomes
  \<open>Offline\<close> only at a later refresh that is more than 330 s after it was last seen (so never
  by a single refresh). The last-seen time is kept throughout.
\<close>

theorem refresh_run_online:
  "fold refresh ts (Online t) =
     (case dropWhile (\<lambda>now. now - t \<le> seconds 30) ts of
        [] \<Rightarrow> Online t
      | first # later \<Rightarrow>
          if list_ex (\<lambda>now. now - t > seconds 330) later then Offline (Some t) else Away t)"
  by (induction ts) (auto simp: ONLINE_TIMEOUT_SECONDS_def Let_def refresh_away_run)

text \<open>
  C38: a built peer starts unverified and offline, first and last seen when it was built, with the name, keys and addresses of its
  builder. Whatever sequence of update calls is made
  on it, its name stays valid, it never lists more than ten addresses, and its id,
  fingerprint, public keys and first-seen time never change; it is verified exactly when the last of the calls to
  \<open>verify\<close> and \<open>unverify\<close> was one to \<open>verify\<close>, and it is offline as long as \<open>set_status\<close> is not called, however often it is
  refreshed.
\<close>

theorem peer_updates_keep_invariant:
  assumes "peer_build now fresh b = Ok p"
  shows "peer_status p = Offline None \<and> \<not> peer_verified p \<and> peer_first_seen p = now \<and> peer_last_seen p = now
    \<and> pb_display_name b = Some (peer_display_name p) \<and> pb_fingerprint b = Some (peer_fingerprint p)
    \<and> pb_ed25519_public b = Some (peer_ed25519_public p) \<and> pb_x25519_public b = Some (peer_x25519_public p)
    \<and> pb_addresses b = peer_addresses p
    \<and> wf_peer (run_calls calls p) \<and> peer_core (run_calls calls p) = peer_core p
    \<and> (peer_verified (run_calls calls p) \<longleftrightarrow> verification_calls calls \<noteq> [] \<and> last (verification_calls calls) = VerifyPeer)
    \<and> ((\<forall>t s. SetStatus t s \<notin> set calls) \<longrightarrow> peer_status (run_calls calls p) = Offline None)"
  using peer_build_wf [OF assms] peer.run_inv [of p calls] peer.run_core [of calls p] assms
    run_calls_verified [of calls p] run_calls_offline [of p calls]
  by (auto simp: peer_build_Ok run_calls_def)

theorem peer_updates_keep_invariant_witness:
  "\<exists>p. peer_build 5 1 \<lparr> pb_display_name = Some [65], pb_fingerprint = Some (Fingerprint (replicate 20 7)),
         pb_ed25519_public = Some (replicate 32 1), pb_x25519_public = Some (replicate 32 2),
         pb_addresses = [] \<rparr> = Ok p
     \<and> peer_status (run_calls [AddAddress [49], RefreshStatus 99] p) = Offline None
     \<and> peer_verified (run_calls [VerifyPeer, UnverifyPeer, SetDisplayName 6 [], VerifyPeer] p)
     \<and> wf_peer (run_calls [AddAddress [49], SetDisplayName 6 []] p)"
proof -
  let ?b = "\<lparr> pb_display_name = Some [65], pb_fingerprint = Some (Fingerprint (replicate 20 7)),
         pb_ed25519_public = Some (replicate 32 1), pb_x25519_public = Some (replicate 32 2),
         pb_addresses = [] \<rparr>"
  obtain p where p: "peer_build 5 1 ?b = Ok p"
    by (auto simp: peer_build_Ok valid_display_name_def str_len_def len_utf8_def is_control_def)
  from peer_updates_keep_invariant [OF p, of "[AddAddress [49], RefreshStatus 99]"]
    peer_updates_keep_invariant [OF p, of "[VerifyPeer, UnverifyPeer, SetDisplayName 6 [], VerifyPeer]"]
    peer_updates_keep_invariant [OF p, of "[AddAddress [49], SetDisplayName 6 []]"] p
  show ?thesis by (simp add: verification_calls_def)
qed

end
