(* ===== verification/Rate_Limit.thy ===== *)
theory Rate_Limit
  imports Crates
begin

text \<open>
  \<open>crates/application/src/rate_limit.rs\<close>: the sliding-window rate limiter. The mutex makes
  every call atomic, so the limiter is a state passed through \<open>check\<close> and \<open>reset\<close>; the
  reading of the monotonic clock is an argument.
\<close>

section \<open>Model\<close>

definition DEFAULT_WINDOW :: int where "DEFAULT_WINDOW = seconds 60"
definition DEFAULT_MAX_ATTEMPTS :: nat where "DEFAULT_MAX_ATTEMPTS = 5"

record rate_limiter =
  rl_state :: "rstr \<Rightarrow> instant list option"
  rl_window :: int
  rl_max_attempts :: nat

definition with_config :: "int \<Rightarrow> nat \<Rightarrow> rate_limiter" where
  "with_config window max_attempts =
     \<lparr> rl_state = Map.empty, rl_window = window, rl_max_attempts = max_attempts \<rparr>"

definition rate_limiter_new :: rate_limiter where
  "rate_limiter_new = with_config DEFAULT_WINDOW DEFAULT_MAX_ATTEMPTS"

definition entries :: "rate_limiter \<Rightarrow> rstr \<Rightarrow> instant list" where
  "entries rl key = (case rl_state rl key of Some ts \<Rightarrow> ts | None \<Rightarrow> [])"

definition check :: "instant \<Rightarrow> rstr \<Rightarrow> rate_limiter \<Rightarrow> bool \<times> rate_limiter" where
  "check now key rl =
     (let cutoff = now - rl_window rl;
          kept = filter (\<lambda>t. t > cutoff) (entries rl key) in
      if length kept \<ge> rl_max_attempts rl then
        (False, rl\<lparr> rl_state := (rl_state rl)(key \<mapsto> kept) \<rparr>)
      else
        (True, rl\<lparr> rl_state := (rl_state rl)(key \<mapsto> kept @ [now]) \<rparr>))"

definition reset :: "rstr \<Rightarrow> rate_limiter \<Rightarrow> rate_limiter" where
  "reset key rl = rl\<lparr> rl_state := (rl_state rl)(key := None) \<rparr>"

section \<open>Histories\<close>

text \<open>
  A history is a list of calls with the clock readings they make. \<open>run\<close> performs it and
  returns the admitted checks, oldest first, with the final state.
\<close>

datatype 'k call = Check instant 'k | Reset 'k

fun run :: "(instant \<Rightarrow> 'k \<Rightarrow> 's \<Rightarrow> bool \<times> 's) \<Rightarrow> ('k \<Rightarrow> 's \<Rightarrow> 's) \<Rightarrow> 'k call list \<Rightarrow> 's
    \<Rightarrow> (instant \<times> 'k) list \<times> 's" where
  "run chk rst [] s = ([], s)"
| "run chk rst (Check t k # cs) s =
     (case chk t k s of (ok, s') \<Rightarrow>
      (case run chk rst cs s' of (adm, s'') \<Rightarrow> (if ok then (t, k) # adm else adm, s'')))"
| "run chk rst (Reset k # cs) s = run chk rst cs (rst k s)"

definition times_of :: "'k \<Rightarrow> (instant \<times> 'k) list \<Rightarrow> instant list" where
  "times_of key adm = map fst (filter (\<lambda>(t, k). k = key) adm)"

fun call_times :: "'k call list \<Rightarrow> instant list" where
  "call_times [] = []"
| "call_times (Check t k # cs) = t # call_times cs"
| "call_times (Reset k # cs) = call_times cs"

text \<open>The admitted checks of a key that fall into the window that ends at \<open>x\<close>.\<close>

definition in_window :: "int \<Rightarrow> instant \<Rightarrow> instant list \<Rightarrow> instant list" where
  "in_window window x ts = filter (\<lambda>t. x - window < t \<and> t \<le> x) ts"

lemma times_of_simps [simp]:
  "times_of key [] = []"
  "times_of key ((t, k) # adm) = (if k = key then t # times_of key adm else times_of key adm)"
  "times_of key (xs @ ys) = times_of key xs @ times_of key ys"
  by (auto simp: times_of_def)

lemma run_Check:
  "fst (run chk rst (Check t k # cs) s) =
     (if fst (chk t k s) then [(t, k)] else []) @ fst (run chk rst cs (snd (chk t k s)))"
  "snd (run chk rst (Check t k # cs) s) = snd (run chk rst cs (snd (chk t k s)))"
  by (simp_all split: prod.splits)

lemmas [simp del] = run.simps(2)
lemmas [simp] = run_Check

lemma run_append:
  "fst (run chk rst (cs @ ds) s) =
     fst (run chk rst cs s) @ fst (run chk rst ds (snd (run chk rst cs s)))"
  "snd (run chk rst (cs @ ds) s) = snd (run chk rst ds (snd (run chk rst cs s)))"
  by (induction cs arbitrary: s rule: call_times.induct) auto

lemma call_times_append [simp]: "call_times (cs @ ds) = call_times cs @ call_times ds"
  by (induction cs rule: call_times.induct) auto

lemma run_times_subset: "set (times_of key (fst (run chk rst cs s))) \<subseteq> set (call_times cs)"
  by (induction cs arbitrary: s rule: call_times.induct) (auto dest: subsetD)

section \<open>The contract of a sliding-window limiter\<close>

text \<open>
  \<open>recent\<close> is what the limiter remembers of a key. A check forgets what has left the
  window, decides by what remains, and records itself when admitted; other keys are not
  touched.
\<close>

locale limiter =
  fixes inv :: "'s \<Rightarrow> bool"
    and recent :: "'s \<Rightarrow> 'k \<Rightarrow> instant list"
    and chk :: "instant \<Rightarrow> 'k \<Rightarrow> 's \<Rightarrow> bool \<times> 's"
    and rst :: "'k \<Rightarrow> 's \<Rightarrow> 's"
    and window :: int
    and limit :: nat
  assumes chk_inv: "inv s \<Longrightarrow> inv (snd (chk now k s))"
    and rst_inv: "inv s \<Longrightarrow> inv (rst k s)"
    and chk_decides: "inv s \<Longrightarrow>
      fst (chk now k s) \<longleftrightarrow> length (filter (\<lambda>t. t > now - window) (recent s k)) < limit"
    and chk_records: "inv s \<Longrightarrow>
      recent (snd (chk now k s)) k =
        filter (\<lambda>t. t > now - window) (recent s k) @ (if fst (chk now k s) then [now] else [])"
    and chk_other: "inv s \<Longrightarrow> k' \<noteq> k \<Longrightarrow> recent (snd (chk now k s)) k' = recent s k'"
    and rst_recent: "inv s \<Longrightarrow> recent (rst k s) k' = (if k' = k then [] else recent s k')"
begin

definition agree :: "instant \<Rightarrow> 's \<Rightarrow> 'k \<Rightarrow> instant list \<Rightarrow> bool" where
  "agree T s k A \<longleftrightarrow> filter (\<lambda>t. t > T - window) (recent s k) = filter (\<lambda>t. t > T - window) A"

lemma agree_later: "agree T s k A \<Longrightarrow> T \<le> T' \<Longrightarrow> agree T' s k A"
proof -
  assume a: "agree T s k A" "T \<le> T'"
  have "filter (\<lambda>t. t > T' - window) (filter (\<lambda>t. t > T - window) xs) = filter (\<lambda>t. t > T' - window) xs" for xs
    using a(2) by (auto intro: filter_cong)
  with a(1) show ?thesis unfolding agree_def by metis
qed

lemma agree_check:
  assumes "inv s" and "agree now s k A" and "now \<le> T"
  shows "agree T (snd (chk now k s)) k (A @ (if fst (chk now k s) then [now] else []))"
proof -
  have "agree now (snd (chk now k s)) k (A @ (if fst (chk now k s) then [now] else []))"
    using assms(1,2) unfolding agree_def chk_records [OF assms(1)] by simp
  then show ?thesis using assms(3) by (rule agree_later)
qed

lemma run_inv: "inv s \<Longrightarrow> inv (snd (run chk rst cs s))"
proof (induction cs arbitrary: s rule: call_times.induct)
  case (2 t k cs)
  then show ?case using chk_inv [of s t k] by simp
qed (auto simp: rst_inv)

lemma run_agree:
  assumes "inv s" and "agree T0 s key A" and "sorted (T0 # call_times cs @ [T])" and "Reset key \<notin> set cs"
  shows "agree T (snd (run chk rst cs s)) key (A @ times_of key (fst (run chk rst cs s)))"
  using assms
proof (induction cs arbitrary: s T0 A rule: call_times.induct)
  case 1
  then show ?case by (auto intro: agree_later)
next
  case (2 t k cs)
  obtain ok s' where c: "chk t k s = (ok, s')" by (cases "chk t k s")
  have inv': "inv s'" using chk_inv [OF 2(2), of t k] c by simp
  have "agree t s key A" using 2(3,4) by (auto intro: agree_later)
  then have "agree t s' key (A @ (if ok \<and> k = key then [t] else []))"
    using agree_check [OF 2(2), of t key A t] chk_other [OF 2(2), of key k t] c
    by (cases "k = key") (auto simp: agree_def)
  from 2(1) [OF inv' this] 2(4,5) show ?case by (auto simp: c)
next
  case (3 k cs)
  have "agree T0 (rst k s) key A" using 3 rst_recent [of s k key] by (simp add: agree_def)
  with 3 rst_inv [of s k] show ?case by simp
qed

text \<open>A check is admitted exactly if fewer than \<open>limit\<close> admitted checks are in its window.\<close>

lemma admits_iff:
  assumes "inv s" and "recent s key = []" and "sorted (call_times cs @ [now])" and "Reset key \<notin> set cs"
  shows "fst (chk now key (snd (run chk rst cs s))) \<longleftrightarrow>
    length (in_window window now (times_of key (fst (run chk rst cs s)))) < limit"
proof -
  let ?adm = "times_of key (fst (run chk rst cs s))"
  define T0 where "T0 = hd (call_times cs @ [now])"
  have sorted0: "sorted (T0 # call_times cs @ [now])"
    using assms(3) unfolding T0_def by (cases "call_times cs") auto
  have "agree now (snd (run chk rst cs s)) key ([] @ ?adm)"
    by (rule run_agree [OF assms(1) _ sorted0 assms(4)]) (simp add: agree_def assms(2))
  moreover have "\<forall>t\<in>set ?adm. t \<le> now"
    using run_times_subset [of key chk rst cs s] assms(3) by (auto simp: sorted_append)
  then have "filter (\<lambda>t. t > now - window) ?adm = in_window window now ?adm"
    unfolding in_window_def by (auto intro: filter_cong)
  ultimately show ?thesis using chk_decides [OF run_inv [OF assms(1)]] by (simp add: agree_def)
qed

text \<open>No window ever holds more than \<open>limit\<close> admitted checks of a key.\<close>

lemma window_bound:
  assumes "inv s" and "recent s key = []" and "sorted (call_times cs)" and "Reset key \<notin> set cs"
  shows "length (in_window window x (times_of key (fst (run chk rst cs s)))) \<le> limit"
  using assms(3,4)
proof (induction cs rule: rev_induct)
  case (snoc c cs)
  let ?s = "snd (run chk rst cs s)" and ?adm = "times_of key (fst (run chk rst cs s))"
  have IH: "length (in_window window x ?adm) \<le> limit"
    using snoc by (auto simp: sorted_append)
  show ?case
  proof (cases "\<exists>now. c = Check now key \<and> fst (chk now key ?s) \<and> x - window < now \<and> now \<le> x")
    case True
    then obtain now where c: "c = Check now key" "fst (chk now key ?s)" "x - window < now" "now \<le> x" by blast
    have "sorted (call_times cs @ [now])" "Reset key \<notin> set cs" using snoc.prems c(1) by auto
    from admits_iff [OF assms(1,2) this] c(2)
    have lt: "length (in_window window now ?adm) < limit" by simp
    have "\<forall>t\<in>set ?adm. t \<le> now"
      using run_times_subset [of key chk rst cs s] snoc.prems c(1) by (auto simp: sorted_append)
    then have "in_window window x ?adm = filter (\<lambda>t. x - window < t) (in_window window now ?adm)"
      unfolding in_window_def filter_filter using c(4) by (intro filter_cong) auto
    then have "length (in_window window x ?adm) \<le> length (in_window window now ?adm)" by simp
    with lt show ?thesis
      using c by (simp add: run_append in_window_def)
  next
    case False
    then show ?thesis using IH snoc.prems
      by (cases c) (auto simp: run_append in_window_def)
  qed
qed (simp add: in_window_def)

end

section \<open>The model satisfies the contract\<close>

lemmas limiter_defs = check_def reset_def entries_def Let_def

interpretation rl: limiter "\<lambda>rl. rl_window rl = W \<and> rl_max_attempts rl = M" entries check reset W M
  by unfold_locales (auto simp: limiter_defs)

lemma entries_new [simp]: "entries (with_config W M) key = []"
  by (simp add: entries_def with_config_def)

lemma entries_reset [simp]: "entries (reset key rl) key = []"
  by (simp add: entries_def reset_def)

lemma with_config_fields [simp]:
  "rl_window (with_config W M) = W" "rl_max_attempts (with_config W M) = M"
  by (simp_all add: with_config_def)

section \<open>Properties\<close>

text \<open>
  C8: exact sliding-window behaviour. In any history of calls with a monotone clock on a
  limiter that remembers nothing of a key (a new one, or after \<open>reset\<close> of the key), the next
  check of the key is admitted if and only if fewer than \<open>max_attempts\<close> checks of this
  key were admitted in the window that ends at it; calls for other keys have no influence.
\<close>

theorem check_admits_iff:
  assumes "entries rl key = []" and "sorted (call_times cs @ [now])" and "Reset key \<notin> set cs"
  shows "fst (check now key (snd (run check reset cs rl))) \<longleftrightarrow>
    length (in_window (rl_window rl) now (times_of key (fst (run check reset cs rl)))) < rl_max_attempts rl"
  by (rule rl.admits_iff [OF _ assms]) simp

theorem check_admits_iff_witness:
  "\<not> fst (check (seconds 61) [1] (snd (run check reset
      [Check (seconds 5) [1], Check (seconds 20) [1], Check (seconds 30) [2], Reset [2], Check (seconds 60) [1]]
      (with_config (seconds 60) 2))))
   \<and> fst (check (seconds 81) [1] (snd (run check reset
      [Check (seconds 5) [1], Check (seconds 20) [1], Check (seconds 30) [2], Reset [2], Check (seconds 60) [1]]
      (with_config (seconds 60) 2))))"
proof -
  let ?cs = "[Check (seconds 5) [1], Check (seconds 20) [1], Check (seconds 30) [2], Reset [2], Check (seconds 60) [1]]"
    and ?rl = "with_config (seconds 60) 2"
  have run: "fst (run check reset ?cs ?rl) = [(seconds 5, [1]), (seconds 20, [1]), (seconds 30, [2])]"
    by (simp add: limiter_defs with_config_def seconds_def)
  show ?thesis
    using check_admits_iff [of ?rl "[1]" ?cs "seconds 61"] check_admits_iff [of ?rl "[1]" ?cs "seconds 81"]
    unfolding run by (simp add: in_window_def seconds_def del: run_Check)
qed

text \<open>
  flood protection. With a monotone clock and no reset of the key, no time window of the
  configured length ever contains more than \<open>max_attempts\<close> admitted checks of the key.
\<close>

theorem rate_limit_window_bound:
  assumes "entries rl key = []" and "sorted (call_times cs)" and "Reset key \<notin> set cs"
  shows "length (in_window (rl_window rl) x (times_of key (fst (run check reset cs rl)))) \<le> rl_max_attempts rl"
  by (rule rl.window_bound [OF _ assms]) simp

theorem rate_limit_window_bound_witness:
  "length (in_window (seconds 60) (seconds 80) (times_of [1] (fst (run check reset
      (map (\<lambda>i. Check (seconds (int i)) [1]) [0..<100]) rate_limiter_new)))) \<le> 5"
proof -
  let ?cs = "map (\<lambda>i. Check (seconds (int i)) [1 :: nat]) [0..<100]"
  have ct: "call_times (map (\<lambda>i. Check (f i) (k :: nat list)) is) = map f is" for f :: "nat \<Rightarrow> int" and k "is"
    by (induction "is") auto
  have "sorted (call_times ?cs)" "Reset [1] \<notin> set ?cs"
    by (auto simp: ct sorted_map intro: sorted_wrt_mono_rel [OF _ sorted_wrt_upt])
  from rate_limit_window_bound [OF _ this, of rate_limiter_new "seconds 80"]
  show ?thesis by (simp add: rate_limiter_new_def DEFAULT_WINDOW_def DEFAULT_MAX_ATTEMPTS_def)
qed

end
