(* ===== verification/App_Ports.thy ===== *)
theory App_Ports
  imports Message Peer Identity Rate_Limit
begin

text \<open>
  The application layer's shared ground: \<open>error.rs\<close>, the DTOs of \<open>dto/\<close>, and the ports of
  \<open>ports/\<close> through which the use cases reach network, storage, keys, trust and
  notifications. A port call is an event; what the outside answers is a function of the
  history of calls, so every behaviour of the adapters and every failure is covered.
\<close>

section \<open>Errors\<close>

datatype application_error =
    App_Validation string string | App_Domain | App_Network | App_Persistence | App_Security
  | App_PeerNotVerified | App_PeerNotFound | App_RateLimited | App_Timeout | App_Cancelled | App_Internal

fun user_message :: "application_error \<Rightarrow> string" where
  "user_message (App_Validation field reason) = ''Invalid '' @ field @ '': '' @ reason"
| "user_message App_Domain = ''A data error occurred. Please retry.''"
| "user_message App_Network = ''Network unavailable. Check your LAN connection.''"
| "user_message App_Persistence = ''Failed to save data. Storage may be full.''"
| "user_message App_Security = ''Security check failed. Verify peer fingerprint.''"
| "user_message App_PeerNotVerified = ''Peer is not trusted. Verify identity out-of-band.''"
| "user_message App_PeerNotFound = ''Peer not found. Discover peers first.''"
| "user_message App_RateLimited = ''Too many attempts. Please wait.''"
| "user_message App_Timeout = ''Operation timed out. Please retry.''"
| "user_message App_Cancelled = ''Operation was cancelled.''"
| "user_message App_Internal = ''An unexpected error occurred.''"

datatype net_port_error =
    Port_ConnectionRefused | Port_Timeout | Port_HandshakeFailed | Port_PeerDisconnected
  | Port_Backpressure | Port_DiscoveryFailed string | Port_Internal

datatype persistence_error = Db_Unavailable | Db_QueryFailed string | Db_ConstraintViolation | Db_Internal

datatype security_port_error =
    Sp_KeyGenerationFailed | Sp_EncryptionFailed | Sp_DecryptionFailed | Sp_SignatureInvalid
  | Sp_FingerprintFailed | Sp_StorageFailed | Sp_Internal

datatype trust_error = Trust_Storage | Trust_Internal

datatype notification_error = Notify_Unavailable | Notify_Internal

section \<open>Transfer objects\<close>

definition MAX_PREVIEW_LEN :: nat where "MAX_PREVIEW_LEN = 256"

datatype content_type_dto = Dto_Text | Dto_Image | Dto_File | Dto_Voice

fun content_type_dto_of :: "content_type \<Rightarrow> content_type_dto" where
  "content_type_dto_of Text = Dto_Text"
| "content_type_dto_of Image = Dto_Image"
| "content_type_dto_of File = Dto_File"
| "content_type_dto_of Voice = Dto_Voice"

fun content_type_of_dto :: "content_type_dto \<Rightarrow> content_type" where
  "content_type_of_dto Dto_Text = Text"
| "content_type_of_dto Dto_Image = Image"
| "content_type_of_dto Dto_File = File"
| "content_type_of_dto Dto_Voice = Voice"

record send_message_request =
  sr_recipient_fingerprint :: rstr
  sr_content :: rstr
  sr_content_type :: content_type_dto

datatype message_state_dto =
    Dto_Pending | Dto_Sending | Dto_Sent rstr | Dto_Delivered rstr | Dto_Read rstr | Dto_Failed rstr bool

fun message_state_dto_of :: "crates \<Rightarrow> message_state \<Rightarrow> message_state_dto" where
  "message_state_dto_of K Pending = Dto_Pending"
| "message_state_dto_of K Sending = Dto_Sending"
| "message_state_dto_of K (Sent t) = Dto_Sent (rfc3339 K t)"
| "message_state_dto_of K (Delivered t) = Dto_Delivered (rfc3339 K t)"
| "message_state_dto_of K (Read t) = Dto_Read (rfc3339 K t)"
| "message_state_dto_of K (Failed t r) = Dto_Failed (rfc3339 K t) r"

record message_response =
  mr_id :: rstr
  mr_sender_fingerprint :: rstr
  mr_recipient_fingerprints :: "rstr list"
  mr_content_type :: content_type_dto
  mr_state :: message_state_dto
  mr_created_at :: rstr
  mr_sent_at :: "rstr option"
  mr_delivered_at :: "rstr option"
  mr_read_at :: "rstr option"
  mr_content_preview :: rstr

text \<open>\<open>format!("{}\<dots>", &s[..n])\<close> for a string longer than \<open>n\<close> bytes; the slice panics off a
  character boundary. U+2026 is the ellipsis.\<close>

definition truncated_preview :: "nat \<Rightarrow> rstr \<Rightarrow> (rstr, 'e) result" where
  "truncated_preview n s =
     (if str_len s > n then (case str_prefix n s of Some p \<Rightarrow> Ok (p @ [8230]) | None \<Rightarrow> Panic) else Ok s)"

definition from_message :: "crates \<Rightarrow> message \<Rightarrow> rstr \<Rightarrow> (message_response, 'e) result" where
  "from_message K msg content_preview =
     rbind (truncated_preview MAX_PREVIEW_LEN content_preview) (\<lambda>preview.
     Ok \<lparr> mr_id = uuid_string K (msg_id msg), mr_sender_fingerprint = to_formatted_string K (msg_sender msg),
          mr_recipient_fingerprints = map (to_formatted_string K) (msg_recipients msg),
          mr_content_type = content_type_dto_of (msg_content_type msg), mr_state = message_state_dto_of K (msg_state msg),
          mr_created_at = rfc3339 K (msg_created_at msg), mr_sent_at = map_option (rfc3339 K) (msg_sent_at msg),
          mr_delivered_at = map_option (rfc3339 K) (msg_delivered_at msg),
          mr_read_at = map_option (rfc3339 K) (msg_read_at msg), mr_content_preview = preview \<rparr>)"

record connect_peer_request =
  cr_address :: rstr
  cr_fingerprint :: rstr

record discover_peer_request =
  dr_timeout_secs :: nat
  dr_max_results :: nat

definition discover_peer_request_default :: discover_peer_request where
  "discover_peer_request_default = \<lparr> dr_timeout_secs = 10, dr_max_results = 200 \<rparr>"

datatype peer_status_dto = Dto_Online rstr | Dto_Away rstr | Dto_Offline | Dto_Blocked

fun peer_status_dto_of :: "crates \<Rightarrow> peer_status \<Rightarrow> peer_status_dto" where
  "peer_status_dto_of K (Online t) = Dto_Online (rfc3339 K t)"
| "peer_status_dto_of K (Away t) = Dto_Away (rfc3339 K t)"
| "peer_status_dto_of K (Offline _) = Dto_Offline"
| "peer_status_dto_of K Blocked = Dto_Blocked"

record peer_response =
  pr_id :: rstr
  pr_display_name :: rstr
  pr_fingerprint :: rstr
  pr_addresses :: "rstr list"
  pr_status :: peer_status_dto
  pr_verified :: bool
  pr_first_seen :: rstr
  pr_last_seen :: rstr

definition from_peer :: "crates \<Rightarrow> peer \<Rightarrow> peer_response" where
  "from_peer K p = \<lparr> pr_id = uuid_string K (peer_id p), pr_display_name = peer_display_name p,
     pr_fingerprint = to_formatted_string K (peer_fingerprint p), pr_addresses = peer_addresses p,
     pr_status = peer_status_dto_of K (peer_status p), pr_verified = peer_verified p,
     pr_first_seen = rfc3339 K (peer_first_seen p), pr_last_seen = rfc3339 K (peer_last_seen p) \<rparr>"

section \<open>Ports\<close>

type_synonym conn_id = uuid

record discovered_peer =
  dp_fingerprint :: fingerprint
  dp_display_name :: rstr
  dp_addresses :: "rstr list"
  dp_ed25519_public :: bytes
  dp_x25519_public :: bytes

record incoming_message =
  im_sender :: fingerprint
  im_ciphertext :: bytes
  im_received_at :: datetime

text \<open>The calls of the use cases, with their arguments; \<open>'a\<close> is the type of socket addresses.\<close>

datatype 'a event =
    Ev_Connect 'a "fingerprint option" | Ev_Disconnect conn_id | Ev_Send conn_id bytes | Ev_Broadcast identity | Ev_Discover nat
  | Ev_SaveMessage message | Ev_LoadPeer fingerprint | Ev_SavePeer peer | Ev_UpdatePeerStatus fingerprint peer_status
  | Ev_Encrypt bytes fingerprint | Ev_Decrypt bytes fingerprint | Ev_GenerateIdentity rstr | Ev_SaveIdentity identity
  | Ev_IsTrusted fingerprint | Ev_NotifyMessage fingerprint rstr | Ev_NotifyReset fingerprint
  | Ev_Sleep nat

text \<open>
  The outside world: each reply is a function of the history that ends with the call it
  answers. The clock, fresh UUIDs and the parser of \<open>SocketAddr\<close> are parts of it too. \<open>None\<close> as
  the reply to a connect is the expiry of the timeout around it.
\<close>

record 'a env =
  en_connect :: "'a event list \<Rightarrow> (conn_id \<times> peer, net_port_error) result option"
  en_send :: "'a event list \<Rightarrow> (unit, net_port_error) result"
  en_broadcast :: "'a event list \<Rightarrow> (unit, net_port_error) result"
  en_discover :: "'a event list \<Rightarrow> (discovered_peer list, net_port_error) result"
  en_save_message :: "'a event list \<Rightarrow> (unit, persistence_error) result"
  en_load_peer :: "'a event list \<Rightarrow> (peer option, persistence_error) result"
  en_save_peer :: "'a event list \<Rightarrow> (unit, persistence_error) result"
  en_update_peer_status :: "'a event list \<Rightarrow> (unit, persistence_error) result"
  en_encrypt :: "'a event list \<Rightarrow> (bytes, security_port_error) result"
  en_decrypt :: "'a event list \<Rightarrow> (bytes, security_port_error) result"
  en_generate_identity :: "'a event list \<Rightarrow> (identity, security_port_error) result"
  en_save_identity :: "'a event list \<Rightarrow> (unit, security_port_error) result"
  en_is_trusted :: "'a event list \<Rightarrow> (bool, trust_error) result"
  en_notify :: "'a event list \<Rightarrow> (unit, notification_error) result"
  en_now :: "'a event list \<Rightarrow> datetime"
  en_instant :: "'a event list \<Rightarrow> instant"
  en_uuid :: "'a event list \<Rightarrow> uuid"
  en_parse_addr :: "rstr \<Rightarrow> 'a option"

record 'a world =
  w_trace :: "'a event list"
  w_limiter :: rate_limiter
  w_identity :: identity

definition port_call :: "('a event list \<Rightarrow> ('b, 'e) result) \<Rightarrow> 'a event \<Rightarrow> ('a world, 'b, 'e) action" where
  "port_call reply ev w = (let t = w_trace w @ [ev] in (reply t, w\<lparr> w_trace := t \<rparr>))"

definition limiter_check :: "'a env \<Rightarrow> rstr \<Rightarrow> ('a world, bool, 'e) action" where
  "limiter_check E key w =
     (case check (en_instant E (w_trace w)) key (w_limiter w) of (ok, rl) \<Rightarrow> (Ok ok, w\<lparr> w_limiter := rl \<rparr>))"

definition limiter_reset :: "rstr \<Rightarrow> ('a world, unit, 'e) action" where
  "limiter_reset key w = (Ok (), w\<lparr> w_limiter := reset key (w_limiter w) \<rparr>)"

text \<open>\<open>.unwrap_or(d)\<close> and \<open>.ok()\<close> on a call.\<close>

definition unwrap_or :: "'b \<Rightarrow> ('s, 'b, 'e) action \<Rightarrow> ('s, 'b, 'f) action" where
  "unwrap_or d m s = (case m s of (Ok x, s') \<Rightarrow> (Ok x, s') | (Err _, s') \<Rightarrow> (Ok d, s') | (Panic, s') \<Rightarrow> (Panic, s'))"

definition ignore_err :: "('s, 'b, 'e) action \<Rightarrow> ('s, unit, 'f) action" where
  "ignore_err m s = (case m s of (Ok x, s') \<Rightarrow> (Ok (), s') | (Err _, s') \<Rightarrow> (Ok (), s') | (Panic, s') \<Rightarrow> (Panic, s'))"

lemmas port_defs = port_call_def limiter_check_def limiter_reset_def unwrap_or_def ignore_err_def

lemma port_call_eq_Ok:
  "port_call reply ev w = (Ok y, t) \<longleftrightarrow> reply (w_trace w @ [ev]) = Ok y \<and> t = w\<lparr> w_trace := w_trace w @ [ev] \<rparr>"
  by (auto simp: port_call_def Let_def)

lemma limiter_check_eq_Ok:
  "limiter_check E key w = (Ok b, t) \<longleftrightarrow>
     b = fst (check (en_instant E (w_trace w)) key (w_limiter w))
     \<and> t = w\<lparr> w_limiter := snd (check (en_instant E (w_trace w)) key (w_limiter w)) \<rparr>"
  by (auto simp: limiter_check_def split: prod.splits)

lemma unwrap_or_False_eq_Ok:
  "unwrap_or False (port_call reply ev) w = (Ok b, t) \<longleftrightarrow>
     reply (w_trace w @ [ev]) \<noteq> Panic \<and> b = (reply (w_trace w @ [ev]) = Ok True) \<and> t = w\<lparr> w_trace := w_trace w @ [ev] \<rparr>"
  by (cases "reply (w_trace w @ [ev])") (auto simp: unwrap_or_def port_call_def Let_def)

lemmas port_eq_Ok = action_eq_Ok port_call_eq_Ok limiter_check_eq_Ok unwrap_or_False_eq_Ok

section \<open>Frame rules\<close>

text \<open>Every action of a use case only extends the history.\<close>

definition extends :: "'a world \<Rightarrow> 'a world \<Rightarrow> bool" where
  "extends w w' \<longleftrightarrow> (\<exists>new. w_trace w' = w_trace w @ new)"

interpretation hist: frame_relation extends
  by unfold_locales (auto simp: extends_def)

lemma keeps_port_call [intro]: "hist.keeps (port_call reply ev)"
  by (rule hist.keepsI) (simp add: port_call_def extends_def Let_def)

lemma keeps_limiter_check [intro]: "hist.keeps (limiter_check E key)"
  by (rule hist.keepsI) (simp add: limiter_check_def extends_def split: prod.splits)

lemma keeps_limiter_reset [intro]: "hist.keeps (limiter_reset key)"
  by (rule hist.keepsI) (simp add: limiter_reset_def extends_def)

text \<open>The local identity is left alone by everything but the identity reset.\<close>

definition same_identity :: "'a world \<Rightarrow> 'a world \<Rightarrow> bool" where
  "same_identity w w' \<longleftrightarrow> w_identity w' = w_identity w"

interpretation ident: frame_relation same_identity
  by unfold_locales (auto simp: same_identity_def)

lemma ident_port_call [intro]: "ident.keeps (port_call reply ev)"
  by (rule ident.keepsI) (simp add: port_call_def same_identity_def Let_def)

lemma ident_limiter_check [intro]: "ident.keeps (limiter_check E key)"
  by (rule ident.keepsI) (simp add: limiter_check_def same_identity_def split: prod.splits)

lemma ident_limiter_reset [intro]: "ident.keeps (limiter_reset key)"
  by (rule ident.keepsI) (simp add: limiter_reset_def same_identity_def)

section \<open>A concrete outside world\<close>

text \<open>
  Adapters that answer every call: the key is the plaintext itself, everybody is trusted and
  the one known peer has one address. The witnesses run the use cases against it, with the
  replies they need changed.
\<close>

definition ref_fp :: fingerprint where
  "ref_fp = Fingerprint (replicate 20 0xBB)"

definition ref_peer :: peer where
  "ref_peer = \<lparr> peer_id = 1, peer_display_name = lit ''bob'', peer_fingerprint = ref_fp,
     peer_ed25519_public = replicate 32 1, peer_x25519_public = replicate 32 2, peer_addresses = [lit ''10.0.0.2:9000''],
     peer_status = Offline None, peer_verified = False, peer_first_seen = 0, peer_last_seen = 0 \<rparr>"

definition ref_identity :: identity where
  "ref_identity = \<lparr> ident_id = 2, ident_display_name = lit ''alice'', ident_ed25519_public = replicate 32 3,
     ident_x25519_public = replicate 32 4, ident_fingerprint = Fingerprint (replicate 20 0xAA), ident_created_at = 0, ident_updated_at = 0 \<rparr>"

definition ref_env :: "unit env" where
  "ref_env = \<lparr> en_connect = (\<lambda>t. Some (Ok (7, ref_peer))), en_send = (\<lambda>t. Ok ()), en_broadcast = (\<lambda>t. Ok ()),
     en_discover = (\<lambda>t. Ok []), en_save_message = (\<lambda>t. Ok ()), en_load_peer = (\<lambda>t. Ok (Some ref_peer)),
     en_save_peer = (\<lambda>t. Ok ()), en_update_peer_status = (\<lambda>t. Ok ()), en_encrypt = (\<lambda>t. Ok [1, 2, 3]),
     en_decrypt = (\<lambda>t. Ok [104, 105]), en_generate_identity = (\<lambda>t. Ok ref_identity), en_save_identity = (\<lambda>t. Ok ()),
     en_is_trusted = (\<lambda>t. Ok True), en_notify = (\<lambda>t. Ok ()), en_now = (\<lambda>t. int (length t)),
     en_instant = (\<lambda>t. int (length t)), en_uuid = (\<lambda>t. 5), en_parse_addr = (\<lambda>s. Some ()) \<rparr>"

definition ref_world :: "rate_limiter \<Rightarrow> unit world" where
  "ref_world rl = \<lparr> w_trace = [], w_limiter = rl, w_identity = ref_identity \<rparr>"

end
