(* ===== verification/Send_Message.thy ===== *)
theory Send_Message
  imports App_Ports
begin

text \<open>
  \<open>crates/application/src/usecases/send_message.rs\<close>: validation, rate limit, encryption,
  write-through persistence and delivery with retries.
\<close>

section \<open>Model\<close>

definition MAX_RETRIES :: nat where "MAX_RETRIES = 3"
definition BASE_BACKOFF_MS :: nat where "BASE_BACKOFF_MS = 500"
definition MAX_CONTENT_BYTES :: nat where "MAX_CONTENT_BYTES = 65536"

definition validate_request :: "send_message_request \<Rightarrow> (unit, application_error) result" where
  "validate_request req =
     (if sr_recipient_fingerprint req = [] then Err (App_Validation ''recipient_fingerprint'' ''cannot be empty'')
      else if sr_content req = [] then Err (App_Validation ''content'' ''cannot be empty'')
      else if str_len (sr_content req) > MAX_CONTENT_BYTES then
        Err (App_Validation ''content'' (''exceeds '' @ nat_str MAX_CONTENT_BYTES @ '' bytes''))
      else Ok ())"

definition resolve_address :: "'a env \<Rightarrow> fingerprint \<Rightarrow> ('a world, 'a, application_error) action" where
  "resolve_address E fp =
     abind (amap_err (\<lambda>_. App_Persistence) (port_call (en_load_peer E) (Ev_LoadPeer fp))) (\<lambda>loaded.
     abind (alift (ok_or loaded App_PeerNotFound)) (\<lambda>peer.
     abind (alift (case peer_addresses peer of
                     [] \<Rightarrow> Err (App_Validation ''peer_address'' ''peer has no known addresses'')
                   | a # _ \<Rightarrow> Ok a)) (\<lambda>addr_str.
     alift (ok_or (en_parse_addr E addr_str) (App_Validation ''peer_address'' ''invalid address format'')))))"

text \<open>
  The code works on the message and the world together; a message method is an action on the
  first component that reads the clock of the second.
\<close>

type_synonym 'a sending = "message \<times> 'a world"

definition msg_step :: "'a env \<Rightarrow> (datetime \<Rightarrow> (message, unit, domain_error) action) \<Rightarrow> ('a sending, unit, application_error) action" where
  "msg_step E m s =
     (case m (en_now E (w_trace (snd s))) (fst s) of (r, msg) \<Rightarrow> (map_err (\<lambda>_. App_Domain) r, (msg, snd s)))"

text \<open>A sleep is an event; it has no reply.\<close>

definition do_sleep :: "nat \<Rightarrow> ('a world, unit, application_error) action" where
  "do_sleep ms = port_call (\<lambda>_. Ok ()) (Ev_Sleep ms)"

text \<open>The loop \<open>for attempt in 0..=MAX_RETRIES\<close>; past its end stands \<open>unreachable!()\<close>.\<close>

function send_attempts ::
  "crates \<Rightarrow> 'a env \<Rightarrow> conn_id \<Rightarrow> bytes \<Rightarrow> nat \<Rightarrow> ('a sending, unit, application_error) action" where
  "send_attempts K E conn ct attempt s =
     (if attempt > MAX_RETRIES then (Panic, s)
      else case on_snd (port_call (en_send E) (Ev_Send conn ct)) s of
        (Ok _, s') \<Rightarrow> msg_step E (mark_sent K) s'
      | (Err e, s') \<Rightarrow>
          if attempt < MAX_RETRIES then
            (case on_snd (do_sleep (BASE_BACKOFF_MS * 2 ^ attempt)) s' of
               (_, s'') \<Rightarrow> send_attempts K E conn ct (Suc attempt) s'')
          else abind (msg_step E (\<lambda>now. mark_failed K now True)) (\<lambda>_. afail App_Network) s'
      | (Panic, s') \<Rightarrow> (Panic, s'))"
  by pat_completeness auto
termination
  by (relation "measure (\<lambda>(K, E, conn, ct, attempt, s). Suc MAX_RETRIES - attempt)") auto

declare send_attempts.simps [simp del]

definition connect_call :: "'a env \<Rightarrow> 'a \<Rightarrow> fingerprint \<Rightarrow> ('a world, conn_id \<times> peer, application_error) action" where
  "connect_call E addr fp =
     amap_err (\<lambda>_. App_Network)
       (port_call (\<lambda>t. case en_connect E t of Some r \<Rightarrow> r | None \<Rightarrow> Err Port_Timeout) (Ev_Connect addr (Some fp)))"

definition send_with_retry ::
  "crates \<Rightarrow> 'a env \<Rightarrow> fingerprint \<Rightarrow> bytes \<Rightarrow> ('a sending, unit, application_error) action" where
  "send_with_retry K E recipient_fp ct =
     abind (msg_step E (\<lambda>_. transition_state K Sending)) (\<lambda>_.
     abind (on_snd (resolve_address E recipient_fp)) (\<lambda>addr.
     abind (on_snd (connect_call E addr recipient_fp)) (\<lambda>conn.
     send_attempts K E (fst conn) ct 0)))"

definition send_execute ::
  "crates \<Rightarrow> 'a env \<Rightarrow> send_message_request \<Rightarrow> ('a world, message_response, application_error) action" where
  "send_execute K E req =
     abind (alift (validate_request req)) (\<lambda>_.
     abind (alift (map_err (\<lambda>e. App_Validation ''recipient_fingerprint'' (display_domain_error e))
                     (from_hex (sr_recipient_fingerprint req)))) (\<lambda>recipient_fp.
     abind (limiter_check E (lit ''send:'' @ to_formatted_string K recipient_fp)) (\<lambda>allowed.
     if \<not> allowed then afail App_RateLimited else
     abind (aget (\<lambda>w. Ok (w_identity w))) (\<lambda>identity.
     abind (amap_err (\<lambda>_. App_Security)
              (port_call (en_encrypt E) (Ev_Encrypt (str_bytes (sr_content req)) recipient_fp))) (\<lambda>ciphertext.
     abind (amap_err (\<lambda>_. App_Domain)
              (aget (\<lambda>w. message_build (en_now E (w_trace w)) (en_uuid E (w_trace w))
                 (with_content_type (content_type_of_dto (sr_content_type req)) (with_content ciphertext
                 (with_recipient recipient_fp (with_sender (ident_fingerprint identity) message_builder_new))))))) (\<lambda>msg.
     abind (amap_err (\<lambda>_. App_Persistence) (port_call (en_save_message E) (Ev_SaveMessage msg))) (\<lambda>_ w.
       (case send_with_retry K E recipient_fp ciphertext (msg, w) of
          (Panic, (msg', w')) \<Rightarrow> (Panic, w')
        | (send_result, (msg', w')) \<Rightarrow>
            abind (amap_err (\<lambda>_. App_Persistence) (port_call (en_save_message E) (Ev_SaveMessage msg'))) (\<lambda>_.
            alift (from_message K msg' (from_utf8_lossy (str_bytes (sr_content req))))) w'))))))))"

section \<open>The retry loop\<close>

text \<open>The number of failing replies before the loop stops, and the history it leaves.\<close>

definition attempt_events :: "conn_id \<Rightarrow> bytes \<Rightarrow> nat \<Rightarrow> 'a event list" where
  "attempt_events conn ct attempt = [Ev_Send conn ct, Ev_Sleep (500 * 2 ^ attempt)]"

text \<open>What the network answered to each send of a history \<open>evs\<close> that follows \<open>t\<close>.\<close>

fun send_replies :: "'a env \<Rightarrow> 'a event list \<Rightarrow> 'a event list \<Rightarrow> (unit, net_port_error) result list" where
  "send_replies E t [] = []"
| "send_replies E t (ev # evs) =
     (case ev of Ev_Send c d \<Rightarrow> [en_send E (t @ [ev])] | _ \<Rightarrow> []) @ send_replies E (t @ [ev]) evs"

lemma mark_sent_Sending:
  "msg_state m = Sending \<Longrightarrow> mark_sent K now m = (Ok (), stamp (m\<lparr> msg_state := Sent now \<rparr>))"
  by (simp add: mark_sent_def transition_state_def transition_to_def)

lemma mark_failed_Sending:
  "msg_state m = Sending \<Longrightarrow> mark_failed K now r m = (Ok (), stamp (m\<lparr> msg_state := Failed now r \<rparr>))"
  by (simp add: mark_failed_def transition_state_def transition_to_def)

text \<open>What the loop does from a given attempt on, started on a message that is being sent.\<close>

definition attempts_outcome ::
  "'a env \<Rightarrow> conn_id \<Rightarrow> bytes \<Rightarrow> nat \<Rightarrow> message \<Rightarrow> 'a world \<Rightarrow> (unit, application_error) result \<Rightarrow> message \<Rightarrow> 'a world \<Rightarrow> bool" where
  "attempts_outcome E conn ct attempt m w r m' w' \<longleftrightarrow>
     (\<exists>k evs fails reply. k \<le> 3 - attempt \<and> w_trace w' = w_trace w @ evs
        \<and> evs = concat (map (attempt_events conn ct) [attempt..<attempt + k]) @ [Ev_Send conn ct]
        \<and> send_replies E (w_trace w) evs = fails @ [reply] \<and> length fails = k \<and> list_all is_err fails
        \<and> (r = Ok () \<and> reply = Ok () \<and> (\<exists>t. msg_state m' = Sent t)
           \<or> r = Err App_Network \<and> is_err reply \<and> attempt + k = 3 \<and> (\<exists>t. msg_state m' = Failed t True)
           \<or> r = Panic \<and> m' = m))
     \<and> message_core m' = message_core m \<and> w_limiter w' = w_limiter w \<and> w_identity w' = w_identity w"

text \<open>A failed attempt before the last one counts for one more.\<close>

lemma attempts_outcome_retry:
  assumes "attempts_outcome E conn ct (Suc attempt) m (w\<lparr> w_trace := w_trace w @ attempt_events conn ct attempt \<rparr>) r m' w'"
    and lt: "attempt < 3" and err: "en_send E (w_trace w @ [Ev_Send conn ct]) = Err e"
  shows "attempts_outcome E conn ct attempt m w r m' w'"
proof -
  let ?w2 = "w\<lparr> w_trace := w_trace w @ attempt_events conn ct attempt \<rparr>"
  from assms(1) obtain k evs fails reply where k: "k \<le> 3 - Suc attempt" "w_trace w' = w_trace ?w2 @ evs"
    "evs = concat (map (attempt_events conn ct) [Suc attempt..<Suc attempt + k]) @ [Ev_Send conn ct]"
    "send_replies E (w_trace ?w2) evs = fails @ [reply]" "length fails = k" "list_all is_err fails"
    "r = Ok () \<and> reply = Ok () \<and> (\<exists>t. msg_state m' = Sent t)
       \<or> r = Err App_Network \<and> is_err reply \<and> Suc attempt + k = 3 \<and> (\<exists>t. msg_state m' = Failed t True) \<or> r = Panic \<and> m' = m"
    and core: "message_core m' = message_core m \<and> w_limiter w' = w_limiter w \<and> w_identity w' = w_identity w"
    by (auto simp: attempts_outcome_def)
  have upt: "[attempt..<Suc (attempt + k)] = attempt # [Suc attempt..<Suc (attempt + k)]"
    by (simp add: upt_conv_Cons del: upt_Suc)
  let ?evs = "attempt_events conn ct attempt @ evs"
  have "?evs = concat (map (attempt_events conn ct) [attempt..<attempt + Suc k]) @ [Ev_Send conn ct]"
    using k(3) by (simp add: upt del: upt_Suc)
  moreover have "send_replies E (w_trace w) ?evs = (Err e # fails) @ [reply]"
    using k(4) err by (simp add: attempt_events_def)
  moreover have "Suc k \<le> 3 - attempt" using k(1) lt by simp
  ultimately show ?thesis
    using k core unfolding attempts_outcome_def
    by (intro conjI exI [of _ "Suc k"] exI [of _ ?evs] exI [of _ "Err e # fails"] exI [of _ reply]) (auto simp del: upt_Suc)
qed

lemma send_attempts_outcome:
  assumes "msg_state m = Sending" and "attempt \<le> 3"
  shows "\<exists>r m' w'. send_attempts K E conn ct attempt (m, w) = (r, (m', w')) \<and> attempts_outcome E conn ct attempt m w r m' w'"
  using assms
proof (induction "3 - attempt" arbitrary: attempt w)
  case 0
  then have a: "attempt = 3" by simp
  show ?case
    unfolding a attempts_outcome_def
    by (subst send_attempts.simps)
       (auto simp: MAX_RETRIES_def on_snd_def port_call_def Let_def msg_step_def action_defs mark_sent_Sending mark_failed_Sending
         "0.prems"(1) intro!: exI [of _ 0] split: result.splits)
next
  case (Suc n)
  let ?w = "w\<lparr> w_trace := w_trace w @ [Ev_Send conn ct] \<rparr>"
  show ?case
  proof (cases "en_send E (w_trace w @ [Ev_Send conn ct])")
    case (Ok u)
    then show ?thesis using Suc.prems unfolding attempts_outcome_def
      by (subst send_attempts.simps)
         (auto simp: MAX_RETRIES_def on_snd_def port_call_def Let_def msg_step_def mark_sent_Sending intro!: exI [of _ 0])
  next
    case Panic
    then show ?thesis using Suc.prems unfolding attempts_outcome_def
      by (subst send_attempts.simps) (auto simp: MAX_RETRIES_def on_snd_def port_call_def Let_def intro!: exI [of _ 0])
  next
    case (Err e)
    have lt: "attempt < 3" and n: "n = 3 - Suc attempt" using Suc.hyps(2) by simp_all
    let ?w2 = "w\<lparr> w_trace := w_trace w @ attempt_events conn ct attempt \<rparr>"
    have step: "send_attempts K E conn ct attempt (m, w) = send_attempts K E conn ct (Suc attempt) (m, ?w2)"
      using Err lt by (subst send_attempts.simps)
        (simp add: MAX_RETRIES_def BASE_BACKOFF_MS_def on_snd_def port_call_def Let_def do_sleep_def attempt_events_def)
    obtain r m' w' where r: "send_attempts K E conn ct (Suc attempt) (m, ?w2) = (r, (m', w'))"
      "attempts_outcome E conn ct (Suc attempt) m ?w2 r m' w'"
      using Suc.hyps(1) [OF n Suc.prems(1) Suc_leI [OF lt], of ?w2] by blast
    have "attempts_outcome E conn ct attempt m w r m' w'" by (rule attempts_outcome_retry [OF r(2) lt Err])
    with step r(1) show ?thesis by auto
  qed
qed

section \<open>Delivery\<close>

lemma resolve_address_effect:
  "snd (resolve_address E fp w) = w\<lparr> w_trace := w_trace w @ [Ev_LoadPeer fp] \<rparr>"
  by (auto simp: resolve_address_def action_defs port_call_def Let_def split: result.splits prod.splits)

lemma connect_call_effect:
  "snd (connect_call E addr fp w) = w\<lparr> w_trace := w_trace w @ [Ev_Connect addr (Some fp)] \<rparr>"
  by (simp add: connect_call_def amap_err_def port_call_def Let_def)

fun is_send :: "'a event \<Rightarrow> bool" where
  "is_send (Ev_Send c d) = True"
| "is_send _ = False"

fun slept :: "'a event \<Rightarrow> nat" where
  "slept (Ev_Sleep ms) = ms"
| "slept _ = 0"

text \<open>The events of a delivery of \<open>ct\<close> to \<open>fp\<close>, before the final state is saved.\<close>

definition delivery_events :: "fingerprint \<Rightarrow> bytes \<Rightarrow> 'a event list \<Rightarrow> bool" where
  "delivery_events fp ct evs \<longleftrightarrow>
     evs = [Ev_LoadPeer fp] \<or> (\<exists>addr. evs = [Ev_LoadPeer fp, Ev_Connect addr (Some fp)])
     \<or> (\<exists>addr conn k. k \<le> 3 \<and> evs = [Ev_LoadPeer fp, Ev_Connect addr (Some fp)]
          @ concat (map (attempt_events conn ct) [0..<k]) @ [Ev_Send conn ct])"

definition sends :: "'a event list \<Rightarrow> nat" where
  "sends evs = length (filter is_send evs)"

definition total_sleep :: "'a event list \<Rightarrow> nat" where
  "total_sleep evs = sum_list (map slept evs)"

lemma attempt_lists: "k \<le> 3 \<Longrightarrow> [0..<k] = [] \<or> [0..<k] = [0] \<or> [0..<k] = [0, 1] \<or> [0..<k] = [0, 1, 2]"
  by (cases k; simp; cases "k - 1"; simp; cases "k - 2"; auto simp: numeral_eq_Suc)

lemma delivery_events_bounds:
  assumes "delivery_events fp ct evs"
  shows "sends evs \<le> 4 \<and> total_sleep evs \<le> 3500
    \<and> list_all (\<lambda>ev. case ev of Ev_Send c d \<Rightarrow> d = ct | Ev_Connect a f \<Rightarrow> f = Some fp | Ev_SaveMessage m \<Rightarrow> False | _ \<Rightarrow> True) evs"
  using assms unfolding delivery_events_def
proof (elim disjE exE conjE)
  fix addr conn k
  assume "k \<le> 3" and evs: "evs = [Ev_LoadPeer fp, Ev_Connect addr (Some fp)]
      @ concat (map (attempt_events conn ct) [0..<k]) @ [Ev_Send conn ct]"
  show ?thesis unfolding evs using attempt_lists [OF \<open>k \<le> 3\<close>]
    by (elim disjE) (simp_all add: attempt_events_def sends_def total_sleep_def)
qed (simp_all add: sends_def total_sleep_def)

text \<open>The address that the stored peer has, and the connection that the network gives.\<close>

definition resolved :: "'a env \<Rightarrow> 'a event list \<Rightarrow> fingerprint \<Rightarrow> 'a option" where
  "resolved E t fp =
     (case en_load_peer E (t @ [Ev_LoadPeer fp]) of
        Ok (Some peer) \<Rightarrow> (case peer_addresses peer of a # _ \<Rightarrow> en_parse_addr E a | [] \<Rightarrow> None)
      | _ \<Rightarrow> None)"

definition connected :: "'a env \<Rightarrow> 'a event list \<Rightarrow> 'a \<Rightarrow> fingerprint \<Rightarrow> bool" where
  "connected E t addr fp \<longleftrightarrow> (case en_connect E (t @ [Ev_Connect addr (Some fp)]) of Some (Ok c) \<Rightarrow> True | _ \<Rightarrow> False)"

text \<open>A history that ends because the stored peer has no usable address, or because no connection to it came about.\<close>

definition unreachable :: "'a env \<Rightarrow> 'a event list \<Rightarrow> fingerprint \<Rightarrow> 'a event list \<Rightarrow> bool" where
  "unreachable E t fp evs \<longleftrightarrow>
     (\<exists>pre. evs = pre @ [Ev_LoadPeer fp] \<and> resolved E (t @ pre) fp = None
        \<or> (\<exists>a. evs = pre @ [Ev_LoadPeer fp, Ev_Connect a (Some fp)] \<and> resolved E (t @ pre) fp = Some a
             \<and> \<not> connected E (t @ pre @ [Ev_LoadPeer fp]) a fp))"

text \<open>The state that a history calls for, by what the network answered in it.\<close>

definition reported_state :: "'a env \<Rightarrow> 'a event list \<Rightarrow> fingerprint \<Rightarrow> 'a event list \<Rightarrow> message_state \<Rightarrow> bool" where
  "reported_state E t fp evs st \<longleftrightarrow>
     (case st of
        Sending \<Rightarrow> send_replies E t evs = [] \<and> unreachable E t fp evs
      | Sent at \<Rightarrow> (\<exists>fails. send_replies E t evs = fails @ [Ok ()] \<and> length fails \<le> 3 \<and> list_all is_err fails)
      | Failed at again \<Rightarrow> again \<and> length (send_replies E t evs) = 4 \<and> list_all is_err (send_replies E t evs)
      | _ \<Rightarrow> False)"

lemma send_replies_append [simp]: "send_replies E t (xs @ ys) = send_replies E t xs @ send_replies E (t @ xs) ys"
  by (induction xs arbitrary: t) simp_all

lemma unreachable_append: "unreachable E (t @ xs) fp ys \<Longrightarrow> unreachable E t fp (xs @ ys)"
  unfolding unreachable_def by (metis append.assoc)

lemma reported_state_append:
  "reported_state E (t @ xs) fp ys st \<Longrightarrow> send_replies E t xs = [] \<Longrightarrow> reported_state E t fp (xs @ ys) st"
  by (auto simp: reported_state_def unreachable_append split: message_state.splits)

lemma resolve_address_Ok:
  "fst (resolve_address E fp w) = Ok addr \<longleftrightarrow> resolved E (w_trace w) fp = Some addr"
  by (auto simp: resolve_address_def resolved_def action_defs port_call_def Let_def
      split: result.splits prod.splits option.splits list.splits)

lemma connect_call_Ok: "is_ok (fst (connect_call E addr fp w)) \<longleftrightarrow> connected E (w_trace w) addr fp"
  by (auto simp: connect_call_def connected_def amap_err_def port_call_def Let_def split: option.splits result.splits)

lemma send_with_retry_delivery:
  assumes "msg_state m = Pending"
  shows "\<exists>r m' w' evs. send_with_retry K E fp ct (m, w) = (r, (m', w')) \<and> w_trace w' = w_trace w @ evs
    \<and> delivery_events fp ct evs \<and> message_core m' = message_core m
    \<and> (r = Panic \<or> reported_state E (w_trace w) fp evs (msg_state m'))"
proof -
  define m1 where "m1 = m\<lparr> msg_state := Sending \<rparr>"
  have m1: "msg_step E (\<lambda>_. transition_state K Sending) (m, w) = (Ok (), (m1, w))" "msg_state m1 = Sending"
    "message_core m1 = message_core m"
    using assms by (simp_all add: msg_step_def transition_state_def transition_to_def stamp_def m1_def message_core_def)
  obtain ra w1 where ra: "resolve_address E fp w = (ra, w1)" by fastforce
  have w1: "w1 = w\<lparr> w_trace := w_trace w @ [Ev_LoadPeer fp] \<rparr>" using resolve_address_effect [of E fp w] ra by simp
  have res: "ra = Ok addr \<longleftrightarrow> resolved E (w_trace w) fp = Some addr" for addr
    using resolve_address_Ok [of E fp w addr] ra by simp
  show ?thesis
  proof (cases "is_ok ra")
    case True
    then obtain addr where addr: "ra = Ok addr" by (auto simp: is_ok_conv)
    obtain rc w2 where rc: "connect_call E addr fp w1 = (rc, w2)" by fastforce
    have w2: "w2 = w\<lparr> w_trace := w_trace w @ [Ev_LoadPeer fp, Ev_Connect addr (Some fp)] \<rparr>"
      using connect_call_effect [of E addr fp w1] rc w1 by simp
    have con: "is_ok rc \<longleftrightarrow> connected E (w_trace w @ [Ev_LoadPeer fp]) addr fp"
      using connect_call_Ok [of E addr fp w1] rc w1 by simp
    show ?thesis
    proof (cases "is_ok rc")
      case True
      then obtain conn where conn: "rc = Ok conn" by (auto simp: is_ok_conv)
      obtain r m' w' where run: "send_attempts K E (fst conn) ct 0 (m1, w2) = (r, (m', w'))"
        "attempts_outcome E (fst conn) ct 0 m1 w2 r m' w'"
        using send_attempts_outcome [OF m1(2), of 0 K E "fst conn" ct w2] by auto
      then obtain k evs fails reply where k: "k \<le> 3" "w_trace w' = w_trace w2 @ evs"
        "evs = concat (map (attempt_events (fst conn) ct) [0..<k]) @ [Ev_Send (fst conn) ct]"
        "send_replies E (w_trace w2) evs = fails @ [reply]" "length fails = k" "list_all is_err fails"
        "r = Ok () \<and> reply = Ok () \<and> (\<exists>t. msg_state m' = Sent t)
           \<or> r = Err App_Network \<and> is_err reply \<and> k = 3 \<and> (\<exists>t. msg_state m' = Failed t True) \<or> r = Panic"
        "message_core m' = message_core m1"
        by (auto simp: attempts_outcome_def)
      let ?evs = "[Ev_LoadPeer fp, Ev_Connect addr (Some fp)] @ evs"
      have "send_replies E (w_trace w) ?evs = fails @ [reply]" using k(4) w2 by simp
      then have "r = Panic \<or> reported_state E (w_trace w) fp ?evs (msg_state m')"
        using k(1,5,6,7) unfolding reported_state_def by (elim disjE conjE exE) simp_all
      moreover have "delivery_events fp ct ?evs" using k(1,3) unfolding delivery_events_def by blast
      moreover have "send_with_retry K E fp ct (m, w) = (r, (m', w'))"
        using m1(1) ra rc run(1) addr conn by (simp add: send_with_retry_def action_defs)
      ultimately show ?thesis using k(2,8) m1(3) w2 by (intro exI conjI) auto
    next
      case False
      then obtain r where r: "send_with_retry K E fp ct (m, w) = (r, (m1, w2))"
        using m1(1) ra rc addr by (cases rc) (simp_all add: send_with_retry_def action_defs)
      have "unreachable E (w_trace w) fp [Ev_LoadPeer fp, Ev_Connect addr (Some fp)]"
        using False con res [of addr] addr unfolding unreachable_def by (intro exI [of _ "[]"]) simp
      then have "reported_state E (w_trace w) fp [Ev_LoadPeer fp, Ev_Connect addr (Some fp)] (msg_state m1)"
        by (simp add: reported_state_def m1(2))
      with r m1(3) w2 show ?thesis
        by (intro exI [of _ r] exI [of _ m1] exI [of _ w2] exI [of _ "[Ev_LoadPeer fp, Ev_Connect addr (Some fp)]"])
          (simp add: delivery_events_def)
    qed
  next
    case False
    then obtain r where r: "send_with_retry K E fp ct (m, w) = (r, (m1, w1))"
      using m1(1) ra by (cases ra) (simp_all add: send_with_retry_def action_defs)
    have "unreachable E (w_trace w) fp [Ev_LoadPeer fp]"
      using False res unfolding unreachable_def by (intro exI [of _ "[]"]) (auto simp: is_ok_conv)
    then have "reported_state E (w_trace w) fp [Ev_LoadPeer fp] (msg_state m1)"
      by (simp add: reported_state_def m1(2))
    with r m1(3) w1 show ?thesis
      by (intro exI [of _ r] exI [of _ m1] exI [of _ w1] exI [of _ "[Ev_LoadPeer fp]"]) (simp add: delivery_events_def)
  qed
qed

section \<open>The whole use case\<close>

text \<open>
  The shapes of a run: it ends before the message is saved, it fails to save it, or it saves the
  pending message, tries to deliver it, and saves what the delivery left.
\<close>

definition built_message :: "'a env \<Rightarrow> send_message_request \<Rightarrow> fingerprint \<Rightarrow> bytes \<Rightarrow> 'a world \<Rightarrow> message \<Rightarrow> bool" where
  "built_message E req fp ct w m \<longleftrightarrow> msg_state m = Pending \<and> msg_content m = ct \<and> msg_recipients m = [fp]
     \<and> msg_sender m = ident_fingerprint (w_identity w)"

text \<open>From the encrypted content on.\<close>

lemma send_execute_ready:
  assumes pre: "validate_request req = Ok ()" "from_hex (sr_recipient_fingerprint req) = Ok fp"
      "check (en_instant E (w_trace w)) (lit ''send:'' @ to_formatted_string K fp) (w_limiter w) = (True, rl)"
      "en_encrypt E (w_trace w @ [Ev_Encrypt (str_bytes (sr_content req)) fp]) = Ok ct"
  obtains
    (unsaved) "\<not> is_ok (fst (send_execute K E req w))"
      "w_trace (snd (send_execute K E req w)) = w_trace w @ [Ev_Encrypt (str_bytes (sr_content req)) fp]"
  | (saved) m where "built_message E req fp ct w m"
      "\<not> is_ok (fst (send_execute K E req w))"
      "w_trace (snd (send_execute K E req w)) = w_trace w @ [Ev_Encrypt (str_bytes (sr_content req)) fp, Ev_SaveMessage m]"
  | (tried) m m' r w1 evs where "built_message E req fp ct w m"
      "delivery_events fp ct evs" "message_core m' = message_core m"
      "(r :: (unit, application_error) result) = Panic \<or> reported_state E (w_trace w @ [Ev_Encrypt (str_bytes (sr_content req)) fp, Ev_SaveMessage m]) fp evs (msg_state m')"
      "w_trace w1 = w_trace w @ [Ev_Encrypt (str_bytes (sr_content req)) fp, Ev_SaveMessage m] @ evs"
      "send_execute K E req w = (if r = Panic then (Panic, w1) else
         abind (amap_err (\<lambda>_. App_Persistence) (port_call (en_save_message E) (Ev_SaveMessage m')))
           (\<lambda>_. alift (from_message K m' (from_utf8_lossy (str_bytes (sr_content req))))) w1)"
      "en_save_message E (w_trace w @ [Ev_Encrypt (str_bytes (sr_content req)) fp, Ev_SaveMessage m]) = Ok ()"
proof -
  let ?t1 = "w_trace w @ [Ev_Encrypt (str_bytes (sr_content req)) fp]"
  let ?b = "with_content_type (content_type_of_dto (sr_content_type req)) (with_content ct
             (with_recipient fp (with_sender (ident_fingerprint (w_identity w)) message_builder_new)))"
  show ?thesis
  proof (cases "message_build (en_now E ?t1) (en_uuid E ?t1) ?b")
    case (Ok m)
    then have m: "built_message E req fp ct w m"
      by (auto simp: message_build_Ok built_message_def with_content_type_def with_content_def with_recipient_def
          with_sender_def message_builder_new_def)
    let ?t2 = "?t1 @ [Ev_SaveMessage m]"
    show ?thesis
    proof (cases "en_save_message E ?t2")
      case (Ok u)
      let ?w2 = "w\<lparr> w_limiter := rl, w_trace := ?t2 \<rparr>"
      have "msg_state m = Pending" using m by (simp add: built_message_def)
      from send_with_retry_delivery [OF this, of K E fp ct ?w2]
      obtain r m' w1 evs where d: "send_with_retry K E fp ct (m, ?w2) = (r, (m', w1))" "w_trace w1 = w_trace ?w2 @ evs"
        "delivery_events fp ct evs" "message_core m' = message_core m" "r = Panic \<or> reported_state E ?t2 fp evs (msg_state m')"
        by auto
      show ?thesis
        using pre Ok d(1,2) \<open>message_build _ _ _ = Ok m\<close>
        by (intro tried [OF m d(3,4), of r w1]; cases r)
           (use d(5) in \<open>simp_all add: send_execute_def action_defs limiter_check_def port_call_def Let_def\<close>)
    qed (use pre \<open>message_build _ _ _ = Ok m\<close> in
         \<open>intro saved [OF m]; simp add: send_execute_def action_defs limiter_check_def port_call_def Let_def\<close>)+
  qed (use pre in
       \<open>intro unsaved; simp add: send_execute_def action_defs limiter_check_def port_call_def Let_def\<close>)+
qed

lemma send_execute_cases:
  obtains
    (early) "\<not> is_ok (fst (send_execute K E req w))"
      "w_trace (snd (send_execute K E req w)) = w_trace w"
  | (unsaved) fp where "from_hex (sr_recipient_fingerprint req) = Ok fp" "\<not> is_ok (fst (send_execute K E req w))"
      "w_trace (snd (send_execute K E req w)) = w_trace w @ [Ev_Encrypt (str_bytes (sr_content req)) fp]"
  | (saved) fp ct m where "from_hex (sr_recipient_fingerprint req) = Ok fp" "built_message E req fp ct w m"
      "\<not> is_ok (fst (send_execute K E req w))"
      "w_trace (snd (send_execute K E req w)) = w_trace w @ [Ev_Encrypt (str_bytes (sr_content req)) fp, Ev_SaveMessage m]"
  | (tried) fp ct m m' r w1 evs where "from_hex (sr_recipient_fingerprint req) = Ok fp" "built_message E req fp ct w m"
      "delivery_events fp ct evs" "message_core m' = message_core m"
      "(r :: (unit, application_error) result) = Panic \<or> reported_state E (w_trace w @ [Ev_Encrypt (str_bytes (sr_content req)) fp, Ev_SaveMessage m]) fp evs (msg_state m')"
      "w_trace w1 = w_trace w @ [Ev_Encrypt (str_bytes (sr_content req)) fp, Ev_SaveMessage m] @ evs"
      "send_execute K E req w = (if r = Panic then (Panic, w1) else
         abind (amap_err (\<lambda>_. App_Persistence) (port_call (en_save_message E) (Ev_SaveMessage m')))
           (\<lambda>_. alift (from_message K m' (from_utf8_lossy (str_bytes (sr_content req))))) w1)"
      "en_save_message E (w_trace w @ [Ev_Encrypt (str_bytes (sr_content req)) fp, Ev_SaveMessage m]) = Ok ()"
proof -
  let ?res = "send_execute K E req w" and ?pre = "w_trace w"
  show ?thesis
  proof (cases "validate_request req = Ok () \<and> is_ok (from_hex (sr_recipient_fingerprint req))")
    case False
    then show ?thesis
      by (intro early; cases "validate_request req"; cases "from_hex (sr_recipient_fingerprint req)")
         (auto simp: send_execute_def action_defs)
  next
    case True
    then obtain fp where v: "validate_request req = Ok ()" and fp: "from_hex (sr_recipient_fingerprint req) = Ok fp"
      by (auto simp: is_ok_conv)
    obtain ok rl where chk: "check (en_instant E ?pre) (lit ''send:'' @ to_formatted_string K fp) (w_limiter w) = (ok, rl)"
      by fastforce
    let ?t1 = "?pre @ [Ev_Encrypt (str_bytes (sr_content req)) fp]"
    show ?thesis
    proof (cases "ok \<and> is_ok (en_encrypt E ?t1)")
      case False
      then show ?thesis
      proof (cases ok)
        case False
        then show ?thesis using v fp chk
          by (intro early) (simp_all add: send_execute_def action_defs limiter_check_def)
      next
        case ok: True
        with \<open>\<not> (ok \<and> is_ok (en_encrypt E ?t1))\<close> show ?thesis using v fp chk
          by (intro unsaved [OF fp]; cases "en_encrypt E ?t1")
             (simp_all add: send_execute_def action_defs limiter_check_def port_call_def Let_def)
      qed
    next
      case True
      then obtain ct where ct: "en_encrypt E ?t1 = Ok ct"
        and chk: "check (en_instant E ?pre) (lit ''send:'' @ to_formatted_string K fp) (w_limiter w) = (True, rl)"
        using chk by (auto simp: is_ok_conv)
      from v fp chk ct show ?thesis
        by (rule send_execute_ready) (fact unsaved [OF fp] saved [OF fp] tried [OF fp])+
    qed
  qed
qed

section \<open>Properties\<close>

text \<open>
  What the storage holds after a save: the message, if the save succeeded. A history is written through when every
  connect and every send comes after a successful save, with no failed one since, and every send carries exactly the content
  of the message saved last.
\<close>

definition saved_content :: "'a env \<Rightarrow> 'a event list \<Rightarrow> message \<Rightarrow> bytes option" where
  "saved_content E t m = (if en_save_message E (t @ [Ev_SaveMessage m]) = Ok () then Some (msg_content m) else None)"

fun written_through :: "'a env \<Rightarrow> 'a event list \<Rightarrow> bytes option \<Rightarrow> 'a event list \<Rightarrow> bool" where
  "written_through E t c [] \<longleftrightarrow> True"
| "written_through E t c (ev # evs) \<longleftrightarrow>
     (case ev of
        Ev_SaveMessage m \<Rightarrow> written_through E (t @ [ev]) (saved_content E t m) evs
      | Ev_Send conn d \<Rightarrow> c = Some d \<and> written_through E (t @ [ev]) c evs
      | Ev_Connect a f \<Rightarrow> c \<noteq> None \<and> written_through E (t @ [ev]) c evs
      | _ \<Rightarrow> written_through E (t @ [ev]) c evs)"

fun is_save :: "'a event \<Rightarrow> bool" where
  "is_save (Ev_SaveMessage m) = True"
| "is_save _ = False"

lemma written_through_saves_nothing:
  "\<not> list_ex is_save xs \<Longrightarrow> written_through E t c (xs @ ys) \<longleftrightarrow> written_through E t c xs \<and> written_through E (t @ xs) c ys"
  by (induction xs arbitrary: t) (auto split: event.splits)

lemma delivery_saves_nothing: "delivery_events fp ct evs \<Longrightarrow> \<not> list_ex is_save evs"
  unfolding delivery_events_def by (elim disjE exE conjE) (auto simp: attempt_events_def list_ex_iff)

lemma delivery_written_through:
  assumes "delivery_events fp ct evs"
  shows "written_through E t (Some ct) evs"
  using assms unfolding delivery_events_def
proof (elim disjE exE conjE)
  fix addr conn k
  assume "k \<le> 3" and evs: "evs = [Ev_LoadPeer fp, Ev_Connect addr (Some fp)]
      @ concat (map (attempt_events conn ct) [0..<k]) @ [Ev_Send conn ct]"
  show ?thesis unfolding evs using attempt_lists [OF \<open>k \<le> 3\<close>]
    by (elim disjE) (simp_all add: attempt_events_def)
qed simp_all

text \<open>Who an event of a send concerns.\<close>

definition concerns :: "fingerprint \<Rightarrow> rstr \<Rightarrow> 'a event \<Rightarrow> bool" where
  "concerns fp content ev \<longleftrightarrow>
     (case ev of
        Ev_Encrypt p f \<Rightarrow> f = fp \<and> p = str_bytes content
      | Ev_Connect a f \<Rightarrow> f = Some fp
      | Ev_SaveMessage m \<Rightarrow> msg_recipients m = [fp]
      | Ev_LoadPeer f \<Rightarrow> f = fp
      | Ev_Send c d \<Rightarrow> True
      | Ev_Sleep ms \<Rightarrow> True
      | _ \<Rightarrow> False)"

lemma delivery_concerns: "delivery_events fp ct evs \<Longrightarrow> list_all (concerns fp content) evs"
  unfolding delivery_events_def
  by (elim disjE exE conjE) (auto simp: concerns_def attempt_events_def list_all_iff)

lemma message_core_fields:
  "message_core m = message_core m' \<Longrightarrow> msg_content m = msg_content m' \<and> msg_recipients m = msg_recipients m'"
  by (simp add: message_core_def)

text \<open>The history of a whole run: what was done before the message existed, and what came after.\<close>

definition send_history :: "'a env \<Rightarrow> 'a event list \<Rightarrow> fingerprint \<Rightarrow> rstr \<Rightarrow> 'a event list \<Rightarrow> bool" where
  "send_history E t fp content evs \<longleftrightarrow>
     sends evs \<le> 4 \<and> total_sleep evs \<le> 3500 \<and> written_through E t None evs \<and> list_all (concerns fp content) evs"

lemma send_history_full:
  assumes "delivery_events fp ct evs" and "built_message E req fp ct w m" and "msg_recipients m' = [fp]"
    and "en_save_message E (t @ [Ev_Encrypt (str_bytes content) fp, Ev_SaveMessage m]) = Ok ()"
  shows "send_history E t fp content ([Ev_Encrypt (str_bytes content) fp, Ev_SaveMessage m] @ evs)
    \<and> send_history E t fp content ([Ev_Encrypt (str_bytes content) fp, Ev_SaveMessage m] @ evs @ [Ev_SaveMessage m'])"
  using delivery_events_bounds [OF assms(1)] delivery_written_through [OF assms(1)] delivery_concerns [OF assms(1), of content] assms(2-4)
  by (simp add: send_history_def sends_def total_sleep_def built_message_def concerns_def saved_content_def
      written_through_saves_nothing [OF delivery_saves_nothing [OF assms(1)]])

text \<open>
  C4: A send writes through and stays within its bounds. Whatever the adapters answer, a run either does
  nothing outside (a rejected or rate limited request) or it concerns only the recipient that the
  request names and only its content; no connection is opened and no byte is sent before the message has been saved successfully, every
  byte string sent is the content of that saved message, and there are at most four sends and
  at most 3.5 seconds of back-off.
\<close>

theorem send_writes_through:
  "\<exists>evs. w_trace (snd (send_execute K E req w)) = w_trace w @ evs
     \<and> (evs = [] \<or> (\<exists>fp. from_hex (sr_recipient_fingerprint req) = Ok fp \<and> send_history E (w_trace w) fp (sr_content req) evs))"
proof (cases rule: send_execute_cases [of K E req w])
  case (unsaved fp)
  have "send_history E (w_trace w) fp (sr_content req) [Ev_Encrypt (str_bytes (sr_content req)) fp]"
    by (simp add: send_history_def sends_def total_sleep_def concerns_def)
  with unsaved show ?thesis by blast
next
  case (saved fp ct m)
  then have "send_history E (w_trace w) fp (sr_content req) [Ev_Encrypt (str_bytes (sr_content req)) fp, Ev_SaveMessage m]"
    by (simp add: send_history_def sends_def total_sleep_def concerns_def built_message_def)
  with saved show ?thesis by blast
next
  case (tried fp ct m m' r w1 evs)
  have m': "msg_recipients m' = [fp]" using message_core_fields [OF tried(4)] tried(2) by (simp add: built_message_def)
  note h = send_history_full [OF tried(3,2) m' tried(8)]
  show ?thesis
  proof (cases "r = Panic")
    case True
    then show ?thesis using tried(1,6,7) h by auto
  next
    case False
    then have "w_trace (snd (send_execute K E req w)) =
        w_trace w @ [Ev_Encrypt (str_bytes (sr_content req)) fp, Ev_SaveMessage m] @ evs @ [Ev_SaveMessage m']"
      unfolding tried(7) using tried(6) by (auto simp: action_defs port_call_def Let_def split: result.splits)
    with tried(1) h show ?thesis by blast
  qed
qed auto

text \<open>
  C14: A successful answer tells the truth: the last thing the run did was to save a message, successfully,
  the answer is made from exactly that message, and the state in it is what the network answered: sent only when the last send
  succeeded after at most three that failed; failed, and retryable, only when there were four sends and all failed; and sending
  only when nothing was sent at all, because the stored peer has no usable address or the connection could not be opened.
\<close>

theorem send_reports_saved_state:
  assumes "send_execute K E req w = (Ok resp, w')"
  shows "\<exists>evs m fp. from_hex (sr_recipient_fingerprint req) = Ok fp
    \<and> w_trace w' = w_trace w @ evs @ [Ev_SaveMessage m] \<and> en_save_message E (w_trace w') = Ok ()
    \<and> from_message K m (from_utf8_lossy (str_bytes (sr_content req))) = (Ok resp :: (_, application_error) result)
    \<and> mr_state resp = message_state_dto_of K (msg_state m) \<and> reported_state E (w_trace w) fp evs (msg_state m)"
proof (cases rule: send_execute_cases [of K E req w])
  case (tried fp ct m m' r w1 evs)
  let ?pre = "[Ev_Encrypt (str_bytes (sr_content req)) fp, Ev_SaveMessage m]"
  have r: "r \<noteq> Panic" using tried(7) assms by (cases "r = Panic") auto
  then have run: "from_message K m' (from_utf8_lossy (str_bytes (sr_content req))) = (Ok resp :: (_, application_error) result)"
    "w_trace w' = w_trace w1 @ [Ev_SaveMessage m']" "en_save_message E (w_trace w1 @ [Ev_SaveMessage m']) = Ok ()"
    using tried(7) assms by (auto simp: action_defs port_call_def Let_def split: result.splits)
  have "reported_state E (w_trace w) fp (?pre @ evs) (msg_state m')"
    using tried(5) r by (intro reported_state_append) simp_all
  moreover have "mr_state resp = message_state_dto_of K (msg_state m')" using run(1) by (auto simp: from_message_def)
  ultimately show ?thesis using run tried(1,6) by (intro exI [of _ "?pre @ evs"] exI [of _ m'] exI [of _ fp]) simp
qed (use assms in auto)

text \<open>A run in which the first two sends fail.\<close>

definition ref_request :: "rstr \<Rightarrow> send_message_request" where
  "ref_request content = \<lparr> sr_recipient_fingerprint = replicate 40 66, sr_content = content, sr_content_type = Dto_Text \<rparr>"

lemma ref_request_fp: "from_hex (replicate 40 66) = Ok ref_fp"
  by code_simp

lemma ref_limiter_allows: "fst (check t key rate_limiter_new)"
  by (simp add: check_def rate_limiter_new_def DEFAULT_MAX_ATTEMPTS_def entries_def with_config_def Let_def)

definition flaky_env :: "nat \<Rightarrow> unit env" where
  "flaky_env n = ref_env\<lparr> en_send := \<lambda>t. if sends t \<le> n then Err Port_Backpressure else Ok () \<rparr>"

definition ref_message :: message where
  "ref_message = \<lparr> msg_id = 5, msg_sender = ident_fingerprint ref_identity, msg_recipients = [ref_fp],
     msg_content = [1, 2, 3], msg_content_type = Text, msg_state = Pending, msg_created_at = 1,
     msg_sent_at = None, msg_delivered_at = None, msg_read_at = None \<rparr>"

lemma ref_message_build:
  "message_build 1 5 (with_content_type Text (with_content [1, 2, 3] (with_recipient ref_fp
     (with_sender (ident_fingerprint ref_identity) message_builder_new)))) = Ok ref_message"
  by (simp add: message_build_Ok valid_content_def ref_message_def with_content_type_def with_content_def
      with_recipient_def with_sender_def message_builder_new_def
      MAX_RECIPIENTS_def MAX_MESSAGE_CONTENT_LEN_def)

lemma flaky_delivery:
  assumes "w_trace w = [Ev_Encrypt pt ref_fp, Ev_SaveMessage ref_message]"
  shows "\<exists>w' m. send_with_retry K (flaky_env 2) ref_fp [1, 2, 3] (ref_message, w) = (Ok (), (m, w'))
    \<and> msg_state m = Sent 9 \<and> sends (w_trace w') = 3"
  using assms
  by (simp add: send_with_retry_def action_defs msg_step_def transition_state_def transition_to_def stamp_def ref_message_def
      resolve_address_def connect_call_def port_call_def Let_def flaky_env_def ref_env_def ref_peer_def
      send_attempts.simps MAX_RETRIES_def BASE_BACKOFF_MS_def sends_def do_sleep_def mark_sent_def)

lemma flaky_env_replies:
  "en_save_message (flaky_env n) t = Ok ()" "en_encrypt (flaky_env n) t = Ok [1, 2, 3]"
  "en_now (flaky_env n) t = int (length t)" "en_instant (flaky_env n) t = int (length t)" "en_uuid (flaky_env n) t = 5"
  by (simp_all add: flaky_env_def ref_env_def)

lemma flaky_send_runs:
  assumes "content \<noteq> []" "str_len content \<le> 65536"
  shows "\<exists>w' m. send_execute K (flaky_env 2) (ref_request content) (ref_world rate_limiter_new) =
    (from_message K m (from_utf8_lossy (str_bytes content)), w') \<and> msg_state m = Sent 9 \<and> sends (w_trace w') = 3"
proof -
  let ?pt = "str_bytes content"
  obtain rl where lim: "check 0 (lit ''send:'' @ to_formatted_string K ref_fp) rate_limiter_new = (True, rl)"
    using ref_limiter_allows by (metis prod.collapse)
  let ?w = "(ref_world rl)\<lparr> w_trace := [Ev_Encrypt ?pt ref_fp, Ev_SaveMessage ref_message] \<rparr>"
  obtain w' m where d: "send_with_retry K (flaky_env 2) ref_fp [1, 2, 3] (ref_message, ?w) = (Ok (), (m, w'))"
    "msg_state m = Sent 9" "sends (w_trace w') = 3"
    using flaky_delivery [of ?w ?pt K] by auto
  have "send_execute K (flaky_env 2) (ref_request content) (ref_world rate_limiter_new) =
    (from_message K m (from_utf8_lossy ?pt), w'\<lparr> w_trace := w_trace w' @ [Ev_SaveMessage m] \<rparr>)"
    using assms lim d(1) ref_message_build
    by (simp add: send_execute_def ref_request_def validate_request_def ref_request_fp action_defs limiter_check_def ref_world_def
        MAX_CONTENT_BYTES_def port_call_def Let_def flaky_env_replies)
  then show ?thesis using d(2,3) by (auto simp: sends_def)
qed

theorem send_reports_saved_state_witness:
  "\<exists>resp w' evs m. send_execute ref_crates (flaky_env 2) (ref_request [104, 105]) (ref_world rate_limiter_new) = (Ok resp, w')
    \<and> w_trace w' = evs @ [Ev_SaveMessage m] \<and> reported_state (flaky_env 2) [] ref_fp evs (msg_state m)
    \<and> mr_state resp = Dto_Sent [] \<and> sends evs = 3"
proof -
  obtain w' m where run: "send_execute ref_crates (flaky_env 2) (ref_request [104, 105]) (ref_world rate_limiter_new) =
      (from_message ref_crates m (from_utf8_lossy (str_bytes [104, 105])), w')" "msg_state m = Sent 9" "sends (w_trace w') = 3"
    using flaky_send_runs [of "[104, 105]" ref_crates] by (auto simp: len_utf8_def)
  obtain resp where resp: "from_message ref_crates m (from_utf8_lossy (str_bytes [104, 105])) = (Ok resp :: (_, application_error) result)"
    "mr_state resp = Dto_Sent []"
    using run(2) by (simp add: from_utf8_lossy_str_bytes valid_str_def is_scalar_def len_utf8_def from_message_def
        truncated_preview_def MAX_PREVIEW_LEN_def ref_crates_def)
  from run(1) resp(1) have eq: "send_execute ref_crates (flaky_env 2) (ref_request [104, 105]) (ref_world rate_limiter_new) = (Ok resp, w')"
    by simp
  from send_reports_saved_state [OF eq] obtain evs m' where
    h: "w_trace w' = evs @ [Ev_SaveMessage m']" "reported_state (flaky_env 2) [] ref_fp evs (msg_state m')"
    by (auto simp: ref_world_def ref_request_def ref_request_fp)
  have "sends evs = 3" using run(3) h(1) by (simp add: sends_def)
  then show ?thesis using eq h resp(2) by blast
qed

text \<open>
  A long message whose 256th byte falls inside a character is never answered: with such a
  content (over 256 bytes of valid text, no character boundary at byte 256) the slice of the
  preview panics, so the caller gets no answer although the message may have been delivered.
\<close>

theorem send_preview_panics:
  assumes "valid_str (sr_content req)" and "256 < str_len (sr_content req)" and "str_prefix 256 (sr_content req) = None"
  shows "\<not> is_ok (fst (send_execute K E req w))"
proof (cases rule: send_execute_cases [of K E req w])
  case (tried fp ct m m' r w1 evs)
  have "from_message K m' (from_utf8_lossy (str_bytes (sr_content req))) = (Panic :: (_, application_error) result)"
    using assms by (simp add: from_message_def truncated_preview_def from_utf8_lossy_str_bytes MAX_PREVIEW_LEN_def)
  then show ?thesis unfolding tried(7) by (auto simp: action_defs port_call_def Let_def split: result.splits)
qed auto

theorem send_preview_panics_witness:
  "\<exists>w'. send_execute ref_crates (flaky_env 2) (ref_request (replicate 255 97 @ [233])) (ref_world rate_limiter_new) = (Panic, w')
    \<and> sends (w_trace w') = 3"
proof -
  let ?c = "replicate 255 97 @ [233 :: nat]"
  have len: "str_len ?c = 257" "valid_str ?c"
    by (simp_all add: str_len_def sum_list_replicate len_utf8_def valid_str_def is_scalar_def list_all_iff)
  have none: "str_prefix 256 ?c = None" by code_simp
  have "\<not> is_ok (fst (send_execute ref_crates (flaky_env 2) (ref_request ?c) (ref_world rate_limiter_new)))"
    using send_preview_panics [of "ref_request ?c" ref_crates "flaky_env 2" "ref_world rate_limiter_new"] len none
    by (simp add: ref_request_def)
  moreover obtain w' m where run: "send_execute ref_crates (flaky_env 2) (ref_request ?c) (ref_world rate_limiter_new) =
      (from_message ref_crates m (from_utf8_lossy (str_bytes ?c)), w')" "sends (w_trace w') = 3"
    using flaky_send_runs [of ?c ref_crates] len by auto
  moreover have "from_message ref_crates m (from_utf8_lossy (str_bytes ?c)) = (Panic :: (_, application_error) result)"
    using len none by (simp add: from_message_def truncated_preview_def from_utf8_lossy_str_bytes MAX_PREVIEW_LEN_def)
  ultimately show ?thesis by simp
qed

end
