(* ===== verification/Receive_Message.thy ===== *)
theory Receive_Message
  imports App_Ports
begin

text \<open>
  \<open>crates/application/src/usecases/receive_message.rs\<close>: the background receiver and what it
  does with one incoming message.
\<close>

section \<open>Model\<close>

text \<open>The preview of a notification is cut at 100 bytes.\<close>

definition receive_process :: "crates \<Rightarrow> 'a env \<Rightarrow> incoming_message \<Rightarrow> ('a world, unit, application_error) action" where
  "receive_process K E incoming =
     abind (amap_err (\<lambda>_. App_Persistence) (port_call (en_load_peer E) (Ev_LoadPeer (im_sender incoming)))) (\<lambda>loaded.
     case loaded of None \<Rightarrow> afail App_PeerNotFound | Some sender_peer \<Rightarrow>
     abind (unwrap_or False (port_call (en_is_trusted E) (Ev_IsTrusted (im_sender incoming)))) (\<lambda>is_trusted.
     if \<not> is_trusted then afail App_PeerNotVerified else
     abind (amap_err (\<lambda>_. App_Security)
              (port_call (en_decrypt E) (Ev_Decrypt (im_ciphertext incoming) (im_sender incoming)))) (\<lambda>plaintext.
     abind (amap_err (\<lambda>_. App_Domain)
              (aget (\<lambda>w. message_build (en_now E (w_trace w)) (en_uuid E (w_trace w))
                 (with_content (im_ciphertext incoming) (with_recipient (peer_fingerprint sender_peer)
                 (with_sender (im_sender incoming) message_builder_new)))))) (\<lambda>msg.
     abind (amap_err (\<lambda>_. App_Domain)
              (aget (\<lambda>w. case mark_delivered K (en_now E (w_trace w)) msg of (r, msg') \<Rightarrow> map_ok (\<lambda>_. msg') r))) (\<lambda>msg'.
     abind (amap_err (\<lambda>_. App_Persistence) (port_call (en_save_message E) (Ev_SaveMessage msg'))) (\<lambda>_.
     abind (\<lambda>w. amap_err (\<lambda>_. App_Persistence)
              (port_call (en_update_peer_status E)
                 (Ev_UpdatePeerStatus (im_sender incoming) (online_now (en_now E (w_trace w))))) w) (\<lambda>_.
     abind (alift (truncated_preview 100 (from_utf8_lossy plaintext))) (\<lambda>preview.
     ignore_err (port_call (en_notify E) (Ev_NotifyMessage (im_sender incoming) preview))))))))))"

text \<open>
  The loop of \<open>run\<close>. Each turn of the \<open>select!\<close> takes a message of the channel or a change of
  the shutdown flag; \<open>None\<close> is a receiver that still waits when the given turns are over.
\<close>

datatype receiver_turn = Turn_Message incoming_message | Turn_Shutdown bool

fun receive_run :: "crates \<Rightarrow> 'a env \<Rightarrow> receiver_turn list \<Rightarrow> 'a world \<Rightarrow> (unit, application_error) result option \<times> 'a world" where
  "receive_run K E [] w = (None, w)"
| "receive_run K E (Turn_Message msg # turns) w =
     (case receive_process K E msg w of
        (Panic, w') \<Rightarrow> (Some Panic, w')
      | (_, w') \<Rightarrow> receive_run K E turns w')"
| "receive_run K E (Turn_Shutdown flag # turns) w =
     (if flag then (Some (Ok ()), w) else receive_run K E turns w)"

section \<open>What one message causes\<close>

text \<open>The calls of one message, in the order the code makes them, up to the point it reached.\<close>

definition receive_calls :: "incoming_message \<Rightarrow> 'a event list" where
  "receive_calls incoming =
     [Ev_LoadPeer (im_sender incoming), Ev_IsTrusted (im_sender incoming),
      Ev_Decrypt (im_ciphertext incoming) (im_sender incoming)]"

lemma mark_delivered_Pending:
  "msg_state m = Pending \<Longrightarrow> \<exists>e. mark_delivered K now m = (Err e, m)"
  by (simp add: mark_delivered_def transition_state_def transition_to_def)

lemma built_pending: "message_build now fresh b = Ok m \<Longrightarrow> msg_state m = Pending"
  by (auto simp: message_build_Ok)

text \<open>The step from the decrypted message on.\<close>

lemma delivered_step:
  "\<exists>e. (case mark_delivered K now m of (r, m') \<Rightarrow> map_ok (\<lambda>_. m') r) = Err e" if "msg_state m = Pending"
  using mark_delivered_Pending [OF that, of K now] by auto

lemma receive_process_calls:
  "\<exists>n \<le> 3. w_trace (snd (receive_process K E incoming w)) = w_trace w @ take n (receive_calls incoming)
     \<and> (2 < n \<longrightarrow> en_is_trusted E (w_trace w @ take 2 (receive_calls incoming)) = Ok True)
     \<and> \<not> is_ok (fst (receive_process K E incoming w))"
proof -
  let ?s = "im_sender incoming" and ?t = "w_trace w"
  let ?t1 = "?t @ [Ev_LoadPeer ?s]" and ?t2 = "?t @ [Ev_LoadPeer ?s, Ev_IsTrusted ?s]"
  let ?t3 = "?t @ receive_calls incoming"
  note defs = receive_process_def action_defs port_defs Let_def receive_calls_def
  show ?thesis
  proof (cases "\<exists>p. en_load_peer E ?t1 = Ok (Some p)")
    case False
    then show ?thesis
      by (intro exI [of _ 1]) (auto simp: defs split: result.splits option.splits)
  next
    case True
    then obtain p where p: "en_load_peer E ?t1 = Ok (Some p)" by blast
    show ?thesis
    proof (cases "en_is_trusted E ?t2 = Ok True")
      case False
      then show ?thesis using p
        by (intro exI [of _ 2]) (auto simp: defs split: result.splits)
    next
      case True
      let ?b = "with_content (im_ciphertext incoming) (with_recipient (peer_fingerprint p) (with_sender ?s message_builder_new))"
      have "\<not> is_ok (fst (receive_process K E incoming w)) \<and> w_trace (snd (receive_process K E incoming w)) = ?t3"
      proof (cases "en_decrypt E ?t3")
        case (Ok pt)
        show ?thesis
        proof (cases "message_build (en_now E ?t3) (en_uuid E ?t3) ?b")
          case built: (Ok m)
          from delivered_step [OF built_pending [OF this], of K "en_now E ?t3"]
          obtain e where "(case mark_delivered K (en_now E ?t3) m of (r, m') \<Rightarrow> map_ok (\<lambda>_. m') r) = Err e" by blast
          then show ?thesis using p True Ok built by (simp add: defs)
        qed (use p True Ok in \<open>simp_all add: defs\<close>)
      qed (use p True in \<open>simp_all add: defs\<close>)
      then show ?thesis using True by (intro exI [of _ 3]) (auto simp: receive_calls_def)
    qed
  qed
qed

text \<open>The receiver only reads: it looks up peers and trust, and opens ciphertexts.\<close>

fun reading_event :: "'a event \<Rightarrow> bool" where
  "reading_event (Ev_LoadPeer f) = True"
| "reading_event (Ev_IsTrusted f) = True"
| "reading_event (Ev_Decrypt c f) = True"
| "reading_event _ = False"

definition only_reads :: "'a world \<Rightarrow> 'a world \<Rightarrow> bool" where
  "only_reads w w' \<longleftrightarrow> (\<exists>evs. w_trace w' = w_trace w @ evs \<and> list_all reading_event evs)"

interpretation reads: frame_relation only_reads
proof unfold_locales
  fix w1 w2 w3 :: "'a world"
  assume "only_reads w1 w2" "only_reads w2 w3"
  then obtain xs ys where "w_trace w2 = w_trace w1 @ xs" "list_all reading_event xs"
    "w_trace w3 = w_trace w2 @ ys" "list_all reading_event ys"
    by (auto simp: only_reads_def)
  then show "only_reads w1 w3" unfolding only_reads_def by (intro exI [of _ "xs @ ys"]) simp
qed (simp add: only_reads_def)

lemma receive_process_reads: "reads.keeps (receive_process K E incoming)"
proof (rule reads.keepsI)
  fix w :: "'a world"
  obtain n where "w_trace (snd (receive_process K E incoming w)) = w_trace w @ take n (receive_calls incoming)"
    using receive_process_calls [of K E incoming w] by blast
  moreover have "list_all reading_event (take n (receive_calls incoming))"
    by (auto simp: list_all_iff receive_calls_def dest!: in_set_takeD)
  ultimately show "only_reads w (snd (receive_process K E incoming w))" by (auto simp: only_reads_def)
qed

lemma receive_run_reads: "only_reads w (snd (receive_run K E turns w))"
proof (induction K E turns w rule: receive_run.induct)
  case (2 K E msg turns w)
  obtain r w1 where r: "receive_process K E msg w = (r, w1)" by fastforce
  have "only_reads w w1" by (rule reads.keepsD [OF receive_process_reads r])
  then show ?case using 2 r by (cases r) (auto intro: reads.frame_trans)
qed (auto simp: only_reads_def)

section \<open>Properties\<close>

text \<open>
  A message from an unknown or an untrusted sender is discarded before anything is decrypted: whatever
  the adapters answer, the key is used only after the trust store has said yes, and only on the
  ciphertext and the sender of that message.
\<close>

theorem receive_decrypts_trusted_only:
  "list_all (\<lambda>n. case (w_trace (snd (receive_process K E incoming w)) ! n) of
       Ev_Decrypt ct fp \<Rightarrow> ct = im_ciphertext incoming \<and> fp = im_sender incoming
         \<and> en_is_trusted E (take n (w_trace (snd (receive_process K E incoming w)))) = Ok True
     | _ \<Rightarrow> True) [length (w_trace w)..<length (w_trace (snd (receive_process K E incoming w)))]"
proof -
  obtain n where n: "n \<le> 3" "w_trace (snd (receive_process K E incoming w)) = w_trace w @ take n (receive_calls incoming)"
    "2 < n \<longrightarrow> en_is_trusted E (w_trace w @ take 2 (receive_calls incoming)) = Ok True"
    using receive_process_calls [of K E incoming w] by blast
  have "n = 0 \<or> n = 1 \<or> n = 2 \<or> n = 3" using n(1) by arith
  then show ?thesis using n(3) unfolding n(2)
    by (elim disjE) (simp_all add: receive_calls_def numeral_eq_Suc nth_append)
qed

text \<open>
  C31: No received message is ever accepted: a message is built in the state pending, from
  which the transition to delivered is not allowed, so processing ends in an error for every message and
  every behaviour of the adapters, and a receiver that runs for any number of turns saves no message,
  updates no peer and notifies nobody.
\<close>

theorem receiver_accepts_nothing:
  "\<not> is_ok (fst (receive_process K E incoming w))
   \<and> (\<exists>evs. w_trace (snd (receive_run K E turns w)) = w_trace w @ evs \<and> list_all reading_event evs)"
  using receive_process_calls [of K E incoming w] receive_run_reads [of w K E turns] by (auto simp: only_reads_def)

end
