(* ===== verification/Connect_Peer.thy ===== *)
theory Connect_Peer
  imports App_Ports
begin

text \<open>
  \<open>crates/application/src/usecases/connect_peer.rs\<close>: a rate-limited connection attempt, the
  trust decision and the update of the stored peer.
\<close>

section \<open>Model\<close>

definition CONNECT_RATE_LIMIT :: nat where "CONNECT_RATE_LIMIT = 3"

text \<open>The limiter that \<open>ConnectPeerUseCase::new\<close> installs.\<close>

definition connect_limiter :: rate_limiter where
  "connect_limiter = with_config (seconds 60) CONNECT_RATE_LIMIT"

definition connect_key :: "crates \<Rightarrow> fingerprint \<Rightarrow> rstr" where
  "connect_key K fp = lit ''connect:'' @ to_formatted_string K fp"

fun connect_error :: "net_port_error \<Rightarrow> application_error" where
  "connect_error Port_HandshakeFailed = App_Security"
| "connect_error Port_ConnectionRefused = App_Network"
| "connect_error _ = App_Network"

text \<open>\<open>timeout(CONNECT_TIMEOUT, connect)\<close>: its expiry forgets the attempts of the key.\<close>

definition timed_connect ::
  "crates \<Rightarrow> 'a env \<Rightarrow> 'a \<Rightarrow> fingerprint \<Rightarrow> ('a world, conn_id \<times> peer, application_error) action" where
  "timed_connect K E addr fp =
     abind (port_call (\<lambda>t. Ok (en_connect E t)) (Ev_Connect addr (Some fp))) (\<lambda>reply.
     case reply of
       None \<Rightarrow> abind (limiter_reset (connect_key K fp)) (\<lambda>_. afail App_Timeout)
     | Some r \<Rightarrow> alift (map_err connect_error r))"

text \<open>Updating the record that is already stored.\<close>

definition update_existing :: "'a env \<Rightarrow> peer \<Rightarrow> peer \<Rightarrow> ('a world, unit, application_error) action" where
  "update_existing E peer existing =
     abind (aget (\<lambda>w. case set_addresses (en_now E (w_trace w)) (peer_addresses peer) existing of (r, p) \<Rightarrow>
              map_ok (\<lambda>_. set_status (en_now E (w_trace w)) (online_now (en_now E (w_trace w))) p)
                (map_err (\<lambda>_. App_Validation ''addresses'' ''too many addresses'') r))) (\<lambda>p.
     let p' = (if peer_verified peer then verify_peer p else p) in
     amap_err (\<lambda>_. App_Persistence) (port_call (en_save_peer E) (Ev_SavePeer p')))"

text \<open>Step 6: the stored record is updated, or the peer is stored as it is; the answer is made from
  the peer of this connection.\<close>

definition record_peer :: "crates \<Rightarrow> 'a env \<Rightarrow> peer \<Rightarrow> peer option \<Rightarrow> ('a world, peer_response, application_error) action" where
  "record_peer K E peer loaded =
     (case loaded of
        Some existing \<Rightarrow> abind (update_existing E peer existing) (\<lambda>_. aret (from_peer K peer))
      | None \<Rightarrow>
          abind (aget (\<lambda>w. Ok (set_status (en_now E (w_trace w)) (online_now (en_now E (w_trace w))) peer))) (\<lambda>peer'.
          abind (amap_err (\<lambda>_. App_Persistence) (port_call (en_save_peer E) (Ev_SavePeer peer'))) (\<lambda>_.
          aret (from_peer K peer'))))"

text \<open>Steps 5 and 6: the trust decision, and the record.\<close>

definition settle_peer :: "crates \<Rightarrow> 'a env \<Rightarrow> peer \<Rightarrow> ('a world, peer_response, application_error) action" where
  "settle_peer K E peer =
     abind (unwrap_or False (port_call (en_is_trusted E) (Ev_IsTrusted (peer_fingerprint peer)))) (\<lambda>is_trusted.
     let peer1 = (if is_trusted then verify_peer peer else peer) in
     abind (amap_err (\<lambda>_. App_Persistence) (port_call (en_load_peer E) (Ev_LoadPeer (peer_fingerprint peer1)))) (\<lambda>loaded.
     record_peer K E peer1 loaded))"

definition connect_execute ::
  "crates \<Rightarrow> 'a env \<Rightarrow> connect_peer_request \<Rightarrow> ('a world, peer_response, application_error) action" where
  "connect_execute K E req =
     abind (alift (ok_or (en_parse_addr E (cr_address req)) (App_Validation ''address'' ''invalid socket address format''))) (\<lambda>addr.
     abind (alift (map_err (\<lambda>_. App_Validation ''fingerprint'' ''invalid hex format'') (from_hex (cr_fingerprint req)))) (\<lambda>expected_fp.
     abind (limiter_check E (connect_key K expected_fp)) (\<lambda>allowed.
     if \<not> allowed then afail App_RateLimited else
     abind (timed_connect K E addr expected_fp) (\<lambda>(conn_id, peer).
     settle_peer K E peer))))"

text \<open>A user who asks again and again.\<close>

fun connect_repeat ::
  "nat \<Rightarrow> crates \<Rightarrow> 'a env \<Rightarrow> connect_peer_request \<Rightarrow> 'a world \<Rightarrow> (peer_response, application_error) result list \<times> 'a world" where
  "connect_repeat 0 K E req w = ([], w)"
| "connect_repeat (Suc n) K E req w =
     (case connect_execute K E req w of (r, w1) \<Rightarrow>
      case connect_repeat n K E req w1 of (rs, w2) \<Rightarrow> (r # rs, w2))"

section \<open>Lemmas\<close>

lemma verify_peer_simps [simp]:
  "peer_fingerprint (verify_peer p) = peer_fingerprint p" "peer_verified (verify_peer p)"
  "peer_addresses (verify_peer p) = peer_addresses p" "peer_status (verify_peer p) = peer_status p"
  by (simp_all add: verify_peer_def)

lemma set_status_simps [simp]:
  "peer_fingerprint (set_status now st p) = peer_fingerprint p" "peer_verified (set_status now st p) = peer_verified p"
  "peer_status (set_status now st p) = st"
  by (simp_all add: set_status_def Let_def)

lemma set_addresses_keeps:
  "set_addresses now as p = (Ok u, p') \<Longrightarrow>
     peer_fingerprint p' = peer_fingerprint p \<and> peer_verified p' = peer_verified p \<and> peer_addresses p' = as \<and> length as \<le> 10"
  by (auto simp: set_addresses_def MAX_PEER_ADDRESSES_def split: if_splits)

text \<open>What is stored for a peer that was known already.\<close>

definition refreshed :: "peer \<Rightarrow> peer \<Rightarrow> peer \<Rightarrow> bool" where
  "refreshed peer existing saved \<longleftrightarrow> is_online (peer_status saved) \<and> peer_fingerprint saved = peer_fingerprint existing
     \<and> peer_addresses saved = peer_addresses peer \<and> peer_verified saved = (peer_verified existing \<or> peer_verified peer)"

lemma update_existing_Ok:
  assumes "update_existing E peer existing w = (Ok (), w')"
  shows "\<exists>saved. w' = w\<lparr> w_trace := w_trace w @ [Ev_SavePeer saved] \<rparr> \<and> refreshed peer existing saved"
proof -
  let ?now = "en_now E (w_trace w)"
  obtain r p where s: "set_addresses ?now (peer_addresses peer) existing = (r, p)" by fastforce
  show ?thesis
  proof (cases r)
    case (Ok u)
    let ?p = "set_status ?now (online_now ?now) p"
    let ?saved = "if peer_verified peer then verify_peer ?p else ?p"
    have "w' = w\<lparr> w_trace := w_trace w @ [Ev_SavePeer ?saved] \<rparr>"
      using assms s Ok by (auto simp: update_existing_def action_defs port_call_def Let_def split: result.splits)
    moreover have "refreshed peer existing ?saved"
      using set_addresses_keeps s Ok by (auto simp: refreshed_def online_now_def set_status_def verify_peer_def Let_def)
    ultimately show ?thesis by blast
  qed (use assms s in \<open>auto simp: update_existing_def action_defs\<close>)
qed

lemma timed_connect_Ok:
  "timed_connect K E addr fp w = (Ok (c, p), w') \<longleftrightarrow>
     en_connect E (w_trace w @ [Ev_Connect addr (Some fp)]) = Some (Ok (c, p))
     \<and> w' = w\<lparr> w_trace := w_trace w @ [Ev_Connect addr (Some fp)] \<rparr>"
  by (auto simp: timed_connect_def port_eq_Ok split: option.splits)

lemma record_peer_Ok:
  assumes "record_peer K E peer loaded w = (Ok resp, w')"
  shows "\<exists>saved. w_trace w' = w_trace w @ [Ev_SavePeer saved] \<and> is_online (peer_status saved)
    \<and> pr_verified resp = peer_verified peer
    \<and> peer_verified saved = (peer_verified peer \<or> (\<exists>e. loaded = Some e \<and> peer_verified e))"
proof (cases loaded)
  case None
  then show ?thesis using assms
    by (auto simp: record_peer_def port_eq_Ok from_peer_def online_now_def)
next
  case (Some existing)
  then obtain u where "update_existing E peer existing w = (Ok (), u)" "w' = u" "resp = from_peer K peer"
    using assms by (auto simp: record_peer_def action_eq_Ok)
  then show ?thesis using update_existing_Ok [of E peer existing w w'] Some
    by (auto simp: refreshed_def from_peer_def)
qed

lemma settle_peer_Ok:
  assumes "settle_peer K E peer w = (Ok resp, w')"
    and "t1 = w_trace w @ [Ev_IsTrusted (peer_fingerprint peer)]" and "t2 = t1 @ [Ev_LoadPeer (peer_fingerprint peer)]"
  shows "\<exists>saved. w_trace w' = t2 @ [Ev_SavePeer saved] \<and> is_online (peer_status saved)
    \<and> pr_verified resp = (peer_verified peer \<or> en_is_trusted E t1 = Ok True)
    \<and> peer_verified saved = (pr_verified resp \<or> (\<exists>e. en_load_peer E t2 = Ok (Some e) \<and> peer_verified e))"
proof -
  define b where "b = (en_is_trusted E t1 = Ok True)"
  let ?p = "if b then verify_peer peer else peer"
  obtain loaded where l: "en_load_peer E t2 = Ok loaded" "record_peer K E ?p loaded (w\<lparr> w_trace := t2 \<rparr>) = (Ok resp, w')"
    using assms by (cases b) (auto simp: settle_peer_def port_eq_Ok Let_def b_def)
  from record_peer_Ok [OF l(2)] show ?thesis using l(1) unfolding b_def by (auto split: if_splits)
qed

section \<open>Properties\<close>

text \<open>
  C25: A peer is reported and stored as verified only if it is trusted. When a connection
  attempt succeeds, the network was asked for exactly the fingerprint of the request, the trust
  store was asked about the peer that answered, the answer is verified exactly if the network
  or the trust store vouched for the peer, and the last thing done was to save a peer
  that is online and is verified only if the answer is or the stored record was.
\<close>

theorem connect_verifies_trusted_only:
  assumes "connect_execute K E req w = (Ok resp, w')"
  shows "\<exists>addr fp conn_id peer saved t1 t2 t3.
    from_hex (cr_fingerprint req) = Ok fp
    \<and> t1 = w_trace w @ [Ev_Connect addr (Some fp)] \<and> en_connect E t1 = Some (Ok (conn_id, peer))
    \<and> t2 = t1 @ [Ev_IsTrusted (peer_fingerprint peer)] \<and> t3 = t2 @ [Ev_LoadPeer (peer_fingerprint peer)]
    \<and> w_trace w' = t3 @ [Ev_SavePeer saved] \<and> is_online (peer_status saved)
    \<and> pr_verified resp = (peer_verified peer \<or> en_is_trusted E t2 = Ok True)
    \<and> peer_verified saved = (pr_verified resp \<or> (\<exists>e. en_load_peer E t3 = Ok (Some e) \<and> peer_verified e))"
proof -
  from assms obtain addr fp rl c p where c: "from_hex (cr_fingerprint req) = Ok fp"
    "en_connect E (w_trace w @ [Ev_Connect addr (Some fp)]) = Some (Ok (c, p))"
    "settle_peer K E p (w\<lparr> w_limiter := rl, w_trace := w_trace w @ [Ev_Connect addr (Some fp)] \<rparr>) = (Ok resp, w')"
    by (auto simp: connect_execute_def port_eq_Ok timed_connect_Ok split: if_splits)
  define w0 where "w0 = w\<lparr> w_limiter := rl, w_trace := w_trace w @ [Ev_Connect addr (Some fp)] \<rparr>"
  have s: "from_hex (cr_fingerprint req) = Ok fp" "w_trace w0 = w_trace w @ [Ev_Connect addr (Some fp)]"
    "en_connect E (w_trace w @ [Ev_Connect addr (Some fp)]) = Some (Ok (c, p))" "settle_peer K E p w0 = (Ok resp, w')"
    using c by (simp_all add: w0_def)
  from settle_peer_Ok [OF s(4) refl refl] obtain saved where h:
    "w_trace w' = w_trace w0 @ [Ev_IsTrusted (peer_fingerprint p)] @ [Ev_LoadPeer (peer_fingerprint p)] @ [Ev_SavePeer saved]"
    "is_online (peer_status saved)"
    "pr_verified resp = (peer_verified p \<or> en_is_trusted E (w_trace w0 @ [Ev_IsTrusted (peer_fingerprint p)]) = Ok True)"
    "peer_verified saved = (pr_verified resp \<or>
       (\<exists>e. en_load_peer E ((w_trace w0 @ [Ev_IsTrusted (peer_fingerprint p)]) @ [Ev_LoadPeer (peer_fingerprint p)]) = Ok (Some e) \<and> peer_verified e))"
    by auto
  show ?thesis
    by (rule exI [of _ addr], rule exI [of _ fp], rule exI [of _ c], rule exI [of _ p], rule exI [of _ saved])
       (use s h in simp)
qed

definition ref_connect_request :: connect_peer_request where
  "ref_connect_request = \<lparr> cr_address = lit ''10.0.0.2:9000'', cr_fingerprint = replicate 40 66 \<rparr>"

lemma ref_connect_fp: "from_hex (replicate 40 66) = Ok ref_fp"
  by code_simp

lemma ref_connect_allowed: "fst (check t key connect_limiter)"
  by (simp add: check_def connect_limiter_def CONNECT_RATE_LIMIT_def entries_def with_config_def Let_def)

lemma ref_connect_runs:
  "\<exists>resp w'. connect_execute K ref_env ref_connect_request (ref_world connect_limiter) = (Ok resp, w')"
  by (simp add: connect_execute_def ref_connect_request_def ref_connect_fp ref_world_def action_defs limiter_check_def
      ref_connect_allowed timed_connect_def settle_peer_def record_peer_def update_existing_def port_call_def unwrap_or_def Let_def
      ref_env_def ref_peer_def set_addresses_def MAX_PEER_ADDRESSES_def split: prod.splits)
     (metis ref_connect_allowed fst_conv)

theorem connect_verifies_trusted_only_witness:
  "\<exists>resp w' evs saved. connect_execute ref_crates ref_env ref_connect_request (ref_world connect_limiter) = (Ok resp, w')
    \<and> pr_verified resp \<and> w_trace w' = evs @ [Ev_SavePeer saved] \<and> peer_verified saved"
proof -
  obtain resp w' where run: "connect_execute ref_crates ref_env ref_connect_request (ref_world connect_limiter) = (Ok resp, w')"
    using ref_connect_runs by blast
  from connect_verifies_trusted_only [OF run] run show ?thesis by (auto simp: ref_env_def)
qed

text \<open>
  Attempts that time out are never limited. The limit of three attempts per minute does not apply to a peer
  that does not answer: each expiry forgets the attempts of the key, so with a limiter that remembers nothing
  of the key any number of attempts in a row reaches the network and ends in a timeout.
\<close>

theorem connect_timeouts_not_limited:
  assumes "en_parse_addr E (cr_address req) = Some addr" and "from_hex (cr_fingerprint req) = Ok fp"
    and "\<And>t. en_connect E t = None"
    and "entries (w_limiter w) (connect_key K fp) = []" and "0 < rl_max_attempts (w_limiter w)"
  shows "fst (connect_repeat n K E req w) = replicate n (Err App_Timeout)
    \<and> w_trace (snd (connect_repeat n K E req w)) = w_trace w @ replicate n (Ev_Connect addr (Some fp))"
  using assms(4,5)
proof (induction n arbitrary: w)
  case (Suc n)
  let ?key = "connect_key K fp"
  obtain ok rl where chk: "check (en_instant E (w_trace w)) ?key (w_limiter w) = (ok, rl)" by fastforce
  have ok: "ok" "rl_max_attempts rl = rl_max_attempts (w_limiter w)"
    using chk Suc.prems by (auto simp: limiter_defs split: if_splits)
  let ?w = "w\<lparr> w_limiter := reset ?key rl, w_trace := w_trace w @ [Ev_Connect addr (Some fp)] \<rparr>"
  have step: "connect_execute K E req w = (Err App_Timeout, ?w)"
    using assms(1-3) chk ok(1)
    by (simp add: connect_execute_def action_defs limiter_check_def timed_connect_def port_call_def Let_def limiter_reset_def)
  have "entries (w_limiter ?w) ?key = []" "0 < rl_max_attempts (w_limiter ?w)"
    using Suc.prems ok by (simp, simp add: reset_def)
  from Suc.IH [OF this] show ?case unfolding connect_repeat.simps step by (auto split: prod.splits)
qed simp

theorem connect_timeouts_not_limited_witness:
  "fst (connect_repeat 100 ref_crates (ref_env\<lparr> en_connect := \<lambda>t. None \<rparr>) ref_connect_request (ref_world connect_limiter))
     = replicate 100 (Err App_Timeout)"
  using connect_timeouts_not_limited [of "ref_env\<lparr> en_connect := \<lambda>t. None \<rparr>" ref_connect_request "()" ref_fp
      "ref_world connect_limiter" ref_crates 100]
  by (simp add: ref_env_def ref_connect_request_def ref_connect_fp ref_world_def connect_limiter_def CONNECT_RATE_LIMIT_def)

end
