(* ===== verification/Discover_Peer.thy ===== *)
theory Discover_Peer
  imports App_Ports
begin

text \<open>
  \<open>crates/application/src/usecases/discover_peer.rs\<close>: what the discovered peers become in the store
  and in the answer.
\<close>

section \<open>Model\<close>

definition discovered_builder :: "discovered_peer \<Rightarrow> peer_builder" where
  "discovered_builder dp = pb_set_addresses (dp_addresses dp) (pb_set_x25519_public (dp_x25519_public dp)
     (pb_set_ed25519_public (dp_ed25519_public dp) (pb_set_fingerprint (dp_fingerprint dp)
     (pb_set_display_name (dp_display_name dp) peer_builder_new))))"

text \<open>One turn of the loop.\<close>

definition discover_one :: "crates \<Rightarrow> 'a env \<Rightarrow> discovered_peer \<Rightarrow> ('a world, peer_response, application_error) action" where
  "discover_one K E dp =
     abind (amap_err (\<lambda>_. App_Domain)
              (aget (\<lambda>w. peer_build (en_now E (w_trace w)) (en_uuid E (w_trace w)) (discovered_builder dp)))) (\<lambda>peer.
     abind (amap_err (\<lambda>_. App_Persistence) (port_call (en_load_peer E) (Ev_LoadPeer (peer_fingerprint peer)))) (\<lambda>loaded.
     abind (case loaded of
              Some existing \<Rightarrow>
                aget (\<lambda>w. case set_addresses (en_now E (w_trace w)) (peer_addresses peer) existing of (r, p) \<Rightarrow>
                  map_ok (\<lambda>_. set_status (en_now E (w_trace w)) offline p)
                    (map_err (\<lambda>_. App_Validation ''addresses'' ''limit exceeded'') r))
            | None \<Rightarrow> aret peer) (\<lambda>to_save.
     abind (amap_err (\<lambda>_. App_Persistence) (port_call (en_save_peer E) (Ev_SavePeer to_save))) (\<lambda>_.
     aret (from_peer K peer)))))"

fun discover_loop :: "crates \<Rightarrow> 'a env \<Rightarrow> discovered_peer list \<Rightarrow> ('a world, peer_response list, application_error) action" where
  "discover_loop K E [] = aret []"
| "discover_loop K E (dp # dps) =
     abind (discover_one K E dp) (\<lambda>resp. abind (discover_loop K E dps) (\<lambda>rest. aret (resp # rest)))"

definition discover_execute ::
  "crates \<Rightarrow> 'a env \<Rightarrow> discover_peer_request \<Rightarrow> ('a world, peer_response list, application_error) action" where
  "discover_execute K E req =
     (let max_results = min (dr_max_results req) 200 in
      abind (amap_err (\<lambda>_. App_Network) (port_call (en_discover E) (Ev_Discover (dr_timeout_secs req)))) (\<lambda>discovered.
      discover_loop K E (take max_results discovered)))"

section \<open>What a run does\<close>

text \<open>
  What is saved for a discovered peer after the lookup of its fingerprint, with which the history \<open>t\<close> ends: the peer itself, unverified,
  if it is not stored, and otherwise the stored one with the discovered addresses; in both cases offline.
\<close>

definition discovery_save :: "'a env \<Rightarrow> 'a event list \<Rightarrow> discovered_peer \<Rightarrow> peer \<Rightarrow> bool" where
  "discovery_save E t dp p \<longleftrightarrow> peer_status p = Offline None \<and> peer_addresses p = dp_addresses dp
     \<and> (case en_load_peer E t of
          Ok (Some e) \<Rightarrow> peer_core p = peer_core e \<and> peer_display_name p = peer_display_name e \<and> peer_verified p = peer_verified e
        | Ok None \<Rightarrow> \<not> peer_verified p \<and> wf_peer p \<and> peer_fingerprint p = dp_fingerprint dp \<and> peer_display_name p = dp_display_name dp
            \<and> peer_ed25519_public p = dp_ed25519_public dp \<and> peer_x25519_public p = dp_x25519_public dp
        | _ \<Rightarrow> False)"

text \<open>
  The events of the turns for a list of discovered peers: one lookup and one save each, in order. A run that is not complete stops
  in a turn, before the lookup, after it, or at a save that fails.
\<close>

fun discovery_turns :: "'a env \<Rightarrow> 'a event list \<Rightarrow> bool \<Rightarrow> discovered_peer list \<Rightarrow> 'a event list \<Rightarrow> bool" where
  "discovery_turns E t complete [] evs \<longleftrightarrow> evs = [] \<and> complete"
| "discovery_turns E t complete (dp # dps) [] \<longleftrightarrow> \<not> complete"
| "discovery_turns E t complete (dp # dps) [ev] \<longleftrightarrow> \<not> complete \<and> ev = Ev_LoadPeer (dp_fingerprint dp)"
| "discovery_turns E t complete (dp # dps) (ev # ev' # evs) \<longleftrightarrow>
     ev = Ev_LoadPeer (dp_fingerprint dp)
     \<and> (case ev' of
          Ev_SavePeer p \<Rightarrow> discovery_save E (t @ [ev]) dp p
            \<and> (if en_save_peer E (t @ [ev, ev']) = Ok () then discovery_turns E (t @ [ev, ev']) complete dps evs
               else \<not> complete \<and> evs = [])
        | _ \<Rightarrow> False)"

text \<open>The entry of the answer for a discovered peer.\<close>

definition discovered_entry :: "crates \<Rightarrow> discovered_peer \<Rightarrow> peer_response \<Rightarrow> bool" where
  "discovered_entry K dp r \<longleftrightarrow> pr_fingerprint r = to_formatted_string K (dp_fingerprint dp)
     \<and> pr_display_name r = dp_display_name dp \<and> \<not> pr_verified r \<and> pr_status r = Dto_Offline"

lemma discovered_peer_built:
  "peer_build now fresh (discovered_builder dp) = Ok p \<Longrightarrow>
     wf_peer p \<and> \<not> peer_verified p \<and> peer_status p = Offline None \<and> peer_fingerprint p = dp_fingerprint dp
     \<and> peer_display_name p = dp_display_name dp \<and> peer_addresses p = dp_addresses dp
     \<and> peer_ed25519_public p = dp_ed25519_public dp \<and> peer_x25519_public p = dp_x25519_public dp"
  using peer_build_wf [of now fresh "discovered_builder dp" p]
  by (auto simp: peer_build_Ok discovered_builder_def pb_set_addresses_def pb_set_x25519_public_def pb_set_ed25519_public_def
      pb_set_fingerprint_def pb_set_display_name_def peer_builder_new_def offline_def)

lemma set_addresses_core:
  "set_addresses now as p = (Ok u, p') \<Longrightarrow> peer_core p' = peer_core p \<and> peer_display_name p' = peer_display_name p
     \<and> peer_verified p' = peer_verified p \<and> peer_addresses p' = as"
  by (auto simp: set_addresses_def peer_core_def split: if_splits)

lemma set_status_core:
  "peer_core (set_status now st p) = peer_core p \<and> peer_display_name (set_status now st p) = peer_display_name p
     \<and> peer_verified (set_status now st p) = peer_verified p \<and> peer_addresses (set_status now st p) = peer_addresses p
     \<and> peer_status (set_status now st p) = st"
  by (simp add: set_status_def peer_core_def Let_def)

text \<open>One turn: it stops before or after the lookup, or it saves.\<close>

lemma discover_one_cases:
  obtains
    (unbuilt) "\<not> is_ok (fst (discover_one K E dp w))" "w_trace (snd (discover_one K E dp w)) = w_trace w"
  | (unsaved) "\<not> is_ok (fst (discover_one K E dp w))"
      "w_trace (snd (discover_one K E dp w)) = w_trace w @ [Ev_LoadPeer (dp_fingerprint dp)]"
  | (saved) p where "w_trace (snd (discover_one K E dp w)) = w_trace w @ [Ev_LoadPeer (dp_fingerprint dp), Ev_SavePeer p]"
      "discovery_save E (w_trace w @ [Ev_LoadPeer (dp_fingerprint dp)]) dp p"
      "if en_save_peer E (w_trace w @ [Ev_LoadPeer (dp_fingerprint dp), Ev_SavePeer p]) = Ok ()
       then \<exists>r. fst (discover_one K E dp w) = Ok r \<and> discovered_entry K dp r else \<not> is_ok (fst (discover_one K E dp w))"
proof (cases "peer_build (en_now E (w_trace w)) (en_uuid E (w_trace w)) (discovered_builder dp)")
  case (Ok peer)
  note peer = discovered_peer_built [OF Ok]
  let ?t = "w_trace w @ [Ev_LoadPeer (dp_fingerprint dp)]"
  have entry: "discovered_entry K dp (from_peer K peer)" using peer by (simp add: discovered_entry_def from_peer_def)
  have save: thesis if save: "discovery_save E ?t dp p"
    and run: "discover_one K E dp w = abind (amap_err (\<lambda>_. App_Persistence) (port_call (en_save_peer E) (Ev_SavePeer p)))
        (\<lambda>_. aret (from_peer K peer)) (w\<lparr> w_trace := ?t \<rparr>)" for p
    using save entry unfolding run
    by (intro saved [of p]; cases "en_save_peer E (?t @ [Ev_SavePeer p])") (simp_all add: run action_defs port_call_def Let_def)
  show ?thesis
  proof (cases "en_load_peer E ?t")
    case loaded: (Ok loaded)
    show ?thesis
    proof (cases loaded)
      case None
      then have "discovery_save E ?t dp peer" using loaded peer by (simp add: discovery_save_def)
      then show ?thesis using Ok loaded None peer
        by (intro save [of peer]) (simp_all add: discover_one_def abind_def amap_err_def aget_def aret_def port_call_def Let_def split: prod.splits result.splits)
    next
      case (Some e)
      obtain r p where r: "set_addresses (en_now E ?t) (peer_addresses peer) e = (r, p)" by fastforce
      show ?thesis
      proof (cases r)
        case set: (Ok u)
        have "discovery_save E ?t dp (set_status (en_now E ?t) offline p)"
          using set_addresses_core [of "en_now E ?t" "peer_addresses peer" e u p] r set loaded Some peer
            set_status_core [of "en_now E ?t" offline p]
          by (simp add: discovery_save_def offline_def)
        then show ?thesis using Ok loaded Some r set peer
          by (intro save [of "set_status (en_now E ?t) offline p"])
             (simp_all add: discover_one_def abind_def amap_err_def aget_def aret_def port_call_def Let_def split: prod.splits result.splits)
      qed (intro unsaved, use Ok loaded Some r peer in \<open>simp_all add: discover_one_def action_defs port_call_def Let_def\<close>)+
    qed
  qed (intro unsaved, use Ok peer in \<open>simp_all add: discover_one_def action_defs port_call_def Let_def\<close>)+
qed (intro unbuilt, simp_all add: discover_one_def action_defs)+

lemma discover_loop_turns:
  "\<exists>evs. w_trace (snd (discover_loop K E dps w)) = w_trace w @ evs
     \<and> discovery_turns E (w_trace w) (is_ok (fst (discover_loop K E dps w))) dps evs
     \<and> (case fst (discover_loop K E dps w) of Ok rs \<Rightarrow> list_all2 (discovered_entry K) dps rs | _ \<Rightarrow> True)"
proof (induction dps arbitrary: w)
  case (Cons dp dps)
  obtain r w1 where one: "discover_one K E dp w = (r, w1)" by fastforce
  show ?case
  proof (cases rule: discover_one_cases [of K E dp w])
    case unbuilt
    then show ?thesis using one by (cases r) (auto simp: action_defs intro!: exI [of _ "[]"])
  next
    case unsaved
    then show ?thesis using one by (cases r) (auto simp: action_defs intro!: exI [of _ "[Ev_LoadPeer (dp_fingerprint dp)]"])
  next
    case (saved p)
    let ?turn = "[Ev_LoadPeer (dp_fingerprint dp), Ev_SavePeer p]"
    show ?thesis
    proof (cases "en_save_peer E (w_trace w @ ?turn) = Ok ()")
      case False
      then show ?thesis using one saved by (cases r) (auto simp: action_defs intro!: exI [of _ ?turn])
    next
      case True
      then obtain x where x: "r = Ok x" "discovered_entry K dp x" using one saved(3) by auto
      have w1: "w_trace w1 = w_trace w @ ?turn" using saved(1) one by simp
      obtain rs w2 where loop: "discover_loop K E dps w1 = (rs, w2)" by fastforce
      from Cons.IH [of w1] obtain evs where evs: "w_trace w2 = w_trace w1 @ evs" "discovery_turns E (w_trace w1) (is_ok rs) dps evs"
        "case rs of Ok rs \<Rightarrow> list_all2 (discovered_entry K) dps rs | _ \<Rightarrow> True"
        unfolding loop by auto
      have run: "discover_loop K E (dp # dps) w = (map_ok (Cons x) rs, w2)"
        using one x(1) loop by (cases rs) (simp_all add: action_defs)
      have "discovery_turns E (w_trace w) (is_ok (map_ok (Cons x) rs)) (dp # dps) (?turn @ evs)"
        using evs(2) saved(2) True w1 by (cases rs) simp_all
      moreover have "w_trace w2 = w_trace w @ ?turn @ evs" using evs(1) w1 by simp
      moreover have "case map_ok (Cons x) rs of Ok rs \<Rightarrow> list_all2 (discovered_entry K) (dp # dps) rs | _ \<Rightarrow> True"
        using evs(3) x(2) by (cases rs) simp_all
      ultimately show ?thesis unfolding run fst_conv snd_conv by blast
    qed
  qed
qed (simp add: action_defs)

section \<open>Properties\<close>


end
