(* ===== verification/Reset_Identity.thy ===== *)
theory Reset_Identity
  imports App_Ports
begin

text \<open>
  \<open>crates/application/src/usecases/reset_identity.rs\<close>: a new identity is generated, saved, made current,
  broadcast and announced.
\<close>

section \<open>Model\<close>

definition reset_execute :: "'a env \<Rightarrow> rstr \<Rightarrow> ('a world, identity, application_error) action" where
  "reset_execute E new_display_name =
     abind (amap_err (\<lambda>_. App_Security) (port_call (en_generate_identity E) (Ev_GenerateIdentity new_display_name))) (\<lambda>new_identity.
     abind (amap_err (\<lambda>_. App_Security) (port_call (en_save_identity E) (Ev_SaveIdentity new_identity))) (\<lambda>_.
     abind (aput (\<lambda>w. w\<lparr> w_identity := new_identity \<rparr>)) (\<lambda>_.
     abind (amap_err (\<lambda>_. App_Network) (port_call (en_broadcast E) (Ev_Broadcast new_identity))) (\<lambda>_.
     abind (ignore_err (port_call (en_notify E) (Ev_NotifyReset (ident_fingerprint new_identity)))) (\<lambda>_.
     aret new_identity)))))"

section \<open>Properties\<close>

text \<open>
  C27: An identity reset is all or nothing for this process, and closes no connection. Whatever the adapters answer, one of two things
  happened: the current identity is the old one, the call failed, nothing was broadcast or announced and no identity was
  saved successfully, so one that was generated is lost; or the current identity is the generated one, it was saved before
  it became current, and exactly it was broadcast, and announced if the broadcast succeeded; then the call returns that identity, or the
  network error of the broadcast (or the broadcast or the announcement panicked). No other call is made to any adapter. In particular no
  connection is closed, neither before nor after, where the module's comments say that all are terminated; and a reset that fails to save
  does not leave the new identity valid, as they say too.
\<close>

theorem reset_atomic:
  "\<exists>evs. w_trace (snd (reset_execute E name w)) = w_trace w @ evs
     \<and> list_all (\<lambda>ev. case ev of Ev_Disconnect c \<Rightarrow> False | Ev_Connect a f \<Rightarrow> False | Ev_Send c d \<Rightarrow> False | _ \<Rightarrow> True) evs
     \<and> (w_identity (snd (reset_execute E name w)) = w_identity w \<and> \<not> is_ok (fst (reset_execute E name w))
          \<and> (evs = [Ev_GenerateIdentity name] \<and> \<not> is_ok (en_generate_identity E (w_trace w @ evs))
             \<or> (\<exists>i. evs = [Ev_GenerateIdentity name, Ev_SaveIdentity i] \<and> \<not> is_ok (en_save_identity E (w_trace w @ evs))))
        \<or> (\<exists>i. let sent = [Ev_GenerateIdentity name, Ev_SaveIdentity i, Ev_Broadcast i];
                  told = sent @ [Ev_NotifyReset (ident_fingerprint i)] in
            en_generate_identity E (w_trace w @ [Ev_GenerateIdentity name]) = Ok i
            \<and> en_save_identity E (w_trace w @ [Ev_GenerateIdentity name, Ev_SaveIdentity i]) = Ok ()
            \<and> w_identity (snd (reset_execute E name w)) = i
            \<and> (evs, fst (reset_execute E name w)) =
                (case en_broadcast E (w_trace w @ sent) of
                   Err e \<Rightarrow> (sent, Err App_Network)
                 | Panic \<Rightarrow> (sent, Panic)
                 | Ok u \<Rightarrow> (told, if en_notify E (w_trace w @ told) = Panic then Panic else Ok i))))"
proof -
  let ?t1 = "w_trace w @ [Ev_GenerateIdentity name]"
  note defs = reset_execute_def action_defs port_call_def ignore_err_def Let_def
  show ?thesis
  proof (cases "en_generate_identity E ?t1")
    case (Ok i)
    let ?t2 = "?t1 @ [Ev_SaveIdentity i]"
    show ?thesis
    proof (cases "en_save_identity E ?t2")
      case saved: (Ok u)
      let ?t3 = "?t2 @ [Ev_Broadcast i]"
      show ?thesis
      proof (cases "en_broadcast E ?t3")
        case (Ok v)
        then show ?thesis using saved \<open>en_generate_identity E ?t1 = Ok i\<close>
          by (intro exI [of _ "[Ev_GenerateIdentity name, Ev_SaveIdentity i, Ev_Broadcast i, Ev_NotifyReset (ident_fingerprint i)]"])
             (cases "en_notify E (?t3 @ [Ev_NotifyReset (ident_fingerprint i)])"; simp add: defs)
      qed (use saved \<open>en_generate_identity E ?t1 = Ok i\<close> in
           \<open>intro exI [of _ "[Ev_GenerateIdentity name, Ev_SaveIdentity i, Ev_Broadcast i]"]; simp add: defs\<close>)+
    qed (use Ok in \<open>simp_all add: defs\<close>)
  qed (simp_all add: defs)
qed

end
