(* ===== verification/Connection_Manager.thy ===== *)
theory Connection_Manager
  imports Frame_Codec Security_Keys "HOL-Library.AList"
begin

text \<open>
  \<open>crates/networking/src/tcp/connection_manager.rs\<close>: the tables of peers, trusted fingerprints and
  active connections, and the tasks that \<open>connect_to_peer\<close> spawns. A task is a small state machine of its own;
  an execution is a sequence of calls and task turns, in any order. What the network answers to a task
  (\<open>client.connect\<close>, \<open>conn.send\<close>, \<open>conn.recv\<close>) is a part of its turn.
\<close>

section \<open>State\<close>

definition MAX_PEERS :: nat where "MAX_PEERS = 200"
definition MAX_ACTIVE_CONNECTIONS :: nat where "MAX_ACTIVE_CONNECTIONS = 10"
definition OUTGOING_BUFFER_SIZE :: nat where "OUTGOING_BUFFER_SIZE = 64"

datatype ip_addr = V4 "32 word" | V6 "128 word"

record peer_info =
  pi_fingerprint :: fingerprint
  pi_display_name :: rstr
  pi_ip_address :: ip_addr
  pi_tcp_port :: "16 word"
  pi_x25519_public :: "bytes option"
  pi_last_seen :: datetime

text \<open>
  A task first connects, then serves its connection, possibly waiting to hand a received message to a full incoming
  channel, and finally closes the connection. Its two channels are queues; the sender of the outgoing one is in the handle.
\<close>

datatype phase = Connecting | Serving | Delivering bytes | Closing

record conn_task =
  ct_fingerprint :: fingerprint
  ct_x25519_public :: "bytes option"
  ct_phase :: phase
  ct_outgoing :: "bytes list"
  ct_incoming :: "bytes list"
  ct_receiver_alive :: bool

record conn_handle =
  ch_task :: nat
  ch_last_activity :: int

text \<open>A call of \<open>add_peer\<close> that has passed its first check: it looks its peer up in the full table, or is about to insert it.\<close>

datatype adding = Looking_Up (adding_info: peer_info) | is_Inserting: Inserting (adding_info: peer_info)

record manager =
  mg_peers :: "(fingerprint \<times> peer_info) list"
  mg_adding :: "adding list"
  mg_active :: "(fingerprint \<times> conn_handle) list"
  mg_trusted :: "fingerprint list"
  mg_cancelled :: bool
  mg_tasks :: "(nat \<times> conn_task) list"
  mg_next :: nat

definition manager_new :: manager where
  "manager_new = \<lparr> mg_peers = [], mg_adding = [], mg_active = [], mg_trusted = [], mg_cancelled = False, mg_tasks = [], mg_next = 0 \<rparr>"

section \<open>Operations\<close>

text \<open>
  \<open>len\<close>, \<open>contains_key\<close> and \<open>insert\<close> are three accesses to a map that other threads share; each is one step. The answer is
  \<open>None\<close> while the call goes on.
\<close>

definition add_start :: "peer_info \<Rightarrow> manager \<Rightarrow> manager" where
  "add_start info m =
     m\<lparr> mg_adding := (if length (mg_peers m) \<ge> MAX_PEERS then Looking_Up info else Inserting info) # mg_adding m \<rparr>"

definition add_lookup :: "peer_info \<Rightarrow> manager \<Rightarrow> (unit, network_error) result option \<times> manager" where
  "add_lookup info m =
     (let m' = m\<lparr> mg_adding := remove1 (Looking_Up info) (mg_adding m) \<rparr> in
      if map_of (mg_peers m) (pi_fingerprint info) = None then (Some (Err (PeerLimitExceeded MAX_PEERS)), m')
      else (None, m'\<lparr> mg_adding := Inserting info # mg_adding m' \<rparr>))"

definition add_insert :: "peer_info \<Rightarrow> manager \<Rightarrow> (unit, network_error) result option \<times> manager" where
  "add_insert info m =
     (Some (Ok ()), m\<lparr> mg_adding := remove1 (Inserting info) (mg_adding m),
                       mg_peers := AList.update (pi_fingerprint info) info (mg_peers m) \<rparr>)"

text \<open>A call that no other thread interrupts.\<close>

definition add_peer :: "peer_info \<Rightarrow> (manager, unit, network_error) action" where
  "add_peer info m =
     (if length (mg_peers m) \<ge> MAX_PEERS \<and> map_of (mg_peers m) (pi_fingerprint info) = None
      then (Err (PeerLimitExceeded MAX_PEERS), m)
      else (Ok (), m\<lparr> mg_peers := AList.update (pi_fingerprint info) info (mg_peers m) \<rparr>))"

definition trust_peer :: "fingerprint \<Rightarrow> manager \<Rightarrow> manager" where
  "trust_peer fp m = m\<lparr> mg_trusted := List.insert fp (mg_trusted m) \<rparr>"

text \<open>The task of \<open>new\<close> that copies the trust store, when it answers.\<close>

definition load_trusted :: "fingerprint list \<Rightarrow> manager \<Rightarrow> manager" where
  "load_trusted fps m = fold trust_peer fps m"

definition is_trusted :: "fingerprint \<Rightarrow> manager \<Rightarrow> bool" where
  "is_trusted fp m \<longleftrightarrow> fp \<in> set (mg_trusted m)"

definition get_peer :: "fingerprint \<Rightarrow> manager \<Rightarrow> peer_info option" where
  "get_peer fp m = map_of (mg_peers m) fp"

definition new_task :: "peer_info \<Rightarrow> fingerprint \<Rightarrow> conn_task" where
  "new_task info fp = \<lparr> ct_fingerprint = fp, ct_x25519_public = pi_x25519_public info, ct_phase = Connecting,
     ct_outgoing = [], ct_incoming = [], ct_receiver_alive = True \<rparr>"

text \<open>
  The receiver that \<open>connect_to_peer\<close> returns belongs to the task it spawned. The call is one step; the code awaits the lock
  of the trusted peers within it, and what it has read by then can only have become out of date in the two tables, since
  trust is never taken back.
\<close>

definition connect_to_peer :: "crates \<Rightarrow> fingerprint \<Rightarrow> (manager, nat, network_error) action" where
  "connect_to_peer K fp m =
     (if map_of (mg_active m) fp \<noteq> None then (Err (AlreadyConnected (ascii_str (to_formatted_string K fp))), m)
      else case get_peer fp m of
        None \<Rightarrow> (Err (PeerNotFound (ascii_str (to_formatted_string K fp))), m)
      | Some info \<Rightarrow>
          if \<not> is_trusted fp m then (Err (PeerNotTrusted (ascii_str (to_formatted_string K fp))), m)
          else if length (mg_active m) \<ge> MAX_ACTIVE_CONNECTIONS
          then (Err (ConnectionLimitExceeded MAX_ACTIVE_CONNECTIONS), m)
          else (Ok (mg_next m),
                m\<lparr> mg_tasks := AList.update (mg_next m) (new_task info fp) (mg_tasks m), mg_next := Suc (mg_next m) \<rparr>))"

text \<open>
  Sending to a peer puts the message into the channel of its handle. \<open>None\<close> is a call that waits,
  because the channel is full.
\<close>

definition send_to :: "crates \<Rightarrow> fingerprint \<Rightarrow> bytes \<Rightarrow> manager \<Rightarrow> (unit, network_error) result option \<times> manager" where
  "send_to K fp message m =
     (case map_of (mg_active m) fp of
        None \<Rightarrow> (Some (Err (PeerNotConnected (ascii_str (to_formatted_string K fp)))), m)
      | Some handle \<Rightarrow>
          (case map_of (mg_tasks m) (ch_task handle) of
             None \<Rightarrow> (Some (Err (SendFailed ''channel closed'')), m)
           | Some t \<Rightarrow>
               if length (ct_outgoing t) \<ge> OUTGOING_BUFFER_SIZE then (None, m)
               else (Some (Ok ()), m\<lparr> mg_tasks := AList.update (ch_task handle)
                       (t\<lparr> ct_outgoing := ct_outgoing t @ [message] \<rparr>) (mg_tasks m) \<rparr>)))"

definition disconnect :: "fingerprint \<Rightarrow> manager \<Rightarrow> manager" where
  "disconnect fp m = m\<lparr> mg_active := AList.delete fp (mg_active m) \<rparr>"

definition active_connection_count :: "manager \<Rightarrow> nat" where
  "active_connection_count m = length (mg_active m)"

definition peer_count :: "manager \<Rightarrow> nat" where
  "peer_count m = length (mg_peers m)"

definition shutdown :: "manager \<Rightarrow> manager" where
  "shutdown m = m\<lparr> mg_cancelled := True \<rparr>"

definition cleanup_stale :: "datetime \<Rightarrow> manager \<Rightarrow> manager" where
  "cleanup_stale now m = m\<lparr> mg_peers := filter (\<lambda>(fp, info). now - pi_last_seen info < seconds (5 * 60)) (mg_peers m) \<rparr>"

section \<open>The spawned task\<close>

definition set_task :: "nat \<Rightarrow> conn_task \<Rightarrow> manager \<Rightarrow> manager" where
  "set_task tid t m = m\<lparr> mg_tasks := AList.update tid t (mg_tasks m) \<rparr>"

definition end_task :: "nat \<Rightarrow> manager \<Rightarrow> manager" where
  "end_task tid m = m\<lparr> mg_tasks := AList.delete tid (mg_tasks m) \<rparr>"

text \<open>
  The task ends at once without a key; \<open>connected\<close> is whether \<open>client.connect\<close> succeeded. The
  handle replaces one that another task of the same peer may have stored.
\<close>

definition task_connect :: "datetime \<Rightarrow> bool \<Rightarrow> nat \<Rightarrow> manager \<Rightarrow> manager" where
  "task_connect now connected tid m =
     (case map_of (mg_tasks m) tid of
        None \<Rightarrow> m
      | Some t \<Rightarrow>
          (case ct_x25519_public t of
             None \<Rightarrow> end_task tid m
           | Some key \<Rightarrow>
               if \<not> is_ok (x25519_public_from_bytes key) \<or> \<not> connected then end_task tid m
               else set_task tid (t\<lparr> ct_phase := Serving \<rparr>)
                      (m\<lparr> mg_active := AList.update (ct_fingerprint t)
                            \<lparr> ch_task = tid, ch_last_activity = timestamp now \<rparr> (mg_active m) \<rparr>)))"

text \<open>
  A turn of the loop: cancellation comes first, then an outgoing message, then one from the network.
  The outgoing branch needs a message; a closed and empty channel disables it.
\<close>

datatype task_turn = Turn_Cancelled | Turn_Outgoing bool | Turn_Received bytes | Turn_Recv_Failed

fun take_turn :: "task_turn \<Rightarrow> conn_task \<Rightarrow> conn_task" where
  "take_turn Turn_Cancelled t = t\<lparr> ct_phase := Closing \<rparr>"
| "take_turn (Turn_Outgoing sent) t =
     t\<lparr> ct_outgoing := tl (ct_outgoing t), ct_phase := (if sent then Serving else Closing) \<rparr>"
| "take_turn (Turn_Received msg) t = t\<lparr> ct_phase := Delivering msg \<rparr>"
| "take_turn Turn_Recv_Failed t = t\<lparr> ct_phase := Closing \<rparr>"

fun turn_enabled :: "bool \<Rightarrow> task_turn \<Rightarrow> conn_task \<Rightarrow> bool" where
  "turn_enabled cancelled Turn_Cancelled t \<longleftrightarrow> cancelled"
| "turn_enabled cancelled (Turn_Outgoing sent) t \<longleftrightarrow> \<not> cancelled \<and> ct_outgoing t \<noteq> []"
| "turn_enabled cancelled (Turn_Received msg) t \<longleftrightarrow> \<not> cancelled \<and> ct_outgoing t = []"
| "turn_enabled cancelled Turn_Recv_Failed t \<longleftrightarrow> \<not> cancelled \<and> ct_outgoing t = []"

text \<open>\<open>incoming_tx.send(msg).await\<close>: it waits for room and fails when the receiver is gone.\<close>

definition task_deliver :: "conn_task \<Rightarrow> conn_task" where
  "task_deliver t =
     (case ct_phase t of
        Delivering msg \<Rightarrow>
          if ct_receiver_alive t then t\<lparr> ct_incoming := ct_incoming t @ [msg], ct_phase := Serving \<rparr>
          else t\<lparr> ct_phase := Closing \<rparr>
      | _ \<Rightarrow> t)"

text \<open>After the loop: the connection is closed and the entry of the fingerprint removed.\<close>

definition task_finish :: "nat \<Rightarrow> manager \<Rightarrow> manager" where
  "task_finish tid m =
     (case map_of (mg_tasks m) tid of
        None \<Rightarrow> m
      | Some t \<Rightarrow> end_task tid (m\<lparr> mg_active := AList.delete (ct_fingerprint t) (mg_active m) \<rparr>))"

section \<open>Executions\<close>

datatype manager_call =
    Call_Add peer_info | Add_Lookup peer_info | Add_Insert peer_info | Call_Trust fingerprint | Call_Load "fingerprint list" | Call_Connect fingerprint
  | Call_Send fingerprint bytes | Call_Disconnect fingerprint | Call_Shutdown | Call_Cleanup datetime
  | Task_Connect nat datetime bool | Task_Turn nat task_turn | Task_Deliver nat | Task_Finish nat
  | Receiver_Take nat | Receiver_Drop nat

definition on_task :: "(conn_task \<Rightarrow> conn_task) \<Rightarrow> nat \<Rightarrow> manager \<Rightarrow> manager" where
  "on_task f tid m = (case map_of (mg_tasks m) tid of None \<Rightarrow> m | Some t \<Rightarrow> set_task tid (f t) m)"

fun manager_exec :: "crates \<Rightarrow> manager_call \<Rightarrow> manager \<Rightarrow> manager" where
  "manager_exec K (Call_Add info) m = add_start info m"
| "manager_exec K (Add_Lookup info) m = snd (add_lookup info m)"
| "manager_exec K (Add_Insert info) m = snd (add_insert info m)"
| "manager_exec K (Call_Trust fp) m = trust_peer fp m"
| "manager_exec K (Call_Load fps) m = load_trusted fps m"
| "manager_exec K (Call_Connect fp) m = snd (connect_to_peer K fp m)"
| "manager_exec K (Call_Send fp msg) m = snd (send_to K fp msg m)"
| "manager_exec K (Call_Disconnect fp) m = disconnect fp m"
| "manager_exec K Call_Shutdown m = shutdown m"
| "manager_exec K (Call_Cleanup now) m = cleanup_stale now m"
| "manager_exec K (Task_Connect tid now ok) m = task_connect now ok tid m"
| "manager_exec K (Task_Turn tid turn) m = on_task (take_turn turn) tid m"
| "manager_exec K (Task_Deliver tid) m = on_task task_deliver tid m"
| "manager_exec K (Task_Finish tid) m = task_finish tid m"
| "manager_exec K (Receiver_Take tid) m = on_task (\<lambda>t. t\<lparr> ct_incoming := tl (ct_incoming t) \<rparr>) tid m"
| "manager_exec K (Receiver_Drop tid) m = on_task (\<lambda>t. t\<lparr> ct_receiver_alive := False \<rparr>) tid m"

text \<open>When a task or a call in progress may make a step. A new call is always possible.\<close>

fun call_enabled :: "manager_call \<Rightarrow> manager \<Rightarrow> bool" where
  "call_enabled (Add_Lookup info) m \<longleftrightarrow> Looking_Up info \<in> set (mg_adding m)"
| "call_enabled (Add_Insert info) m \<longleftrightarrow> Inserting info \<in> set (mg_adding m)"
| "call_enabled (Task_Connect tid now ok) m \<longleftrightarrow>
     (case map_of (mg_tasks m) tid of Some t \<Rightarrow> ct_phase t = Connecting | None \<Rightarrow> False)"
| "call_enabled (Task_Turn tid turn) m \<longleftrightarrow>
     (case map_of (mg_tasks m) tid of Some t \<Rightarrow> ct_phase t = Serving \<and> turn_enabled (mg_cancelled m) turn t | None \<Rightarrow> False)"
| "call_enabled (Task_Deliver tid) m \<longleftrightarrow>
     (case map_of (mg_tasks m) tid of
        Some t \<Rightarrow> (case ct_phase t of
            Delivering msg \<Rightarrow> \<not> ct_receiver_alive t \<or> length (ct_incoming t) < OUTGOING_BUFFER_SIZE
          | _ \<Rightarrow> False)
      | None \<Rightarrow> False)"
| "call_enabled (Task_Finish tid) m \<longleftrightarrow>
     (case map_of (mg_tasks m) tid of Some t \<Rightarrow> ct_phase t = Closing | None \<Rightarrow> False)"
| "call_enabled (Receiver_Take tid) m \<longleftrightarrow>
     (case map_of (mg_tasks m) tid of Some t \<Rightarrow> ct_receiver_alive t \<and> ct_incoming t \<noteq> [] | None \<Rightarrow> False)"
| "call_enabled (Receiver_Drop tid) m \<longleftrightarrow> map_of (mg_tasks m) tid \<noteq> None"
| "call_enabled c m \<longleftrightarrow> True"

inductive manager_step :: "crates \<Rightarrow> manager \<Rightarrow> manager_call \<Rightarrow> manager \<Rightarrow> bool" for K where
  exec: "call_enabled c m \<Longrightarrow> manager_step K m c (manager_exec K c m)"

inductive manager_reachable :: "crates \<Rightarrow> manager_call list \<Rightarrow> manager \<Rightarrow> bool" for K where
  start: "manager_reachable K [] manager_new"
| step: "manager_reachable K cs m \<Longrightarrow> manager_step K m c m' \<Longrightarrow> manager_reachable K (cs @ [c]) m'"

inductive_cases manager_stepE: "manager_step K m c m'"

text \<open>The same as a function, for concrete executions.\<close>

fun manager_run :: "crates \<Rightarrow> manager_call list \<Rightarrow> manager \<Rightarrow> manager option" where
  "manager_run K [] m = Some m"
| "manager_run K (c # cs) m = (if call_enabled c m then manager_run K cs (manager_exec K c m) else None)"

lemma manager_run_reachable_from:
  "manager_run K cs m = Some m' \<Longrightarrow> manager_reachable K ds m \<Longrightarrow> manager_reachable K (ds @ cs) m'"
proof (induction cs arbitrary: m ds)
  case (Cons c cs)
  then have "call_enabled c m" and run: "manager_run K cs (manager_exec K c m) = Some m'" by (auto split: if_splits)
  then have "manager_reachable K (ds @ [c]) (manager_exec K c m)"
    using Cons.prems(2) by (blast intro: manager_reachable.step manager_step.exec)
  from Cons.IH [OF run this] show ?case by simp
qed simp

lemmas manager_run_reachable = manager_run_reachable_from [OF _ manager_reachable.start, simplified]

lemma manager_run_append:
  "manager_run K (cs @ ds) m = (case manager_run K cs m of Some m' \<Rightarrow> manager_run K ds m' | None \<Rightarrow> None)"
  by (induction cs arbitrary: m) auto

text \<open>The greatest number of calls of \<open>add_peer\<close> in progress at a time.\<close>

fun peak_adds :: "crates \<Rightarrow> manager_call list \<Rightarrow> manager \<Rightarrow> nat" where
  "peak_adds K [] m = length (mg_adding m)"
| "peak_adds K (c # cs) m = max (length (mg_adding m)) (peak_adds K cs (manager_exec K c m))"

section \<open>Invariant\<close>

text \<open>Tables are read through \<open>map_of\<close> throughout.\<close>

declare map_of_eq_Some_iff [simp del] Some_eq_map_of_iff [simp del]

lemma length_alist_update:
  "length (AList.update k v al) = (if map_of al k = None then Suc (length al) else length al)"
  by (induction al) auto

text \<open>The table of peers is a map, each entry under its own fingerprint.\<close>

definition peers_ok :: "manager \<Rightarrow> bool" where
  "peers_ok m \<longleftrightarrow> distinct (map fst (mg_peers m))
     \<and> (\<forall>fp info. map_of (mg_peers m) fp = Some info \<longrightarrow> pi_fingerprint info = fp)"

text \<open>Every task belongs to a trusted peer, and its channels are within their capacity.\<close>

definition task_ok :: "manager \<Rightarrow> conn_task \<Rightarrow> bool" where
  "task_ok m t \<longleftrightarrow> is_trusted (ct_fingerprint t) m \<and> length (ct_outgoing t) \<le> OUTGOING_BUFFER_SIZE
     \<and> length (ct_incoming t) \<le> OUTGOING_BUFFER_SIZE"

definition tasks_ok :: "manager \<Rightarrow> bool" where
  "tasks_ok m \<longleftrightarrow> distinct (map fst (mg_tasks m))
     \<and> (\<forall>tid t. map_of (mg_tasks m) tid = Some t \<longrightarrow> tid < mg_next m \<and> task_ok m t)"

text \<open>Every handle belongs to a live task of its fingerprint that is past its connect.\<close>

definition handles_ok :: "manager \<Rightarrow> bool" where
  "handles_ok m \<longleftrightarrow> distinct (map fst (mg_active m))
     \<and> (\<forall>fp h. map_of (mg_active m) fp = Some h \<longrightarrow>
          (\<exists>t. map_of (mg_tasks m) (ch_task h) = Some t \<and> ct_fingerprint t = fp \<and> ct_phase t \<noteq> Connecting))"

definition manager_inv :: "manager \<Rightarrow> bool" where
  "manager_inv m \<longleftrightarrow> peers_ok m \<and> tasks_ok m \<and> handles_ok m"

lemmas inv_defs = manager_inv_def peers_ok_def tasks_ok_def task_ok_def handles_ok_def
lemmas alist_simps = update_conv' delete_conv' distinct_update distinct_delete

lemma handleE:
  assumes "manager_inv m" and "map_of (mg_active m) fp = Some h"
  obtains t where "map_of (mg_tasks m) (ch_task h) = Some t" "ct_fingerprint t = fp" "ct_phase t \<noteq> Connecting"
  using assms unfolding manager_inv_def handles_ok_def by blast

lemma inv_adding: "manager_inv m \<Longrightarrow> manager_inv (m\<lparr> mg_adding := as \<rparr>)"
  by (auto simp: inv_defs is_trusted_def)

lemma inv_add_start: "manager_inv m \<Longrightarrow> manager_inv (add_start info m)"
  by (simp add: add_start_def inv_adding)

lemma inv_add_lookup: "manager_inv m \<Longrightarrow> manager_inv (snd (add_lookup info m))"
  by (simp add: add_lookup_def inv_adding Let_def)

lemma inv_add_insert:
  assumes "manager_inv m"
  shows "manager_inv (snd (add_insert info m))"
proof -
  have "peers_ok (snd (add_insert info m))" using assms by (auto simp: inv_defs add_insert_def alist_simps)
  then show ?thesis using assms
    by (auto simp: add_insert_def manager_inv_def tasks_ok_def task_ok_def handles_ok_def is_trusted_def)
qed

lemma inv_trust_peer: "manager_inv m \<Longrightarrow> manager_inv (trust_peer fp m)"
  by (auto simp: inv_defs trust_peer_def is_trusted_def)

lemma inv_load_trusted: "manager_inv m \<Longrightarrow> manager_inv (load_trusted fps m)"
  unfolding load_trusted_def by (induction fps arbitrary: m) (simp_all add: inv_trust_peer)

lemma inv_disconnect: "manager_inv m \<Longrightarrow> manager_inv (disconnect fp m)"
  by (auto simp: inv_defs disconnect_def is_trusted_def alist_simps)

lemma inv_shutdown: "manager_inv m \<Longrightarrow> manager_inv (shutdown m)"
  by (auto simp: inv_defs shutdown_def is_trusted_def)

lemma map_of_filter_Some:
  "distinct (map fst al) \<Longrightarrow> map_of (filter P al) k = Some v \<longleftrightarrow> map_of al k = Some v \<and> P (k, v)"
  by (auto simp: map_of_eq_Some_iff distinct_map_filter)

lemma inv_cleanup:
  assumes "manager_inv m"
  shows "manager_inv (cleanup_stale now m)"
  using assms map_of_filter_Some [of "mg_peers m"]
  by (auto simp: inv_defs cleanup_stale_def is_trusted_def distinct_map_filter intro: order_trans [OF length_filter_le])

lemma inv_connect_to_peer:
  assumes "manager_inv m"
  shows "manager_inv (snd (connect_to_peer K fp m))"
proof -
  have fresh: "map_of (mg_tasks m) (mg_next m) = None"
    using assms by (cases "map_of (mg_tasks m) (mg_next m)") (auto simp: inv_defs)
  have "manager_inv (m\<lparr> mg_tasks := AList.update (mg_next m) (new_task info fp) (mg_tasks m), mg_next := Suc (mg_next m) \<rparr>)"
    if "is_trusted fp m" for info
    using that assms fresh
    by (auto simp: inv_defs new_task_def is_trusted_def alist_simps less_Suc_eq dest: order.strict_implies_order split: if_splits)
       (metis option.distinct(1))
  then show ?thesis using assms by (auto simp: connect_to_peer_def split: option.splits)
qed

text \<open>A change of one task that keeps its fingerprint and does not send it back to connecting.\<close>

lemma inv_set_task:
  assumes "manager_inv m" and "map_of (mg_tasks m) tid = Some t" and "task_ok m t'" and "ct_fingerprint t' = ct_fingerprint t"
    and "ct_phase t \<noteq> Connecting \<longrightarrow> ct_phase t' \<noteq> Connecting"
  shows "manager_inv (set_task tid t' m)"
proof -
  have "peers_ok (set_task tid t' m)" "tasks_ok (set_task tid t' m)"
    using assms by (auto simp: inv_defs set_task_def is_trusted_def alist_simps)
  moreover have "\<exists>u. map_of (mg_tasks (set_task tid t' m)) (ch_task h) = Some u \<and> ct_fingerprint u = fp \<and> ct_phase u \<noteq> Connecting"
    if h: "map_of (mg_active m) fp = Some h" for fp h
  proof -
    obtain u where "map_of (mg_tasks m) (ch_task h) = Some u" "ct_fingerprint u = fp" "ct_phase u \<noteq> Connecting"
      using assms(1) h by (rule handleE)
    then show ?thesis using assms(2,4,5) by (cases "ch_task h = tid") (auto simp: set_task_def alist_simps)
  qed
  ultimately show ?thesis using assms(1) by (simp add: manager_inv_def handles_ok_def set_task_def)
qed

lemma inv_end_task:
  assumes "manager_inv m" and "\<And>fp h. map_of (mg_active m) fp = Some h \<Longrightarrow> ch_task h \<noteq> tid"
  shows "manager_inv (end_task tid m)"
  using assms by (auto simp: inv_defs end_task_def is_trusted_def alist_simps)


lemma inv_on_task:
  assumes "manager_inv m" and "\<And>t. map_of (mg_tasks m) tid = Some t \<Longrightarrow> task_ok m t \<Longrightarrow>
      task_ok m (f t) \<and> ct_fingerprint (f t) = ct_fingerprint t \<and> (ct_phase t \<noteq> Connecting \<longrightarrow> ct_phase (f t) \<noteq> Connecting)"
  shows "manager_inv (on_task f tid m)"
proof (cases "map_of (mg_tasks m) tid")
  case (Some t)
  then have "task_ok m t" using assms(1) by (simp add: manager_inv_def tasks_ok_def)
  with assms Some show ?thesis by (auto simp: on_task_def intro: inv_set_task)
qed (use assms(1) in \<open>simp add: on_task_def\<close>)

lemma inv_send_to:
  assumes "manager_inv m"
  shows "manager_inv (snd (send_to K fp msg m))"
proof -
  have "manager_inv (set_task tid (t\<lparr> ct_outgoing := ct_outgoing t @ [msg] \<rparr>) m)"
    if "map_of (mg_tasks m) tid = Some t" "length (ct_outgoing t) < OUTGOING_BUFFER_SIZE" for tid t
    using that assms by (intro inv_set_task) (auto simp: inv_defs)
  then show ?thesis using assms by (auto simp: send_to_def set_task_def split: option.splits)
qed

lemma inv_task_connect:
  assumes inv: "manager_inv m" and t: "map_of (mg_tasks m) tid = Some t" "ct_phase t = Connecting"
  shows "manager_inv (task_connect now ok tid m)"
proof -
  let ?h = "\<lparr> ch_task = tid, ch_last_activity = timestamp now \<rparr>"
  let ?t = "t\<lparr> ct_phase := Serving \<rparr>"
  have no_handle: "ch_task h \<noteq> tid" if "map_of (mg_active m) fp = Some h" for fp h
    using handleE [OF inv that] t by (metis option.inject)
  have "manager_inv (set_task tid ?t m)"
    using inv t by (intro inv_set_task) (auto simp: inv_defs)
  then have "manager_inv (set_task tid ?t (m\<lparr> mg_active := AList.update (ct_fingerprint t) ?h (mg_active m) \<rparr>))"
    by (auto simp: inv_defs set_task_def is_trusted_def alist_simps)
  then show ?thesis using inv t inv_end_task [OF inv no_handle]
    by (auto simp: task_connect_def split: option.splits)
qed

lemma inv_task_finish:
  assumes inv: "manager_inv m"
  shows "manager_inv (task_finish tid m)"
proof (cases "map_of (mg_tasks m) tid")
  case (Some t)
  let ?m = "m\<lparr> mg_active := AList.delete (ct_fingerprint t) (mg_active m) \<rparr>"
  have "manager_inv ?m" using inv_disconnect [OF inv] by (simp add: disconnect_def)
  moreover have "ch_task h \<noteq> tid" if "map_of (mg_active ?m) fp = Some h" for fp h
  proof -
    have fp: "fp \<noteq> ct_fingerprint t" "map_of (mg_active m) fp = Some h"
      using that by (simp_all add: alist_simps split: if_splits)
    show ?thesis using handleE [OF inv fp(2)] Some fp(1) by (metis option.inject)
  qed
  ultimately have "manager_inv (end_task tid ?m)" by (rule inv_end_task)
  with Some show ?thesis by (simp add: task_finish_def)
qed (use inv in \<open>simp add: task_finish_def\<close>)

lemma inv_step: "manager_step K m c m' \<Longrightarrow> manager_inv m \<Longrightarrow> manager_inv m'"
proof (erule manager_stepE)
  assume inv: "manager_inv m" and en: "call_enabled c m" and m': "m' = manager_exec K c m"
  show "manager_inv m'" unfolding m'
  proof (cases c)
    case (Task_Turn tid turn)
    have "task_ok m (take_turn turn t) \<and> ct_fingerprint (take_turn turn t) = ct_fingerprint t
        \<and> ct_phase (take_turn turn t) \<noteq> Connecting" if "task_ok m t" for t
      using that by (cases turn) (auto simp: task_ok_def)
    then show "manager_inv (manager_exec K c m)" using Task_Turn inv by (auto intro!: inv_on_task)
  next
    case (Task_Deliver tid)
    have "task_ok m (task_deliver t) \<and> ct_fingerprint (task_deliver t) = ct_fingerprint t
        \<and> (ct_phase t \<noteq> Connecting \<longrightarrow> ct_phase (task_deliver t) \<noteq> Connecting)"
      if "map_of (mg_tasks m) tid = Some t" "task_ok m t" for t
      using that en Task_Deliver by (auto simp: task_ok_def task_deliver_def split: phase.splits)
    then show "manager_inv (manager_exec K c m)" using Task_Deliver inv by (auto intro!: inv_on_task)
  next
    case (Receiver_Take tid)
    then show "manager_inv (manager_exec K c m)" using inv by (auto intro!: inv_on_task simp: task_ok_def)
  next
    case (Receiver_Drop tid)
    then show "manager_inv (manager_exec K c m)" using inv by (auto intro!: inv_on_task simp: task_ok_def)
  next
    case (Task_Connect tid now ok)
    then show "manager_inv (manager_exec K c m)" using inv en by (auto intro!: inv_task_connect split: option.splits)
  qed (use inv in \<open>simp_all add: inv_add_start inv_add_lookup inv_add_insert inv_trust_peer inv_load_trusted inv_connect_to_peer inv_send_to inv_disconnect
      inv_shutdown inv_cleanup inv_task_finish\<close>)
qed

lemma inv_new: "manager_inv manager_new"
  by (simp add: inv_defs manager_new_def)

lemma inv_reachable: "manager_reachable K cs m \<Longrightarrow> manager_inv m"
  by (induction rule: manager_reachable.induct) (auto intro: inv_new inv_step)

section \<open>The table of peers and concurrent calls\<close>

definition inserting :: "adding list \<Rightarrow> fingerprint set" where
  "inserting as = (\<lambda>a. pi_fingerprint (adding_info a)) ` set (filter is_Inserting as)"

lemma inserting_simps [simp]:
  "inserting [] = {}"
  "inserting (Looking_Up info # as) = inserting as"
  "inserting (Inserting info # as) = insert (pi_fingerprint info) (inserting as)"
  by (auto simp: inserting_def)

lemma inserting_remove1: "inserting (remove1 a as) \<subseteq> inserting as"
  unfolding inserting_def using set_remove1_subset [of a as] by auto

lemma card_inserting: "card (inserting as) \<le> length as"
proof -
  have "card (inserting as) \<le> card (set (filter is_Inserting as))" unfolding inserting_def by (rule card_image_le) simp
  also have "\<dots> \<le> length (filter is_Inserting as)" by (rule card_length)
  finally show ?thesis using length_filter_le [of is_Inserting as] by linarith
qed

text \<open>The peers that are in the table or about to be.\<close>

definition expected_peers :: "manager \<Rightarrow> fingerprint set" where
  "expected_peers m = fst ` set (mg_peers m) \<union> inserting (mg_adding m)"

lemma keys_alist_update: "fst ` set (AList.update k v al) = insert k (fst ` set al)"
  by (induction al) auto

lemma finite_expected [simp]: "finite (expected_peers m)"
  by (simp add: expected_peers_def inserting_def)

lemma mg_peers_other [simp]:
  "mg_peers (set_task tid t m) = mg_peers m" "mg_adding (set_task tid t m) = mg_adding m"
  "mg_peers (end_task tid m) = mg_peers m" "mg_adding (end_task tid m) = mg_adding m"
  by (simp_all add: set_task_def end_task_def)

lemma same_peers:
  "case c of Call_Add info \<Rightarrow> False | Add_Lookup info \<Rightarrow> False | Add_Insert info \<Rightarrow> False | Call_Cleanup now \<Rightarrow> False | _ \<Rightarrow> True \<Longrightarrow>
     mg_peers (manager_exec K c m) = mg_peers m \<and> mg_adding (manager_exec K c m) = mg_adding m"
proof (cases c)
  case (Call_Load fps)
  have "mg_peers (load_trusted fps m) = mg_peers m \<and> mg_adding (load_trusted fps m) = mg_adding m"
    unfolding load_trusted_def by (induction fps arbitrary: m) (simp_all add: trust_peer_def)
  then show ?thesis using Call_Load by simp
qed (auto simp: trust_peer_def connect_to_peer_def send_to_def disconnect_def shutdown_def task_connect_def on_task_def
    task_finish_def split: option.splits)

lemma expected_step:
  assumes "call_enabled c m"
  shows "expected_peers (manager_exec K c m) \<subseteq> expected_peers m
    \<or> length (mg_peers m) < MAX_PEERS \<and> mg_peers (manager_exec K c m) = mg_peers m"
proof (cases c)
  case (Call_Add info)
  then show ?thesis by (auto simp: add_start_def expected_peers_def)
next
  case (Add_Lookup info)
  then show ?thesis using inserting_remove1 [of "Looking_Up info" "mg_adding m"]
    by (auto simp: add_lookup_def expected_peers_def Let_def dest!: map_of_SomeD) force
next
  case (Add_Insert info)
  then have "pi_fingerprint info \<in> inserting (mg_adding m)" using assms by (force simp: inserting_def)
  then have "expected_peers (manager_exec K c m) \<subseteq> expected_peers m"
    using Add_Insert inserting_remove1 [of "Inserting info" "mg_adding m"]
    by (simp add: add_insert_def expected_peers_def keys_alist_update) blast
  then show ?thesis ..
next
  case (Call_Cleanup now)
  then show ?thesis by (auto simp: cleanup_stale_def expected_peers_def)
qed (use same_peers [of c K m] in \<open>simp_all add: expected_peers_def\<close>)

text \<open>Nobody waits for room: the table exceeds its limit by what is inserted at the same time.\<close>

lemma expected_bound_step:
  assumes "call_enabled c m" and "card (expected_peers m) \<le> 199 + n" and "length (mg_adding (manager_exec K c m)) \<le> n"
  shows "card (expected_peers (manager_exec K c m)) \<le> 199 + n"
  using expected_step [OF assms(1), of K]
proof
  assume "expected_peers (manager_exec K c m) \<subseteq> expected_peers m"
  then show ?thesis using card_mono [of "expected_peers m"] assms(2) by (meson finite_expected order_trans)
next
  let ?m = "manager_exec K c m"
  assume room: "length (mg_peers m) < MAX_PEERS \<and> mg_peers ?m = mg_peers m"
  have "card (expected_peers ?m) \<le> card (fst ` set (mg_peers m)) + card (inserting (mg_adding ?m))"
    using room card_Un_le by (simp add: expected_peers_def)
  also have "\<dots> \<le> length (mg_peers m) + length (mg_adding ?m)"
    using card_inserting [of "mg_adding ?m"] card_length [of "map fst (mg_peers m)"] by simp
  finally show ?thesis using room assms(3) by (simp add: MAX_PEERS_def)
qed

lemma peak_adds_snoc [simp]:
  "peak_adds K (cs @ [c]) m = max (peak_adds K cs m) (length (mg_adding (manager_exec K c (fold (manager_exec K) cs m))))"
  by (induction cs arbitrary: m) simp_all

lemma reachable_fold: "manager_reachable K cs m \<Longrightarrow> m = fold (manager_exec K) cs manager_new"
  by (induction rule: manager_reachable.induct) (auto elim: manager_stepE)

lemma expected_bound:
  "manager_reachable K cs m \<Longrightarrow> peak_adds K cs manager_new \<le> n \<Longrightarrow> card (expected_peers m) \<le> 199 + n"
proof (induction rule: manager_reachable.induct)
  case start
  show ?case by (simp add: expected_peers_def manager_new_def)
next
  case (step cs m c m')
  then have en: "call_enabled c m" and m': "m' = manager_exec K c m" by (auto elim: manager_stepE)
  then show ?case using step.IH step.prems reachable_fold [OF step.hyps(1)] expected_bound_step [OF en] by simp
qed

lemma peer_count_bound:
  assumes "manager_reachable K cs m"
  shows "peer_count m \<le> 199 + peak_adds K cs manager_new"
proof -
  have "distinct (map fst (mg_peers m))" using inv_reachable [OF assms] by (simp add: manager_inv_def peers_ok_def)
  then have "peer_count m = card (fst ` set (mg_peers m))" using distinct_card by (force simp: peer_count_def)
  also have "\<dots> \<le> card (expected_peers m)" by (rule card_mono) (simp_all add: expected_peers_def [of m] inserting_def)
  finally show ?thesis using expected_bound [OF assms order_refl] by linarith
qed

text \<open>The steps of one call, with nothing in between, are \<open>add_peer\<close>.\<close>

definition add_steps :: "peer_info \<Rightarrow> manager \<Rightarrow> manager_call list" where
  "add_steps info m = [Call_Add info]
     @ (if length (mg_peers m) \<ge> MAX_PEERS then [Add_Lookup info] else [])
     @ (if is_ok (fst (add_peer info m)) then [Add_Insert info] else [])"

lemma add_steps_run: "manager_run K (add_steps info m) m = Some (snd (add_peer info m))"
  by (auto simp: add_steps_def add_start_def add_lookup_def add_insert_def add_peer_def Let_def)

section \<open>Serial use\<close>

text \<open>The tasks that have not finished their connect.\<close>

definition connecting :: "manager \<Rightarrow> nat set" where
  "connecting m = {tid. \<exists>t. map_of (mg_tasks m) tid = Some t \<and> ct_phase t = Connecting}"

text \<open>An execution is serial if \<open>connect_to_peer\<close> is only called while no task is connecting.\<close>

inductive serial_reachable :: "crates \<Rightarrow> manager \<Rightarrow> bool" for K where
  serial_start: "serial_reachable K manager_new"
| serial_step: "serial_reachable K m \<Longrightarrow> manager_step K m c m' \<Longrightarrow>
     (case c of Call_Connect fp \<Rightarrow> list_all (\<lambda>(tid, t). ct_phase t \<noteq> Connecting) (mg_tasks m) | _ \<Rightarrow> True) \<Longrightarrow> serial_reachable K m'"

lemma serial_inv: "serial_reachable K m \<Longrightarrow> manager_inv m"
  by (induction rule: serial_reachable.induct) (auto intro: inv_new inv_step)

definition within_limit :: "manager \<Rightarrow> bool" where
  "within_limit m \<longleftrightarrow> connecting m = {} \<and> length (mg_active m) \<le> MAX_ACTIVE_CONNECTIONS
     \<or> (\<exists>tid. connecting m = {tid} \<and> length (mg_active m) < MAX_ACTIVE_CONNECTIONS)"

lemma within_limit_shrink:
  "within_limit m \<Longrightarrow> connecting m' \<subseteq> connecting m \<Longrightarrow> length (mg_active m') \<le> length (mg_active m) \<Longrightarrow> within_limit m'"
  by (auto simp: within_limit_def subset_singleton_iff)

lemma connecting_same_tasks: "mg_tasks m' = mg_tasks m \<Longrightarrow> connecting m' = connecting m"
  by (simp add: connecting_def)

lemma connecting_on_task:
  "(\<And>t. ct_phase (f t) = Connecting \<Longrightarrow> ct_phase t = Connecting) \<Longrightarrow> connecting (on_task f tid m) \<subseteq> connecting m"
  by (auto simp: connecting_def on_task_def set_task_def alist_simps split: option.splits if_splits)

lemma within_limit_on_task:
  assumes "within_limit m" and "\<And>t. ct_phase (f t) = Connecting \<Longrightarrow> ct_phase t = Connecting"
  shows "within_limit (on_task f tid m)"
proof -
  have "mg_active (on_task f tid m) = mg_active m" by (simp add: on_task_def set_task_def split: option.splits)
  then show ?thesis using within_limit_shrink [OF assms(1) connecting_on_task [OF assms(2)]] by simp
qed

lemma within_limit_task_connect:
  assumes "within_limit m" and "map_of (mg_tasks m) tid = Some t" and "ct_phase t = Connecting"
  shows "within_limit (task_connect now ok tid m)"
proof -
  have "tid \<in> connecting m" using assms(2,3) by (simp add: connecting_def)
  then have c: "connecting m = {tid}" "length (mg_active m) < MAX_ACTIVE_CONNECTIONS"
    using assms(1) by (auto simp: within_limit_def)
  have "connecting (end_task tid m) = {}" "mg_active (end_task tid m) = mg_active m"
    using c(1) by (auto simp: connecting_def end_task_def alist_simps split: if_splits)
  moreover have "connecting (set_task tid (t\<lparr> ct_phase := Serving \<rparr>) (m\<lparr> mg_active := a \<rparr>)) = {}" for a
    using c(1) by (auto simp: connecting_def set_task_def alist_simps split: if_splits)
  ultimately show ?thesis using c(2) assms(2)
    by (auto simp: task_connect_def within_limit_def length_alist_update set_task_def split: option.splits)
qed

lemma within_limit_connect:
  assumes "within_limit m" and "connecting m = {}"
  shows "within_limit (snd (connect_to_peer K fp m))"
proof -
  have "connecting (m\<lparr> mg_tasks := AList.update (mg_next m) (new_task info fp) (mg_tasks m), mg_next := Suc (mg_next m) \<rparr>) = {mg_next m}" for info
    using assms(2) by (auto simp: connecting_def new_task_def alist_simps split: if_splits)
  then show ?thesis using assms by (auto simp: connect_to_peer_def within_limit_def split: option.splits)
qed

lemma within_limit_send_to: "within_limit m \<Longrightarrow> within_limit (snd (send_to K fp msg m))"
  by (erule within_limit_shrink)
     (auto simp: send_to_def connecting_def alist_simps split: option.splits if_splits)

lemma within_limit_task_finish: "within_limit m \<Longrightarrow> within_limit (task_finish tid m)"
  by (erule within_limit_shrink)
     (auto simp: task_finish_def end_task_def connecting_def alist_simps length_delete_le split: option.splits if_splits)

lemma mg_load_trusted [simp]: "mg_tasks (load_trusted fps m) = mg_tasks m" "mg_active (load_trusted fps m) = mg_active m"
  unfolding load_trusted_def by (induction fps arbitrary: m) (simp_all add: trust_peer_def)

lemma within_limit_step:
  assumes "within_limit m" and "manager_step K m c m'"
    and "case c of Call_Connect fp \<Rightarrow> list_all (\<lambda>(tid, t). ct_phase t \<noteq> Connecting) (mg_tasks m) | _ \<Rightarrow> True"
  shows "within_limit m'"
proof -
  have en: "call_enabled c m" and m': "m' = manager_exec K c m" using assms(2) by (auto elim: manager_stepE)
  have same: "within_limit n" if "mg_tasks n = mg_tasks m" "length (mg_active n) \<le> length (mg_active m)" for n
    using that assms(1) within_limit_shrink [of m n] connecting_same_tasks [of n m] by simp
  show ?thesis unfolding m'
  proof (cases c)
    case (Call_Connect fp)
    then have "connecting m = {}" using assms(3) by (auto simp: connecting_def list_all_iff dest!: map_of_SomeD)
    then show "within_limit (manager_exec K c m)" using assms(1) Call_Connect by (simp add: within_limit_connect)
  next
    case (Task_Turn tid turn)
    have "ct_phase (take_turn turn t) \<noteq> Connecting" for t by (cases turn) auto
    then show "within_limit (manager_exec K c m)" using assms(1) Task_Turn by (auto intro!: within_limit_on_task)
  next
    case (Task_Deliver tid)
    have "ct_phase (task_deliver t) = Connecting \<Longrightarrow> ct_phase t = Connecting" for t
      by (auto simp: task_deliver_def split: phase.splits if_splits)
    then show "within_limit (manager_exec K c m)" using assms(1) Task_Deliver by (auto intro!: within_limit_on_task)
  next
    case (Task_Connect tid now ok)
    then show "within_limit (manager_exec K c m)" using assms(1) en by (auto intro: within_limit_task_connect split: option.splits)
  qed (use assms(1) in \<open>auto intro!: same within_limit_on_task within_limit_send_to within_limit_task_finish
      simp: add_start_def add_lookup_def add_insert_def Let_def trust_peer_def disconnect_def shutdown_def cleanup_stale_def length_delete_le\<close>)
qed

lemma serial_within_limit: "serial_reachable K m \<Longrightarrow> within_limit m"
proof (induction rule: serial_reachable.induct)
  case serial_start
  show ?case by (simp add: within_limit_def connecting_def manager_new_def)
qed (blast intro: within_limit_step)

lemma active_trusted:
  assumes inv: "manager_inv m" and h: "(fp, h) \<in> set (mg_active m)"
  shows "is_trusted fp m"
proof -
  have "map_of (mg_active m) fp = Some h" using inv h by (simp add: manager_inv_def handles_ok_def map_of_eq_Some_iff)
  from handleE [OF inv this] obtain t where "map_of (mg_tasks m) (ch_task h) = Some t" "ct_fingerprint t = fp" by blast
  then show ?thesis using inv by (auto simp: manager_inv_def tasks_ok_def task_ok_def)
qed

section \<open>Properties\<close>

text \<open>
  C12: Safety of the connection manager. In every state that any interleaving of calls, task turns and network
  answers can reach, at most 200 peers are tracked if calls of \<open>add_peer\<close> do not overlap, and one more for each further call
  that was in progress at the same time; a connection is active only to a trusted peer, at most 64
  messages wait in each channel, and the channel of an active connection is open: sending to it is accepted or waits, and
  to any other peer it is refused as not connected.
\<close>

theorem manager_safety:
  assumes "manager_reachable K cs m"
  shows "peer_count m \<le> 199 + peak_adds K cs manager_new \<and> list_all (\<lambda>(fp, h). is_trusted fp m) (mg_active m)
    \<and> list_all (\<lambda>(tid, t). length (ct_outgoing t) \<le> 64 \<and> length (ct_incoming t) \<le> 64) (mg_tasks m)
    \<and> fst (send_to K fp msg m) =
        (case map_of (mg_active m) fp of
           None \<Rightarrow> Some (Err (PeerNotConnected (ascii_str (to_formatted_string K fp))))
         | Some h \<Rightarrow> if length (ct_outgoing (the (map_of (mg_tasks m) (ch_task h)))) < 64 then Some (Ok ()) else None)"
proof -
  have inv: "manager_inv m" using assms by (rule inv_reachable)
  have "peer_count m \<le> 199 + peak_adds K cs manager_new" using assms by (rule peer_count_bound)
  moreover have "is_trusted fp m" if "(fp, h) \<in> set (mg_active m)" for fp h using inv that by (rule active_trusted)
  moreover have "length (ct_outgoing t) \<le> 64 \<and> length (ct_incoming t) \<le> 64" if "(tid, t) \<in> set (mg_tasks m)" for tid t
  proof -
    have "map_of (mg_tasks m) tid = Some t" using inv that by (simp add: manager_inv_def tasks_ok_def map_of_eq_Some_iff)
    then have "task_ok m t" using inv by (simp add: manager_inv_def tasks_ok_def)
    then show ?thesis by (simp add: task_ok_def OUTGOING_BUFFER_SIZE_def)
  qed
  moreover have "fst (send_to K fp msg m) =
        (case map_of (mg_active m) fp of
           None \<Rightarrow> Some (Err (PeerNotConnected (ascii_str (to_formatted_string K fp))))
         | Some h \<Rightarrow> if length (ct_outgoing (the (map_of (mg_tasks m) (ch_task h)))) < 64 then Some (Ok ()) else None)"
    using inv by (auto simp: send_to_def OUTGOING_BUFFER_SIZE_def split: option.splits elim: handleE)
  ultimately show ?thesis by (auto simp: list_all_iff)
qed

text \<open>Peers and executions for the witnesses.\<close>

definition sample_fp :: "nat \<Rightarrow> fingerprint" where
  "sample_fp n = Fingerprint (replicate 20 (word_of_nat n))"

definition sample_peer :: "nat \<Rightarrow> peer_info" where
  "sample_peer n = \<lparr> pi_fingerprint = sample_fp n, pi_display_name = [], pi_ip_address = V4 1, pi_tcp_port = 7878,
     pi_x25519_public = Some (replicate 32 9), pi_last_seen = 0 \<rparr>"

definition sample_added :: "nat list \<Rightarrow> manager_call list" where
  "sample_added ns = concat (map (\<lambda>n. [Call_Add (sample_peer n), Add_Insert (sample_peer n)]) ns)"

definition sample_known :: "nat list \<Rightarrow> manager_call list" where
  "sample_known ns = sample_added ns @ map (Call_Trust \<circ> sample_fp) ns"

definition sample_run :: "manager_call list \<Rightarrow> manager \<Rightarrow> bool" where
  "sample_run cs m \<longleftrightarrow> manager_run ref_crates cs manager_new = Some m"

lemma sample_runI:
  "(case manager_run ref_crates cs manager_new of Some m \<Rightarrow> P m | None \<Rightarrow> False) \<Longrightarrow> \<exists>m. sample_run cs m \<and> P m"
  by (auto simp: sample_run_def split: option.splits)

lemma sample_run_reachable: "sample_run cs m \<Longrightarrow> manager_reachable ref_crates cs m"
  unfolding sample_run_def by (rule manager_run_reachable)

lemma sample_connected:
  "\<exists>m. sample_run (sample_known [1] @ [Call_Connect (sample_fp 1), Task_Connect 0 0 True]) m
     \<and> mg_active m = [(sample_fp 1, \<lparr> ch_task = 0, ch_last_activity = 0 \<rparr>)]"
  by (rule sample_runI) code_simp

theorem manager_safety_witness:
  "\<exists>cs m. manager_reachable ref_crates cs m \<and> active_connection_count m = 1 \<and> list_all (\<lambda>(fp, h). is_trusted fp m) (mg_active m)"
proof -
  obtain cs m where m: "sample_run cs m" "mg_active m = [(sample_fp 1, \<lparr> ch_task = 0, ch_last_activity = 0 \<rparr>)]"
    using sample_connected by blast
  note r = sample_run_reachable [OF m(1)]
  show ?thesis using manager_safety [OF r] m(2) r by (intro exI [of _ cs] exI [of _ m]) (simp add: active_connection_count_def)
qed

text \<open>
  The limit of 200 peers does not hold under concurrent use: \<open>add_peer\<close> checks the number of peers and inserts in separate steps, so
  two calls that overlap at 199 peers are both admitted and leave 201.
\<close>

lemma sample_fp_inj: "i < 256 \<Longrightarrow> j < 256 \<Longrightarrow> sample_fp i = sample_fp j \<longleftrightarrow> i = j"
  using word_of_nat_eq_iff [of i j, where 'a = 8] by (auto simp: sample_fp_def take_bit_nat_eq_self)

definition sample_table :: "nat \<Rightarrow> (fingerprint \<times> peer_info) list" where
  "sample_table n = map (\<lambda>i. (sample_fp i, sample_peer i)) [0..<n]"

lemma sample_table_new: "n \<le> i \<Longrightarrow> i < 256 \<Longrightarrow> map_of (sample_table n) (sample_fp i) = None"
  by (auto simp: sample_table_def map_of_eq_None_iff sample_fp_inj)

lemma alist_update_new: "map_of al k = None \<Longrightarrow> AList.update k v al = al @ [(k, v)]"
  by (induction al) (auto split: if_splits)

lemma sample_table_Suc: "n \<le> 200 \<Longrightarrow> AList.update (sample_fp n) (sample_peer n) (sample_table n) = sample_table (Suc n)"
  by (subst alist_update_new) (simp_all add: sample_table_new, simp add: sample_table_def)

lemma sample_peer_fp [simp]: "pi_fingerprint (sample_peer n) = sample_fp n"
  by (simp add: sample_peer_def)

lemma sample_added_run: "n \<le> 200 \<Longrightarrow> manager_run K (sample_added [0..<n]) manager_new = Some (manager_new\<lparr> mg_peers := sample_table n \<rparr>)"
proof (induction n)
  case 0
  show ?case by (simp add: sample_added_def manager_new_def sample_table_def)
next
  case (Suc n)
  have "length (sample_table n) = n" by (simp add: sample_table_def)
  then show ?case using Suc sample_table_Suc [of n]
    by (simp add: sample_added_def manager_run_append add_start_def add_insert_def manager_new_def MAX_PEERS_def)
qed

theorem peer_limit_exceeded:
  "\<exists>cs m. manager_reachable ref_crates cs m \<and> peer_count m = 201 \<and> peer_count m > MAX_PEERS"
proof -
  let ?p = "sample_peer 199" and ?q = "sample_peer 200"
  let ?cs = "sample_added [0..<199] @ [Call_Add ?p, Call_Add ?q, Add_Insert ?p, Add_Insert ?q]"
  have len: "length (sample_table n) = n" for n by (simp add: sample_table_def)
  have "manager_run ref_crates ?cs manager_new = Some (manager_new\<lparr> mg_peers := sample_table 201 \<rparr>)"
    using sample_added_run [of 199] sample_table_Suc [of 199] sample_table_Suc [of 200] len [of 199]
    by (simp add: manager_run_append add_start_def add_insert_def manager_new_def MAX_PEERS_def sample_peer_def sample_fp_inj)
  from manager_run_reachable [OF this] show ?thesis
    by (intro exI [of _ ?cs] exI) (auto simp: peer_count_def MAX_PEERS_def len)
qed

text \<open>
  Serial use respects the limit of ten. If \<open>connect_to_peer\<close> is only called while no earlier
  attempt is still connecting, there are at most ten active connections at any time, whatever else happens in between.
\<close>

theorem serial_connections_bounded:
  assumes "serial_reachable K m"
  shows "active_connection_count m \<le> 10"
  using serial_within_limit [OF assms] by (auto simp: within_limit_def active_connection_count_def MAX_ACTIVE_CONNECTIONS_def)

fun serial_calls :: "crates \<Rightarrow> manager_call list \<Rightarrow> manager \<Rightarrow> bool" where
  "serial_calls K [] m \<longleftrightarrow> True"
| "serial_calls K (c # cs) m \<longleftrightarrow> call_enabled c m
     \<and> (case c of Call_Connect fp \<Rightarrow> list_all (\<lambda>(tid, t). ct_phase t \<noteq> Connecting) (mg_tasks m) | _ \<Rightarrow> True)
     \<and> serial_calls K cs (manager_exec K c m)"

lemma serial_calls_reachable:
  "serial_calls K cs m \<Longrightarrow> serial_reachable K m \<Longrightarrow> serial_reachable K (fold (manager_exec K) cs m)"
  by (induction cs arbitrary: m) (auto intro: serial_reachable.serial_step manager_step.exec)

definition serial_sample :: "manager_call list" where
  "serial_sample = sample_known [1, 2] @ [Call_Connect (sample_fp 1), Task_Connect 0 0 True, Call_Connect (sample_fp 2), Task_Connect 1 0 True]"

theorem serial_connections_bounded_witness:
  "\<exists>m. serial_reachable ref_crates m \<and> active_connection_count m = 2 \<and> active_connection_count m \<le> 10"
proof -
  let ?m = "fold (manager_exec ref_crates) serial_sample manager_new"
  have "serial_calls ref_crates serial_sample manager_new" by code_simp
  then have r: "serial_reachable ref_crates ?m"
    by (rule serial_calls_reachable) (rule serial_reachable.serial_start)
  moreover have "active_connection_count ?m = 2" by code_simp
  ultimately show ?thesis using serial_connections_bounded [OF r] by blast
qed

text \<open>
  Concurrent use does not. The limit is checked before the task is spawned and the entry is made
  after its handshake, so attempts that overlap are all admitted: an execution reaches eleven active connections.
\<close>

theorem connection_limit_exceeded:
  "\<exists>cs m. manager_reachable ref_crates cs m \<and> active_connection_count m = 11 \<and> active_connection_count m > MAX_ACTIVE_CONNECTIONS"
proof -
  let ?ns = "[1, 2, 3, 4, 5, 6, 7, 8, 9, 10, 11]"
  have "\<exists>m. sample_run (sample_known ?ns @ map (Call_Connect \<circ> sample_fp) ?ns @ map (\<lambda>n. Task_Connect (n - 1) 0 True) ?ns) m
      \<and> active_connection_count m = 11"
    by (rule sample_runI) code_simp
  then show ?thesis unfolding MAX_ACTIVE_CONNECTIONS_def using sample_run_reachable by fastforce
qed

text \<open>
  Disconnecting forgets the connection but does not end it. The entry of the peer is gone, and
  its task is left exactly as it was; when that task ends at any later time, it removes whatever entry the
  fingerprint has by then, also that of a newer connection.
\<close>

theorem disconnect_leaves_task:
  assumes "manager_reachable K cs m" and "map_of (mg_active m) fp = Some h"
  shows "(\<exists>t. map_of (mg_tasks m) (ch_task h) = Some t \<and> ct_fingerprint t = fp
      \<and> map_of (mg_tasks (disconnect fp m)) (ch_task h) = Some t \<and> map_of (mg_active (disconnect fp m)) fp = None
      \<and> (\<forall>later u. map_of (mg_tasks later) (ch_task h) = Some u \<and> ct_fingerprint u = fp \<longrightarrow>
            map_of (mg_active (task_finish (ch_task h) later)) fp = None))"
proof -
  from handleE [OF inv_reachable [OF assms(1)] assms(2)] obtain t where
    t: "map_of (mg_tasks m) (ch_task h) = Some t" "ct_fingerprint t = fp" by blast
  then show ?thesis
    by (auto simp: disconnect_def task_finish_def end_task_def alist_simps)
qed

text \<open>A second connection is opened after a disconnect; the first task ends and takes the new entry with it.\<close>

theorem disconnect_leaves_task_witness:
  "\<exists>cs m h later. manager_reachable ref_crates cs m \<and> map_of (mg_active m) (sample_fp 1) = Some h
    \<and> manager_reachable ref_crates (cs @ [Call_Disconnect (sample_fp 1), Call_Connect (sample_fp 1), Task_Connect 1 0 True,
        Task_Turn 0 Turn_Recv_Failed]) later
    \<and> map_of (mg_active later) (sample_fp 1) = Some \<lparr> ch_task = 1, ch_last_activity = 0 \<rparr>
    \<and> map_of (mg_active (task_finish (ch_task h) later)) (sample_fp 1) = None"
proof -
  let ?cs = "sample_known [1] @ [Call_Connect (sample_fp 1), Task_Connect 0 0 True]"
  let ?ds = "[Call_Disconnect (sample_fp 1), Call_Connect (sample_fp 1), Task_Connect 1 0 True, Task_Turn 0 Turn_Recv_Failed]"
  obtain m where m: "sample_run ?cs m" "mg_active m = [(sample_fp 1, \<lparr> ch_task = 0, ch_last_activity = 0 \<rparr>)]"
    using sample_connected by blast
  have "\<exists>l. sample_run (?cs @ ?ds) l
      \<and> mg_active l = [(sample_fp 1, \<lparr> ch_task = 1, ch_last_activity = 0 \<rparr>)]
      \<and> map_option ct_fingerprint (map_of (mg_tasks l) 0) = Some (sample_fp 1)"
    by (rule sample_runI) code_simp
  then obtain l u where l: "sample_run (?cs @ ?ds) l" "mg_active l = [(sample_fp 1, \<lparr> ch_task = 1, ch_last_activity = 0 \<rparr>)]"
    "map_of (mg_tasks l) 0 = Some u" "ct_fingerprint u = sample_fp 1"
    by auto
  have h: "map_of (mg_active m) (sample_fp 1) = Some \<lparr> ch_task = 0, ch_last_activity = 0 \<rparr>" using m(2) by simp
  have "map_of (mg_active (task_finish 0 l)) (sample_fp 1) = None"
    using disconnect_leaves_task [OF sample_run_reachable [OF m(1)] h] l(3,4) by auto
  then show ?thesis using h l(2) sample_run_reachable [OF m(1)] sample_run_reachable [OF l(1)]
    by (intro exI [of _ ?cs] exI [of _ m] exI [of _ "\<lparr> ch_task = 0, ch_last_activity = 0 \<rparr>"] exI [of _ l]) simp
qed

text \<open>
  The peer table behaves as a bounded map with expiry. In every reachable state a call of \<open>add_peer\<close> that is not interrupted accepts a peer exactly if it is
  known or fewer than 200 are; then a lookup returns the newest information, and nothing else changes;
  a clean-up keeps exactly the peers that were seen less than five minutes ago.
\<close>

theorem peer_table_correct:
  assumes "manager_reachable K cs m"
  shows "(fst (add_peer info m) = Ok () \<longleftrightarrow> get_peer (pi_fingerprint info) m \<noteq> None \<or> peer_count m < 200)
    \<and> get_peer fp (snd (add_peer info m)) =
        (if fst (add_peer info m) = Ok () \<and> fp = pi_fingerprint info then Some info else get_peer fp m)
    \<and> get_peer fp (cleanup_stale now m) =
        (case get_peer fp m of
           Some i \<Rightarrow> if now - pi_last_seen i < seconds 300 then Some i else None
         | None \<Rightarrow> None)"
proof -
  have d: "distinct (map fst (mg_peers m))" using inv_reachable [OF assms] by (simp add: manager_inv_def peers_ok_def)
  have "get_peer fp (cleanup_stale now m) =
        (case get_peer fp m of Some i \<Rightarrow> if now - pi_last_seen i < seconds 300 then Some i else None | None \<Rightarrow> None)"
  proof (cases "get_peer fp (cleanup_stale now m)")
    case None
    then have "\<And>i. \<not> (map_of (mg_peers m) fp = Some i \<and> now - pi_last_seen i < seconds 300)"
      using map_of_filter_Some [OF d, of "\<lambda>(fp, info). now - pi_last_seen info < seconds (5 * 60)" fp]
      by (simp add: get_peer_def cleanup_stale_def)
    then show ?thesis using None by (auto simp: get_peer_def split: option.splits)
  qed (auto simp: get_peer_def cleanup_stale_def map_of_filter_Some [OF d])
  then show ?thesis
    by (auto simp: add_peer_def get_peer_def peer_count_def MAX_PEERS_def alist_simps)
qed

theorem peer_table_correct_witness:
  "get_peer (sample_fp 1) (snd (add_peer (sample_peer 1) manager_new)) = Some (sample_peer 1)"
  using peer_table_correct [OF manager_reachable.start, of "sample_peer 1" "sample_fp 1" 0]
  by (simp add: sample_peer_def manager_new_def peer_count_def)

end
