(* ===== verification/Udp_Discovery.thy ===== *)
theory Udp_Discovery
  imports Connection_Manager
begin

text \<open>
  \<open>crates/networking/src/udp/\<close>: the signed discovery beacon, the broadcaster and the listener.
  \<open>serde_json\<close> is a parameter: a pair of functions between beacons and bytes.
\<close>

section \<open>Beacons\<close>

record beacon =
  bc_version :: "16 word"
  bc_display_name :: rstr
  bc_ed25519_public :: rstr
  bc_x25519_public :: rstr
  bc_fingerprint :: rstr
  bc_tcp_port :: "16 word"
  bc_timestamp :: "64 word"
  bc_signature :: rstr

definition BEACON_MAX_AGE_SECS :: "64 word" where "BEACON_MAX_AGE_SECS = 60"

record beacon_json =
  js_to_vec :: "beacon \<Rightarrow> bytes option"
  js_from_slice :: "bytes \<Rightarrow> beacon option"

definition beacon_to_bytes :: "beacon_json \<Rightarrow> beacon \<Rightarrow> bytes" where
  "beacon_to_bytes J b = (case js_to_vec J b of Some bs \<Rightarrow> bs | None \<Rightarrow> [])"

definition beacon_from_bytes :: "beacon_json \<Rightarrow> bytes \<Rightarrow> beacon option" where
  "beacon_from_bytes J bs = js_from_slice J bs"

definition beacon_signature_payload :: "beacon \<Rightarrow> bytes" where
  "beacon_signature_payload b =
     u16_to_le (bc_version b) @ str_bytes (bc_display_name b) @ str_bytes (bc_ed25519_public b) @ str_bytes (bc_x25519_public b)
     @ str_bytes (bc_fingerprint b) @ u16_to_le (bc_tcp_port b) @ u64_to_le (bc_timestamp b)"

definition beacon_create :: "crates \<Rightarrow> ed25519_keypair \<Rightarrow> bytes \<Rightarrow> 16 word \<Rightarrow> rstr \<Rightarrow> 64 word \<Rightarrow> beacon" where
  "beacon_create K keys x25519_public tcp_port display_name now =
     (let fp = (case derive_fingerprint K (ed_pub keys) x25519_public of Ok fp \<Rightarrow> fp | _ \<Rightarrow> Fingerprint (replicate 20 0));
          b = \<lparr> bc_version = 1, bc_display_name = display_name, bc_ed25519_public = hex_encode K (ed_pub keys),
                bc_x25519_public = hex_encode K x25519_public, bc_fingerprint = to_formatted_string K fp,
                bc_tcp_port = tcp_port, bc_timestamp = now, bc_signature = [] \<rparr>
      in b\<lparr> bc_signature := hex_encode K (ed25519_sign K keys (beacon_signature_payload b)) \<rparr>)"

text \<open>
  \<open>a + b\<close> on \<open>u64\<close>: with overflow checks (a debug build) it panics, without them it wraps.
\<close>

definition u64_add :: "bool \<Rightarrow> 64 word \<Rightarrow> 64 word \<Rightarrow> (64 word, 'e) result" where
  "u64_add overflow_checks a b = (if overflow_checks \<and> unat a + unat b \<ge> 2 ^ 64 then Panic else Ok (a + b))"

definition beacon_verify :: "crates \<Rightarrow> bool \<Rightarrow> 64 word \<Rightarrow> beacon \<Rightarrow> (unit, string) result" where
  "beacon_verify K oc now b =
     rbind (u64_add oc now BEACON_MAX_AGE_SECS) (\<lambda>latest.
     if bc_timestamp b > latest then Err ''beacon timestamp in future'' else
     rbind (u64_add oc (bc_timestamp b) BEACON_MAX_AGE_SECS) (\<lambda>expiry.
     if expiry < now then Err ''beacon too old'' else
     rbind (ok_or (hex_decode K (bc_ed25519_public b)) ''invalid ed25519 hex'') (\<lambda>ed_bytes.
     rbind (ok_or (hex_decode K (bc_x25519_public b)) ''invalid x25519 hex'') (\<lambda>x_bytes.
     rbind (map_err (\<lambda>_. ''invalid ed25519 key'') (ed25519_public_from_bytes ed_bytes)) (\<lambda>ed_pub.
     rbind (map_err (\<lambda>_. ''invalid x25519 key'') (x25519_public_from_bytes x_bytes)) (\<lambda>x_pub.
     rbind (map_err (\<lambda>_. ''fingerprint derivation failed'') (derive_fingerprint K ed_pub x_pub)) (\<lambda>computed_fp.
     rbind (map_err (\<lambda>_. ''invalid fingerprint'') (from_hex (bc_fingerprint b))) (\<lambda>claimed_fp.
     if \<not> constant_time_eq K computed_fp claimed_fp then Err ''fingerprint mismatch'' else
     rbind (ok_or (hex_decode K (bc_signature b)) ''invalid signature hex'') (\<lambda>sig_bytes.
     if length sig_bytes \<noteq> 64 then Err ''invalid signature length'' else
     rbind (map_err (\<lambda>_. ''signature verification failed'') (ed25519_verify K ed_pub (beacon_signature_payload b) sig_bytes)) (\<lambda>_.
     Ok ()))))))))))"

section \<open>Broadcaster and listener\<close>

definition MAX_BEACON_SIZE :: nat where "MAX_BEACON_SIZE = 4096"

record broadcaster =
  br_identity :: identity_keys
  br_tcp_port :: "16 word"
  br_display_name :: rstr

text \<open>
  A turn of the broadcaster's loop is a tick at some time, with the outcome of \<open>send_to\<close>, or the
  cancellation. The datagrams that left are the result; a failed send is only logged.
\<close>

datatype broadcast_turn = Tick "64 word" bool | Broadcast_Cancelled

fun broadcaster_run :: "crates \<Rightarrow> beacon_json \<Rightarrow> broadcaster \<Rightarrow> broadcast_turn list \<Rightarrow> bytes list" where
  "broadcaster_run K J br [] = []"
| "broadcaster_run K J br (Broadcast_Cancelled # turns) = []"
| "broadcaster_run K J br (Tick now sent # turns) =
     (let b = beacon_create K (ik_ed25519 (br_identity br)) (x_pub (ik_x25519 (br_identity br))) (br_tcp_port br) (br_display_name br) now
      in (if sent then [beacon_to_bytes J b] else []) @ broadcaster_run K J br turns)"

text \<open>
  The listener's \<open>process_beacon\<close>. The address it stores comes from \<open>beacon.source_ip\<close>, which the
  beacon does not have; the model takes that value as an argument, and an absent one gives \<open>0.0.0.0\<close> as in the code.
\<close>

definition process_beacon ::
  "crates \<Rightarrow> beacon_json \<Rightarrow> bool \<Rightarrow> 64 word \<Rightarrow> datetime \<Rightarrow> ip_addr option \<Rightarrow> bytes \<Rightarrow> (peer_info option, string) result" where
  "process_beacon K J oc now clock source_ip data =
     (case beacon_from_bytes J data of
        None \<Rightarrow> Ok None
      | Some b \<Rightarrow>
          (case beacon_verify K oc now b of
             Panic \<Rightarrow> Panic
           | Err e \<Rightarrow> Ok None
           | Ok _ \<Rightarrow>
               (case from_hex (bc_fingerprint b) of
                  Ok fp \<Rightarrow>
                    Ok (Some \<lparr> pi_fingerprint = fp, pi_display_name = bc_display_name b,
                      pi_ip_address = (case source_ip of Some a \<Rightarrow> a | None \<Rightarrow> V4 0), pi_tcp_port = bc_tcp_port b,
                      pi_x25519_public = (case hex_decode K (bc_x25519_public b) of
                                            Some v \<Rightarrow> if length v = 32 then Some v else None
                                          | None \<Rightarrow> None),
                      pi_last_seen = clock \<rparr>)
                | Err _ \<Rightarrow> Ok None
                | Panic \<Rightarrow> Panic)))"

record datagram =
  dg_data :: bytes
  dg_source_ip :: "ip_addr option"
  dg_now :: "64 word"
  dg_clock :: datetime

datatype listener_turn = Received datagram | Recv_Error | Listener_Cancelled

text \<open>The buffer holds 4096 bytes; the rest of a longer datagram is lost.\<close>

fun listener_run :: "crates \<Rightarrow> beacon_json \<Rightarrow> bool \<Rightarrow> listener_turn list \<Rightarrow> (peer_info list, string) result" where
  "listener_run K J oc [] = Ok []"
| "listener_run K J oc (Listener_Cancelled # turns) = Ok []"
| "listener_run K J oc (Recv_Error # turns) = listener_run K J oc turns"
| "listener_run K J oc (Received d # turns) =
     rbind (process_beacon K J oc (dg_now d) (dg_clock d) (dg_source_ip d) (take MAX_BEACON_SIZE (dg_data d))) (\<lambda>found.
     rbind (listener_run K J oc turns) (\<lambda>rest.
     Ok ((case found of Some p \<Rightarrow> [p] | None \<Rightarrow> []) @ rest)))"

section \<open>Lemmas\<close>

text \<open>The freshness window, on the natural numbers.\<close>

definition beacon_fresh :: "64 word \<Rightarrow> beacon \<Rightarrow> bool" where
  "beacon_fresh now b \<longleftrightarrow> unat (bc_timestamp b) \<le> unat now + 60 \<and> unat now \<le> unat (bc_timestamp b) + 60"

lemma unat_add_60: "unat (a :: 64 word) + 60 < 2 ^ 64 \<Longrightarrow> unat (a + 60) = unat a + 60"
  by (simp add: unat_plus_simple [THEN iffD1] unat_word_ariths)

text \<open>The clock is not at the end of time: two windows before the overflow.\<close>

definition clock_ok :: "64 word \<Rightarrow> bool" where
  "clock_ok now \<longleftrightarrow> unat now + 120 < 2 ^ 64"

lemma beacon_window:
  fixes b :: beacon
  assumes "clock_ok now"
  shows "u64_add oc now BEACON_MAX_AGE_SECS = Ok (now + 60)"
    and "(bc_timestamp b > now + 60) = (unat (bc_timestamp b) > unat now + 60)"
    and "\<not> bc_timestamp b > now + 60 \<Longrightarrow> u64_add oc (bc_timestamp b) BEACON_MAX_AGE_SECS = Ok (bc_timestamp b + 60)"
    and "\<not> bc_timestamp b > now + 60 \<Longrightarrow> (bc_timestamp b + 60 < now) = (unat (bc_timestamp b) + 60 < unat now)"
proof -
  have n: "unat (now + 60) = unat now + 60" using assms by (intro unat_add_60) (simp add: clock_ok_def)
  show "u64_add oc now BEACON_MAX_AGE_SECS = Ok (now + 60)"
    using assms by (simp add: u64_add_def BEACON_MAX_AGE_SECS_def clock_ok_def)
  show "(bc_timestamp b > now + 60) = (unat (bc_timestamp b) > unat now + 60)"
    by (simp add: word_less_nat_alt n)
  assume "\<not> bc_timestamp b > now + 60"
  then have le: "unat (bc_timestamp b) \<le> unat now + 60" by (simp add: word_less_nat_alt n)
  then have t: "unat (bc_timestamp b) + 60 < 2 ^ 64" using assms by (simp add: clock_ok_def)
  then show "u64_add oc (bc_timestamp b) BEACON_MAX_AGE_SECS = Ok (bc_timestamp b + 60)"
    by (simp add: u64_add_def BEACON_MAX_AGE_SECS_def)
  show "(bc_timestamp b + 60 < now) = (unat (bc_timestamp b) + 60 < unat now)"
    using unat_add_60 [OF t] by (simp add: word_less_nat_alt)
qed

text \<open>What a beacon claims and proves.\<close>

definition beacon_proves :: "crates \<Rightarrow> beacon \<Rightarrow> bytes \<Rightarrow> bytes \<Rightarrow> fingerprint \<Rightarrow> bool" where
  "beacon_proves K b ed x fp \<longleftrightarrow>
     hex_decode K (bc_ed25519_public b) = Some ed \<and> length ed = 32
     \<and> hex_decode K (bc_x25519_public b) = Some x \<and> length x = 32
     \<and> from_hex (bc_fingerprint b) = Ok fp \<and> derive_fingerprint K ed x = Ok fp
     \<and> ed_key_ok K ed
     \<and> (\<exists>sig. hex_decode K (bc_signature b) = Some sig \<and> length sig = 64 \<and> ed_verify K ed (beacon_signature_payload b) sig)"

lemma beacon_verify_Ok:
  assumes "clock_ok now" and "ct_eq_ok K" and "blake3_ok K"
  shows "beacon_verify K oc now b = Ok () \<longleftrightarrow> beacon_fresh now b \<and> (\<exists>ed x fp. beacon_proves K b ed x fp)"
proof (cases "beacon_fresh now b")
  case False
  then show ?thesis using beacon_window(2,4) [OF assms(1), where b = b]
    by (auto simp: beacon_verify_def beacon_fresh_def not_le beacon_window(1,3) [OF assms(1)])
next
  case True
  note fp = derived_eq [OF assms(2,3)]
  have "\<not> bc_timestamp b > now + 60" "\<not> bc_timestamp b + 60 < now"
    using True beacon_window(2,4) [OF assms(1), where b = b] by (auto simp: beacon_fresh_def)
  note window = this beacon_window(1,3) [OF assms(1)]
  note defs = beacon_verify_def beacon_proves_def ed25519_public_from_bytes_def x25519_public_from_bytes_def ed25519_verify_def fp
  have "\<exists>ed x fp. beacon_proves K b ed x fp" if "beacon_verify K oc now b = Ok ()"
    using that by (auto simp: window defs split: if_splits)
  moreover have "beacon_verify K oc now b = Ok ()" if "beacon_proves K b ed x f" for ed x f
    using that by (auto simp: window defs simp del: rbind_Ok_conv)
  ultimately show ?thesis using True by blast
qed

lemma beacon_verify_not_Panic: "clock_ok now \<Longrightarrow> beacon_verify K oc now b \<noteq> Panic"
  by (auto simp: beacon_verify_def beacon_window(1,3) rbind_Panic_conv ed25519_public_from_bytes_def x25519_public_from_bytes_def
      ed25519_verify_def derive_fingerprint_def Let_def from_hex_not_Panic split: if_splits)

text \<open>A reported peer is what a fresh beacon of the datagram proves.\<close>

definition proved_by :: "crates \<Rightarrow> beacon_json \<Rightarrow> datagram \<Rightarrow> peer_info \<Rightarrow> bool" where
  "proved_by K J d p \<longleftrightarrow> (\<exists>b ed x. beacon_from_bytes J (take 4096 (dg_data d)) = Some b \<and> beacon_fresh (dg_now d) b
     \<and> beacon_proves K b ed x (pi_fingerprint p) \<and> pi_x25519_public p = Some x \<and> pi_display_name p = bc_display_name b
     \<and> pi_tcp_port p = bc_tcp_port b \<and> pi_last_seen p = dg_clock d)"

lemma process_beacon_found:
  assumes "clock_ok (dg_now d)" and "ct_eq_ok K" and "blake3_ok K"
  shows "\<exists>found. process_beacon K J oc (dg_now d) (dg_clock d) (dg_source_ip d) (take 4096 (dg_data d)) = Ok found
    \<and> (case found of None \<Rightarrow> True | Some p \<Rightarrow> proved_by K J d p)"
proof (cases "\<exists>b. beacon_from_bytes J (take 4096 (dg_data d)) = Some b \<and> beacon_verify K oc (dg_now d) b = Ok ()")
  case True
  then obtain b ed x fp where "beacon_from_bytes J (take 4096 (dg_data d)) = Some b" "beacon_verify K oc (dg_now d) b = Ok ()"
    "beacon_fresh (dg_now d) b" and p: "beacon_proves K b ed x fp"
    using beacon_verify_Ok [OF assms] by blast
  moreover from p have "from_hex (bc_fingerprint b) = Ok fp" "hex_decode K (bc_x25519_public b) = Some x" "length x = 32"
    by (auto simp: beacon_proves_def)
  ultimately show ?thesis using p by (auto simp: process_beacon_def proved_by_def)
next
  case False
  then show ?thesis using beacon_verify_not_Panic [OF assms(1)]
    by (auto simp: process_beacon_def split: option.splits result.splits)
qed

lemma created_beacon_proves:
  assumes "hex_ok K" and "blake3_ok K" and "ed25519_ok K" and "x25519_ok K" and "wf_keys K ik" and "keys_fingerprint K ik = Ok fp"
    and "b = beacon_create K (ik_ed25519 ik) (x_pub (ik_x25519 ik)) port name t"
  shows "beacon_proves K b (ed_pub (ik_ed25519 ik)) (x_pub (ik_x25519 ik)) fp"
proof -
  let ?ed = "ed_pub (ik_ed25519 ik)" and ?x = "x_pub (ik_x25519 ik)"
  have fp: "derive_fingerprint K ?ed ?x = Ok fp" using assms(6) by (simp add: keys_fingerprint_def)
  then have wf: "wf_fingerprint fp" using derived_wf [OF assms(2)] derive_fingerprint_Ok [OF assms(2)] by auto
  have printed: "from_hex (to_formatted_string K fp) = Ok fp"
    using from_hex_is_hex_of [OF formatted_is_hex_of [OF assms(1)] wf] .
  define sig where "sig = ed25519_sign K (ik_ed25519 ik) (beacon_signature_payload b)"
  have "bc_signature b = hex_encode K sig" unfolding sig_def assms(7)
    by (simp add: beacon_create_def Let_def beacon_signature_payload_def)
  moreover have "ed_verify K ?ed (beacon_signature_payload b) sig" "length sig = 64" "ed_key_ok K ?ed"
    using assms(3,5) by (auto simp: sig_def ed25519_sign_def ed25519_ok_def wf_keys_def)
  moreover have "length ?ed = 32" "length ?x = 32" using wf_keys_lengths [OF assms(5,3,4)] by simp_all
  ultimately show ?thesis using fp printed
    by (auto simp: beacon_proves_def assms(7) beacon_create_def Let_def hex_okD [OF assms(1)] unhex_lower_hex)
qed

text \<open>A fresh beacon of a well-formed identity is reported.\<close>

lemma process_created_beacon:
  assumes "hex_ok K" and "ct_eq_ok K" and "blake3_ok K" and "ed25519_ok K" and "x25519_ok K"
    and "wf_keys K ik" and "keys_fingerprint K ik = Ok fp"
    and "b = beacon_create K (ik_ed25519 ik) (x_pub (ik_x25519 ik)) port name t"
    and "clock_ok now" and "unat t \<le> unat now + 60" and "unat now \<le> unat t + 60"
    and "js_from_slice J data = Some b"
  shows "\<exists>p. process_beacon K J oc now clock ip data = Ok (Some p) \<and> pi_fingerprint p = fp
    \<and> pi_x25519_public p = Some (x_pub (ik_x25519 ik)) \<and> pi_display_name p = name \<and> pi_tcp_port p = port"
proof -
  have fields: "bc_timestamp b = t" "bc_display_name b = name" "bc_tcp_port b = port"
    by (simp_all add: assms(8) beacon_create_def Let_def)
  have p: "beacon_proves K b (ed_pub (ik_ed25519 ik)) (x_pub (ik_x25519 ik)) fp"
    by (rule created_beacon_proves [OF assms(1,3-8)])
  have "beacon_verify K oc now b = Ok ()"
    using beacon_verify_Ok [OF assms(9,2,3)] p assms(10,11) fields(1) by (auto simp: beacon_fresh_def)
  moreover have "from_hex (bc_fingerprint b) = Ok fp" "hex_decode K (bc_x25519_public b) = Some (x_pub (ik_x25519 ik))"
    "length (x_pub (ik_x25519 ik)) = 32"
    using p by (auto simp: beacon_proves_def)
  ultimately show ?thesis using fields(2,3) assms(12) by (simp add: process_beacon_def beacon_from_bytes_def)
qed

definition sample_keys :: identity_keys where
  "sample_keys = \<lparr> ik_ed25519 = \<lparr> ed_pub = replicate 32 1, ed_secret = replicate 32 1 \<rparr>,
     ik_x25519 = \<lparr> x_pub = replicate 32 2, x_secret = replicate 32 2 \<rparr> \<rparr>"

lemma sample_keys_wf: "wf_keys ref_crates sample_keys"
  by (simp add: wf_keys_def sample_keys_def ref_crates_def)

section \<open>Properties\<close>

text \<open>
  Discovery by UDP believes only proofs. For every sequence of datagrams, receive errors and cancellation, the listener
  does not panic, and every peer it reports comes from a datagram whose beacon is at most a minute away from the local clock, is signed by the
  Ed25519 key it carries, and names the fingerprint derived from its two keys; that fingerprint and the X25519
  key are what is reported.
\<close>

theorem udp_listener_sound:
  assumes "ct_eq_ok K" and "blake3_ok K"
    and "list_all (\<lambda>turn. case turn of Received d \<Rightarrow> clock_ok (dg_now d) | _ \<Rightarrow> True) turns"
  shows "\<exists>peers. listener_run K J oc turns = Ok peers
    \<and> list_all (\<lambda>p. list_ex (\<lambda>turn. case turn of Received d \<Rightarrow> proved_by K J d p | _ \<Rightarrow> False) turns) peers"
  using assms(3)
proof (induction turns)
  case (Cons turn turns)
  then obtain rest where rest: "listener_run K J oc turns = Ok rest"
    "list_all (\<lambda>p. list_ex (\<lambda>turn. case turn of Received d \<Rightarrow> proved_by K J d p | _ \<Rightarrow> False) turns) rest"
    by auto
  show ?case
  proof (cases turn)
    case (Received d)
    have "clock_ok (dg_now d)" using Cons.prems Received by simp
    from process_beacon_found [OF this assms(1,2), of J oc] rest show ?thesis
      unfolding Received by (auto simp: MAX_BEACON_SIZE_def list_all_iff simp del: rbind_Ok_conv split: option.splits)
  qed (use rest in \<open>auto simp: list_all_iff\<close>)
qed simp

theorem udp_listener_sound_witness:
  "\<exists>p J. listener_run ref_crates J True
      [Recv_Error, Received \<lparr> dg_data = [7], dg_source_ip = None, dg_now = 1050, dg_clock = 0 \<rparr>, Listener_Cancelled] = Ok [p]
    \<and> proved_by ref_crates J \<lparr> dg_data = [7], dg_source_ip = None, dg_now = 1050, dg_clock = 0 \<rparr> p"
proof -
  let ?b = "beacon_create ref_crates (ik_ed25519 sample_keys) (x_pub (ik_x25519 sample_keys)) 7878 [65] 1000"
  let ?J = "\<lparr> js_to_vec = \<lambda>_. Some [7], js_from_slice = \<lambda>_. Some ?b \<rparr>"
  let ?turns = "[Recv_Error, Received \<lparr> dg_data = [7], dg_source_ip = None, dg_now = 1050, dg_clock = 0 \<rparr>, Listener_Cancelled]"
  obtain fp where fp: "keys_fingerprint ref_crates sample_keys = Ok fp" using keys_fingerprint_Ok [OF ref_blake3_ok] by blast
  have clock: "clock_ok 1050" by (simp add: clock_ok_def)
  obtain p where "process_beacon ref_crates ?J True 1050 0 None [7] = Ok (Some p)"
    using process_created_beacon [OF ref_hex_ok ref_ct_eq_ok ref_blake3_ok ref_ed25519_ok ref_x25519_ok sample_keys_wf fp refl clock,
        where t = 1000 and J = ?J and data = "[7]" and port = 7878 and name = "[65]" and oc = True and clock = 0 and ip = None] by auto
  then have run: "listener_run ref_crates ?J True ?turns = Ok [p]" by (simp add: MAX_BEACON_SIZE_def)
  have "list_all (\<lambda>turn. case turn of Received d \<Rightarrow> clock_ok (dg_now d) | _ \<Rightarrow> True) ?turns" using clock by simp
  from udp_listener_sound [OF ref_ct_eq_ok ref_blake3_ok this, of ?J True]
  have "proved_by ref_crates ?J \<lparr> dg_data = [7], dg_source_ip = None, dg_now = 1050, dg_clock = 0 \<rparr> p"
    unfolding run result.inject by auto
  with run show ?thesis by blast
qed

text \<open>
  Two honest peers find each other by UDP. A beacon that a broadcaster sends with well-formed identity keys, received
  whole within a minute on either side of its creation, makes the listener report exactly one peer, with the
  fingerprint of those keys, their X25519 key, and the announced name and port.
\<close>

theorem udp_discovery_roundtrip:
  assumes "hex_ok K" and "ct_eq_ok K" and "blake3_ok K" and "ed25519_ok K" and "x25519_ok K"
    and "wf_keys K (br_identity br)" and "keys_fingerprint K (br_identity br) = Ok fp"
    and "broadcaster_run K J br [Tick t True] = [data]"
    and "js_from_slice J data = Some (beacon_create K (ik_ed25519 (br_identity br)) (x_pub (ik_x25519 (br_identity br)))
           (br_tcp_port br) (br_display_name br) t)"
    and "length data \<le> 4096" and "clock_ok now" and "unat t \<le> unat now + 60" and "unat now \<le> unat t + 60"
  shows "\<exists>p. listener_run K J oc [Received \<lparr> dg_data = data, dg_source_ip = ip, dg_now = now, dg_clock = clock \<rparr>, Listener_Cancelled] = Ok [p]
    \<and> pi_fingerprint p = fp \<and> pi_x25519_public p = Some (x_pub (ik_x25519 (br_identity br)))
    \<and> pi_display_name p = br_display_name br \<and> pi_tcp_port p = br_tcp_port br"
proof -
  from process_created_beacon [OF assms(1-7) refl assms(11-13) assms(9), of oc clock ip] assms(10)
  show ?thesis by (auto simp: MAX_BEACON_SIZE_def)
qed

theorem udp_discovery_roundtrip_witness:
  "\<exists>p fp J. listener_run ref_crates J True
      [Received \<lparr> dg_data = [7], dg_source_ip = None, dg_now = 1050, dg_clock = 0 \<rparr>, Listener_Cancelled] = Ok [p]
    \<and> keys_fingerprint ref_crates sample_keys = Ok fp \<and> pi_fingerprint p = fp \<and> pi_tcp_port p = 7878"
proof -
  let ?b = "beacon_create ref_crates (ik_ed25519 sample_keys) (x_pub (ik_x25519 sample_keys)) 7878 [65] 1000"
  let ?J = "\<lparr> js_to_vec = \<lambda>_. Some [7], js_from_slice = \<lambda>_. Some ?b \<rparr>"
  let ?br = "\<lparr> br_identity = sample_keys, br_tcp_port = 7878, br_display_name = [65] \<rparr>"
  have wf: "wf_keys ref_crates (br_identity ?br)" by (simp add: wf_keys_def sample_keys_def ref_crates_def)
  obtain fp where fp: "keys_fingerprint ref_crates (br_identity ?br) = Ok fp"
    using keys_fingerprint_Ok [OF ref_blake3_ok] by blast
  have sent: "broadcaster_run ref_crates ?J ?br [Tick 1000 True] = [[7]]" by (simp add: beacon_to_bytes_def)
  from udp_discovery_roundtrip [OF ref_hex_ok ref_ct_eq_ok ref_blake3_ok ref_ed25519_ok ref_x25519_ok wf fp sent,
      of 1050 True None 0] fp
  show ?thesis by (auto simp: clock_ok_def)
qed

end
