(* ===== verification/Mdns_Discovery.thy ===== *)
theory Mdns_Discovery
  imports Connection_Manager
begin

text \<open>
  \<open>crates/networking/src/mdns/\<close>: what the advertiser publishes and what the browser makes of the
  services it is told about. The daemon of \<open>mdns_sd\<close> is outside: its events are the input.
\<close>

section \<open>Model\<close>

definition SERVICE_TYPE :: rstr where "SERVICE_TYPE = lit ''_rubix-pingpongzz._tcp.local.''"

text \<open>What is read of a \<open>ServiceInfo\<close>: its TXT records, port, and addresses in the order they are iterated.\<close>

record service_info =
  si_properties :: "(rstr \<times> rstr) list"
  si_port :: "16 word"
  si_addresses :: "ip_addr list"

text \<open>The fields that \<open>parse_peer_info\<close> fills in; it does not set the X25519 key of the peer.\<close>

record mdns_peer =
  mp_fingerprint :: fingerprint
  mp_display_name :: rstr
  mp_ip_address :: ip_addr
  mp_tcp_port :: "16 word"
  mp_last_seen :: datetime

fun is_v4 :: "ip_addr \<Rightarrow> bool" where
  "is_v4 (V4 a) = True"
| "is_v4 (V6 a) = False"

definition prefer_v4 :: "ip_addr list \<Rightarrow> ip_addr option" where
  "prefer_v4 as = (case find is_v4 as of Some a \<Rightarrow> Some a | None \<Rightarrow> (case as of a # _ \<Rightarrow> Some a | [] \<Rightarrow> None))"

fun to_option :: "('a, 'e) result \<Rightarrow> 'a option" where
  "to_option (Ok x) = Some x"
| "to_option (Err e) = None"
| "to_option Panic = None"

text \<open>Collecting into the hash map: a later record with the same key wins.\<close>

definition parse_peer_info :: "crates \<Rightarrow> datetime \<Rightarrow> service_info \<Rightarrow> mdns_peer option" where
  "parse_peer_info K clock info =
     (let properties = map_of (rev (si_properties info)) in
      Option.bind (properties (lit ''fingerprint'')) (\<lambda>fingerprint_str.
      Option.bind (to_option (from_hex fingerprint_str)) (\<lambda>fp.
      Option.bind (properties (lit ''ed25519'')) (\<lambda>ed25519_hex.
      Option.bind (properties (lit ''x25519'')) (\<lambda>x25519_hex.
      Option.bind (hex_decode K ed25519_hex) (\<lambda>ed_bytes.
      Option.bind (hex_decode K x25519_hex) (\<lambda>x_bytes.
      Option.bind (to_option (ed25519_public_from_bytes ed_bytes)) (\<lambda>ed_pub.
      Option.bind (to_option (x25519_public_from_bytes x_bytes)) (\<lambda>x_pub.
      Option.bind (to_option (derive_fingerprint K ed_pub x_pub)) (\<lambda>computed_fp.
      if \<not> constant_time_eq K computed_fp fp then None else
      Option.bind (prefer_v4 (si_addresses info)) (\<lambda>ip.
      Some \<lparr> mp_fingerprint = fp,
             mp_display_name = (case properties (lit ''display_name'') of Some n \<Rightarrow> n | None \<Rightarrow> lit ''Unknown''),
             mp_ip_address = ip, mp_tcp_port = si_port info, mp_last_seen = clock \<rparr>)))))))))))"

datatype service_event = ServiceResolved service_info | ServiceRemoved rstr | OtherService

datatype discovery_event = Discovered mdns_peer | Removed fingerprint

fun browser_event :: "crates \<Rightarrow> datetime \<Rightarrow> service_event \<Rightarrow> discovery_event list" where
  "browser_event K clock (ServiceResolved info) =
     (case parse_peer_info K clock info of Some p \<Rightarrow> [Discovered p] | None \<Rightarrow> [])"
| "browser_event K clock (ServiceRemoved fullname) =
     (case from_hex (takeWhile (\<lambda>c. c \<noteq> 46) fullname) of Ok fp \<Rightarrow> [Removed fp] | _ \<Rightarrow> [])"
| "browser_event K clock OtherService = []"

text \<open>The loop of the browser's thread over the events of the daemon, each with the time it is handled.\<close>

definition browser_run :: "crates \<Rightarrow> (datetime \<times> service_event) list \<Rightarrow> discovery_event list" where
  "browser_run K events = concat (map (\<lambda>(clock, e). browser_event K clock e) events)"

text \<open>
  The advertiser. The three calls into the daemon may fail with a text; otherwise the service has this name and
  these records.
\<close>

record advertisement =
  ad_service_name :: rstr
  ad_properties :: "(rstr \<times> rstr) list"
  ad_port :: "16 word"

record daemon_faults =
  df_create :: "string option"
  df_service_info :: "string option"
  df_register :: "string option"

definition daemon_call :: "string \<Rightarrow> string option \<Rightarrow> (unit, network_error) result" where
  "daemon_call what fault = (case fault of None \<Rightarrow> Ok () | Some e \<Rightarrow> Err (MdnsError (what @ e)))"

definition advertise :: "crates \<Rightarrow> daemon_faults \<Rightarrow> identity_keys \<Rightarrow> 16 word \<Rightarrow> rstr \<Rightarrow> (advertisement, network_error) result" where
  "advertise K F ik tcp_port display_name =
     rbind (daemon_call ''daemon create: '' (df_create F)) (\<lambda>_.
     rbind (map_err (\<lambda>e. Net_Internal (''fingerprint: '' @ display_security_error e)) (keys_fingerprint K ik)) (\<lambda>fp.
     let name = to_formatted_string K fp @ 46 # SERVICE_TYPE;
         properties = [(lit ''display_name'', display_name), (lit ''fingerprint'', to_formatted_string K fp),
           (lit ''ed25519'', hex_encode K (ed_pub (ik_ed25519 ik))), (lit ''x25519'', hex_encode K (x_pub (ik_x25519 ik))),
           (lit ''version'', lit ''1'')] in
     rbind (daemon_call ''service info: '' (df_service_info F)) (\<lambda>_.
     rbind (daemon_call ''register: '' (df_register F)) (\<lambda>_.
     Ok \<lparr> ad_service_name = name, ad_properties = properties, ad_port = tcp_port \<rparr>))))"

section \<open>Lemmas\<close>

lemma to_option_Some [simp]: "to_option r = Some x \<longleftrightarrow> r = Ok x"
  by (cases r) auto

lemma prefer_v4_in: "prefer_v4 as = Some a \<Longrightarrow> a \<in> set as \<and> (is_v4 a \<or> \<not> list_ex is_v4 as)"
  by (auto simp: prefer_v4_def find_Some_iff find_None_iff list_ex_iff split: option.splits list.splits)

lemma prefer_v4_Some: "as \<noteq> [] \<Longrightarrow> \<exists>a. prefer_v4 as = Some a"
  by (cases as) (auto simp: prefer_v4_def split: option.splits)

text \<open>The keys that a service announces.\<close>

definition announces :: "crates \<Rightarrow> service_info \<Rightarrow> bytes \<Rightarrow> bytes \<Rightarrow> fingerprint \<Rightarrow> bool" where
  "announces K info ed x fp \<longleftrightarrow>
     (let props = map_of (rev (si_properties info)) in
      Option.bind (props (lit ''ed25519'')) (hex_decode K) = Some ed \<and> length ed = 32
      \<and> Option.bind (props (lit ''x25519'')) (hex_decode K) = Some x \<and> length x = 32
      \<and> map_option from_hex (props (lit ''fingerprint'')) = Some (Ok fp) \<and> derive_fingerprint K ed x = Ok fp)"

lemma bind_Some_conv: "Option.bind m f = Some y \<longleftrightarrow> (\<exists>x. m = Some x \<and> f x = Some y)"
  by (cases m) auto

lemma parse_peer_info_Some:
  assumes "ct_eq_ok K" and "blake3_ok K"
  shows "parse_peer_info K clock info = Some p \<Longrightarrow>
    (\<exists>ed x. announces K info ed x (mp_fingerprint p)) \<and> mp_ip_address p \<in> set (si_addresses info)
     \<and> (is_v4 (mp_ip_address p) \<or> \<not> list_ex is_v4 (si_addresses info)) \<and> mp_tcp_port p = si_port info"
  by (auto simp: parse_peer_info_def announces_def Let_def bind_Some_conv ed25519_public_from_bytes_def
      x25519_public_from_bytes_def derived_eq [OF assms] dest: prefer_v4_in split: if_splits)

lemma takeWhile_formatted:
  assumes "hex_ok K"
  shows "takeWhile (\<lambda>c. c \<noteq> 46) (to_formatted_string K fp @ 46 # rest) = to_formatted_string K fp"
proof -
  have "\<And>c. c \<in> set (to_formatted_string K fp) \<Longrightarrow> c \<noteq> 46" using formatted_chars [OF assms] by (fastforce simp: is_ascii_hexdigit_def)
  then show ?thesis by (simp add: takeWhile_append2)
qed

text \<open>What an event of the daemon entitles the browser to report.\<close>

fun entitles :: "crates \<Rightarrow> service_event \<Rightarrow> discovery_event \<Rightarrow> bool" where
  "entitles K (ServiceResolved info) (Discovered p) \<longleftrightarrow>
     (\<exists>ed x. announces K info ed x (mp_fingerprint p)) \<and> mp_tcp_port p = si_port info
     \<and> mp_ip_address p \<in> set (si_addresses info) \<and> (is_v4 (mp_ip_address p) \<or> \<not> list_ex is_v4 (si_addresses info))"
| "entitles K (ServiceRemoved fullname) (Removed fp) \<longleftrightarrow> from_hex (takeWhile (\<lambda>c. c \<noteq> 46) fullname) = Ok fp"
| "entitles K _ _ \<longleftrightarrow> False"

lemma browser_event_entitled:
  assumes "ct_eq_ok K" and "blake3_ok K" and "out \<in> set (browser_event K clock ev)"
  shows "entitles K ev out"
proof (cases ev)
  case (ServiceResolved info)
  then show ?thesis using parse_peer_info_Some [OF assms(1,2), of clock info] assms(3)
    by (cases "parse_peer_info K clock info") auto
next
  case (ServiceRemoved fullname)
  then show ?thesis using assms(3) by (cases "from_hex (takeWhile (\<lambda>c. c \<noteq> 46) fullname)") auto
qed (use assms(3) in simp)

lemma printed_parses:
  assumes "hex_ok K" and "blake3_ok K" and "keys_fingerprint K ik = Ok fp"
  shows "from_hex (to_formatted_string K fp) = Ok fp"
proof -
  have "wf_fingerprint fp"
    using assms(3) derived_wf [OF assms(2)] derive_fingerprint_Ok [OF assms(2)] by (auto simp: keys_fingerprint_def)
  then show ?thesis by (rule from_hex_is_hex_of [OF formatted_is_hex_of [OF assms(1)]])
qed

text \<open>The records of an advertisement are accepted.\<close>

lemma advertised_parses:
  assumes "hex_ok K" and "ct_eq_ok K" and "blake3_ok K" and "ed25519_ok K" and "x25519_ok K"
    and "wf_keys K ik" and "keys_fingerprint K ik = Ok fp" and "advertise K F ik port name = Ok ad"
    and "si_properties info = ad_properties ad" and "si_port info = ad_port ad" and "si_addresses info \<noteq> []"
  shows "\<exists>p. parse_peer_info K t info = Some p \<and> mp_fingerprint p = fp \<and> mp_display_name p = name \<and> mp_tcp_port p = port"
proof -
  let ?ed = "ed_pub (ik_ed25519 ik)" and ?x = "x_pub (ik_x25519 ik)"
  have fp: "derive_fingerprint K ?ed ?x = Ok fp" using assms(7) by (simp add: keys_fingerprint_def)
  note printed = printed_parses [OF assms(1,3,7)]
  have len: "length ?ed = 32" "length ?x = 32" using wf_keys_lengths [OF assms(6,4,5)] by simp_all
  have ad: "ad_port ad = port"
    "ad_properties ad = [(lit ''display_name'', name), (lit ''fingerprint'', to_formatted_string K fp),
           (lit ''ed25519'', hex_encode K ?ed), (lit ''x25519'', hex_encode K ?x), (lit ''version'', lit ''1'')]"
    using assms(7,8) by (auto simp: advertise_def Let_def)
  obtain ip where ip: "prefer_v4 (si_addresses info) = Some ip" using prefer_v4_Some [OF assms(11)] by blast
  show ?thesis
    using printed len fp ip derived_eq [OF assms(2,3) fp printed]
    by (simp add: parse_peer_info_def assms(9,10) ad Let_def lit_def hex_okD [OF assms(1)] unhex_lower_hex
        ed25519_public_from_bytes_def x25519_public_from_bytes_def)
qed

section \<open>Properties\<close>

text \<open>
  Discovery by mDNS reports only consistent services. Whatever the daemon says, every peer the browser reports
  was announced with an Ed25519 and an X25519 key of 32 bytes whose derived fingerprint is the announced one;
  its address is one of the service's, an IPv4 one if there is any, and its port the service's. A removal is reported
  only for a removed service whose name starts with that fingerprint.
\<close>

theorem mdns_browser_sound:
  assumes "ct_eq_ok K" and "blake3_ok K"
  shows "list_all (\<lambda>out. list_ex (\<lambda>(clock, ev). entitles K ev out) events) (browser_run K events)"
  using browser_event_entitled [OF assms] by (force simp: browser_run_def list_all_iff list_ex_iff)

text \<open>
  An advertised identity is found and lost again. What the advertiser publishes for well-formed keys is accepted by
  the browser: it reports one peer with the fingerprint of those keys, the announced name and port, as soon as
  the service resolves to any address; and when the service of that name is removed, it reports the
  removal of that fingerprint.
\<close>

theorem mdns_advertise_browse:
  assumes "hex_ok K" and "ct_eq_ok K" and "blake3_ok K" and "ed25519_ok K" and "x25519_ok K"
    and "wf_keys K ik" and "keys_fingerprint K ik = Ok fp" and "advertise K F ik port name = Ok ad"
    and "si_properties info = ad_properties ad" and "si_port info = ad_port ad" and "si_addresses info \<noteq> []"
  shows "\<exists>p. browser_run K [(t1, ServiceResolved info), (t2, ServiceRemoved (ad_service_name ad))] = [Discovered p, Removed fp]
    \<and> mp_fingerprint p = fp \<and> mp_display_name p = name \<and> mp_tcp_port p = port"
proof -
  let ?ed = "ed_pub (ik_ed25519 ik)" and ?x = "x_pub (ik_x25519 ik)"
  have ad: "ad_service_name ad = to_formatted_string K fp @ 46 # SERVICE_TYPE"
    using assms(7,8) by (auto simp: advertise_def Let_def)
  have "browser_event K t2 (ServiceRemoved (ad_service_name ad)) = [Removed fp]"
    using printed_parses [OF assms(1,3,7)] by (simp add: ad takeWhile_formatted [OF assms(1)])
  with advertised_parses [OF assms, of t1] show ?thesis by (auto simp: browser_run_def)
qed

definition sample_mdns_keys :: identity_keys where
  "sample_mdns_keys = \<lparr> ik_ed25519 = \<lparr> ed_pub = replicate 32 1, ed_secret = replicate 32 1 \<rparr>,
     ik_x25519 = \<lparr> x_pub = replicate 32 2, x_secret = replicate 32 2 \<rparr> \<rparr>"

theorem mdns_advertise_browse_witness:
  "\<exists>ad p fp. advertise ref_crates \<lparr> df_create = None, df_service_info = None, df_register = None \<rparr> sample_mdns_keys 7878 [65] = Ok ad
    \<and> browser_run ref_crates [(0, ServiceResolved \<lparr> si_properties = ad_properties ad, si_port = ad_port ad, si_addresses = [V6 1, V4 2] \<rparr>),
        (9, ServiceRemoved (ad_service_name ad))] = [Discovered p, Removed fp] \<and> mp_display_name p = [65]"
proof -
  let ?F = "\<lparr> df_create = None, df_service_info = None, df_register = None \<rparr>"
  have wf: "wf_keys ref_crates sample_mdns_keys" by (simp add: wf_keys_def sample_mdns_keys_def ref_crates_def)
  obtain fp where fp: "keys_fingerprint ref_crates sample_mdns_keys = Ok fp"
    using keys_fingerprint_Ok [OF ref_blake3_ok] by blast
  obtain ad where ad: "advertise ref_crates ?F sample_mdns_keys 7878 [65] = Ok ad"
    by (simp add: advertise_def fp daemon_call_def Let_def)
  from mdns_advertise_browse [OF ref_hex_ok ref_ct_eq_ok ref_blake3_ok ref_ed25519_ok ref_x25519_ok wf fp ad,
      of "\<lparr> si_properties = ad_properties ad, si_port = ad_port ad, si_addresses = [V6 1, V4 2] \<rparr>" 0 9] ad
  show ?thesis by auto
qed

theorem mdns_browser_sound_witness:
  "\<exists>p info. browser_run ref_crates [(0, OtherService), (2, ServiceResolved info)] = [Discovered p]
    \<and> entitles ref_crates (ServiceResolved info) (Discovered p)"
proof -
  let ?F = "\<lparr> df_create = None, df_service_info = None, df_register = None \<rparr>"
  have wf: "wf_keys ref_crates sample_mdns_keys" by (simp add: wf_keys_def sample_mdns_keys_def ref_crates_def)
  obtain fp where fp: "keys_fingerprint ref_crates sample_mdns_keys = Ok fp"
    using keys_fingerprint_Ok [OF ref_blake3_ok] by blast
  obtain ad where ad: "advertise ref_crates ?F sample_mdns_keys 7878 [65] = Ok ad"
    by (simp add: advertise_def fp daemon_call_def Let_def)
  let ?info = "\<lparr> si_properties = ad_properties ad, si_port = ad_port ad, si_addresses = [V6 1, V4 2] \<rparr>"
  obtain p where p: "parse_peer_info ref_crates 2 ?info = Some p"
    using advertised_parses [OF ref_hex_ok ref_ct_eq_ok ref_blake3_ok ref_ed25519_ok ref_x25519_ok wf fp ad, of ?info 2] by auto
  then have run: "browser_run ref_crates [(0, OtherService), (2, ServiceResolved ?info)] = [Discovered p]"
    by (simp add: browser_run_def)
  with mdns_browser_sound [OF ref_ct_eq_ok ref_blake3_ok, of "[(0, OtherService), (2, ServiceResolved ?info)]"]
  have "entitles ref_crates (ServiceResolved ?info) (Discovered p)" by simp
  with run show ?thesis by blast
qed

end
