(* ===== verification/Discovery_Feeds.thy ===== *)
theory Discovery_Feeds
  imports Udp_Discovery Mdns_Discovery "HOL-Library.Sublist"
begin

text \<open>
  How discovered peers reach the application: the constructors of \<open>udp/broadcaster.rs\<close>, \<open>udp/listener.rs\<close> and
  \<open>mdns/browser.rs\<close>, the bounded channel of 100 events between their loops and the reader, and their shutdown. The loops are the ones of
  \<open>Udp_Discovery\<close> and \<open>Mdns_Discovery\<close>, here one event at a time.
\<close>

section \<open>Constructors\<close>

definition DISCOVERY_PORT :: "16 word" where "DISCOVERY_PORT = 9876"
definition BROADCAST_INTERVAL_SECS :: nat where "BROADCAST_INTERVAL_SECS = 5"
definition CHANNEL_CAPACITY :: nat where "CHANNEL_CAPACITY = 100"

text \<open>A call to the system with the error text it answers, if any.\<close>

definition sys_call :: "(string \<Rightarrow> network_error) \<Rightarrow> string \<Rightarrow> string option \<Rightarrow> (unit, network_error) result" where
  "sys_call kind what fault = (case fault of None \<Rightarrow> Ok () | Some e \<Rightarrow> Err (kind (what @ e)))"

definition broadcaster_new ::
  "string option \<Rightarrow> string option \<Rightarrow> identity_keys \<Rightarrow> 16 word \<Rightarrow> rstr \<Rightarrow> (broadcaster, network_error) result" where
  "broadcaster_new bind_fault broadcast_fault ik tcp_port name =
     rbind (sys_call BindFailed ''UDP broadcast: '' bind_fault) (\<lambda>_.
     rbind (sys_call UdpError ''set broadcast: '' broadcast_fault) (\<lambda>_.
     Ok \<lparr> br_identity = ik, br_tcp_port = tcp_port, br_display_name = name \<rparr>))"

section \<open>A feed\<close>

text \<open>
  A producer loop, the channel and the reader. The loop handles one input at a time and holds its output until the
  channel has room; \<open>fd_seen\<close> are the inputs it has handled. \<open>fd_open\<close> says that the receiver exists, \<open>fd_running\<close>
  that the loop takes inputs.
\<close>

record ('i, 'x) feed =
  fd_seen :: "'i list"
  fd_held :: "'x option"
  fd_queue :: "'x list"
  fd_delivered :: "'x list"
  fd_open :: bool
  fd_running :: bool

definition feed_start :: "('i, 'x) feed" where
  "feed_start = \<lparr> fd_seen = [], fd_held = None, fd_queue = [], fd_delivered = [], fd_open = True, fd_running = True \<rparr>"

text \<open>\<open>recv\<close>: the next event; \<open>None\<close> is the end of the channel, when the loop is over and nothing is left.\<close>

definition can_end :: "('i, 'x) feed \<Rightarrow> bool" where
  "can_end f \<longleftrightarrow> \<not> fd_running f \<and> fd_held f = None \<and> fd_queue f = []"

inductive feed_step :: "('i \<Rightarrow> ('x option, string) result) \<Rightarrow> ('i, 'x) feed \<Rightarrow> ('i, 'x) feed \<Rightarrow> bool" for produce where
  handle: "fd_running f \<Longrightarrow> fd_held f = None \<Longrightarrow> produce i = Ok found \<Longrightarrow>
     feed_step produce f (f\<lparr> fd_seen := fd_seen f @ [i], fd_held := found \<rparr>)"
| crash: "fd_running f \<Longrightarrow> fd_held f = None \<Longrightarrow> produce i = Panic \<Longrightarrow>
     feed_step produce f (f\<lparr> fd_seen := fd_seen f @ [i], fd_running := False \<rparr>)"
| enqueue: "fd_held f = Some x \<Longrightarrow> fd_open f \<Longrightarrow> length (fd_queue f) < CHANNEL_CAPACITY \<Longrightarrow>
     feed_step produce f (f\<lparr> fd_held := None, fd_queue := fd_queue f @ [x] \<rparr>)"
| refused: "fd_held f = Some x \<Longrightarrow> \<not> fd_open f \<Longrightarrow> feed_step produce f (f\<lparr> fd_held := None \<rparr>)"
| recv: "fd_open f \<Longrightarrow> fd_queue f = x # xs \<Longrightarrow>
     feed_step produce f (f\<lparr> fd_queue := xs, fd_delivered := fd_delivered f @ [x] \<rparr>)"
| dropped: "feed_step produce f (f\<lparr> fd_open := False, fd_queue := [] \<rparr>)"
| stop: "feed_step produce f (f\<lparr> fd_running := False \<rparr>)"

inductive feed_reachable :: "('i \<Rightarrow> ('x option, string) result) \<Rightarrow> ('i, 'x) feed \<Rightarrow> bool" for produce where
  start: "feed_reachable produce feed_start"
| step: "feed_reachable produce f \<Longrightarrow> feed_step produce f g \<Longrightarrow> feed_reachable produce g"

inductive_cases feed_stepE: "feed_step produce f g"

text \<open>What the loop makes of the inputs it has handled.\<close>

definition outputs :: "('i \<Rightarrow> ('x option, string) result) \<Rightarrow> 'i list \<Rightarrow> 'x list" where
  "outputs produce is = concat (map (\<lambda>i. case produce i of Ok (Some x) \<Rightarrow> [x] | _ \<Rightarrow> []) is)"

definition held_list :: "'x option \<Rightarrow> 'x list" where
  "held_list h = (case h of Some x \<Rightarrow> [x] | None \<Rightarrow> [])"

text \<open>Nothing is lost, repeated or reordered while the receiver exists; after that, what was delivered stays a beginning.\<close>

definition in_order :: "('i \<Rightarrow> ('x option, string) result) \<Rightarrow> ('i, 'x) feed \<Rightarrow> bool" where
  "in_order produce f \<longleftrightarrow> length (fd_queue f) \<le> CHANNEL_CAPACITY
     \<and> (if fd_open f then fd_delivered f @ fd_queue f @ held_list (fd_held f) = outputs produce (fd_seen f)
        else fd_queue f = [] \<and> prefix (fd_delivered f) (outputs produce (fd_seen f)))"

lemma outputs_snoc [simp]: "outputs produce (is @ [i]) = outputs produce is @ (case produce i of Ok (Some x) \<Rightarrow> [x] | _ \<Rightarrow> [])"
  by (simp add: outputs_def)

lemma in_order_step: "feed_step produce f g \<Longrightarrow> in_order produce f \<Longrightarrow> in_order produce g"
proof (induction rule: feed_step.induct)
  case (dropped f)
  then show ?case by (auto simp: in_order_def split: if_splits) (metis prefixI)
qed (auto simp: in_order_def held_list_def split: if_splits option.splits)

lemma reachable_in_order: "feed_reachable produce f \<Longrightarrow> in_order produce f"
  by (induction rule: feed_reachable.induct) (auto simp: in_order_step, simp add: in_order_def feed_start_def held_list_def outputs_def)

lemma in_order_delivered:
  assumes "in_order produce f"
  shows "\<exists>rest. outputs produce (fd_seen f) = fd_delivered f @ rest"
proof (cases "fd_open f")
  case True
  with assms have "outputs produce (fd_seen f) = fd_delivered f @ fd_queue f @ held_list (fd_held f)" by (simp add: in_order_def)
  then show ?thesis by blast
qed (use assms in \<open>auto simp: in_order_def prefix_def\<close>)

text \<open>
  The contract of a source: what it makes of a good input is justified by that input. Then so is everything that
  is ever delivered.
\<close>

locale feed_source =
  fixes produce :: "'i \<Rightarrow> ('x option, string) result"
    and good :: "'i \<Rightarrow> bool"
    and entitled :: "'i \<Rightarrow> 'x \<Rightarrow> bool"
  assumes produce_entitled: "good i \<Longrightarrow> produce i = Ok (Some x) \<Longrightarrow> entitled i x"
begin

lemma delivered_entitled:
  assumes "feed_reachable produce f" and "list_all good (fd_seen f)"
  shows "list_all (\<lambda>x. list_ex (\<lambda>i. entitled i x) (fd_seen f)) (fd_delivered f)"
proof -
  obtain rest where "outputs produce (fd_seen f) = fd_delivered f @ rest"
    using in_order_delivered [OF reachable_in_order [OF assms(1)]] by blast
  then have "set (fd_delivered f) \<subseteq> set (outputs produce (fd_seen f))" by simp
  moreover have "\<exists>i\<in>set (fd_seen f). entitled i x" if "x \<in> set (outputs produce (fd_seen f))" for x
  proof -
    from that obtain i where "i \<in> set (fd_seen f)" "produce i = Ok (Some x)"
      by (auto simp: outputs_def split: result.splits option.splits)
    then show ?thesis using assms(2) produce_entitled [of i x] by (auto simp: list_all_iff)
  qed
  ultimately show ?thesis by (auto simp: list_all_iff list_ex_iff)
qed

end

section \<open>The two sources\<close>

definition udp_produce :: "crates \<Rightarrow> beacon_json \<Rightarrow> bool \<Rightarrow> datagram \<Rightarrow> (peer_info option, string) result" where
  "udp_produce K J oc d =
     process_beacon K J oc (dg_now d) (dg_clock d) (dg_source_ip d) (take MAX_BEACON_SIZE (dg_data d))"

definition udp_listener_new :: "string option \<Rightarrow> ((datagram, peer_info) feed, network_error) result" where
  "udp_listener_new bind_fault = rbind (sys_call BindFailed ''UDP listener: '' bind_fault) (\<lambda>_. Ok feed_start)"

definition mdns_produce :: "crates \<Rightarrow> datetime \<times> service_event \<Rightarrow> (discovery_event option, string) result" where
  "mdns_produce K i = (case browser_event K (fst i) (snd i) of x # _ \<Rightarrow> Ok (Some x) | [] \<Rightarrow> Ok None)"

definition mdns_browser_new ::
  "string option \<Rightarrow> string option \<Rightarrow> ((datetime \<times> service_event, discovery_event) feed, network_error) result" where
  "mdns_browser_new create_fault browse_fault =
     rbind (sys_call MdnsError ''daemon create: '' create_fault) (\<lambda>_.
     rbind (sys_call MdnsError ''browse: '' browse_fault) (\<lambda>_. Ok feed_start))"

text \<open>\<open>shutdown\<close> consumes the browser: the receiver goes, and the daemon's channel ends.\<close>

definition mdns_browser_shutdown :: "('i, 'x) feed \<Rightarrow> ('i, 'x) feed" where
  "mdns_browser_shutdown f = f\<lparr> fd_open := False, fd_queue := [], fd_running := False \<rparr>"

lemma mdns_shutdown_steps: "feed_reachable produce f \<Longrightarrow> feed_reachable produce (mdns_browser_shutdown f)"
  using feed_reachable.step [OF feed_reachable.step [OF _ feed_step.dropped] feed_step.stop, of produce f]
  by (simp add: mdns_browser_shutdown_def)

lemma browser_event_single: "browser_event K t e = [] \<or> (\<exists>x. browser_event K t e = [x])"
  by (cases e) (auto split: option.split result.split)

lemma mdns_outputs: "outputs (mdns_produce K) events = browser_run K events"
proof -
  have "(case mdns_produce K i of Ok (Some x) \<Rightarrow> [x] | _ \<Rightarrow> []) = browser_event K (fst i) (snd i)" for i
    using browser_event_single [of K "fst i" "snd i"] by (auto simp: mdns_produce_def)
  then have "outputs (mdns_produce K) events = concat (map (\<lambda>i. browser_event K (fst i) (snd i)) events)"
    by (simp only: outputs_def)
  then show ?thesis by (simp add: browser_run_def case_prod_beta')
qed

lemma udp_outputs:
  "listener_run K J oc (map Received ds) = Ok ps \<Longrightarrow> ps = outputs (udp_produce K J oc) ds"
  by (induction ds arbitrary: ps) (auto simp: outputs_def udp_produce_def split: option.splits)

interpretation udp_feed: feed_source "udp_produce K J oc" "\<lambda>d. ct_eq_ok K \<and> blake3_ok K \<and> clock_ok (dg_now d)" "proved_by K J"
  for K J oc
proof
  fix d p
  assume "ct_eq_ok K \<and> blake3_ok K \<and> clock_ok (dg_now d)" and "udp_produce K J oc d = Ok (Some p)"
  then show "proved_by K J d p"
    using process_beacon_found [of d K J oc] by (auto simp: udp_produce_def MAX_BEACON_SIZE_def)
qed

interpretation mdns_feed: feed_source "mdns_produce K" "\<lambda>_. ct_eq_ok K \<and> blake3_ok K" "\<lambda>i x. entitles K (snd i) x"
  for K
proof
  fix i x
  assume K: "ct_eq_ok K \<and> blake3_ok K" and "mdns_produce K i = Ok (Some x)"
  then have "x \<in> set (browser_event K (fst i) (snd i))" by (auto simp: mdns_produce_def split: list.splits)
  then show "entitles K (snd i) x" using browser_event_entitled K by blast
qed

section \<open>The advertiser's shutdown\<close>

text \<open>
  The names that the daemon answers for. It files a service under its full name, which the crate forms from the
  instance name and the service type; that function is an argument.
\<close>

definition register :: "(rstr \<Rightarrow> rstr) \<Rightarrow> advertisement \<Rightarrow> rstr list \<Rightarrow> rstr list" where
  "register fullname ad names = fullname (ad_service_name ad) # names"

definition advertiser_shutdown :: "advertisement \<Rightarrow> rstr list \<Rightarrow> rstr list" where
  "advertiser_shutdown ad names = removeAll (ad_service_name ad) names"

section \<open>Properties\<close>

text \<open>
  C23: Discovered peers arrive in order, none is lost and none is made up. In every interleaving of the UDP listener, its channel and the reader:
  at most 100 peers wait; while the receiver exists, what was delivered, what waits and what the listener holds are together exactly what the
  listener made of the datagrams so far, in their order; and every delivered peer is proved by one of those
  datagrams.
\<close>

theorem udp_feed_in_order:
  assumes "feed_reachable (udp_produce K J oc) f" and "ct_eq_ok K" and "blake3_ok K"
    and "list_all (\<lambda>d. clock_ok (dg_now d)) (fd_seen f)"
  shows "in_order (udp_produce K J oc) f \<and> list_all (\<lambda>p. list_ex (\<lambda>d. proved_by K J d p) (fd_seen f)) (fd_delivered f)"
  using reachable_in_order [OF assms(1)] udp_feed.delivered_entitled [OF assms(1)] assms(2-4) by (simp add: list_all_iff)

text \<open>One input that is handled, queued and received.\<close>

lemma feed_one:
  assumes "produce i = Ok (Some x)"
  shows "feed_reachable produce (feed_start\<lparr> fd_seen := [i], fd_delivered := [x] \<rparr>)"
proof -
  let ?f1 = "feed_start\<lparr> fd_seen := [i], fd_held := Some x \<rparr>"
  let ?f2 = "?f1\<lparr> fd_held := None, fd_queue := [x] \<rparr>"
  have "feed_step produce feed_start ?f1" using feed_step.handle [of feed_start produce i "Some x"] assms by (simp add: feed_start_def)
  moreover have "feed_step produce ?f1 ?f2"
    using feed_step.enqueue [of ?f1 x produce] by (simp add: feed_start_def CHANNEL_CAPACITY_def)
  moreover have "feed_step produce ?f2 (feed_start\<lparr> fd_seen := [i], fd_delivered := [x] \<rparr>)"
    using feed_step.recv [of ?f2 x "[]" produce] by (simp add: feed_start_def)
  ultimately show ?thesis by (meson feed_reachable.intros)
qed

theorem udp_feed_in_order_witness:
  "\<exists>f p J. feed_reachable (udp_produce ref_crates J True) f \<and> fd_delivered f = [p]
    \<and> proved_by ref_crates J \<lparr> dg_data = [7], dg_source_ip = None, dg_now = 1050, dg_clock = 0 \<rparr> p"
proof -
  let ?b = "beacon_create ref_crates (ik_ed25519 sample_keys) (x_pub (ik_x25519 sample_keys)) 7878 [65] 1000"
  let ?J = "\<lparr> js_to_vec = \<lambda>_. Some [7], js_from_slice = \<lambda>_. Some ?b \<rparr>"
  let ?d = "\<lparr> dg_data = [7], dg_source_ip = None, dg_now = 1050, dg_clock = 0 \<rparr>"
  obtain fp where fp: "keys_fingerprint ref_crates sample_keys = Ok fp" using keys_fingerprint_Ok [OF ref_blake3_ok] by blast
  have clock: "clock_ok 1050" by (simp add: clock_ok_def)
  obtain p where "process_beacon ref_crates ?J True 1050 0 None [7] = Ok (Some p)"
    using process_created_beacon [OF ref_hex_ok ref_ct_eq_ok ref_blake3_ok ref_ed25519_ok ref_x25519_ok sample_keys_wf fp refl clock,
        where t = 1000 and J = ?J and data = "[7]" and port = 7878 and name = "[65]" and oc = True and clock = 0 and ip = None] by auto
  then have "udp_produce ref_crates ?J True ?d = Ok (Some p)" by (simp add: udp_produce_def MAX_BEACON_SIZE_def)
  then have reach: "feed_reachable (udp_produce ref_crates ?J True) (feed_start\<lparr> fd_seen := [?d], fd_delivered := [p] \<rparr>)"
    by (rule feed_one)
  from udp_feed_in_order [OF reach ref_ct_eq_ok ref_blake3_ok] reach clock
  show ?thesis by (intro exI [of _ "feed_start\<lparr> fd_seen := [?d], fd_delivered := [p] \<rparr>"] exI [of _ p] exI [of _ ?J]) simp
qed

text \<open>
  C24: The same for the mDNS browser and its thread, before and after \<open>shutdown\<close>: the reader sees the events of the loop in order, at
  most 100 wait, and each is one the daemon's events entitle it to.
\<close>

theorem mdns_feed_in_order:
  assumes "feed_reachable (mdns_produce K) f" and "ct_eq_ok K" and "blake3_ok K"
  shows "length (fd_queue f) \<le> CHANNEL_CAPACITY
    \<and> (\<exists>rest. browser_run K (fd_seen f) = fd_delivered f @ rest
        \<and> (if fd_open f then rest = fd_queue f @ held_list (fd_held f) else fd_queue f = []))
    \<and> list_all (\<lambda>x. list_ex (\<lambda>i. entitles K (snd i) x) (fd_seen f)) (fd_delivered f)"
  using reachable_in_order [OF assms(1)] in_order_delivered [OF reachable_in_order [OF assms(1)]]
    mdns_feed.delivered_entitled [OF assms(1)] assms(2,3)
  by (auto simp: in_order_def mdns_outputs list_all_iff split: if_splits)

theorem mdns_feed_in_order_witness:
  "\<exists>f fp name. feed_reachable (mdns_produce ref_crates) f \<and> \<not> fd_running f \<and> fd_delivered f = [Removed fp]
     \<and> entitles ref_crates (ServiceRemoved name) (Removed fp)"
proof -
  obtain fp where fp: "keys_fingerprint ref_crates sample_keys = Ok fp" using keys_fingerprint_Ok [OF ref_blake3_ok] by blast
  let ?i = "(0, ServiceRemoved (to_formatted_string ref_crates fp @ 46 # []))"
  let ?f = "mdns_browser_shutdown (feed_start\<lparr> fd_seen := [?i], fd_delivered := [Removed fp] \<rparr>)"
  have "mdns_produce ref_crates ?i = Ok (Some (Removed fp))"
    using printed_parses [OF ref_hex_ok ref_blake3_ok fp] by (simp add: mdns_produce_def takeWhile_formatted [OF ref_hex_ok])
  then have "feed_reachable (mdns_produce ref_crates) (feed_start\<lparr> fd_seen := [?i], fd_delivered := [Removed fp] \<rparr>)"
    by (rule feed_one)
  then have reach: "feed_reachable (mdns_produce ref_crates) ?f" by (rule mdns_shutdown_steps)
  from mdns_feed_in_order [OF reach ref_ct_eq_ok ref_blake3_ok] have "entitles ref_crates (snd ?i) (Removed fp)"
    by (simp add: mdns_browser_shutdown_def feed_start_def)
  with reach show ?thesis
    by (intro exI [of _ ?f] exI [of _ fp] exI [of _ "to_formatted_string ref_crates fp @ 46 # []"]) (simp add: mdns_browser_shutdown_def)
qed

text \<open>
  A shut-down advertiser goes on advertising. With a full name that differs from the instance name, as the crate
  forms it, \<open>shutdown\<close> removes a name that was never registered.
\<close>

theorem advertiser_shutdown_ineffective:
  assumes "\<And>n. fullname n = n @ 46 # SERVICE_TYPE"
  shows "advertiser_shutdown ad (register fullname ad names) = fullname (ad_service_name ad) # advertiser_shutdown ad names"
  by (simp add: advertiser_shutdown_def register_def assms)

theorem advertiser_shutdown_ineffective_witness:
  "advertiser_shutdown \<lparr> ad_service_name = [65], ad_properties = [], ad_port = 1 \<rparr>
     (register (\<lambda>n. n @ 46 # SERVICE_TYPE) \<lparr> ad_service_name = [65], ad_properties = [], ad_port = 1 \<rparr> []) = [65 # 46 # SERVICE_TYPE]"
  by (subst advertiser_shutdown_ineffective) (simp_all add: advertiser_shutdown_def)

end
