(* ===== verification/Notifier.thy ===== *)
theory Notifier
  imports App_Ports
begin

text \<open>
  \<open>crates/notifications/src/notifier.rs\<close>: the adapter of the notification port, with its cooldown per
  sender. Whether the desktop shows a notification is an input of each call.
\<close>

section \<open>Model\<close>

definition PREVIEW_CHARS :: nat where "PREVIEW_CHARS = 100"
definition NOTIFICATION_COOLDOWN :: int where "NOTIFICATION_COOLDOWN = seconds 5"

text \<open>The table of last notifications, by the printed fingerprint.\<close>

type_synonym last_notify = "rstr \<Rightarrow> instant option"

definition notifier_new :: last_notify where
  "notifier_new = (\<lambda>_. None)"

definition is_allowed :: "instant \<Rightarrow> rstr \<Rightarrow> last_notify \<Rightarrow> bool \<times> last_notify" where
  "is_allowed now key m =
     (case m key of
        Some prev \<Rightarrow> if now - prev < NOTIFICATION_COOLDOWN then (False, m) else (True, m(key \<mapsto> now))
      | None \<Rightarrow> (True, m(key \<mapsto> now)))"

text \<open>The loop over \<open>chars().enumerate()\<close>; U+2026 is the ellipsis.\<close>

fun copy_chars :: "nat \<Rightarrow> rstr \<Rightarrow> rstr" where
  "copy_chars i [] = []"
| "copy_chars i (ch # chs) = (if i \<ge> PREVIEW_CHARS then [8230] else ch # copy_chars (Suc i) chs)"

definition truncate_preview :: "rstr \<Rightarrow> rstr" where
  "truncate_preview preview = (if length preview > PREVIEW_CHARS then copy_chars 0 preview else preview)"

record toast =
  to_subtitle :: rstr
  to_body :: rstr
  to_icon :: rstr
  to_timeout :: nat

datatype show_outcome = Shown | Show_Failed | Show_Panicked

definition message_toast :: "crates \<Rightarrow> fingerprint \<Rightarrow> rstr \<Rightarrow> toast" where
  "message_toast K fp preview = \<lparr> to_subtitle = lit ''Message from '' @ to_formatted_string K fp,
     to_body = truncate_preview preview, to_icon = lit ''dialog-information'', to_timeout = 5000 \<rparr>"

definition connected_toast :: "crates \<Rightarrow> peer \<Rightarrow> toast" where
  "connected_toast K p = \<lparr> to_subtitle = peer_display_name p @ lit '' is online'',
     to_body = lit ''Fingerprint: '' @ to_formatted_string K (peer_fingerprint p), to_icon = lit ''dialog-information'', to_timeout = 3000 \<rparr>"

definition reset_toast :: "crates \<Rightarrow> fingerprint \<Rightarrow> toast" where
  "reset_toast K fp = \<lparr> to_subtitle = lit ''Identity Reset Complete'',
     to_body = lit ''New fingerprint: '' @ to_formatted_string K fp, to_icon = lit ''dialog-warning'', to_timeout = 10000 \<rparr>"

text \<open>Each call returns its result, the notification it handed to the desktop if any, and the new table.\<close>

definition notify_message_received ::
  "crates \<Rightarrow> show_outcome \<Rightarrow> instant \<Rightarrow> fingerprint \<Rightarrow> rstr \<Rightarrow> last_notify \<Rightarrow> (unit, notification_error) result \<times> toast option \<times> last_notify" where
  "notify_message_received K shown now fp preview m =
     (case is_allowed now (to_formatted_string K fp) m of
        (False, m') \<Rightarrow> (Ok (), None, m')
      | (True, m') \<Rightarrow>
          ((case shown of Shown \<Rightarrow> Ok () | Show_Failed \<Rightarrow> Err Notify_Unavailable | Show_Panicked \<Rightarrow> Err Notify_Internal),
           Some (message_toast K fp preview), m'))"

definition notify_peer_connected ::
  "crates \<Rightarrow> show_outcome \<Rightarrow> instant \<Rightarrow> peer \<Rightarrow> last_notify \<Rightarrow> (unit, notification_error) result \<times> toast option \<times> last_notify" where
  "notify_peer_connected K shown now p m =
     (case is_allowed now (to_formatted_string K (peer_fingerprint p)) m of
        (False, m') \<Rightarrow> (Ok (), None, m')
      | (True, m') \<Rightarrow>
          ((case shown of Shown \<Rightarrow> Ok () | _ \<Rightarrow> Err Notify_Unavailable), Some (connected_toast K p), m'))"

definition notify_peer_disconnected ::
  "fingerprint \<Rightarrow> last_notify \<Rightarrow> (unit, notification_error) result \<times> toast option \<times> last_notify" where
  "notify_peer_disconnected fp m = (Ok (), None, m)"

definition notify_identity_reset ::
  "crates \<Rightarrow> show_outcome \<Rightarrow> fingerprint \<Rightarrow> last_notify \<Rightarrow> (unit, notification_error) result \<times> toast option \<times> last_notify" where
  "notify_identity_reset K shown fp m =
     ((case shown of Shown \<Rightarrow> Ok () | _ \<Rightarrow> Err Notify_Unavailable), Some (reset_toast K fp), m)"

section \<open>Histories\<close>

datatype notifier_call =
    On_Message instant show_outcome fingerprint rstr | On_Connected instant show_outcome peer
  | On_Disconnected fingerprint | On_Reset show_outcome fingerprint

fun notifier_exec :: "crates \<Rightarrow> notifier_call \<Rightarrow> last_notify \<Rightarrow> (unit, notification_error) result \<times> toast option \<times> last_notify" where
  "notifier_exec K (On_Message t sh fp preview) m = notify_message_received K sh t fp preview m"
| "notifier_exec K (On_Connected t sh p) m = notify_peer_connected K sh t p m"
| "notifier_exec K (On_Disconnected fp) m = notify_peer_disconnected fp m"
| "notifier_exec K (On_Reset sh fp) m = notify_identity_reset K sh fp m"

text \<open>The times and printed senders of the notifications about peers, in order.\<close>

fun peer_key :: "crates \<Rightarrow> notifier_call \<Rightarrow> (instant \<times> rstr) option" where
  "peer_key K (On_Message t sh fp preview) = Some (t, to_formatted_string K fp)"
| "peer_key K (On_Connected t sh p) = Some (t, to_formatted_string K (peer_fingerprint p))"
| "peer_key K _ = None"

fun peer_toasts :: "crates \<Rightarrow> notifier_call list \<Rightarrow> last_notify \<Rightarrow> (instant \<times> rstr) list" where
  "peer_toasts K [] m = []"
| "peer_toasts K (c # cs) m =
     (case notifier_exec K c m of (r, shown, m') \<Rightarrow>
        (case (peer_key K c, shown) of (Some tk, Some _) \<Rightarrow> tk # peer_toasts K cs m' | _ \<Rightarrow> peer_toasts K cs m'))"

section \<open>The cooldown is a limiter\<close>

text \<open>One notification per window of five seconds: the contract of the rate limiter, with a limit of one.\<close>

definition remembered :: "last_notify \<Rightarrow> rstr \<Rightarrow> instant list" where
  "remembered m key = (case m key of Some t \<Rightarrow> [t] | None \<Rightarrow> [])"

definition forget :: "rstr \<Rightarrow> last_notify \<Rightarrow> last_notify" where
  "forget key m = m(key := None)"

interpretation cooldown: limiter "\<lambda>_. True" remembered is_allowed forget NOTIFICATION_COOLDOWN 1
  by unfold_locales (auto simp: remembered_def is_allowed_def forget_def split: option.splits)

fun checks_of :: "crates \<Rightarrow> notifier_call list \<Rightarrow> rstr call list" where
  "checks_of K [] = []"
| "checks_of K (c # cs) = (case peer_key K c of Some (t, key) \<Rightarrow> Check t key # checks_of K cs | None \<Rightarrow> checks_of K cs)"

lemma peer_toasts_run: "peer_toasts K cs m = fst (run is_allowed forget (checks_of K cs) m)"
proof (induction cs arbitrary: m)
  case (Cons c cs)
  then show ?case
    by (cases c) (auto simp: notify_message_received_def notify_peer_connected_def notify_peer_disconnected_def
        notify_identity_reset_def split: prod.splits bool.splits)
qed simp

lemma checks_of_no_reset: "Reset key \<notin> set (checks_of K cs)"
  by (induction cs) (auto split: option.splits)

lemma copy_chars_take: "i \<le> PREVIEW_CHARS \<Longrightarrow>
    copy_chars i s = (if i + length s > PREVIEW_CHARS then take (PREVIEW_CHARS - i) s @ [8230] else s)"
  by (induction i s rule: copy_chars.induct) (auto simp: take_Cons' Suc_diff_le)

section \<open>Properties\<close>

text \<open>
  Notifications are throttled and cut. In any history of calls with a monotone clock, every window of five seconds holds
  at most one notification about a peer, messages and connections taken together; and the text of a message
  notification is the message, or its first 100 characters and an ellipsis, so at most 101 characters and never a panic.
\<close>

theorem notifier_cooldown:
  assumes "sorted (call_times (checks_of K cs))"
  shows "length (in_window (seconds 5) x (times_of key (peer_toasts K cs notifier_new))) \<le> 1
    \<and> to_body (message_toast K fp preview) = (if length preview > 100 then take 100 preview @ [8230] else preview)"
proof (rule conjI)
  have "remembered notifier_new key = []" by (simp add: remembered_def notifier_new_def)
  from cooldown.window_bound [OF _ this assms checks_of_no_reset, of x]
  show "length (in_window (seconds 5) x (times_of key (peer_toasts K cs notifier_new))) \<le> 1"
    by (simp add: peer_toasts_run NOTIFICATION_COOLDOWN_def)
  show "to_body (message_toast K fp preview) = (if length preview > 100 then take 100 preview @ [8230] else preview)"
    by (simp add: message_toast_def truncate_preview_def copy_chars_take PREVIEW_CHARS_def)
qed

theorem notifier_cooldown_witness:
  "length (in_window (seconds 5) (seconds 6) (times_of (to_formatted_string ref_crates ref_fp)
     (peer_toasts ref_crates [On_Message (seconds 2) Shown ref_fp [104], On_Connected (seconds 4) Shown ref_peer,
        On_Reset Shown ref_fp, On_Message (seconds 6) Show_Failed ref_fp [105]] notifier_new))) \<le> 1"
  using notifier_cooldown [of ref_crates "[On_Message (seconds 2) Shown ref_fp [104], On_Connected (seconds 4) Shown ref_peer,
        On_Reset Shown ref_fp, On_Message (seconds 6) Show_Failed ref_fp [105]]" "seconds 6" "to_formatted_string ref_crates ref_fp"]
  by simp

end
