(* ===== verification/Database.thy ===== *)
theory Database
  imports Domain_Errors Crates
begin

text \<open>
  What the repositories of \<open>crates/persistence/src/repositories\<close> share: tables as lists of rows, the
  statements they run on them, and the errors of \<open>rusqlite\<close> that are told apart. A call for which the pool, the blocking task or the engine fails is one with
  \<open>up = False\<close>; it ends in \<open>DomainError::Internal\<close> and changes nothing.
\<close>

section \<open>Tables\<close>

definition sql_find :: "('r \<Rightarrow> 'k) \<Rightarrow> 'k \<Rightarrow> 'r list \<Rightarrow> 'r option" where
  "sql_find key k rows = find (\<lambda>r. key r = k) rows"

definition sql_update :: "('r \<Rightarrow> 'k) \<Rightarrow> 'k \<Rightarrow> ('r \<Rightarrow> 'r) \<Rightarrow> 'r list \<Rightarrow> 'r list" where
  "sql_update key k f rows = map (\<lambda>r. if key r = k then f r else r) rows"

definition sql_delete :: "('r \<Rightarrow> 'k) \<Rightarrow> 'k \<Rightarrow> 'r list \<Rightarrow> 'r list" where
  "sql_delete key k rows = filter (\<lambda>r. key r \<noteq> k) rows"

text \<open>The number of rows a statement touches.\<close>

definition sql_matches :: "('r \<Rightarrow> 'k) \<Rightarrow> 'k \<Rightarrow> 'r list \<Rightarrow> nat" where
  "sql_matches key k rows = length (filter (\<lambda>r. key r = k) rows)"

text \<open>\<open>str::contains\<close>.\<close>

fun str_contains :: "string \<Rightarrow> string \<Rightarrow> bool" where
  "str_contains pat [] \<longleftrightarrow> pat = []"
| "str_contains pat (c # s) \<longleftrightarrow> take (length pat) (c # s) = pat \<or> str_contains pat s"

datatype sql_error = QueryReturnedNoRows | SqliteFailure "string option" | OtherSqlError

lemma sql_find_append [simp]:
  "sql_find key k (xs @ ys) = (case sql_find key k xs of Some r \<Rightarrow> Some r | None \<Rightarrow> sql_find key k ys)"
  by (induction xs) (auto simp: sql_find_def)

lemma sql_find_Nil [simp]: "sql_find key k [] = None"
  by (simp add: sql_find_def)

lemma sql_find_Cons [simp]: "sql_find key k (r # rows) = (if key r = k then Some r else sql_find key k rows)"
  by (simp add: sql_find_def)

lemma sql_find_key: "sql_find key k rows = Some r \<Longrightarrow> key r = k \<and> r \<in> set rows"
  by (auto simp: sql_find_def find_Some_iff)

lemma sql_find_None: "sql_find key k rows = None \<longleftrightarrow> (\<forall>r\<in>set rows. key r \<noteq> k)"
  by (auto simp: sql_find_def find_None_iff)

lemma sql_find_in:
  "distinct (map key rows) \<Longrightarrow> sql_find key k rows = Some r \<longleftrightarrow> r \<in> set rows \<and> key r = k"
  by (induction rows) (auto dest: sql_find_key)

lemma sql_matches_0 [simp]: "sql_matches key k rows = 0 \<longleftrightarrow> sql_find key k rows = None"
  by (auto simp: sql_matches_def sql_find_None filter_empty_conv)

lemma sql_find_update:
  assumes "\<And>r. key (f r) = key r"
  shows "sql_find key k' (sql_update key k f rows) =
    (if k' = k then map_option f (sql_find key k rows) else sql_find key k' rows)"
  using assms by (induction rows) (auto simp: sql_update_def)

lemma map_sql_update: "(\<And>r. g (f r) = g r) \<Longrightarrow> map g (sql_update key k f rows) = map g rows"
  by (simp add: sql_update_def comp_def if_distrib cong: if_cong)

lemma sql_find_delete:
  assumes "distinct (map key rows)"
  shows "sql_find key k' (sql_delete other k rows) =
    (case sql_find key k' rows of Some r \<Rightarrow> if other r = k then None else Some r | None \<Rightarrow> None)"
proof -
  have "distinct (map key (sql_delete other k rows))" using assms by (simp add: sql_delete_def distinct_map_filter)
  then have eq: "sql_find key k' (sql_delete other k rows) = Some r \<longleftrightarrow> sql_find key k' rows = Some r \<and> other r \<noteq> k" for r
    using assms by (auto simp: sql_find_in) (auto simp: sql_delete_def)
  show ?thesis
  proof (cases "sql_find key k' (sql_delete other k rows)")
    case None
    then have "\<not> (sql_find key k' rows = Some r \<and> other r \<noteq> k)" for r using eq [of r] by simp
    with None show ?thesis by (auto split: option.split)
  next
    case (Some r)
    with eq [of r] show ?thesis by simp
  qed
qed

lemma distinct_sql_delete: "distinct (map g rows) \<Longrightarrow> distinct (map g (sql_delete key k rows))"
  by (simp add: sql_delete_def distinct_map_filter)

section \<open>Refinement of a table by a map\<close>

text \<open>
  A table keeps an invariant and each statement acts on its abstraction as the specification says; then so does
  every sequence of statements.
\<close>

locale simulation =
  fixes inv :: "'s \<Rightarrow> bool"
    and abs :: "'s \<Rightarrow> 'm"
    and exec :: "'op \<Rightarrow> 's \<Rightarrow> 's"
    and spec :: "'op \<Rightarrow> 'm \<Rightarrow> 'm"
  assumes exec_inv: "inv s \<Longrightarrow> inv (exec op s)"
    and exec_abs: "inv s \<Longrightarrow> abs (exec op s) = spec op (abs s)"
begin

lemma run_inv: "inv s \<Longrightarrow> inv (fold exec ops s)"
  by (induction ops arbitrary: s) (simp_all add: exec_inv)

lemma run_abs: "inv s \<Longrightarrow> abs (fold exec ops s) = fold spec ops (abs s)"
  by (induction ops arbitrary: s) (simp_all add: exec_inv exec_abs)

end

end
