(* ===== verification/Migrations.thy ===== *)
theory Migrations
  imports Database "HOL-Library.Char_ord"
begin

text \<open>
  The other half of \<open>crates/persistence/src/db/sqlite.rs\<close>, and \<open>error.rs\<close>, \<open>migrations.rs\<close>: the SQL
  of the migrations as statements, a connection with its open transaction, the run of the migrations inside one, the
  \<open>.sql\<close> files of the repository, and the opening of a database file. Every call to the engine may fail.
\<close>

section \<open>Errors\<close>

datatype persistence_failure =
    Pe_Sql sql_error | Pe_Pool string | Pe_Serialization string | Pe_NotFound | Pe_UniqueViolation string
  | Pe_ConcurrentModification | Pe_Internal string

text \<open>\<open>From<rusqlite::Error>\<close>, as it is written out in the source.\<close>

fun failure_of_sql :: "sql_error \<Rightarrow> persistence_failure" where
  "failure_of_sql QueryReturnedNoRows = Pe_NotFound"
| "failure_of_sql e = Pe_Sql e"

section \<open>The engine\<close>

record schema =
  sc_applied :: "(string \<times> int) list"
  sc_tables :: "(string \<times> string list) list"
  sc_indexes :: "string list"

definition empty_schema :: schema where
  "empty_schema = \<lparr> sc_applied = [], sc_tables = [], sc_indexes = [] \<rparr>"

definition has_column :: "string \<Rightarrow> string \<Rightarrow> schema \<Rightarrow> bool" where
  "has_column table column s \<longleftrightarrow> (case map_of (sc_tables s) table of Some cs \<Rightarrow> column \<in> set cs | None \<Rightarrow> False)"

text \<open>
  The statements that occur in a migration: \<open>CREATE TABLE IF NOT EXISTS\<close>, \<open>CREATE INDEX IF NOT EXISTS\<close> (name,
  table, column), \<open>ALTER TABLE \<dots> ADD COLUMN\<close>, and the two that open and close a transaction.
\<close>

datatype sql_stmt =
    Create_Table string "string list" | Create_Index string string string | Add_Column string string
  | Begin_Tx | Commit_Tx

text \<open>
  A connection: the schema on disk, the one of the open transaction if there is one, the number of calls made so
  far, and which call the engine fails.
\<close>

record sqlite_conn =
  sq_disk :: schema
  sq_tx :: "schema option"
  sq_calls :: nat
  sq_fault :: "nat \<Rightarrow> sql_error option"

type_synonym 'a sql = "(sqlite_conn, 'a, sql_error) action"

definition sq_current :: "sqlite_conn \<Rightarrow> schema" where
  "sq_current c = (case sq_tx c of Some s \<Rightarrow> s | None \<Rightarrow> sq_disk c)"

definition set_current :: "schema \<Rightarrow> sqlite_conn \<Rightarrow> sqlite_conn" where
  "set_current s c = (case sq_tx c of Some _ \<Rightarrow> c\<lparr> sq_tx := Some s \<rparr> | None \<Rightarrow> c\<lparr> sq_disk := s \<rparr>)"

definition engine_call :: "'a sql \<Rightarrow> 'a sql" where
  "engine_call m c =
     (let c' = c\<lparr> sq_calls := Suc (sq_calls c) \<rparr>
      in case sq_fault c (sq_calls c) of Some e \<Rightarrow> (Err e, c') | None \<Rightarrow> m c')"

definition sql_fails :: "string \<Rightarrow> 'a sql" where
  "sql_fails msg = afail (SqliteFailure (Some msg))"

fun exec_stmt :: "sql_stmt \<Rightarrow> unit sql" where
  "exec_stmt (Create_Table t cs) c =
     (let s = sq_current c in
      (Ok (), set_current (if map_of (sc_tables s) t = None then s\<lparr> sc_tables := sc_tables s @ [(t, cs)] \<rparr> else s) c))"
| "exec_stmt (Create_Index i t col) c =
     (let s = sq_current c in
      if i \<in> set (sc_indexes s) then (Ok (), c)
      else if has_column t col s then (Ok (), set_current (s\<lparr> sc_indexes := sc_indexes s @ [i] \<rparr>) c)
      else sql_fails ''no such column'' c)"
| "exec_stmt (Add_Column t col) c =
     (let s = sq_current c in
      case map_of (sc_tables s) t of
        Some cs \<Rightarrow>
          if col \<in> set cs then sql_fails ''duplicate column name'' c
          else (Ok (), set_current (s\<lparr> sc_tables := map (\<lambda>(t', cs'). (t', if t' = t then cs @ [col] else cs')) (sc_tables s) \<rparr>) c)
      | None \<Rightarrow> sql_fails ''no such table'' c)"
| "exec_stmt Begin_Tx c =
     (if sq_tx c = None then (Ok (), c\<lparr> sq_tx := Some (sq_disk c) \<rparr>)
      else sql_fails ''cannot start a transaction within a transaction'' c)"
| "exec_stmt Commit_Tx c =
     (case sq_tx c of
        Some s \<Rightarrow> (Ok (), c\<lparr> sq_disk := s, sq_tx := None \<rparr>)
      | None \<Rightarrow> sql_fails ''cannot commit - no transaction is active'' c)"

text \<open>\<open>execute_batch\<close>: the statements in order, up to the first that fails; what the earlier ones did stays.\<close>

fun execute_batch :: "sql_stmt list \<Rightarrow> unit sql" where
  "execute_batch [] = aret ()"
| "execute_batch (st # sts) = abind (engine_call (exec_stmt st)) (\<lambda>_. execute_batch sts)"

text \<open>The query for an applied migration, and the statement that records one.\<close>

definition query_applied :: "string \<Rightarrow> int sql" where
  "query_applied i =
     engine_call (\<lambda>c.
       if map_of (sc_tables (sq_current c)) ''schema_migrations'' = None then sql_fails ''no such table'' c
       else (if map_of (sc_applied (sq_current c)) i = None then Err QueryReturnedNoRows else Ok 1, c))"

definition insert_applied :: "string \<Rightarrow> int \<Rightarrow> unit sql" where
  "insert_applied i now =
     engine_call (\<lambda>c.
       if map_of (sc_tables (sq_current c)) ''schema_migrations'' = None then sql_fails ''no such table'' c
       else (Ok (), set_current ((sq_current c)\<lparr> sc_applied := sc_applied (sq_current c) @ [(i, now)] \<rparr>) c))"

text \<open>
  A transaction that is dropped without a commit is rolled back. The drop ignores an error of the engine, and what the engine keeps
  after one is its own affair: here the rollback succeeds.
\<close>

definition rollback :: "sqlite_conn \<Rightarrow> sqlite_conn" where
  "rollback c = c\<lparr> sq_tx := None \<rparr>"

definition in_transaction :: "unit sql \<Rightarrow> unit sql" where
  "in_transaction body c =
     (case engine_call (exec_stmt Begin_Tx) c of
        (Ok _, c1) \<Rightarrow>
          (case abind body (\<lambda>_. engine_call (exec_stmt Commit_Tx)) c1 of
             (Ok _, c2) \<Rightarrow> (Ok (), c2)
           | (r, c2) \<Rightarrow> (r, rollback c2))
      | (r, c1) \<Rightarrow> (r, c1))"

section \<open>Migrations\<close>

definition core_statements :: "sql_stmt list" where
  "core_statements =
     [Create_Table ''schema_migrations'' [''id'', ''applied_at''],
      Create_Table ''peers'' [''id'', ''display_name'', ''fingerprint'', ''ed25519_public'', ''x25519_public'', ''addresses'',
        ''status'', ''verified'', ''first_seen'', ''last_seen''],
      Create_Index ''idx_peers_fingerprint'' ''peers'' ''fingerprint'',
      Create_Table ''messages'' [''id'', ''sender_fingerprint'', ''recipient_fingerprints'', ''content'', ''content_type'',
        ''state'', ''message_json'', ''created_at'', ''sent_at'', ''delivered_at'', ''read_at''],
      Create_Index ''idx_messages_sender'' ''messages'' ''sender_fingerprint'',
      Create_Index ''idx_messages_created_at'' ''messages'' ''created_at'',
      Create_Table ''message_recipients'' [''message_id'', ''recipient_fingerprint''],
      Create_Index ''idx_message_recipients_recipient'' ''message_recipients'' ''recipient_fingerprint'']"

definition migrations :: "(string \<times> sql_stmt list) list" where
  "migrations = [(''001_create_core_tables'', core_statements)]"

text \<open>
  One migration: it is applied when the query says that there is no such row. Any other error of the query counts as
  applied.
\<close>

definition apply_migration :: "int \<Rightarrow> string \<times> sql_stmt list \<Rightarrow> unit sql" where
  "apply_migration now m c =
     (case query_applied (fst m) c of
        (Err QueryReturnedNoRows, c') \<Rightarrow> abind (execute_batch (snd m)) (\<lambda>_. insert_applied (fst m) now) c'
      | (_, c') \<Rightarrow> (Ok (), c'))"

fun apply_all :: "int \<Rightarrow> (string \<times> sql_stmt list) list \<Rightarrow> unit sql" where
  "apply_all now [] = aret ()"
| "apply_all now (m # ms) = abind (apply_migration now m) (\<lambda>_. apply_all now ms)"

definition run_body :: "int \<Rightarrow> unit sql" where
  "run_body now =
     abind (execute_batch [Create_Table ''schema_migrations'' [''id'', ''applied_at'']]) (\<lambda>_. apply_all now migrations)"

text \<open>\<open>conn\<close> is what the pool answers.\<close>

definition run_migrations ::
  "string option \<Rightarrow> int \<Rightarrow> (sqlite_conn, unit, persistence_failure) action" where
  "run_migrations pool_error now =
     (case pool_error of Some e \<Rightarrow> afail (Pe_Pool e) | None \<Rightarrow> amap_err failure_of_sql (in_transaction (run_body now)))"

definition fresh_conn :: sqlite_conn where
  "fresh_conn = \<lparr> sq_disk = empty_schema, sq_tx = None, sq_calls = 0, sq_fault = (\<lambda>_. None) \<rparr>"

definition migrated :: "int \<Rightarrow> schema" where
  "migrated now = sq_disk (snd (run_migrations None now fresh_conn))"

section \<open>Migration files\<close>

text \<open>
  An entry of the directory: its name as bytes, whether it is UTF-8, and the statements in it, \<open>None\<close> when it cannot
  be read. \<open>None\<close> for the listing is a directory that cannot be read.
\<close>

record sql_file =
  sf_name :: string
  sf_utf8 :: bool
  sf_script :: "sql_stmt list option"

definition ends_with :: "string \<Rightarrow> string \<Rightarrow> bool" where
  "ends_with pat s \<longleftrightarrow> length pat \<le> length s \<and> drop (length s - length pat) s = pat"

definition apply_file :: "int \<Rightarrow> sql_file \<Rightarrow> unit sql" where
  "apply_file now f =
     (if sf_utf8 f \<and> ends_with ''.sql'' (sf_name f) then
        (\<lambda>c. case query_applied (sf_name f) c of
           (Err QueryReturnedNoRows, c') \<Rightarrow>
             (case sf_script f of
                Some sts \<Rightarrow> abind (execute_batch sts) (\<lambda>_. insert_applied (sf_name f) now) c'
              | None \<Rightarrow> (Ok (), c'))
         | (_, c') \<Rightarrow> (Ok (), c'))
      else aret ())"

fun apply_files :: "int \<Rightarrow> sql_file list \<Rightarrow> unit sql" where
  "apply_files now [] = aret ()"
| "apply_files now (f # fs) = abind (apply_file now f) (\<lambda>_. apply_files now fs)"

definition external_migrations :: "int \<Rightarrow> sql_file list option \<Rightarrow> unit sql" where
  "external_migrations now listing =
     (case listing of Some files \<Rightarrow> apply_files now (sort_key sf_name files) | None \<Rightarrow> aret ())"

text \<open>The file that the repository ships.\<close>

definition add_trusted_column :: sql_file where
  "add_trusted_column = \<lparr> sf_name = ''002_add_trusted_column.sql'', sf_utf8 = True,
     sf_script = Some [Begin_Tx, Add_Column ''peers'' ''trusted'', Create_Index ''idx_peers_trusted'' ''peers'' ''trusted'', Commit_Tx] \<rparr>"

section \<open>Inside a transaction\<close>

text \<open>While a transaction is open, nothing but a commit reaches the disk.\<close>

definition tx_frame :: "sqlite_conn \<Rightarrow> sqlite_conn \<Rightarrow> bool" where
  "tx_frame c c' \<longleftrightarrow> sq_fault c' = sq_fault c
     \<and> (case sq_tx c of Some _ \<Rightarrow> sq_disk c' = sq_disk c \<and> sq_tx c' \<noteq> None | None \<Rightarrow> True)"

interpretation txn: frame_relation tx_frame
  by unfold_locales (auto simp: tx_frame_def split: option.splits)

fun plain_stmt :: "sql_stmt \<Rightarrow> bool" where
  "plain_stmt Begin_Tx = False"
| "plain_stmt Commit_Tx = False"
| "plain_stmt _ = True"

lemma tx_frame_set_current [simp]: "tx_frame c (set_current s c)"
  by (simp add: tx_frame_def set_current_def split: option.split)

lemma tx_frame_call [simp]: "tx_frame (c\<lparr> sq_calls := n \<rparr>) c' \<longleftrightarrow> tx_frame c c'"
  by (simp add: tx_frame_def split: option.split)

lemma keeps_engine_call: "txn.keeps m \<Longrightarrow> txn.keeps (engine_call m)"
proof (rule txn.keepsI)
  fix c
  assume "txn.keeps m"
  then have "tx_frame (c\<lparr> sq_calls := Suc (sq_calls c) \<rparr>) (snd (m (c\<lparr> sq_calls := Suc (sq_calls c) \<rparr>)))"
    by (simp add: txn.keeps_def)
  then show "tx_frame c (snd (engine_call m c))"
    by (auto simp: engine_call_def Let_def tx_frame_def split: option.splits)
qed

lemma keeps_exec_stmt: "plain_stmt st \<Longrightarrow> txn.keeps (exec_stmt st)"
  by (rule txn.keepsI, cases st) (auto simp: Let_def sql_fails_def afail_def txn.frame_refl split: option.split)

lemma keeps_execute_batch: "list_all plain_stmt sts \<Longrightarrow> txn.keeps (execute_batch sts)"
  by (induction sts) (simp_all add: txn.keeps_aret txn.keeps_abind keeps_engine_call keeps_exec_stmt)

lemma keeps_query_applied: "txn.keeps (query_applied i)"
  unfolding query_applied_def
  by (intro keeps_engine_call txn.keepsI) (simp add: sql_fails_def afail_def txn.frame_refl)

lemma keeps_insert_applied: "txn.keeps (insert_applied i now)"
  unfolding insert_applied_def
  by (intro keeps_engine_call txn.keepsI) (simp add: sql_fails_def afail_def txn.frame_refl)

text \<open>The guard of both kinds of migration: go on only if the query finds no row.\<close>

definition unless_applied :: "string \<Rightarrow> unit sql \<Rightarrow> unit sql" where
  "unless_applied i m c =
     (case query_applied i c of (Err QueryReturnedNoRows, c') \<Rightarrow> m c' | (_, c') \<Rightarrow> (Ok (), c'))"

lemma keeps_unless_applied: "txn.keeps m \<Longrightarrow> txn.keeps (unless_applied i m)"
proof (rule txn.keepsI)
  fix c
  assume m: "txn.keeps m"
  obtain r c' where q: "query_applied i c = (r, c')" by (cases "query_applied i c")
  have "tx_frame c c'" using txn.keepsD [OF keeps_query_applied q] .
  moreover have "tx_frame c' (snd (m c'))" using m by (simp add: txn.keeps_def)
  ultimately show "tx_frame c (snd (unless_applied i m c))"
    by (auto simp: unless_applied_def q intro: txn.frame_trans split: result.split sql_error.split)
qed

lemma apply_migration_guard:
  "apply_migration now m = unless_applied (fst m) (abind (execute_batch (snd m)) (\<lambda>_. insert_applied (fst m) now))"
  by (rule ext) (simp add: apply_migration_def unless_applied_def)

lemma apply_file_guard:
  "apply_file now f =
     (if sf_utf8 f \<and> ends_with ''.sql'' (sf_name f) then unless_applied (sf_name f)
        (case sf_script f of Some sts \<Rightarrow> abind (execute_batch sts) (\<lambda>_. insert_applied (sf_name f) now) | None \<Rightarrow> aret ())
      else aret ())"
  by (rule ext) (auto simp: apply_file_def unless_applied_def aret_def split: option.split sql_error.split result.split prod.split)

definition plain_file :: "sql_file \<Rightarrow> bool" where
  "plain_file f \<longleftrightarrow> (case sf_script f of Some sts \<Rightarrow> list_all plain_stmt sts | None \<Rightarrow> True)"

lemma keeps_apply_all: "list_all (list_all plain_stmt \<circ> snd) ms \<Longrightarrow> txn.keeps (apply_all now ms)"
  by (induction ms)
     (simp_all add: apply_migration_guard txn.keeps_aret txn.keeps_abind keeps_unless_applied keeps_execute_batch keeps_insert_applied)

lemma keeps_apply_files: "list_all plain_file fs \<Longrightarrow> txn.keeps (apply_files now fs)"
  by (induction fs)
     (simp_all add: apply_file_guard plain_file_def txn.keeps_aret txn.keeps_abind keeps_unless_applied keeps_execute_batch
        keeps_insert_applied split: option.splits)

lemma keeps_external: "\<forall>f\<in>set (case listing of Some fs \<Rightarrow> fs | None \<Rightarrow> []). plain_file f \<Longrightarrow> txn.keeps (external_migrations now listing)"
  by (auto simp: external_migrations_def list_all_iff txn.keeps_aret intro!: keeps_apply_files split: option.splits)

lemma migrations_plain: "list_all (list_all plain_stmt \<circ> snd) migrations"
  by (simp add: migrations_def core_statements_def)

lemma keeps_run_body: "txn.keeps (run_body now)"
  unfolding run_body_def
  by (intro txn.keeps_abind keeps_execute_batch keeps_apply_all migrations_plain) simp

text \<open>What a transaction around a body of this kind leaves.\<close>

lemma in_transaction_cases:
  assumes "txn.keeps body" and "sq_tx c = None"
  obtains (committed) c1 c2 s where "body c1 = (Ok (), c2)" "sq_tx c1 = Some (sq_disk c)" "sq_disk c1 = sq_disk c" "sq_fault c1 = sq_fault c"
      "sq_tx c2 = Some s" "in_transaction body c = (Ok (), c2\<lparr> sq_calls := Suc (sq_calls c2), sq_disk := s, sq_tx := None \<rparr>)"
  | (failed) r c' where "in_transaction body c = (r, c')" "r \<noteq> Ok ()" "sq_disk c' = sq_disk c" "sq_tx c' = None" "sq_fault c' = sq_fault c"
proof (cases "sq_fault c (sq_calls c)")
  case (Some e)
  then have "in_transaction body c = (Err e, c\<lparr> sq_calls := Suc (sq_calls c) \<rparr>)"
    by (simp add: in_transaction_def engine_call_def Let_def)
  then show ?thesis by (rule failed) (simp_all add: assms(2))
next
  case None
  let ?c1 = "c\<lparr> sq_calls := Suc (sq_calls c), sq_tx := Some (sq_disk c) \<rparr>"
  have begun: "engine_call (exec_stmt Begin_Tx) c = (Ok (), ?c1)" using None assms(2) by (simp add: engine_call_def Let_def)
  obtain r c2 where b: "body ?c1 = (r, c2)" by (cases "body ?c1")
  have fr: "tx_frame ?c1 c2" by (rule txn.keepsD [OF assms(1) b])
  then obtain s where s: "sq_tx c2 = Some s" "sq_disk c2 = sq_disk c" "sq_fault c2 = sq_fault c" by (auto simp: tx_frame_def)
  show ?thesis
  proof (cases r)
    case (Ok u)
    show ?thesis
    proof (cases "sq_fault c2 (sq_calls c2)")
      case None
      have "engine_call (exec_stmt Commit_Tx) c2 = (Ok (), c2\<lparr> sq_calls := Suc (sq_calls c2), sq_disk := s, sq_tx := None \<rparr>)"
        using None s(1) by (simp add: engine_call_def Let_def)
      then have "in_transaction body c = (Ok (), c2\<lparr> sq_calls := Suc (sq_calls c2), sq_disk := s, sq_tx := None \<rparr>)"
        by (simp add: in_transaction_def begun b Ok abind_def)
      moreover have "body ?c1 = (Ok (), c2)" using b Ok by simp
      ultimately show ?thesis using s by (intro committed [of ?c1 c2 s]) simp_all
    next
      case (Some e)
      have "engine_call (exec_stmt Commit_Tx) c2 = (Err e, c2\<lparr> sq_calls := Suc (sq_calls c2) \<rparr>)"
        using Some by (simp add: engine_call_def Let_def)
      then have "in_transaction body c = (Err e, rollback (c2\<lparr> sq_calls := Suc (sq_calls c2) \<rparr>))"
        by (simp add: in_transaction_def begun b Ok abind_def)
      then show ?thesis by (rule failed) (simp_all add: rollback_def s)
    qed
  next
    case (Err e)
    have "in_transaction body c = (Err e, rollback c2)" by (simp add: in_transaction_def begun b Err abind_def)
    then show ?thesis by (rule failed) (simp_all add: rollback_def s)
  next
    case Panic
    have "in_transaction body c = (Panic, rollback c2)" by (simp add: in_transaction_def begun b Panic abind_def)
    then show ?thesis by (rule failed) (simp_all add: rollback_def s)
  qed
qed

section \<open>An engine that does not fail\<close>

definition reliable :: "sqlite_conn \<Rightarrow> bool" where
  "reliable c \<longleftrightarrow> sq_fault c = (\<lambda>_. None)"

definition has_table :: "string \<Rightarrow> schema \<Rightarrow> bool" where
  "has_table t s \<longleftrightarrow> map_of (sc_tables s) t \<noteq> None"

definition applied :: "string \<Rightarrow> schema \<Rightarrow> bool" where
  "applied i s \<longleftrightarrow> map_of (sc_applied s) i \<noteq> None"

lemma engine_call_reliable: "reliable c \<Longrightarrow> engine_call m c = m (c\<lparr> sq_calls := Suc (sq_calls c) \<rparr>)"
  by (simp add: reliable_def engine_call_def Let_def)

lemma sq_current_tx [simp]: "sq_tx c = Some s \<Longrightarrow> sq_current c = s"
  by (simp add: sq_current_def)

lemma set_current_tx [simp]: "sq_tx c = Some s \<Longrightarrow> set_current s' c = c\<lparr> sq_tx := Some s' \<rparr>"
  by (simp add: set_current_def)

lemma unless_applied_reliable:
  assumes "reliable c" and "sq_tx c = Some s" and "has_table ''schema_migrations'' s"
  shows "unless_applied i m c = (if applied i s then (Ok (), c\<lparr> sq_calls := Suc (sq_calls c) \<rparr>) else m (c\<lparr> sq_calls := Suc (sq_calls c) \<rparr>))"
  using assms by (auto simp: unless_applied_def query_applied_def engine_call_reliable has_table_def applied_def)

text \<open>A plain statement leaves the list of applied migrations alone and drops no table.\<close>

lemma map_of_second: "map_of (map (\<lambda>(t', cs'). (t', if t' = t then cs else cs')) ts) x =
    (if x = t then map_option (\<lambda>_. cs) (map_of ts x) else map_of ts x)"
  by (induction ts) auto

lemma exec_stmt_plain:
  assumes "exec_stmt st c = (Ok (), c')" and "plain_stmt st" and "sq_tx c = Some s"
  shows "\<exists>s'. c' = c\<lparr> sq_tx := Some s' \<rparr> \<and> sc_applied s' = sc_applied s \<and> (has_table t s \<longrightarrow> has_table t s')"
proof (cases st)
  case (Create_Table u cs)
  with assms show ?thesis by (auto simp: Let_def has_table_def map_of_append)
next
  case (Create_Index i u col)
  with assms show ?thesis
    by (auto simp: Let_def has_table_def sql_fails_def afail_def split: if_splits intro: exI [of _ s])
next
  case (Add_Column u col)
  with assms show ?thesis
    by (auto simp: Let_def has_table_def sql_fails_def afail_def map_of_second split: if_splits option.splits)
qed (use assms in simp_all)

lemma execute_batch_plain:
  assumes "execute_batch sts c = (Ok (), c')" and "list_all plain_stmt sts" and "reliable c" and "sq_tx c = Some s"
  shows "\<exists>s' n. c' = c\<lparr> sq_tx := Some s', sq_calls := n \<rparr> \<and> sc_applied s' = sc_applied s \<and> (has_table t s \<longrightarrow> has_table t s')"
  using assms
proof (induction sts arbitrary: c s)
  case Nil
  then show ?case by (intro exI [of _ s] exI [of _ "sq_calls c"]) (simp add: aret_def)
next
  case (Cons st sts)
  from Cons.prems(1,3) obtain c1 where st: "exec_stmt st (c\<lparr> sq_calls := Suc (sq_calls c) \<rparr>) = (Ok (), c1)"
    and rest: "execute_batch sts c1 = (Ok (), c')" by (auto simp: abind_eq_Ok engine_call_reliable)
  from exec_stmt_plain [OF st, of s t] Cons.prems(2,4) obtain s1 where
    s1: "c1 = (c\<lparr> sq_calls := Suc (sq_calls c) \<rparr>)\<lparr> sq_tx := Some s1 \<rparr>" "sc_applied s1 = sc_applied s" "has_table t s \<longrightarrow> has_table t s1"
    by auto
  have "reliable c1" using Cons.prems(3) s1(1) by (simp add: reliable_def)
  from Cons.IH [OF rest _ this, of s1] Cons.prems(2) s1 show ?case by fastforce
qed

lemma insert_applied_reliable:
  assumes "insert_applied i now c = (Ok (), c')" and "reliable c" and "sq_tx c = Some s"
  shows "has_table ''schema_migrations'' s
    \<and> c' = c\<lparr> sq_tx := Some (s\<lparr> sc_applied := sc_applied s @ [(i, now)] \<rparr>), sq_calls := Suc (sq_calls c) \<rparr>"
  using assms
  by (auto simp: insert_applied_def engine_call_reliable sql_fails_def afail_def has_table_def split: if_splits)

text \<open>A script and its entry.\<close>

lemma script_and_entry:
  assumes "abind (execute_batch sts) (\<lambda>_. insert_applied i now) c = (Ok (), c')"
    and "list_all plain_stmt sts" and "reliable c" and "sq_tx c = Some s"
  shows "\<exists>s' n. c' = c\<lparr> sq_tx := Some s', sq_calls := n \<rparr> \<and> sc_applied s' = sc_applied s @ [(i, now)] \<and> has_table ''schema_migrations'' s'"
proof -
  from assms(1) obtain c1 where b: "execute_batch sts c = (Ok (), c1)" and ins: "insert_applied i now c1 = (Ok (), c')"
    by (auto simp: abind_eq_Ok)
  from execute_batch_plain [OF b assms(2-4), of "[]"] obtain s1 n where
    s1: "c1 = c\<lparr> sq_tx := Some s1, sq_calls := n \<rparr>" "sc_applied s1 = sc_applied s" by auto
  have "reliable c1" "sq_tx c1 = Some s1" using assms(3) s1(1) by (simp_all add: reliable_def)
  from insert_applied_reliable [OF ins this] s1 show ?thesis
    by (intro exI [of _ "s1\<lparr> sc_applied := sc_applied s1 @ [(i, now)] \<rparr>"] exI [of _ "Suc n"]) (auto simp: has_table_def)
qed

section \<open>The migrations of the code\<close>

definition ready :: "schema \<Rightarrow> bool" where
  "ready s \<longleftrightarrow> has_table ''schema_migrations'' s \<and> list_all (\<lambda>m. applied (fst m) s) migrations"

lemma run_body_reliable:
  assumes "reliable c" and "sq_tx c = Some s"
  obtains s1 where "has_table ''schema_migrations'' s1" "sc_applied s1 = sc_applied s" "has_table ''schema_migrations'' s \<longrightarrow> s1 = s"
    "run_body now c = apply_all now migrations (c\<lparr> sq_calls := Suc (sq_calls c), sq_tx := Some s1 \<rparr>)"
proof -
  let ?s1 = "if has_table ''schema_migrations'' s then s
     else s\<lparr> sc_tables := sc_tables s @ [(''schema_migrations'', [''id'', ''applied_at''])] \<rparr>"
  have "run_body now c = apply_all now migrations (c\<lparr> sq_calls := Suc (sq_calls c), sq_tx := Some ?s1 \<rparr>)"
    using assms by (simp add: run_body_def abind_def aret_def engine_call_reliable has_table_def Let_def)
  moreover have "has_table ''schema_migrations'' ?s1" by (auto simp: has_table_def map_add_def split: option.split)
  ultimately show ?thesis by (intro that [of ?s1]) auto
qed

lemma run_body_ready:
  assumes "run_body now c = (Ok (), c')" and "reliable c" and "sq_tx c = Some s"
  shows "\<exists>s'. sq_tx c' = Some s' \<and> ready s'
    \<and> sc_applied s' = sc_applied s @ (if applied ''001_create_core_tables'' s then [] else [(''001_create_core_tables'', now)])"
proof -
  from run_body_reliable [OF assms(2,3), of now] obtain s1 where s1: "has_table ''schema_migrations'' s1"
    and a1: "sc_applied s1 = sc_applied s"
    and run: "run_body now c = apply_all now migrations (c\<lparr> sq_calls := Suc (sq_calls c), sq_tx := Some s1 \<rparr>)" .
  let ?c1 = "c\<lparr> sq_calls := Suc (sq_calls c), sq_tx := Some s1 \<rparr>"
  let ?c2 = "?c1\<lparr> sq_calls := Suc (sq_calls ?c1) \<rparr>"
  have rel: "reliable ?c1" "reliable ?c2" using assms(2) by (simp_all add: reliable_def)
  have "unless_applied ''001_create_core_tables'' (abind (execute_batch core_statements) (\<lambda>_. insert_applied ''001_create_core_tables'' now)) ?c1 = (Ok (), c')"
    using assms(1) run by (auto simp: migrations_def apply_migration_guard abind_eq_Ok aret_eq_Ok)
  then have step: "if applied ''001_create_core_tables'' s1 then c' = ?c2
     else abind (execute_batch core_statements) (\<lambda>_. insert_applied ''001_create_core_tables'' now) ?c2 = (Ok (), c')"
    by (simp add: unless_applied_reliable [OF rel(1) _ s1] split: if_splits)
  have same: "applied i s1 = applied i s" for i using a1 by (simp add: applied_def)
  show ?thesis
  proof (cases "applied ''001_create_core_tables'' s1")
    case False
    with step have "abind (execute_batch core_statements) (\<lambda>_. insert_applied ''001_create_core_tables'' now) ?c2 = (Ok (), c')"
      by simp
    from script_and_entry [OF this _ rel(2)] obtain s' n where "c' = ?c2\<lparr> sq_tx := Some s', sq_calls := n \<rparr>"
      "sc_applied s' = sc_applied s @ [(''001_create_core_tables'', now)]" "has_table ''schema_migrations'' s'"
      by (auto simp: core_statements_def a1)
    moreover have "\<not> applied ''001_create_core_tables'' s" using False same by simp
    ultimately show ?thesis by (auto simp: ready_def migrations_def applied_def map_add_def split: option.split)
  qed (use s1 step a1 same in \<open>auto simp: ready_def migrations_def\<close>)
qed

lemma run_body_again:
  assumes "reliable c" and "sq_tx c = Some s" and "ready s"
  shows "\<exists>n. run_body now c = (Ok (), c\<lparr> sq_calls := n \<rparr>)"
proof -
  from assms(3) have t: "has_table ''schema_migrations'' s" "applied ''001_create_core_tables'' s" by (simp_all add: ready_def migrations_def)
  from run_body_reliable [OF assms(1,2), of now] t(1) have
    run: "run_body now c = apply_all now migrations (c\<lparr> sq_calls := Suc (sq_calls c), sq_tx := Some s \<rparr>)" by metis
  let ?c1 = "c\<lparr> sq_calls := Suc (sq_calls c), sq_tx := Some s \<rparr>"
  have "reliable ?c1" using assms(1) by (simp add: reliable_def)
  then have "unless_applied ''001_create_core_tables'' m ?c1 = (Ok (), ?c1\<lparr> sq_calls := Suc (sq_calls ?c1) \<rparr>)" for m
    using unless_applied_reliable [of ?c1 s] t by simp
  then have "run_body now c = (Ok (), c\<lparr> sq_calls := Suc (Suc (sq_calls c)), sq_tx := Some s \<rparr>)"
    by (simp add: run migrations_def apply_migration_guard abind_def aret_def)
  moreover have "c\<lparr> sq_calls := n, sq_tx := Some s \<rparr> = c\<lparr> sq_calls := n \<rparr>" for n using assms(2) by (cases c) simp
  ultimately show ?thesis by auto
qed

section \<open>Migration files in order\<close>

definition pending :: "schema \<Rightarrow> sql_file \<Rightarrow> bool" where
  "pending s f \<longleftrightarrow> sf_utf8 f \<and> ends_with ''.sql'' (sf_name f) \<and> \<not> applied (sf_name f) s \<and> sf_script f \<noteq> None"

lemma apply_file_reliable:
  assumes "apply_file now f c = (Ok (), c')" and "plain_file f" and "reliable c" and "sq_tx c = Some s"
    and "has_table ''schema_migrations'' s"
  shows "\<exists>s' n. c' = c\<lparr> sq_tx := Some s', sq_calls := n \<rparr> \<and> has_table ''schema_migrations'' s'
    \<and> sc_applied s' = sc_applied s @ (if pending s f then [(sf_name f, now)] else [])"
proof (cases "pending s f")
  case True
  then obtain sts where sts: "sf_script f = Some sts" "sf_utf8 f" "ends_with ''.sql'' (sf_name f)" "\<not> applied (sf_name f) s"
    by (auto simp: pending_def)
  let ?c1 = "c\<lparr> sq_calls := Suc (sq_calls c) \<rparr>"
  from assms(1) sts have "abind (execute_batch sts) (\<lambda>_. insert_applied (sf_name f) now) ?c1 = (Ok (), c')"
    by (simp add: apply_file_guard unless_applied_reliable [OF assms(3-5)])
  moreover have "list_all plain_stmt sts" "reliable ?c1" "sq_tx ?c1 = Some s"
    using assms(2-4) sts by (simp_all add: plain_file_def reliable_def)
  ultimately show ?thesis using script_and_entry [of sts "sf_name f" now ?c1 c' s] True by auto
next
  case False
  let ?c1 = "c\<lparr> sq_calls := Suc (sq_calls c) \<rparr>"
  have "c' = c \<or> c' = ?c1"
  proof (cases "sf_utf8 f \<and> ends_with ''.sql'' (sf_name f)")
    case g: True
    show ?thesis
    proof (cases "applied (sf_name f) s")
      case True
      with assms(1) g show ?thesis by (simp add: apply_file_guard unless_applied_reliable [OF assms(3-5)])
    next
      case new: False
      with False g have "sf_script f = None" by (simp add: pending_def)
      with new assms(1) g show ?thesis by (simp add: apply_file_guard unless_applied_reliable [OF assms(3-5)] aret_def)
    qed
  qed (use assms(1) in \<open>auto simp: apply_file_guard aret_def\<close>)
  moreover have "c\<lparr> sq_calls := n \<rparr> = c\<lparr> sq_tx := Some s, sq_calls := n \<rparr>" for n using assms(4) by (cases c) simp
  moreover from this [of "sq_calls c"] have "c = c\<lparr> sq_tx := Some s, sq_calls := sq_calls c \<rparr>" by (cases c) simp
  ultimately have "\<exists>n. c' = c\<lparr> sq_tx := Some s, sq_calls := n \<rparr>" by metis
  then show ?thesis using assms(5) False by auto
qed

lemma apply_files_reliable:
  assumes "apply_files now fs c = (Ok (), c')" and "list_all plain_file fs" and "reliable c" and "sq_tx c = Some s"
    and "has_table ''schema_migrations'' s" and "distinct (map sf_name fs)"
  shows "\<exists>s'. sq_tx c' = Some s' \<and> has_table ''schema_migrations'' s'
    \<and> sc_applied s' = sc_applied s @ map (\<lambda>f. (sf_name f, now)) (filter (pending s) fs)"
  using assms
proof (induction fs arbitrary: c s)
  case (Cons f fs)
  from Cons.prems(1) obtain c1 where f: "apply_file now f c = (Ok (), c1)" and fs: "apply_files now fs c1 = (Ok (), c')"
    by (auto simp: abind_eq_Ok)
  from apply_file_reliable [OF f _ Cons.prems(3-5)] Cons.prems(2) obtain s1 n where
    c1: "c1 = c\<lparr> sq_tx := Some s1, sq_calls := n \<rparr>" and t1: "has_table ''schema_migrations'' s1"
    and a1: "sc_applied s1 = sc_applied s @ (if pending s f then [(sf_name f, now)] else [])" by auto
  have "reliable c1" using Cons.prems(3) c1 by (simp add: reliable_def)
  from Cons.IH [OF fs _ this, of s1] c1 t1 Cons.prems(2,6) obtain s' where
    s': "sq_tx c' = Some s'" "has_table ''schema_migrations'' s'"
      "sc_applied s' = sc_applied s1 @ map (\<lambda>f. (sf_name f, now)) (filter (pending s1) fs)" by auto
  have "pending s1 g = pending s g" if "g \<in> set fs" for g
  proof -
    have "sf_name g \<noteq> sf_name f" using that Cons.prems(6) by (metis distinct.simps(2) image_eqI list.map(2) list.set_map)
    then have "applied (sf_name g) s1 = applied (sf_name g) s" by (auto simp: applied_def a1 map_add_def split: option.split)
    then show ?thesis by (simp add: pending_def)
  qed
  then have "filter (pending s1) fs = filter (pending s) fs" by (rule filter_cong [OF refl])
  with s' a1 show ?case by simp
qed (auto simp: aret_def)

section \<open>Properties\<close>

text \<open>
  C34: The migrations are all or nothing, and they can be run again. From any state of the database, with failures of the
  pool and the engine at any call: the connection is left without an open transaction, and either the call succeeds or
  nothing on disk has changed. If it succeeds and no call failed, every migration is recorded and running them again
  succeeds and changes nothing.
\<close>

theorem migrations_atomic:
  assumes "sq_tx c = None"
  shows "case run_migrations pool_error now c of
      (Ok _, c') \<Rightarrow> sq_tx c' = None \<and> (if reliable c then ready (sq_disk c')
          \<and> fst (run_migrations None now' c') = Ok () \<and> sq_disk (snd (run_migrations None now' c')) = sq_disk c' else True)
    | (_, c') \<Rightarrow> sq_tx c' = None \<and> sq_disk c' = sq_disk c"
proof (cases pool_error)
  case (Some e)
  then show ?thesis using assms by (simp add: run_migrations_def afail_def)
next
  case None
  from keeps_run_body [of now] assms show ?thesis
  proof (cases rule: in_transaction_cases)
    case (committed c1 c2 s)
    let ?c' = "c2\<lparr> sq_calls := Suc (sq_calls c2), sq_disk := s, sq_tx := None \<rparr>"
    have run: "run_migrations None now c = (Ok (), ?c')" using committed by (simp add: run_migrations_def amap_err_def)
    have "ready s \<and> fst (run_migrations None now' ?c') = Ok () \<and> sq_disk (snd (run_migrations None now' ?c')) = s" if "reliable c"
    proof -
      have r: "reliable c1" "reliable ?c'"
        using that committed txn.keepsD [OF keeps_run_body committed(1)] by (simp_all add: reliable_def tx_frame_def)
      have "ready s" using run_body_ready [OF committed(1) r(1) committed(2)] committed(5) by simp
      let ?c3 = "?c'\<lparr> sq_calls := Suc (sq_calls ?c'), sq_tx := Some s \<rparr>"
      have r3: "reliable ?c3" using r(2) by (simp add: reliable_def)
      from run_body_again [OF this _ \<open>ready s\<close>, of now'] obtain n where
        again: "run_body now' ?c3 = (Ok (), ?c3\<lparr> sq_calls := n \<rparr>)" by auto
      have "engine_call (exec_stmt Begin_Tx) ?c' = (Ok (), ?c3)" using r(2) by (simp add: engine_call_reliable)
      moreover have "engine_call (exec_stmt Commit_Tx) (?c3\<lparr> sq_calls := n \<rparr>) = (Ok (), ?c3\<lparr> sq_calls := Suc n, sq_disk := s, sq_tx := None \<rparr>)"
        using r3 by (simp add: engine_call_def reliable_def)
      ultimately show ?thesis using \<open>ready s\<close> again
        by (simp add: run_migrations_def amap_err_def in_transaction_def abind_def)
    qed
    then show ?thesis using None run by simp
  next
    case (failed r c')
    then have "fst (run_migrations None now c) \<noteq> Ok ()" "snd (run_migrations None now c) = c'"
      by (cases r; simp add: run_migrations_def amap_err_def)+
    then show ?thesis using None failed by (auto split: prod.split result.split)
  qed
qed

lemmas migration_eval =
  run_migrations_def run_body_def in_transaction_def migrations_def apply_migration_def core_statements_def
  engine_call_def query_applied_def insert_applied_def action_defs fresh_conn_def empty_schema_def sq_current_def set_current_def
  has_column_def has_table_def applied_def ready_def rollback_def sql_fails_def Let_def

theorem migrations_atomic_witness:
  "(case run_migrations None 5 fresh_conn of
      (Ok _, c') \<Rightarrow> ready (sq_disk c') \<and> sq_disk (snd (run_migrations None 9 c')) = sq_disk c'
    | _ \<Rightarrow> False) \<and> \<not> has_column ''peers'' ''trusted'' (migrated 5)"
proof -
  have "is_ok (fst (run_migrations None 5 fresh_conn))" by (simp add: migration_eval)
  moreover have "\<not> has_column ''peers'' ''trusted'' (migrated 5)" by (simp add: migrated_def migration_eval)
  moreover have "sq_tx fresh_conn = None" "reliable fresh_conn" by (simp_all add: fresh_conn_def reliable_def)
  ultimately show ?thesis using migrations_atomic [of fresh_conn, where pool_error = None and now = 5 and now' = 9]
    by (auto split: prod.splits result.splits)
qed

lemma migrated_no_trusted: "\<not> has_column ''peers'' ''trusted'' (migrated now)"
  by (simp add: migrated_def migration_eval)

text \<open>
  Migration files are applied in the order of their names, each once. In an open transaction whose table of applied
  migrations exists, with files that hold no transaction statements: if the loop over the directory succeeds, it has
  recorded exactly the readable \<open>.sql\<close> files that were not recorded before, in the order of their names.
\<close>

theorem external_migrations_ordered:
  assumes "external_migrations now (Some files) c = (Ok (), c')" and "list_all plain_file files" and "distinct (map sf_name files)"
    and "reliable c" and "sq_tx c = Some s" and "has_table ''schema_migrations'' s"
  shows "sq_disk c' = sq_disk c \<and> (\<exists>s'. sq_tx c' = Some s'
    \<and> sc_applied s' = sc_applied s @ map (\<lambda>f. (sf_name f, now)) (filter (pending s) (sort_key sf_name files)))"
proof -
  have "list_all plain_file (sort_key sf_name files)" "distinct (map sf_name (sort_key sf_name files))"
    using assms(2,3) by (simp_all add: list_all_iff distinct_map)
  moreover have run: "apply_files now (sort_key sf_name files) c = (Ok (), c')" using assms(1) by (simp add: external_migrations_def)
  moreover have "tx_frame c c'" using txn.keepsD [OF keeps_apply_files run] assms(2) by (simp add: list_all_iff)
  then have "sq_disk c' = sq_disk c" using assms(5) by (simp add: tx_frame_def)
  ultimately show ?thesis using apply_files_reliable [OF run _ assms(4-6)] by blast
qed

definition sample_files :: "sql_file list" where
  "sample_files = [\<lparr> sf_name = ''003_b.sql'', sf_utf8 = True, sf_script = Some [Add_Column ''peers'' ''b''] \<rparr>,
     \<lparr> sf_name = ''notes.txt'', sf_utf8 = True, sf_script = Some [Add_Column ''x'' ''y''] \<rparr>,
     \<lparr> sf_name = ''002_a.sql'', sf_utf8 = True, sf_script = Some [Create_Table ''a'' [''b'']] \<rparr>]"

text \<open>
  The file that the repository ships cannot be applied. It opens a transaction of its own, and the loop runs inside
  one; whatever the database holds, as long as the file is not recorded, the run fails and leaves the disk as it was, so no
  table would be created at all.
\<close>

theorem shipped_migration_fails:
  assumes "sq_tx c = None" and "reliable c" and "\<not> applied (sf_name add_trusted_column) (sq_disk c)"
  shows "case in_transaction (abind (run_body now) (\<lambda>_. external_migrations now (Some [add_trusted_column]))) c of
      (r, c') \<Rightarrow> \<not> is_ok r \<and> sq_disk c' = sq_disk c"
proof -
  let ?c1 = "c\<lparr> sq_calls := Suc (sq_calls c), sq_tx := Some (sq_disk c) \<rparr>"
  let ?body = "abind (run_body now) (\<lambda>_. external_migrations now (Some [add_trusted_column]))"
  have begun: "engine_call (exec_stmt Begin_Tx) c = (Ok (), ?c1)" using assms by (simp add: engine_call_reliable)
  obtain r c2 where body: "run_body now ?c1 = (r, c2)" by (cases "run_body now ?c1")
  have c2: "sq_disk c2 = sq_disk c" "reliable c2"
    using txn.keepsD [OF keeps_run_body body] assms(2) by (auto simp: tx_frame_def reliable_def)
  show ?thesis
  proof (cases r)
    case (Ok u)
    have "run_body now ?c1 = (Ok (), c2)" "reliable ?c1" using body Ok assms(2) by (simp_all add: reliable_def)
    from run_body_ready [OF this, of "sq_disk c"] obtain s where s: "sq_tx c2 = Some s" "ready s"
      "sc_applied s = sc_applied (sq_disk c) @ (if applied ''001_create_core_tables'' (sq_disk c) then [] else [(''001_create_core_tables'', now)])"
      by auto
    have "\<not> applied (sf_name add_trusted_column) s"
      using assms(3) by (auto simp: applied_def s(3) add_trusted_column_def map_add_def split: option.splits)
    moreover have "reliable (c2\<lparr> sq_calls := Suc (sq_calls c2) \<rparr>)" using c2(2) by (simp add: reliable_def)
    ultimately obtain e n where "external_migrations now (Some [add_trusted_column]) c2 = (Err e, c2\<lparr> sq_calls := n \<rparr>)"
      using s c2(2)
      by (auto simp: external_migrations_def add_trusted_column_def apply_file_guard ends_with_def unless_applied_reliable ready_def
          abind_def engine_call_reliable sql_fails_def afail_def)
    then have "in_transaction ?body c = (Err e, rollback (c2\<lparr> sq_calls := n \<rparr>))"
      by (simp add: in_transaction_def begun abind_def body Ok)
    then show ?thesis using c2(1) by (simp add: rollback_def)
  next
    case (Err e)
    then have "in_transaction ?body c = (Err e, rollback c2)" by (simp add: in_transaction_def begun abind_def body)
    then show ?thesis using c2(1) by (simp add: rollback_def)
  next
    case Panic
    then have "in_transaction ?body c = (Panic, rollback c2)" by (simp add: in_transaction_def begun abind_def body)
    then show ?thesis using c2(1) by (simp add: rollback_def)
  qed
qed

theorem shipped_migration_fails_witness:
  "case in_transaction (abind (run_body 5) (\<lambda>_. external_migrations 5 (Some [add_trusted_column]))) fresh_conn of
     (r, c') \<Rightarrow> \<not> is_ok r \<and> sq_disk c' = empty_schema"
  using shipped_migration_fails [of fresh_conn 5] by (simp add: fresh_conn_def reliable_def applied_def empty_schema_def)

text \<open>The files of the sample in a transaction on a migrated database: the text file is not run.\<close>

definition open_conn :: sqlite_conn where
  "open_conn = fresh_conn\<lparr> sq_tx := Some (migrated 5) \<rparr>"

theorem external_migrations_ordered_witness:
  "case external_migrations 6 (Some sample_files) open_conn of
     (Ok _, c') \<Rightarrow> map_option (map fst \<circ> sc_applied) (sq_tx c') = Some [''001_create_core_tables'', ''002_a.sql'', ''003_b.sql'']
   | _ \<Rightarrow> False"
proof -
  have c: "reliable open_conn" "sq_tx open_conn = Some (migrated 5)" by (simp_all add: open_conn_def fresh_conn_def reliable_def)
  have m: "has_table ''schema_migrations'' (migrated 5)" "sc_applied (migrated 5) = [(''001_create_core_tables'', 5)]"
    by (simp_all add: migrated_def migration_eval)
  have order: "sort_key sf_name sample_files = [sample_files ! 2, sample_files ! 0, sample_files ! 1]"
    by (simp add: sample_files_def less_char_def less_eq_char_def)
  have files: "filter (pending (migrated 5)) (sort_key sf_name sample_files) = [sample_files ! 2, sample_files ! 0]"
    unfolding order by (simp add: sample_files_def pending_def applied_def m ends_with_def)
  obtain c' where run: "external_migrations 6 (Some sample_files) open_conn = (Ok (), c')"
    unfolding external_migrations_def order
    by (simp add: sample_files_def open_conn_def migrated_def ends_with_def apply_file_def migration_eval)
  have "list_all plain_file sample_files" "distinct (map sf_name sample_files)" by (simp_all add: sample_files_def plain_file_def)
  from external_migrations_ordered [OF run this c m(1)] show ?thesis
    unfolding run files by (auto simp: m sample_files_def)
qed

text \<open>
  A migration whose lookup fails counts as applied. When the query for it ends in any other error than an empty result,
  here a locked database, the run succeeds and commits without the tables.
\<close>

theorem failed_lookup_skips_migration:
  "case run_migrations None now (fresh_conn\<lparr> sq_fault := (\<lambda>n. if n = 2 then Some (SqliteFailure (Some ''database is locked'')) else None) \<rparr>) of
     (r, c') \<Rightarrow> r = Ok () \<and> \<not> has_table ''peers'' (sq_disk c') \<and> \<not> ready (sq_disk c')"
  by (simp add: migration_eval)

end
