(* ===== verification/Peer_Repository.thy ===== *)
theory Peer_Repository
  imports Migrations Peer
begin

text \<open>
  \<open>crates/persistence/src/models/mod.rs\<close> (peers) and \<open>repositories/peer_repository.rs\<close>: the row of a peer, the
  repository and the trust store on the same table. \<open>serde_json\<close> is a parameter.
\<close>

section \<open>Model\<close>

record peer_json =
  pj_strings_to :: "rstr list \<Rightarrow> rstr option"
  pj_strings_from :: "rstr \<Rightarrow> rstr list option"
  pj_status_to :: "peer_status \<Rightarrow> rstr option"

record peer_model =
  pm_id :: rstr
  pm_display_name :: rstr
  pm_fingerprint :: rstr
  pm_ed25519_public :: bytes
  pm_x25519_public :: bytes
  pm_addresses :: rstr
  pm_status :: rstr
  pm_verified :: int
  pm_first_seen :: int
  pm_last_seen :: int

definition json_or :: "string \<Rightarrow> rstr option \<Rightarrow> rstr" where
  "json_or d j = (case j of Some s \<Rightarrow> s | None \<Rightarrow> lit d)"

definition peer_model_of :: "crates \<Rightarrow> peer_json \<Rightarrow> peer \<Rightarrow> peer_model" where
  "peer_model_of K J p = \<lparr> pm_id = uuid_string K (peer_id p), pm_display_name = peer_display_name p,
     pm_fingerprint = to_formatted_string K (peer_fingerprint p), pm_ed25519_public = peer_ed25519_public p,
     pm_x25519_public = peer_x25519_public p, pm_addresses = json_or ''[]'' (pj_strings_to J (peer_addresses p)),
     pm_status = json_or ''null'' (pj_status_to J (peer_status p)), pm_verified = (if peer_verified p then 1 else 0),
     pm_first_seen = timestamp (peer_first_seen p), pm_last_seen = timestamp (peer_last_seen p) \<rparr>"

text \<open>The builder draws a new id and the current time.\<close>

definition peer_of_model :: "peer_json \<Rightarrow> datetime \<Rightarrow> uuid \<Rightarrow> peer_model \<Rightarrow> peer domain_result" where
  "peer_of_model J now fresh m =
     rbind (from_hex (pm_fingerprint m)) (\<lambda>fp.
     if length (pm_ed25519_public m) \<noteq> 32 then Err (Validation ''ed25519_public'' ''invalid length'')
     else if length (pm_x25519_public m) \<noteq> 32 then Err (Validation ''x25519_public'' ''invalid length'')
     else
       rbind (ok_or (pj_strings_from J (pm_addresses m)) (Validation ''addresses'' ''invalid json'')) (\<lambda>addresses.
       peer_build now fresh (pb_set_addresses addresses (pb_set_x25519_public (pm_x25519_public m)
         (pb_set_ed25519_public (pm_ed25519_public m) (pb_set_fingerprint fp
         (pb_set_display_name (pm_display_name m) peer_builder_new)))))))"

text \<open>The table, and whether it has the \<open>trusted\<close> column.\<close>

record peer_row = peer_model +
  row_trusted :: int

record peer_table =
  pt_rows :: "peer_row list"
  pt_has_trusted :: bool

definition open_table :: "schema \<Rightarrow> peer_table" where
  "open_table s = \<lparr> pt_rows = [], pt_has_trusted = has_column ''peers'' ''trusted'' s \<rparr>"

fun peer_sql_error :: "sql_error \<Rightarrow> domain_error" where
  "peer_sql_error QueryReturnedNoRows = Peer Peer_NotFound"
| "peer_sql_error (SqliteFailure (Some msg)) =
     (if str_contains ''UNIQUE constraint failed'' msg then Peer Peer_AlreadyExists else Internal)"
| "peer_sql_error (SqliteFailure None) = Internal"
| "peer_sql_error OtherSqlError = Internal"

definition row_of :: "peer_model \<Rightarrow> int \<Rightarrow> peer_row" where
  "row_of m t = peer_model.extend m \<lparr> row_trusted = t \<rparr>"

definition model_of :: "peer_row \<Rightarrow> peer_model" where
  "model_of r = peer_model.truncate r"

text \<open>\<open>INSERT\<close>: the primary key and the fingerprint are unique.\<close>

definition unique_row :: "peer_model \<Rightarrow> peer_row list \<Rightarrow> bool" where
  "unique_row m rows \<longleftrightarrow> sql_find pm_id (pm_id m) rows = None \<and> sql_find pm_fingerprint (pm_fingerprint m) rows = None"

definition insert_peer :: "bool \<Rightarrow> crates \<Rightarrow> peer_json \<Rightarrow> peer \<Rightarrow> (peer_table, unit, domain_error) action" where
  "insert_peer up K J p db =
     (let m = peer_model_of K J p in
      if \<not> up then (Err Internal, db)
      else if \<not> unique_row m (pt_rows db)
      then (Err (peer_sql_error (SqliteFailure (Some ''UNIQUE constraint failed''))), db)
      else (Ok (), db\<lparr> pt_rows := pt_rows db @ [row_of m 0] \<rparr>))"

definition get_by_fingerprint ::
  "bool \<Rightarrow> crates \<Rightarrow> peer_json \<Rightarrow> datetime \<Rightarrow> uuid \<Rightarrow> fingerprint \<Rightarrow> peer_table \<Rightarrow> peer domain_result" where
  "get_by_fingerprint up K J now fresh fp db =
     (if \<not> up then Err Internal
      else case sql_find pm_fingerprint (to_formatted_string K fp) (pt_rows db) of
        None \<Rightarrow> Err (peer_sql_error QueryReturnedNoRows)
      | Some row \<Rightarrow> map_err (\<lambda>_. Internal) (peer_of_model J now fresh (model_of row)))"

definition overwrite_row :: "peer_model \<Rightarrow> peer_row \<Rightarrow> peer_row" where
  "overwrite_row m r = r\<lparr> pm_display_name := pm_display_name m, pm_ed25519_public := pm_ed25519_public m,
     pm_x25519_public := pm_x25519_public m, pm_addresses := pm_addresses m, pm_status := pm_status m,
     pm_verified := pm_verified m, pm_last_seen := pm_last_seen m \<rparr>"

definition update_peer :: "bool \<Rightarrow> crates \<Rightarrow> peer_json \<Rightarrow> peer \<Rightarrow> (peer_table, unit, domain_error) action" where
  "update_peer up K J p db =
     (let m = peer_model_of K J p in
      if \<not> up then (Err Internal, db)
      else if sql_matches pm_fingerprint (pm_fingerprint m) (pt_rows db) = 0 then (Err (Peer Peer_NotFound), db)
      else (Ok (), db\<lparr> pt_rows := sql_update pm_fingerprint (pm_fingerprint m) (overwrite_row m) (pt_rows db) \<rparr>))"

definition delete_peer :: "bool \<Rightarrow> crates \<Rightarrow> uuid \<Rightarrow> (peer_table, unit, domain_error) action" where
  "delete_peer up K i db =
     (if \<not> up then (Err Internal, db)
      else if sql_matches pm_id (uuid_string K i) (pt_rows db) = 0 then (Err (Peer Peer_NotFound), db)
      else (Ok (), db\<lparr> pt_rows := sql_delete pm_id (uuid_string K i) (pt_rows db) \<rparr>))"

text \<open>The loop of \<open>list_all\<close>; each row is rebuilt with its own fresh id and time.\<close>

fun peers_of_rows :: "peer_json \<Rightarrow> (nat \<Rightarrow> datetime \<times> uuid) \<Rightarrow> nat \<Rightarrow> peer_row list \<Rightarrow> peer list domain_result" where
  "peers_of_rows J draw n [] = Ok []"
| "peers_of_rows J draw n (r # rs) =
     rbind (map_err (\<lambda>_. Internal) (peer_of_model J (fst (draw n)) (snd (draw n)) (model_of r))) (\<lambda>p.
     map_ok (Cons p) (peers_of_rows J draw (Suc n) rs))"

definition list_all_peers :: "bool \<Rightarrow> peer_json \<Rightarrow> (nat \<Rightarrow> datetime \<times> uuid) \<Rightarrow> peer_table \<Rightarrow> peer list domain_result" where
  "list_all_peers up J draw db = (if \<not> up then Err Internal else peers_of_rows J draw 0 (pt_rows db))"

section \<open>The trust store\<close>

text \<open>A statement that names a column the table does not have fails in the engine.\<close>

definition no_such_column :: sql_error where
  "no_such_column = SqliteFailure (Some ''no such column: trusted'')"

definition is_trusted_peer :: "bool \<Rightarrow> crates \<Rightarrow> fingerprint \<Rightarrow> peer_table \<Rightarrow> bool domain_result" where
  "is_trusted_peer up K fp db =
     (if \<not> up then Err Internal
      else if \<not> pt_has_trusted db then Err (peer_sql_error no_such_column)
      else case sql_find pm_fingerprint (to_formatted_string K fp) (pt_rows db) of
        None \<Rightarrow> Err (peer_sql_error QueryReturnedNoRows)
      | Some r \<Rightarrow> Ok (row_trusted r = 1))"

definition minimal_row :: "crates \<Rightarrow> uuid \<Rightarrow> datetime \<Rightarrow> fingerprint \<Rightarrow> peer_row" where
  "minimal_row K fresh now fp =
     \<lparr> pm_id = uuid_string K fresh, pm_display_name = [], pm_fingerprint = to_formatted_string K fp, pm_ed25519_public = [],
       pm_x25519_public = [], pm_addresses = [], pm_status = lit ''unknown'', pm_verified = 0,
       pm_first_seen = timestamp now, pm_last_seen = timestamp now, row_trusted = 1 \<rparr>"

definition add_trusted :: "bool \<Rightarrow> crates \<Rightarrow> uuid \<Rightarrow> datetime \<Rightarrow> fingerprint \<Rightarrow> (peer_table, unit, domain_error) action" where
  "add_trusted up K fresh now fp db =
     (if \<not> up then (Err Internal, db)
      else if \<not> pt_has_trusted db then (Err (peer_sql_error no_such_column), db)
      else if sql_matches pm_fingerprint (to_formatted_string K fp) (pt_rows db) = 0 then
        (Ok (), if unique_row (model_of (minimal_row K fresh now fp)) (pt_rows db)
                then db\<lparr> pt_rows := pt_rows db @ [minimal_row K fresh now fp] \<rparr> else db)
      else (Ok (), db\<lparr> pt_rows := sql_update pm_fingerprint (to_formatted_string K fp) (\<lambda>r. r\<lparr> row_trusted := 1 \<rparr>) (pt_rows db) \<rparr>))"

fun trusted_fps :: "peer_row list \<Rightarrow> (fingerprint list, sql_error) result" where
  "trusted_fps [] = Ok []"
| "trusted_fps (r # rs) =
     (if row_trusted r = 1 then
        rbind (map_err (\<lambda>_. OtherSqlError) (from_hex (pm_fingerprint r))) (\<lambda>fp. map_ok (Cons fp) (trusted_fps rs))
      else trusted_fps rs)"

definition list_trusted :: "bool \<Rightarrow> peer_table \<Rightarrow> fingerprint list domain_result" where
  "list_trusted up db =
     (if \<not> up then Err Internal
      else if \<not> pt_has_trusted db then Err (peer_sql_error no_such_column)
      else map_err peer_sql_error (trusted_fps (pt_rows db)))"

definition get_peer_opt ::
  "bool \<Rightarrow> crates \<Rightarrow> peer_json \<Rightarrow> datetime \<Rightarrow> uuid \<Rightarrow> fingerprint \<Rightarrow> peer_table \<Rightarrow> peer option domain_result" where
  "get_peer_opt up K J now fresh fp db =
     (case get_by_fingerprint up K J now fresh fp db of
        Ok p \<Rightarrow> Ok (Some p)
      | Err e \<Rightarrow> (if e = Peer Peer_NotFound then Ok None else Err e)
      | Panic \<Rightarrow> Panic)"

section \<open>Refinement\<close>

text \<open>
  The specification: a map from printed fingerprints to rows. The statements that change the table, by what they are
  called with.
\<close>

datatype peer_op = Op_Insert bool peer | Op_Update bool peer | Op_Delete bool uuid | Op_Trust bool uuid datetime fingerprint

fun peer_op_exec :: "crates \<Rightarrow> peer_json \<Rightarrow> peer_op \<Rightarrow> peer_table \<Rightarrow> peer_table" where
  "peer_op_exec K J (Op_Insert up p) db = snd (insert_peer up K J p db)"
| "peer_op_exec K J (Op_Update up p) db = snd (update_peer up K J p db)"
| "peer_op_exec K J (Op_Delete up i) db = snd (delete_peer up K i db)"
| "peer_op_exec K J (Op_Trust up i now fp) db = snd (add_trusted up K i now fp db)"

type_synonym peer_map = "rstr \<Rightarrow> peer_row option"

definition unused :: "peer_model \<Rightarrow> peer_map \<Rightarrow> bool" where
  "unused m M \<longleftrightarrow> M (pm_fingerprint m) = None \<and> (\<forall>k r. M k = Some r \<longrightarrow> pm_id r \<noteq> pm_id m)"

text \<open>What the caller of a statement is answered.\<close>

fun peer_op_result :: "crates \<Rightarrow> peer_json \<Rightarrow> peer_op \<Rightarrow> peer_table \<Rightarrow> unit domain_result" where
  "peer_op_result K J (Op_Insert up p) db = fst (insert_peer up K J p db)"
| "peer_op_result K J (Op_Update up p) db = fst (update_peer up K J p db)"
| "peer_op_result K J (Op_Delete up i) db = fst (delete_peer up K i db)"
| "peer_op_result K J (Op_Trust up i now fp) db = fst (add_trusted up K i now fp db)"

text \<open>
  The row that stands for a peer: everything is the peer's, but for the id, the first-seen time and the trust mark. A new row takes
  the id and first-seen time of the peer and no mark; an updated row keeps its own.
\<close>

definition spec_row :: "crates \<Rightarrow> peer_json \<Rightarrow> peer \<Rightarrow> rstr \<Rightarrow> int \<Rightarrow> int \<Rightarrow> peer_row" where
  "spec_row K J p row_id first_seen trusted =
     \<lparr> pm_id = row_id, pm_display_name = peer_display_name p, pm_fingerprint = to_formatted_string K (peer_fingerprint p),
       pm_ed25519_public = peer_ed25519_public p, pm_x25519_public = peer_x25519_public p,
       pm_addresses = (case pj_strings_to J (peer_addresses p) of Some text \<Rightarrow> text | None \<Rightarrow> lit ''[]''),
       pm_status = (case pj_status_to J (peer_status p) of Some text \<Rightarrow> text | None \<Rightarrow> lit ''null''),
       pm_verified = (if peer_verified p then 1 else 0), pm_first_seen = first_seen,
       pm_last_seen = timestamp (peer_last_seen p), row_trusted = trusted \<rparr>"

fun peer_op_spec :: "crates \<Rightarrow> peer_json \<Rightarrow> bool \<Rightarrow> peer_op \<Rightarrow> peer_map \<Rightarrow> peer_map" where
  "peer_op_spec K J tr (Op_Insert up p) M =
     (if up \<and> unused (peer_model_of K J p) M
      then M(to_formatted_string K (peer_fingerprint p) \<mapsto> spec_row K J p (uuid_string K (peer_id p)) (timestamp (peer_first_seen p)) 0)
      else M)"
| "peer_op_spec K J tr (Op_Update up p) M =
     (case M (to_formatted_string K (peer_fingerprint p)) of
        Some r \<Rightarrow> if up then M(to_formatted_string K (peer_fingerprint p) \<mapsto> spec_row K J p (pm_id r) (pm_first_seen r) (row_trusted r)) else M
      | None \<Rightarrow> M)"
| "peer_op_spec K J tr (Op_Delete up i) M =
     (if up then (\<lambda>k. case M k of Some r \<Rightarrow> if pm_id r = uuid_string K i then None else Some r | None \<Rightarrow> None) else M)"
| "peer_op_spec K J tr (Op_Trust up i now fp) M =
     (if \<not> (up \<and> tr) then M
      else case M (to_formatted_string K fp) of
        Some r \<Rightarrow> M(to_formatted_string K fp \<mapsto> r\<lparr> row_trusted := 1 \<rparr>)
      | None \<Rightarrow> if unused (model_of (minimal_row K i now fp)) M
                then M(to_formatted_string K fp \<mapsto>
                  \<lparr> pm_id = uuid_string K i, pm_display_name = [], pm_fingerprint = to_formatted_string K fp, pm_ed25519_public = [],
                    pm_x25519_public = [], pm_addresses = [], pm_status = lit ''unknown'', pm_verified = 0,
                    pm_first_seen = timestamp now, pm_last_seen = timestamp now, row_trusted = 1 \<rparr>) else M)"

text \<open>What the map calls for as the answer.\<close>

fun peer_op_answer :: "crates \<Rightarrow> peer_json \<Rightarrow> bool \<Rightarrow> peer_op \<Rightarrow> peer_map \<Rightarrow> unit domain_result" where
  "peer_op_answer K J tr (Op_Insert up p) M =
     (if \<not> up then Err Internal else if unused (peer_model_of K J p) M then Ok () else Err (Peer Peer_AlreadyExists))"
| "peer_op_answer K J tr (Op_Update up p) M =
     (if \<not> up then Err Internal
      else if M (to_formatted_string K (peer_fingerprint p)) = None then Err (Peer Peer_NotFound) else Ok ())"
| "peer_op_answer K J tr (Op_Delete up i) M =
     (if \<not> up then Err Internal
      else if \<exists>k r. M k = Some r \<and> pm_id r = uuid_string K i then Ok () else Err (Peer Peer_NotFound))"
| "peer_op_answer K J tr (Op_Trust up i now fp) M = (if up \<and> tr then Ok () else Err Internal)"

definition table_ok :: "bool \<Rightarrow> peer_table \<Rightarrow> bool" where
  "table_ok tr db \<longleftrightarrow> distinct (map pm_fingerprint (pt_rows db)) \<and> distinct (map pm_id (pt_rows db)) \<and> pt_has_trusted db = tr"

definition peer_abs :: "peer_table \<Rightarrow> peer_map" where
  "peer_abs db k = sql_find pm_fingerprint k (pt_rows db)"

lemma row_fields [simp]:
  "pm_fingerprint (row_of m t) = pm_fingerprint m" "pm_id (row_of m t) = pm_id m" "row_trusted (row_of m t) = t"
  "model_of (row_of m t) = m" "pm_fingerprint (model_of r) = pm_fingerprint r" "pm_id (model_of r) = pm_id r"
  by (simp_all add: row_of_def model_of_def peer_model.defs)

lemma overwrite_row_keys [simp]:
  "pm_fingerprint (overwrite_row m r) = pm_fingerprint r" "pm_id (overwrite_row m r) = pm_id r"
  by (simp_all add: overwrite_row_def)

lemma minimal_row_keys [simp]:
  "pm_fingerprint (minimal_row K i now fp) = to_formatted_string K fp" "pm_id (minimal_row K i now fp) = uuid_string K i"
  by (simp_all add: minimal_row_def)

lemma model_fingerprint [simp]: "pm_fingerprint (peer_model_of K J p) = to_formatted_string K (peer_fingerprint p)"
  by (simp add: peer_model_of_def)

lemma unused_unique:
  assumes "table_ok tr db"
  shows "unused m (peer_abs db) \<longleftrightarrow> unique_row m (pt_rows db)"
  using assms sql_find_in [of pm_fingerprint "pt_rows db"]
  by (auto simp: unused_def unique_row_def peer_abs_def table_ok_def sql_find_None)

lemma append_row:
  assumes "table_ok tr db" and "unique_row (model_of r) (pt_rows db)"
  shows "table_ok tr (db\<lparr> pt_rows := pt_rows db @ [r] \<rparr>) \<and> peer_abs (db\<lparr> pt_rows := pt_rows db @ [r] \<rparr>) = (peer_abs db)(pm_fingerprint r \<mapsto> r)"
  using assms by (auto simp: table_ok_def unique_row_def peer_abs_def fun_eq_iff dest: sql_find_key split: option.splits)
     (auto simp: sql_find_None)

lemma update_rows:
  assumes "table_ok tr db" and "\<And>r. pm_fingerprint (f r) = pm_fingerprint r" and "\<And>r. pm_id (f r) = pm_id r"
  shows "table_ok tr (db\<lparr> pt_rows := sql_update pm_fingerprint k f (pt_rows db) \<rparr>)
    \<and> peer_abs (db\<lparr> pt_rows := sql_update pm_fingerprint k f (pt_rows db) \<rparr>) = (peer_abs db)(k := map_option f (peer_abs db k))"
  using assms by (auto simp: table_ok_def peer_abs_def map_sql_update sql_find_update)

lemma insert_spec_row: "row_of (peer_model_of K J p) 0 = spec_row K J p (uuid_string K (peer_id p)) (timestamp (peer_first_seen p)) 0"
  by (simp add: row_of_def peer_model_of_def spec_row_def json_or_def peer_model.defs)

lemma update_spec_row:
  "pm_fingerprint r = to_formatted_string K (peer_fingerprint p) \<Longrightarrow>
     overwrite_row (peer_model_of K J p) r = spec_row K J p (pm_id r) (pm_first_seen r) (row_trusted r)"
  by (simp add: overwrite_row_def peer_model_of_def spec_row_def json_or_def)

lemma peer_abs_key: "peer_abs db k = Some r \<Longrightarrow> pm_fingerprint r = k"
  by (auto simp: peer_abs_def dest: sql_find_key)

lemma trust_spec_row: "peer_op_spec K J tr (Op_Trust up i now fp) M =
     (if \<not> (up \<and> tr) then M
      else case M (to_formatted_string K fp) of
        Some r \<Rightarrow> M(to_formatted_string K fp \<mapsto> r\<lparr> row_trusted := 1 \<rparr>)
      | None \<Rightarrow> if unused (model_of (minimal_row K i now fp)) M then M(to_formatted_string K fp \<mapsto> minimal_row K i now fp) else M)"
  by (simp only: peer_op_spec.simps minimal_row_def)

text \<open>The proof of one statement: the cases of its code, each by one of the lemmas above.\<close>

lemma peer_op_correct:
  assumes "table_ok tr db"
  shows "table_ok tr (peer_op_exec K J op db) \<and> peer_abs (peer_op_exec K J op db) = peer_op_spec K J tr op (peer_abs db)"
proof (cases op)
  case (Op_Insert up p)
  then show ?thesis using assms append_row [OF assms, of "row_of (peer_model_of K J p) 0"]
    by (simp add: insert_peer_def Let_def unused_unique flip: insert_spec_row)
next
  case (Op_Update up p)
  let ?m = "peer_model_of K J p" and ?k = "to_formatted_string K (peer_fingerprint p)"
  have "map_option (overwrite_row ?m) (peer_abs db ?k) = Some (spec_row K J p (pm_id r) (pm_first_seen r) (row_trusted r))"
    if "peer_abs db ?k = Some r" for r
    using that update_spec_row [OF peer_abs_key [OF that]] by simp
  with update_rows [OF assms, of "overwrite_row ?m" ?k] assms show ?thesis unfolding Op_Update
    by (cases "peer_abs db ?k") (simp_all add: update_peer_def Let_def flip: peer_abs_def)
next
  case (Op_Delete up i)
  have "sql_delete pm_id (uuid_string K i) (pt_rows db) = pt_rows db" if "sql_find pm_id (uuid_string K i) (pt_rows db) = None"
    using that by (auto simp: sql_delete_def sql_find_None intro: filter_True)
  moreover have "db\<lparr> pt_rows := pt_rows db \<rparr> = db" by simp
  moreover have "(\<lambda>k. case peer_abs db k of Some r \<Rightarrow> if pm_id r = uuid_string K i then None else Some r | None \<Rightarrow> None)
      = peer_abs (db\<lparr> pt_rows := sql_delete pm_id (uuid_string K i) (pt_rows db) \<rparr>)"
    using assms by (auto simp: peer_abs_def table_ok_def sql_find_delete)
  ultimately show ?thesis using Op_Delete assms
    by (auto simp: delete_peer_def table_ok_def distinct_sql_delete)
next
  case (Op_Trust up i now fp)
  let ?k = "to_formatted_string K fp"
  have upd: "(peer_abs db)(?k := map_option f (peer_abs db ?k)) = (peer_abs db)(?k \<mapsto> f r)" if "peer_abs db ?k = Some r" for f r
    using that by simp
  show ?thesis using assms append_row [OF assms, of "minimal_row K i now fp"]
      update_rows [OF assms, of "\<lambda>r. r\<lparr> row_trusted := 1 \<rparr>" ?k] unused_unique [OF assms]
    unfolding Op_Trust trust_spec_row by (auto simp: add_trusted_def table_ok_def peer_abs_def split: option.splits)
qed

lemma peer_op_answers:
  assumes "table_ok tr db"
  shows "peer_op_result K J op db = peer_op_answer K J tr op (peer_abs db)"
proof (cases op)
  case (Op_Insert up p)
  then show ?thesis using unused_unique [OF assms] by (simp add: insert_peer_def Let_def)
next
  case (Op_Update up p)
  then show ?thesis by (simp add: update_peer_def Let_def peer_abs_def)
next
  case (Op_Delete up i)
  have "(\<exists>k r. peer_abs db k = Some r \<and> pm_id r = uuid_string K i) \<longleftrightarrow> (\<exists>r\<in>set (pt_rows db). pm_id r = uuid_string K i)"
    using sql_find_in [of pm_fingerprint "pt_rows db"] assms unfolding peer_abs_def table_ok_def by blast
  also have "\<dots> \<longleftrightarrow> sql_matches pm_id (uuid_string K i) (pt_rows db) \<noteq> 0"
    by (simp add: sql_find_None)
  finally show ?thesis unfolding Op_Delete peer_op_result.simps peer_op_answer.simps delete_peer_def by simp
next
  case (Op_Trust up i now fp)
  then show ?thesis using assms by (simp add: add_trusted_def table_ok_def no_such_column_def)
qed

interpretation peers: simulation "table_ok tr" peer_abs "peer_op_exec K J" "peer_op_spec K J tr" for tr K J
  by unfold_locales (use peer_op_correct in blast)+

section \<open>Properties\<close>

text \<open>
  C21: The peer table implements a map. Through every sequence of inserts, updates, deletes and trust marks, with failures of the database at
  any point, fingerprints and ids stay unique and the table behaves as a map from fingerprints to rows, and each further statement is
  answered as the map calls for: an insert of a known fingerprint or id is refused as already there, an update or delete of what is not there
  as not found, and a statement on a failing database as an internal error. A refused or failed statement changes nothing, an insert never
  overwrites, and an update replaces the row but for its id, first-seen time and trust mark.
\<close>

theorem peer_repository_refines_map:
  assumes "table_ok tr db" and "db' = fold (peer_op_exec K J) ops db"
  shows "table_ok tr db' \<and> peer_abs db' = fold (peer_op_spec K J tr) ops (peer_abs db)
    \<and> peer_op_result K J op db' = peer_op_answer K J tr op (peer_abs db')
    \<and> (if peer_op_result K J op db' = Ok () then True else peer_abs (peer_op_exec K J op db') = peer_abs db')"
proof -
  have ok: "table_ok tr db'" unfolding assms(2) by (rule peers.run_inv [OF assms(1)])
  have answer: "peer_op_result K J op db' = peer_op_answer K J tr op (peer_abs db')" by (rule peer_op_answers [OF ok])
  have "peer_op_spec K J tr op M = M" if "peer_op_answer K J tr op M \<noteq> Ok ()" for M
    using that by (cases op) (auto split: if_splits option.splits simp: fun_eq_iff)
  then have "peer_abs (peer_op_exec K J op db') = peer_abs db'" if "peer_op_result K J op db' \<noteq> Ok ()"
    using that answer peer_op_correct [OF ok, of K J op] by simp
  with ok answer peers.run_abs [OF assms(1), of K J ops] assms(2) show ?thesis by simp
qed

definition sample_peer_json :: peer_json where
  "sample_peer_json = \<lparr> pj_strings_to = \<lambda>ss. Some (concat ss), pj_strings_from = \<lambda>s. Some [s], pj_status_to = \<lambda>_. None \<rparr>"

definition sample_stored_peer :: peer where
  "sample_stored_peer = \<lparr> peer_id = 1, peer_display_name = [66], peer_fingerprint = Fingerprint (replicate 20 7),
     peer_ed25519_public = replicate 32 1, peer_x25519_public = replicate 32 2, peer_addresses = [[49]],
     peer_status = Online 5, peer_verified = True, peer_first_seen = 3, peer_last_seen = 5 \<rparr>"

theorem peer_repository_refines_map_witness:
  "let p = sample_stored_peer; q = p\<lparr> peer_first_seen := 9, peer_verified := False \<rparr>; k = to_formatted_string ref_crates (peer_fingerprint p);
       ops = [Op_Insert False p, Op_Insert True p, Op_Trust True 8 8 (peer_fingerprint p), Op_Update True q];
       db = fold (peer_op_exec ref_crates sample_peer_json) ops \<lparr> pt_rows = [], pt_has_trusted = True \<rparr> in
   peer_abs db = [k \<mapsto> spec_row ref_crates sample_peer_json q (uuid_string ref_crates 1) (timestamp 3) 1]
   \<and> peer_op_result ref_crates sample_peer_json (Op_Insert True p) db = Err (Peer Peer_AlreadyExists)"
proof -
  let ?q = "sample_stored_peer\<lparr> peer_first_seen := 9, peer_verified := False \<rparr>"
  let ?ops = "[Op_Insert False sample_stored_peer, Op_Insert True sample_stored_peer, Op_Trust True 8 8 (peer_fingerprint sample_stored_peer),
    Op_Update True ?q]"
  have "table_ok True \<lparr> pt_rows = [], pt_has_trusted = True \<rparr>" by (simp add: table_ok_def)
  from peer_repository_refines_map [OF this refl, of ref_crates sample_peer_json ?ops "Op_Insert True sample_stored_peer"]
  have "peer_abs (fold (peer_op_exec ref_crates sample_peer_json) ?ops \<lparr> pt_rows = [], pt_has_trusted = True \<rparr>) =
      fold (peer_op_spec ref_crates sample_peer_json True) ?ops (peer_abs \<lparr> pt_rows = [], pt_has_trusted = True \<rparr>)"
    "peer_op_result ref_crates sample_peer_json (Op_Insert True sample_stored_peer)
        (fold (peer_op_exec ref_crates sample_peer_json) ?ops \<lparr> pt_rows = [], pt_has_trusted = True \<rparr>) =
      peer_op_answer ref_crates sample_peer_json True (Op_Insert True sample_stored_peer)
        (peer_abs (fold (peer_op_exec ref_crates sample_peer_json) ?ops \<lparr> pt_rows = [], pt_has_trusted = True \<rparr>))"
    by blast+
  moreover have "peer_abs \<lparr> pt_rows = [], pt_has_trusted = True \<rparr> = Map.empty" by (simp add: peer_abs_def fun_eq_iff)
  moreover have "fold (peer_op_spec ref_crates sample_peer_json True) ?ops Map.empty =
      [to_formatted_string ref_crates (peer_fingerprint sample_stored_peer) \<mapsto>
        spec_row ref_crates sample_peer_json ?q (uuid_string ref_crates 1) (timestamp 3) 1]"
    by (simp add: unused_def spec_row_def sample_stored_peer_def)
  ultimately show ?thesis by (simp only: Let_def) (simp add: unused_def)
qed

text \<open>
  A stored peer comes back without its history. A well-formed peer that is inserted is found again under its fingerprint with
  its name, keys and addresses; but the id is a new one, and it is offline, unverified and first seen at the moment of
  loading, whatever was stored.
\<close>

theorem peer_reload_forgets:
  assumes "hex_ok K" and "wf_peer p" and "wf_fingerprint (peer_fingerprint p)"
    and "length (peer_ed25519_public p) = 32" and "length (peer_x25519_public p) = 32"
    and "pj_strings_to J (peer_addresses p) = Some text" and "pj_strings_from J text = Some (peer_addresses p)"
    and "insert_peer up K J p db = (Ok (), db')"
  shows "get_by_fingerprint True K J now fresh (peer_fingerprint p) db' =
    Ok (p\<lparr> peer_id := fresh, peer_status := Offline None, peer_verified := False, peer_first_seen := now, peer_last_seen := now \<rparr>)"
proof -
  let ?m = "peer_model_of K J p" and ?k = "to_formatted_string K (peer_fingerprint p)"
  have db': "db' = db\<lparr> pt_rows := pt_rows db @ [row_of ?m 0] \<rparr>" and u: "unique_row ?m (pt_rows db)"
    using assms(8) by (auto simp: insert_peer_def Let_def split: if_splits)
  have found: "sql_find pm_fingerprint ?k (pt_rows db') = Some (row_of ?m 0)"
    using u by (simp add: db' unique_row_def)
  have "from_hex ?k = Ok (peer_fingerprint p)"
    using from_hex_is_hex_of [OF formatted_is_hex_of [OF assms(1)] assms(3)] .
  then have "peer_of_model J now fresh ?m =
      Ok (p\<lparr> peer_id := fresh, peer_status := Offline None, peer_verified := False, peer_first_seen := now, peer_last_seen := now \<rparr>)"
    using assms(2,4-7)
    by (auto simp: peer_of_model_def peer_model_of_def json_or_def peer_build_Ok wf_peer_def pb_set_addresses_def
        pb_set_x25519_public_def pb_set_ed25519_public_def pb_set_fingerprint_def pb_set_display_name_def peer_builder_new_def)
  then show ?thesis by (simp add: get_by_fingerprint_def found)
qed

theorem peer_reload_forgets_witness:
  "\<exists>db' q. insert_peer True ref_crates sample_peer_json sample_stored_peer \<lparr> pt_rows = [], pt_has_trusted = False \<rparr> = (Ok (), db')
    \<and> get_by_fingerprint True ref_crates sample_peer_json 9 4 (peer_fingerprint sample_stored_peer) db' = Ok q
    \<and> peer_verified sample_stored_peer \<and> \<not> peer_verified q \<and> peer_display_name q = peer_display_name sample_stored_peer"
proof -
  obtain db' where db': "insert_peer True ref_crates sample_peer_json sample_stored_peer \<lparr> pt_rows = [], pt_has_trusted = False \<rparr> = (Ok (), db')"
    by (simp add: insert_peer_def Let_def unique_row_def)
  from peer_reload_forgets [OF ref_hex_ok _ _ _ _ _ _ db', of "[49]" 9 4] db'
  show ?thesis
    by (auto simp: sample_stored_peer_def sample_peer_json_def wf_peer_def valid_display_name_def wf_fingerprint_def
        is_control_def len_utf8_def)
qed

text \<open>
  Trust cannot be stored. The migrations that the code applies do not create the \<open>trusted\<close> column, so on a
  migrated database, after any sequence of statements, asking for trust, listing the trusted peers and trusting a peer
  all end in an error, and nothing changes.
\<close>

theorem trust_store_unusable:
  "let db = fold (peer_op_exec K J) ops (open_table (migrated now)) in
   is_trusted_peer up K fp db = Err Internal \<and> list_trusted up db = Err Internal
   \<and> add_trusted up K fresh t fp db = (Err Internal, db)"
proof -
  have "table_ok False (open_table (migrated now))"
    using migrated_no_trusted [of now] by (simp add: open_table_def table_ok_def)
  from peers.run_inv [OF this, of K J ops]
  have "\<not> pt_has_trusted (fold (peer_op_exec K J) ops (open_table (migrated now)))" by (simp add: table_ok_def)
  moreover have "peer_sql_error no_such_column = Internal" by (simp add: no_such_column_def)
  ultimately show ?thesis by (simp add: is_trusted_peer_def list_trusted_def add_trusted_def Let_def)
qed

end
