(* ===== verification/Trust_Store.thy ===== *)
theory Trust_Store
  imports Peer_Repository
begin

text \<open>
  The trait \<open>TrustStore\<close> of \<open>crates/domain/src/trust.rs\<close>: its operations as a record, what it promises, and how the table
  of peers keeps it, or fails to, on a database that has the \<open>trusted\<close> column.
\<close>

section \<open>Model\<close>

text \<open>\<open>add_peer\<close> is an insert.\<close>

definition add_peer_record :: "bool \<Rightarrow> crates \<Rightarrow> peer_json \<Rightarrow> peer \<Rightarrow> (peer_table, unit, domain_error) action" where
  "add_peer_record up K J p = insert_peer up K J p"

text \<open>
  The trait object. A call may find the pool down, draws an id and reads the clock; these are the first three arguments.
  The implementation has no \<open>remove_trusted\<close>, which is an argument of the object.
\<close>

record 's trust_store =
  ts_is_trusted :: "bool \<Rightarrow> fingerprint \<Rightarrow> 's \<Rightarrow> bool domain_result"
  ts_add_trusted :: "bool \<Rightarrow> uuid \<Rightarrow> datetime \<Rightarrow> fingerprint \<Rightarrow> ('s, unit, domain_error) action"
  ts_remove_trusted :: "bool \<Rightarrow> fingerprint \<Rightarrow> ('s, unit, domain_error) action"
  ts_list_trusted :: "bool \<Rightarrow> 's \<Rightarrow> fingerprint list domain_result"
  ts_add_peer :: "bool \<Rightarrow> peer \<Rightarrow> ('s, unit, domain_error) action"
  ts_get_peer :: "bool \<Rightarrow> uuid \<Rightarrow> datetime \<Rightarrow> fingerprint \<Rightarrow> 's \<Rightarrow> peer option domain_result"

definition sqlite_trust_store ::
  "crates \<Rightarrow> peer_json \<Rightarrow> (bool \<Rightarrow> fingerprint \<Rightarrow> (peer_table, unit, domain_error) action) \<Rightarrow> peer_table trust_store" where
  "sqlite_trust_store K J remove =
     \<lparr> ts_is_trusted = \<lambda>up fp. is_trusted_peer up K fp,
       ts_add_trusted = \<lambda>up fresh now fp. add_trusted up K fresh now fp,
       ts_remove_trusted = remove,
       ts_list_trusted = \<lambda>up. list_trusted up,
       ts_add_peer = \<lambda>up p. add_peer_record up K J p,
       ts_get_peer = \<lambda>up fresh now fp. get_peer_opt up K J now fresh fp \<rparr>"

section \<open>The contract\<close>

text \<open>
  Trust is given by one kind of operation only. Then what is trusted after any operations was trusted before or was
  given trust by one of them.
\<close>

locale trust_contract =
  fixes exec :: "'op \<Rightarrow> 's \<Rightarrow> 's"
    and ok :: "'s \<Rightarrow> bool"
    and trusts :: "'s \<Rightarrow> 'fp \<Rightarrow> bool"
    and grants :: "'op \<Rightarrow> 'fp \<Rightarrow> bool"
  assumes exec_ok: "ok s \<Longrightarrow> ok (exec op s)"
    and exec_trusts: "ok s \<Longrightarrow> trusts (exec op s) fp \<Longrightarrow> trusts s fp \<or> grants op fp"
begin

lemma trusted_was_granted:
  "ok s \<Longrightarrow> trusts (fold exec ops s) fp \<Longrightarrow> trusts s fp \<or> list_ex (\<lambda>op. grants op fp) ops"
proof (induction ops arbitrary: s)
  case (Cons op ops)
  from Cons.IH [OF exec_ok [OF Cons.prems(1)]] Cons.prems exec_trusts [of s op fp] show ?case by auto
qed simp

end

definition trusts_text :: "peer_table \<Rightarrow> rstr \<Rightarrow> bool" where
  "trusts_text db k \<longleftrightarrow> (case peer_abs db k of Some r \<Rightarrow> row_trusted r = 1 | None \<Rightarrow> False)"

fun grants_text :: "crates \<Rightarrow> peer_op \<Rightarrow> rstr \<Rightarrow> bool" where
  "grants_text K (Op_Trust up i now fp) k \<longleftrightarrow> up \<and> to_formatted_string K fp = k"
| "grants_text K _ k \<longleftrightarrow> False"

lemma spec_row_trusted [simp]: "row_trusted (spec_row K J p i t trusted) = trusted"
  by (simp add: spec_row_def)

lemma minimal_row_trusted [simp]: "row_trusted (minimal_row K i now fp) = 1"
  by (simp add: minimal_row_def)

lemma spec_trusts:
  "(case peer_op_spec K J tr op M k of Some r \<Rightarrow> row_trusted r = 1 | None \<Rightarrow> False)
   \<Longrightarrow> (case M k of Some r \<Rightarrow> row_trusted r = 1 | None \<Rightarrow> False) \<or> grants_text K op k"
  by (cases op) (auto simp: split: if_splits option.splits)

interpretation trust: trust_contract "peer_op_exec K J" "table_ok tr" trusts_text "grants_text K" for K J tr
proof
  fix s op
  assume ok: "table_ok tr s"
  then show "table_ok tr (peer_op_exec K J op s)" using peer_op_correct by blast
  fix fp
  assume "trusts_text (peer_op_exec K J op s) fp"
  then show "trusts_text s fp \<or> grants_text K op fp"
    using spec_trusts [of K J tr op "peer_abs s" fp] peer_op_correct [OF ok, of K J op] by (simp add: trusts_text_def)
qed

lemma is_trusted_text:
  "is_trusted_peer True K fp db = Ok True \<longleftrightarrow> pt_has_trusted db \<and> trusts_text db (to_formatted_string K fp)"
  by (auto simp: is_trusted_peer_def trusts_text_def peer_abs_def split: option.splits)

lemma trusted_fps_text:
  assumes "trusted_fps rows = Ok fps" and "fp \<in> set fps"
  shows "\<exists>r\<in>set rows. row_trusted r = 1 \<and> from_hex (pm_fingerprint r) = Ok fp"
  using assms
proof (induction rows arbitrary: fps)
  case (Cons r rows)
  show ?case
  proof (cases "row_trusted r = 1")
    case True
    with Cons.prems(1) obtain f rest where "from_hex (pm_fingerprint r) = Ok f" "trusted_fps rows = Ok rest" "fps = f # rest"
      by (cases "from_hex (pm_fingerprint r)"; cases "trusted_fps rows") auto
    with Cons.IH [of rest] Cons.prems(2) True show ?thesis by auto
  next
    case False
    with Cons.prems Cons.IH [of fps] show ?thesis by auto
  qed
qed simp

lemma listed_trusts:
  assumes "table_ok tr db" and "list_trusted True db = Ok fps" and "fp \<in> set fps"
  shows "\<exists>k. trusts_text db k \<and> from_hex k = Ok fp"
proof -
  from assms(2) have "trusted_fps (pt_rows db) = Ok fps" by (auto simp: list_trusted_def split: if_splits)
  from trusted_fps_text [OF this assms(3)] obtain r where r: "r \<in> set (pt_rows db)" "row_trusted r = 1" "from_hex (pm_fingerprint r) = Ok fp"
    by blast
  then have "peer_abs db (pm_fingerprint r) = Some r" using assms(1) by (simp add: peer_abs_def table_ok_def sql_find_in)
  with r show ?thesis by (intro exI [of _ "pm_fingerprint r"]) (simp add: trusts_text_def)
qed

section \<open>Properties\<close>

text \<open>
  C33: Trust has to be granted, and a grant holds. On a database with the trust column, after any sequence of inserts,
  updates, deletions and grants, with failures anywhere: every peer that is answered or listed as trusted was trusted at the
  start or was granted trust by name in that sequence, so no insert or update gives it; and a grant that the store
  accepts for a peer it knows, or with an unused id, makes the answer true, and granting again changes nothing.
\<close>

theorem trust_must_be_granted:
  assumes "table_ok True db" and "db' = fold (peer_op_exec K J) ops db"
  shows "(if is_trusted_peer True K fp db' = Ok True
          then trusts_text db (to_formatted_string K fp) \<or> list_ex (\<lambda>op. grants_text K op (to_formatted_string K fp)) ops else True)
    \<and> (case list_trusted True db' of
         Ok fps \<Rightarrow> list_all (\<lambda>f. \<exists>k. from_hex k = Ok f \<and> (trusts_text db k \<or> list_ex (\<lambda>op. grants_text K op k) ops)) fps
       | _ \<Rightarrow> True)
    \<and> (if peer_abs db' (to_formatted_string K fp) \<noteq> None \<or> unused (model_of (minimal_row K i now fp)) (peer_abs db')
       then (case add_trusted True K i now fp db' of (r, db'') \<Rightarrow>
          r = Ok () \<and> is_trusted_peer True K fp db'' = Ok True \<and> peer_abs (snd (add_trusted True K j now' fp db'')) = peer_abs db'')
       else True)"
proof -
  have ok: "table_ok True db'" using peers.run_inv [OF assms(1)] assms(2) by simp
  have granted: "trusts_text db k \<or> list_ex (\<lambda>op. grants_text K op k) ops" if "trusts_text db' k" for k
    using trust.trusted_was_granted [OF assms(1), of K J ops k] that assms(2) by simp
  have "list_all (\<lambda>f. \<exists>k. from_hex k = Ok f \<and> (trusts_text db k \<or> list_ex (\<lambda>op. grants_text K op k) ops)) fps"
    if "list_trusted True db' = Ok fps" for fps
    using listed_trusts [OF ok that] granted unfolding list_all_iff by metis
  moreover have "r = Ok () \<and> is_trusted_peer True K fp db'' = Ok True \<and> peer_abs (snd (add_trusted True K j now' fp db'')) = peer_abs db''"
    if "peer_abs db' (to_formatted_string K fp) \<noteq> None \<or> unused (model_of (minimal_row K i now fp)) (peer_abs db')"
      and add: "add_trusted True K i now fp db' = (r, db'')" for r db''
  proof -
    let ?k = "to_formatted_string K fp"
    have db'': "db'' = peer_op_exec K J (Op_Trust True i now fp) db'" using add by simp
    have ok'': "table_ok True db''" and abs'': "peer_abs db'' = peer_op_spec K J True (Op_Trust True i now fp) (peer_abs db')"
      using peer_op_correct [OF ok, of K J "Op_Trust True i now fp"] by (simp_all add: db'')
    have "r = Ok ()" using add ok by (auto simp: add_trusted_def table_ok_def split: if_splits)
    moreover have "\<exists>row. peer_abs db'' ?k = Some row \<and> row_trusted row = 1"
      using that(1) unfolding abs'' by (cases "peer_abs db' ?k") auto
    then obtain row where row: "peer_abs db'' ?k = Some row" "row_trusted row = 1" by blast
    then have "is_trusted_peer True K fp db'' = Ok True" using ok'' by (simp add: is_trusted_text trusts_text_def table_ok_def)
    moreover have "row\<lparr> row_trusted := 1 \<rparr> = row" using row(2) by simp
    then have "peer_op_spec K J True (Op_Trust True j now' fp) (peer_abs db'') = peer_abs db''"
      using row(1) by (simp add: fun_upd_idem)
    then have "peer_abs (snd (add_trusted True K j now' fp db'')) = peer_abs db''"
      using peer_op_correct [OF ok'', of K J "Op_Trust True j now' fp"] by simp
    ultimately show ?thesis by blast
  qed
  ultimately show ?thesis using granted is_trusted_text [of K fp db'] by (auto split: result.split prod.split)
qed

definition trusting_table :: peer_table where
  "trusting_table = \<lparr> pt_rows = [], pt_has_trusted = True \<rparr>"

theorem trust_must_be_granted_witness:
  "let db = fold (peer_op_exec ref_crates sample_peer_json) [Op_Insert True sample_stored_peer] trusting_table in
   is_trusted_peer True ref_crates (peer_fingerprint sample_stored_peer) db \<noteq> Ok True
   \<and> (case add_trusted True ref_crates 4 9 (peer_fingerprint sample_stored_peer) db of (r, db') \<Rightarrow>
        r = Ok () \<and> is_trusted_peer True ref_crates (peer_fingerprint sample_stored_peer) db' = Ok True)"
proof -
  let ?ops = "[Op_Insert True sample_stored_peer]" and ?fp = "peer_fingerprint sample_stored_peer"
  let ?db = "fold (peer_op_exec ref_crates sample_peer_json) ?ops trusting_table"
  have ok: "table_ok True trusting_table" by (simp add: table_ok_def trusting_table_def)
  have "peer_abs ?db (to_formatted_string ref_crates ?fp) \<noteq> None"
    using peers.run_abs [OF ok, of ref_crates sample_peer_json ?ops]
    by (simp add: unused_def peer_abs_def trusting_table_def)
  moreover have "\<not> trusts_text trusting_table (to_formatted_string ref_crates ?fp)"
    by (simp add: trusts_text_def peer_abs_def trusting_table_def)
  ultimately show ?thesis
    using trust_must_be_granted [OF ok refl, where K = ref_crates and J = sample_peer_json and ops = ?ops and fp = ?fp and i = 4 and now = 9]
    by (auto simp: Let_def split: if_splits prod.splits)
qed

text \<open>
  The trait says that \<open>add_peer\<close> adds or updates a record and overwrites what is there. The implementation refuses a
  peer whose fingerprint or id is known, and leaves the stored record as it was.
\<close>

theorem add_peer_never_updates:
  assumes "peer_abs db (to_formatted_string K (peer_fingerprint p)) \<noteq> None"
  shows "add_peer_record True K J p db = (Err (Peer Peer_AlreadyExists), db)"
  using assms by (auto simp: add_peer_record_def insert_peer_def Let_def unique_row_def peer_abs_def)

section \<open>Trusting a peer that is not stored\<close>

lemma keyless_row_unreadable: "pm_ed25519_public m = [] \<Longrightarrow> \<exists>e. peer_of_model J now fresh m = Err e"
  by (cases "from_hex (pm_fingerprint m)") (simp_all add: peer_of_model_def)

lemma peer_of_model_not_Panic [simp]: "peer_of_model J now fresh m \<noteq> Panic"
  by (cases "pj_strings_from J (pm_addresses m)") (auto simp: peer_of_model_def rbind_Panic_conv)

lemma model_of_key [simp]: "pm_ed25519_public (model_of r) = pm_ed25519_public r"
  by (simp add: model_of_def peer_model.truncate_def)

lemma keyless_row_hides_all:
  "r \<in> set rows \<Longrightarrow> pm_ed25519_public r = [] \<Longrightarrow> peers_of_rows J draw n rows = Err Internal"
proof (induction rows arbitrary: n)
  case (Cons x rows)
  show ?case
  proof (cases "peer_of_model J (fst (draw n)) (snd (draw n)) (model_of x)")
    case (Ok p)
    then have "x \<noteq> r" using keyless_row_unreadable [of "model_of x" J "fst (draw n)" "snd (draw n)"] Cons.prems(2) by auto
    with Cons.prems Cons.IH [of "Suc n"] Ok show ?thesis by simp
  qed simp_all
qed simp

text \<open>
  C37: Trust and the records of peers are not separate in the table. Asked to trust a fingerprint that it does not know, the store
  adds a row without name and keys, which no later call can read: it answers that the fingerprint is trusted, but
  \<open>get_peer\<close> ends in an error, where the trait promises \<open>None\<close>; the list of all peers ends in an error, whatever
  else is stored; and the peer can not be added any more.
\<close>

theorem trusting_unknown_peer_blocks_table:
  assumes "table_ok True db" and "peer_abs db (to_formatted_string K fp) = None"
    and "unused (model_of (minimal_row K i now fp)) (peer_abs db)"
    and T: "T = sqlite_trust_store K J remove"
  shows "\<exists>db'. ts_add_trusted T True i now fp db = (Ok (), db')
    \<and> ts_get_peer T True j t fp db = Ok None
    \<and> ts_is_trusted T True fp db' = Ok True
    \<and> ts_get_peer T True j t fp db' = Err Internal
    \<and> list_all_peers True J draw db' = Err Internal
    \<and> (if peer_fingerprint p = fp then ts_add_peer T True p db' = (Err (Peer Peer_AlreadyExists), db') else True)"
proof -
  let ?k = "to_formatted_string K fp" and ?r = "minimal_row K i now fp"
  define db' where "db' = db\<lparr> pt_rows := pt_rows db @ [?r] \<rparr>"
  have unique: "unique_row (model_of ?r) (pt_rows db)" using assms(1,3) by (simp add: unused_unique)
  have abs: "peer_abs db' = (peer_abs db)(?k \<mapsto> ?r)" and ok: "table_ok True db'"
    using append_row [OF assms(1) unique] by (simp_all add: db'_def)
  have unknown: "sql_matches pm_fingerprint ?k (pt_rows db) = 0" "sql_find pm_fingerprint ?k (pt_rows db) = None"
    using assms(2) by (simp_all add: peer_abs_def)
  have found: "sql_find pm_fingerprint ?k (pt_rows db') = Some ?r" using abs by (metis fun_upd_same peer_abs_def)
  have "add_trusted True K i now fp db = (Ok (), db')"
    using assms(1) unknown unique by (simp add: add_trusted_def db'_def table_ok_def)
  moreover have "is_trusted_peer True K fp db' = Ok True"
    using ok found by (simp add: is_trusted_peer_def table_ok_def)
  moreover obtain e where "peer_of_model J t j (model_of ?r) = Err e"
    using keyless_row_unreadable [of "model_of ?r" J t j] by (auto simp: minimal_row_def)
  then have "get_peer_opt True K J t j fp db' = Err Internal"
    using found by (simp add: get_peer_opt_def get_by_fingerprint_def)
  moreover have "get_peer_opt True K J t j fp db = Ok None"
    using unknown by (simp add: get_peer_opt_def get_by_fingerprint_def)
  moreover have "list_all_peers True J draw db' = Err Internal"
    unfolding list_all_peers_def db'_def by (simp, rule keyless_row_hides_all [of ?r]) (simp_all add: minimal_row_def)
  moreover have "add_peer_record True K J p db' = (Err (Peer Peer_AlreadyExists), db')" if "peer_fingerprint p = fp"
    using add_peer_never_updates [of db' K p J] abs that by simp
  ultimately show ?thesis unfolding T sqlite_trust_store_def by simp
qed

theorem trusting_unknown_peer_blocks_table_witness:
  "\<exists>db'. ts_add_trusted (sqlite_trust_store ref_crates sample_peer_json (\<lambda>_ _ s. (Ok (), s))) True 4 9
      (peer_fingerprint sample_stored_peer) trusting_table = (Ok (), db')
    \<and> list_all_peers True sample_peer_json (\<lambda>n. (9, 5)) db' = Err Internal"
proof -
  have "table_ok True trusting_table" "peer_abs trusting_table k = None" "unused m (peer_abs trusting_table)" for k m
    by (simp_all add: table_ok_def peer_abs_def unused_def trusting_table_def)
  from trusting_unknown_peer_blocks_table [OF this refl, where K = ref_crates and J = sample_peer_json and i = 4 and now = 9
      and fp = "peer_fingerprint sample_stored_peer" and remove = "\<lambda>_ _ s. (Ok (), s)" and draw = "\<lambda>n. (9, 5)"]
  show ?thesis by metis
qed

end
