(* ===== verification/Message_Repository.thy ===== *)
theory Message_Repository
  imports Database Message
begin

text \<open>
  \<open>crates/persistence/src/models/mod.rs\<close> (messages) and \<open>repositories/message_repository.rs\<close>: the row of a
  message, its table and the table of recipients. \<open>serde_json\<close> is a parameter.
\<close>

section \<open>Model\<close>

record message_json =
  mj_strings_to :: "rstr list \<Rightarrow> rstr option"
  mj_state_to :: "message_state \<Rightarrow> rstr option"
  mj_message_to :: "message \<Rightarrow> rstr option"
  mj_message_from :: "rstr \<Rightarrow> message option"

record message_model =
  mm_id :: rstr
  mm_sender_fingerprint :: rstr
  mm_recipient_fingerprints :: rstr
  mm_content :: bytes
  mm_content_type :: rstr
  mm_state :: rstr
  mm_message_json :: rstr
  mm_created_at :: int
  mm_sent_at :: "int option"
  mm_delivered_at :: "int option"
  mm_read_at :: "int option"

fun debug_content_type :: "content_type \<Rightarrow> rstr" where
  "debug_content_type Text = lit ''Text''"
| "debug_content_type Image = lit ''Image''"
| "debug_content_type File = lit ''File''"
| "debug_content_type Voice = lit ''Voice''"

definition or_text :: "string \<Rightarrow> rstr option \<Rightarrow> rstr" where
  "or_text d j = (case j of Some s \<Rightarrow> s | None \<Rightarrow> lit d)"

definition message_model_of :: "crates \<Rightarrow> message_json \<Rightarrow> message \<Rightarrow> message_model" where
  "message_model_of K J m = \<lparr> mm_id = uuid_string K (msg_id m),
     mm_sender_fingerprint = to_formatted_string K (msg_sender m),
     mm_recipient_fingerprints = or_text ''[]'' (mj_strings_to J (map (to_formatted_string K) (msg_recipients m))),
     mm_content = msg_content m, mm_content_type = debug_content_type (msg_content_type m),
     mm_state = or_text ''null'' (mj_state_to J (msg_state m)), mm_message_json = or_text '''' (mj_message_to J m),
     mm_created_at = timestamp (msg_created_at m), mm_sent_at = map_option timestamp (msg_sent_at m),
     mm_delivered_at = map_option timestamp (msg_delivered_at m), mm_read_at = map_option timestamp (msg_read_at m) \<rparr>"

definition message_of_model :: "message_json \<Rightarrow> message_model \<Rightarrow> message domain_result" where
  "message_of_model J m = ok_or (mj_message_from J (mm_message_json m)) Internal"

fun message_sql_error :: "sql_error \<Rightarrow> domain_error" where
  "message_sql_error QueryReturnedNoRows = Message Msg_NotFound"
| "message_sql_error _ = Internal"

record message_table =
  mt_rows :: "message_model list"
  mt_recipients :: "(rstr \<times> rstr) list"

text \<open>\<open>str::split(',')\<close>.\<close>

fun split_comma :: "rstr \<Rightarrow> rstr list" where
  "split_comma [] = [[]]"
| "split_comma (c # s) = (if c = 44 then [] # split_comma s else (c # hd (split_comma s)) # tl (split_comma s))"

text \<open>
  The recipients of a message are the pieces of the stored text; a duplicate violates the primary key of the
  recipients table and is ignored, as every error of this statement is.
\<close>

definition add_recipient :: "rstr \<Rightarrow> rstr \<Rightarrow> (rstr \<times> rstr) list \<Rightarrow> (rstr \<times> rstr) list" where
  "add_recipient i fp rs = (if (i, fp) \<in> set rs then rs else rs @ [(i, fp)])"

definition insert_message :: "bool \<Rightarrow> crates \<Rightarrow> message_json \<Rightarrow> message \<Rightarrow> (message_table, unit, domain_error) action" where
  "insert_message up K J msg db =
     (let m = message_model_of K J msg in
      if \<not> up then (Err Internal, db)
      else if sql_find mm_id (mm_id m) (mt_rows db) \<noteq> None
      then (Err (message_sql_error (SqliteFailure (Some ''UNIQUE constraint failed: messages.id''))), db)
      else (Ok (), db\<lparr> mt_rows := mt_rows db @ [m],
              mt_recipients := fold (add_recipient (mm_id m)) (split_comma (mm_recipient_fingerprints m)) (mt_recipients db) \<rparr>))"

definition get_message :: "bool \<Rightarrow> crates \<Rightarrow> message_json \<Rightarrow> uuid \<Rightarrow> message_table \<Rightarrow> message domain_result" where
  "get_message up K J i db =
     (if \<not> up then Err Internal
      else case sql_find mm_id (uuid_string K i) (mt_rows db) of
        None \<Rightarrow> Err (message_sql_error QueryReturnedNoRows)
      | Some row \<Rightarrow> ok_or (mj_message_from J (mm_message_json row)) Internal)"

definition update_state :: "bool \<Rightarrow> crates \<Rightarrow> message_json \<Rightarrow> uuid \<Rightarrow> message_state \<Rightarrow> (message_table, unit, domain_error) action" where
  "update_state up K J i new_state db =
     (case mj_state_to J new_state of
        None \<Rightarrow> (Err Internal, db)
      | Some state_json \<Rightarrow>
          if \<not> up then (Err Internal, db)
          else if sql_matches mm_id (uuid_string K i) (mt_rows db) = 0 then (Err (Message Msg_NotFound), db)
          else (Ok (), db\<lparr> mt_rows := sql_update mm_id (uuid_string K i) (\<lambda>r. r\<lparr> mm_state := state_json \<rparr>) (mt_rows db) \<rparr>))"

text \<open>The rows of the join, newest first.\<close>

definition joined_rows :: "rstr \<Rightarrow> message_table \<Rightarrow> message_model list" where
  "joined_rows fp db = sort_key (\<lambda>r. - mm_created_at r)
     (concat (map (\<lambda>r. map (\<lambda>_. r) (filter (\<lambda>(i, f). i = mm_id r \<and> f = fp) (mt_recipients db))) (mt_rows db)))"

fun messages_of_rows :: "message_json \<Rightarrow> message_model list \<Rightarrow> message list domain_result" where
  "messages_of_rows J [] = Ok []"
| "messages_of_rows J (r # rs) =
     rbind (ok_or (mj_message_from J (mm_message_json r)) Internal) (\<lambda>m. map_ok (Cons m) (messages_of_rows J rs))"

definition list_for_recipient :: "bool \<Rightarrow> crates \<Rightarrow> message_json \<Rightarrow> fingerprint \<Rightarrow> message_table \<Rightarrow> message list domain_result" where
  "list_for_recipient up K J fp db =
     (if \<not> up then Err Internal else messages_of_rows J (joined_rows (to_formatted_string K fp) db))"

definition delete_message :: "bool \<Rightarrow> crates \<Rightarrow> uuid \<Rightarrow> (message_table, unit, domain_error) action" where
  "delete_message up K i db =
     (if \<not> up then (Err Internal, db)
      else if sql_matches mm_id (uuid_string K i) (mt_rows db) = 0 then (Err (Message Msg_NotFound), db)
      else (Ok (), db\<lparr> mt_rows := sql_delete mm_id (uuid_string K i) (mt_rows db),
              mt_recipients := filter (\<lambda>(j, f). j \<noteq> uuid_string K i) (mt_recipients db) \<rparr>))"

section \<open>Refinement\<close>

datatype message_op = Op_Store bool message | Op_State bool uuid message_state | Op_Remove bool uuid

fun message_op_exec :: "crates \<Rightarrow> message_json \<Rightarrow> message_op \<Rightarrow> message_table \<Rightarrow> message_table" where
  "message_op_exec K J (Op_Store up m) db = snd (insert_message up K J m db)"
| "message_op_exec K J (Op_State up i st) db = snd (update_state up K J i st db)"
| "message_op_exec K J (Op_Remove up i) db = snd (delete_message up K i db)"

text \<open>
  What a reader of the repository sees: the serialised message under its id. A state update is not a part of it.
\<close>

type_synonym message_map = "rstr \<Rightarrow> rstr option"

fun message_op_spec :: "crates \<Rightarrow> message_json \<Rightarrow> message_op \<Rightarrow> message_map \<Rightarrow> message_map" where
  "message_op_spec K J (Op_Store up m) M =
     (if up \<and> M (uuid_string K (msg_id m)) = None
      then M(uuid_string K (msg_id m) \<mapsto> or_text '''' (mj_message_to J m)) else M)"
| "message_op_spec K J (Op_State up i st) M = M"
| "message_op_spec K J (Op_Remove up i) M = (if up then M(uuid_string K i := None) else M)"

definition message_table_ok :: "message_table \<Rightarrow> bool" where
  "message_table_ok db \<longleftrightarrow> distinct (map mm_id (mt_rows db))"

definition message_abs :: "message_table \<Rightarrow> message_map" where
  "message_abs db i = map_option mm_message_json (sql_find mm_id i (mt_rows db))"

lemma message_op_correct:
  assumes "message_table_ok db"
  shows "message_table_ok (message_op_exec K J op db) \<and> message_abs (message_op_exec K J op db) = message_op_spec K J op (message_abs db)"
proof (cases op)
  case (Op_Store up m)
  then show ?thesis using assms
    by (auto simp: insert_message_def Let_def message_table_ok_def message_abs_def message_model_of_def fun_eq_iff sql_find_None
        split: option.splits dest: sql_find_key)
next
  case (Op_State up i st)
  have "message_abs (db\<lparr> mt_rows := sql_update mm_id (uuid_string K i) (\<lambda>r. r\<lparr> mm_state := s \<rparr>) (mt_rows db) \<rparr>) = message_abs db" for s
    by (auto simp: message_abs_def fun_eq_iff sql_find_update option.map_comp comp_def)
  then show ?thesis using Op_State assms
    by (auto simp: update_state_def message_table_ok_def map_sql_update split: option.splits)
next
  case (Op_Remove up i)
  have "(message_abs db)(uuid_string K i := None)
      = message_abs (db\<lparr> mt_rows := sql_delete mm_id (uuid_string K i) (mt_rows db), mt_recipients := rs \<rparr>)" for rs
    using assms sql_find_key [of mm_id]
    by (auto simp: message_abs_def message_table_ok_def sql_find_delete fun_eq_iff split: option.splits)
  moreover have "(message_abs db)(uuid_string K i := None) = message_abs db" if "sql_find mm_id (uuid_string K i) (mt_rows db) = None"
    using that by (auto simp: message_abs_def)
  ultimately show ?thesis using Op_Remove assms
    by (auto simp: delete_message_def message_table_ok_def distinct_sql_delete)
qed

interpretation messages: simulation message_table_ok message_abs "message_op_exec K J" "message_op_spec K J" for K J
  by unfold_locales (use message_op_correct in blast)+

section \<open>Recipients\<close>

text \<open>
  \<open>serde_json\<close> writes an array of strings without characters that need escaping as the quoted strings,
  separated by commas, in brackets.
\<close>

fun quoted_list :: "rstr list \<Rightarrow> rstr" where
  "quoted_list [] = []"
| "quoted_list [s] = 34 # s @ [34]"
| "quoted_list (s # t # ss) = 34 # s @ 34 # 44 # quoted_list (t # ss)"

definition plain :: "rstr \<Rightarrow> bool" where
  "plain s \<longleftrightarrow> list_all (\<lambda>c. 32 \<le> c \<and> c < 127 \<and> c \<noteq> 34 \<and> c \<noteq> 92) s"

definition json_arrays_ok :: "message_json \<Rightarrow> bool" where
  "json_arrays_ok J \<longleftrightarrow> (\<forall>ss. list_all plain ss \<longrightarrow> mj_strings_to J ss = Some (91 # quoted_list ss @ [93]))"

lemma split_comma_none: "44 \<notin> set s \<Longrightarrow> split_comma s = [s]"
  by (induction s) auto

lemma split_comma_append: "44 \<notin> set a \<Longrightarrow> split_comma (a @ 44 # b) = a # split_comma b"
  by (induction a) auto

text \<open>Every piece of a printed array holds a quote or a bracket.\<close>

lemma split_quoted:
  assumes "list_all (\<lambda>s. 44 \<notin> set s) ss" and "44 \<notin> set pre" and "44 \<notin> set post" and "91 \<in> set pre \<or> ss \<noteq> []"
    and "p \<in> set (split_comma (pre @ quoted_list ss @ post))"
  shows "34 \<in> set p \<or> 91 \<in> set p"
  using assms
proof (induction ss arbitrary: pre rule: quoted_list.induct)
  case 1
  then show ?case by (simp add: split_comma_none)
next
  case (2 s)
  then have "44 \<notin> set (pre @ 34 # s @ 34 # post)" by auto
  from split_comma_none [OF this] "2.prems"(5) show ?case by auto
next
  case (3 s t ss)
  have "split_comma (pre @ quoted_list (s # t # ss) @ post) = (pre @ 34 # s @ [34]) # split_comma ([] @ quoted_list (t # ss) @ post)"
    using "3.prems"(1,2) split_comma_append [of "pre @ 34 # s @ [34]" "quoted_list (t # ss) @ post"] by auto
  with "3.prems" "3.IH" [of "[]"] show ?case by auto
qed

lemma formatted_plain:
  assumes "hex_ok K"
  shows "plain (to_formatted_string K fp)" "44 \<notin> set (to_formatted_string K fp)"
    "34 \<notin> set (to_formatted_string K fp)" "91 \<notin> set (to_formatted_string K fp)"
  using formatted_chars [OF assms, of _ fp]
  by (fastforce simp: plain_def list_all_iff is_ascii_hexdigit_def)+

text \<open>No entry of the recipients table is a fingerprint.\<close>

definition recipients_odd :: "message_table \<Rightarrow> bool" where
  "recipients_odd db \<longleftrightarrow> list_all (\<lambda>(i, f). 34 \<in> set f \<or> 91 \<in> set f) (mt_recipients db)"

lemma recipients_odd_insert:
  assumes "hex_ok K" and "json_arrays_ok J" and "recipients_odd db"
  shows "recipients_odd (snd (insert_message up K J m db))"
proof -
  let ?fps = "map (to_formatted_string K) (msg_recipients m)"
  have "list_all plain ?fps" by (simp add: list_all_iff formatted_plain [OF assms(1)])
  then have rec: "mm_recipient_fingerprints (message_model_of K J m) = [91] @ quoted_list ?fps @ [93]"
    using assms(2) by (simp add: message_model_of_def or_text_def json_arrays_ok_def)
  have "34 \<in> set p \<or> 91 \<in> set p" if "p \<in> set (split_comma (mm_recipient_fingerprints (message_model_of K J m)))" for p
    using that unfolding rec
    by (rule split_quoted [rotated 4]) (simp_all add: list_all_iff formatted_plain [OF assms(1)])
  moreover have "list_all (\<lambda>(i, f). 34 \<in> set f \<or> 91 \<in> set f) (fold (add_recipient i) ps rs)"
    if "list_all (\<lambda>(i, f). 34 \<in> set f \<or> 91 \<in> set f) rs" "\<forall>p\<in>set ps. 34 \<in> set p \<or> 91 \<in> set p" for i ps rs
    using that by (induction ps arbitrary: rs) (auto simp: add_recipient_def)
  ultimately show ?thesis using assms(3) by (auto simp: insert_message_def Let_def recipients_odd_def)
qed

lemma recipients_odd_run:
  assumes "hex_ok K" and "json_arrays_ok J" and "recipients_odd db"
  shows "recipients_odd (fold (message_op_exec K J) ops db)"
  using assms(3)
proof (induction ops arbitrary: db)
  case (Cons op ops)
  have "recipients_odd (message_op_exec K J op db)"
  proof (cases op)
    case (Op_Store up m)
    then show ?thesis using recipients_odd_insert [OF assms(1,2) Cons.prems] by simp
  next
    case (Op_State up i st)
    then show ?thesis using Cons.prems by (auto simp: update_state_def recipients_odd_def split: option.splits)
  next
    case (Op_Remove up i)
    then show ?thesis using Cons.prems by (auto simp: delete_message_def recipients_odd_def list_all_iff)
  qed
  from Cons.IH [OF this] show ?case by simp
qed simp

lemma joined_rows_odd:
  assumes "recipients_odd db" and "34 \<notin> set fp" and "91 \<notin> set fp"
  shows "joined_rows fp db = []"
proof -
  have "filter (\<lambda>(j, f). j = i \<and> f = fp) (mt_recipients db) = []" for i
    using assms by (auto simp: recipients_odd_def list_all_iff filter_empty_conv)
  then have "concat (map (\<lambda>r. map (\<lambda>_. r) (filter (\<lambda>(i, f). i = mm_id r \<and> f = fp) (mt_recipients db))) (mt_rows db)) = []"
    by simp
  then show ?thesis unfolding joined_rows_def by (simp del: concat_eq_Nil_conv)
qed

section \<open>Properties\<close>

text \<open>
  C22: The message table implements a map of serialised messages. Through every sequence of inserts, state updates and
  deletes, with failures of the database at any point, ids stay unique, an insert never overwrites, and
  reading an id gives the message that was inserted under it, or not-found. A state update is not visible to a reader:
  it changes a column that reading does not use.
\<close>

theorem message_repository_refines_map:
  assumes "message_table_ok db"
  shows "message_table_ok (fold (message_op_exec K J) ops db)
    \<and> get_message True K J i (fold (message_op_exec K J) ops db) =
        (case fold (message_op_spec K J) ops (message_abs db) (uuid_string K i) of
           None \<Rightarrow> Err (Message Msg_NotFound)
         | Some json \<Rightarrow> ok_or (mj_message_from J json) Internal)"
proof -
  have "get_message True K J i t = (case message_abs t (uuid_string K i) of
           None \<Rightarrow> Err (Message Msg_NotFound) | Some json \<Rightarrow> ok_or (mj_message_from J json) Internal)" for t
    by (auto simp: get_message_def message_abs_def split: option.splits)
  then show ?thesis using messages.run_inv [OF assms] messages.run_abs [OF assms] by metis
qed

definition sample_message :: message where
  "sample_message = \<lparr> msg_id = 5, msg_sender = Fingerprint (replicate 20 1), msg_recipients = [Fingerprint (replicate 20 2)],
     msg_content = [1], msg_content_type = Text, msg_state = Pending, msg_created_at = 0,
     msg_sent_at = None, msg_delivered_at = None, msg_read_at = None \<rparr>"

definition sample_message_json :: message_json where
  "sample_message_json = \<lparr> mj_strings_to = \<lambda>ss. Some (91 # quoted_list ss @ [93]), mj_state_to = \<lambda>_. Some [],
     mj_message_to = \<lambda>_. Some [1], mj_message_from = \<lambda>_. Some sample_message \<rparr>"

theorem message_repository_refines_map_witness:
  "get_message True ref_crates sample_message_json 5 (fold (message_op_exec ref_crates sample_message_json)
     [Op_Store True sample_message, Op_State True 5 Sending] \<lparr> mt_rows = [], mt_recipients = [] \<rparr>) = Ok sample_message"
proof -
  have "message_table_ok \<lparr> mt_rows = [], mt_recipients = [] \<rparr>" by (simp add: message_table_ok_def)
  from message_repository_refines_map [OF this, of ref_crates sample_message_json "[Op_Store True sample_message, Op_State True 5 Sending]" 5]
  show ?thesis by (simp add: message_abs_def sample_message_def sample_message_json_def or_text_def)
qed

text \<open>
  Nobody's messages can be listed. The recipients of a message are stored by splitting the text of a JSON array at its
  commas, so every stored recipient carries a quote or a bracket; after any sequence of statements on a new database the list of
  messages for any fingerprint is empty.
\<close>

theorem recipient_lists_empty:
  assumes "hex_ok K" and "json_arrays_ok J"
  shows "list_for_recipient True K J fp (fold (message_op_exec K J) ops \<lparr> mt_rows = [], mt_recipients = [] \<rparr>) = Ok []"
proof -
  have "recipients_odd (fold (message_op_exec K J) ops \<lparr> mt_rows = [], mt_recipients = [] \<rparr>)"
    by (rule recipients_odd_run [OF assms]) (simp add: recipients_odd_def)
  then have "joined_rows (to_formatted_string K fp) (fold (message_op_exec K J) ops \<lparr> mt_rows = [], mt_recipients = [] \<rparr>) = []"
    by (rule joined_rows_odd) (simp_all add: formatted_plain [OF assms(1)])
  then show ?thesis by (simp add: list_for_recipient_def)
qed

theorem recipient_lists_empty_witness:
  "list_for_recipient True ref_crates sample_message_json (Fingerprint (replicate 20 2))
     (fold (message_op_exec ref_crates sample_message_json) [Op_Store True sample_message] \<lparr> mt_rows = [], mt_recipients = [] \<rparr>) = Ok []"
proof -
  have "json_arrays_ok sample_message_json" by (simp add: json_arrays_ok_def sample_message_json_def)
  from recipient_lists_empty [OF ref_hex_ok this] show ?thesis .
qed

end
