(* ===== verification/Database_Open.thy ===== *)
theory Database_Open
  imports Migrations
begin

text \<open>
  The opening of a database: \<open>Database::new\<close> and \<open>Database::in_memory\<close> of
  \<open>crates/persistence/src/db/sqlite.rs\<close> on the part of the file system they touch. A path is the list of its
  components. What the pool answers is a function of the files it finds.
\<close>

section \<open>Model\<close>

type_synonym fs_path = "string list"

datatype db_path = Memory | File_Path fs_path

text \<open>Directories, files with their permission bits, and the calls that the system refuses.\<close>

record host =
  ho_dirs :: "fs_path list"
  ho_files :: "(fs_path \<times> nat) list"
  ho_mkdir_fails :: "fs_path \<Rightarrow> bool"
  ho_create_fails :: "fs_path \<Rightarrow> bool"

text \<open>\<open>create_dir_all\<close>: the missing directories from the outermost on, up to the first that cannot be made.\<close>

fun make_dirs :: "fs_path list \<Rightarrow> host \<Rightarrow> host" where
  "make_dirs [] h = h"
| "make_dirs (d # ds) h =
     (if d \<in> set (ho_dirs h) then make_dirs ds h
      else if ho_mkdir_fails h d \<or> map_of (ho_files h) d \<noteq> None then h
      else make_dirs ds (h\<lparr> ho_dirs := ho_dirs h @ [d] \<rparr>))"

definition ancestors :: "fs_path \<Rightarrow> fs_path list" where
  "ancestors p = map (\<lambda>n. take n p) [1..<length p]"

definition path_exists :: "fs_path \<Rightarrow> host \<Rightarrow> bool" where
  "path_exists p h \<longleftrightarrow> p \<in> set (ho_dirs h) \<or> map_of (ho_files h) p \<noteq> None"

text \<open>A file can be made where its directory is there; a bare name goes to the working directory.\<close>

definition create_file :: "fs_path \<Rightarrow> nat \<Rightarrow> host \<Rightarrow> host" where
  "create_file p mode h =
     (if (butlast p = [] \<or> butlast p \<in> set (ho_dirs h)) \<and> \<not> ho_create_fails h p
      then h\<lparr> ho_files := ho_files h @ [(p, mode)] \<rparr> else h)"

definition OWNER_ONLY :: nat where "OWNER_ONLY = 384" \<comment> \<open>octal 600\<close>

text \<open>The steps before the pool: both are best effort, their failures are not errors.\<close>

definition prepare_file :: "fs_path \<Rightarrow> host \<Rightarrow> host" where
  "prepare_file p h =
     (let h1 = (if \<not> path_exists (butlast p) h then make_dirs (ancestors p) h else h)
      in if \<not> path_exists p h1 then create_file p OWNER_ONLY h1 else h1)"

text \<open>A database: where it is, and for every connection of the pool the settings made on it.\<close>

record database =
  db_at :: db_path
  db_settings :: "(string \<times> string) list list"

record pool_replies =
  po_build :: "host \<Rightarrow> string option"
  po_get :: "string option"
  po_pragmas :: "sql_error option"

definition pragmas :: "(string \<times> string) list" where
  "pragmas = [(''journal_mode'', ''WAL''), (''synchronous'', ''NORMAL''), (''foreign_keys'', ''ON''), (''busy_timeout'', ''5000'')]"

definition database_new :: "nat \<Rightarrow> pool_replies \<Rightarrow> db_path \<Rightarrow> (host, database, persistence_failure) action" where
  "database_new pool_size pool at =
     abind (aput (\<lambda>h. case at of Memory \<Rightarrow> h | File_Path p \<Rightarrow> prepare_file p h)) (\<lambda>_.
     abind (aget (\<lambda>h. case po_build pool h of Some e \<Rightarrow> Err (Pe_Pool e) | None \<Rightarrow> Ok ())) (\<lambda>_.
     abind (alift (case po_get pool of Some e \<Rightarrow> Err (Pe_Pool e) | None \<Rightarrow> Ok ())) (\<lambda>_.
     abind (alift (case po_pragmas pool of Some e \<Rightarrow> Err (failure_of_sql e) | None \<Rightarrow> Ok ())) (\<lambda>_.
     aret \<lparr> db_at = at, db_settings = (replicate pool_size [])[0 := pragmas] \<rparr>))))"

definition in_memory :: "nat \<Rightarrow> pool_replies \<Rightarrow> (host, database, persistence_failure) action" where
  "in_memory pool_size pool = database_new pool_size pool Memory"

section \<open>Lemmas\<close>

lemma make_dirs_files [simp]: "ho_files (make_dirs ds h) = ho_files h"
  by (induction ds h rule: make_dirs.induct) auto

lemma make_dirs_fails [simp]:
  "ho_mkdir_fails (make_dirs ds h) = ho_mkdir_fails h" "ho_create_fails (make_dirs ds h) = ho_create_fails h"
  by (induction ds h rule: make_dirs.induct) auto

lemma make_dirs_dirs: "set (ho_dirs h) \<subseteq> set (ho_dirs (make_dirs ds h)) \<and> set (ho_dirs (make_dirs ds h)) \<subseteq> set (ho_dirs h) \<union> set ds"
  by (induction ds h rule: make_dirs.induct) auto

lemma make_dirs_all:
  "(\<And>d. d \<in> set ds \<Longrightarrow> \<not> ho_mkdir_fails h d \<and> map_of (ho_files h) d = None) \<Longrightarrow> set ds \<subseteq> set (ho_dirs (make_dirs ds h))"
proof (induction ds h rule: make_dirs.induct)
  case (2 d ds h)
  then show ?case
    using make_dirs_dirs [of h ds] make_dirs_dirs [of "h\<lparr> ho_dirs := ho_dirs h @ [d] \<rparr>" ds] by auto
qed simp

lemma ancestors_parent: "butlast p \<noteq> [] \<Longrightarrow> butlast p \<in> set (ancestors p)"
  by (auto simp: ancestors_def butlast_conv_take image_iff intro!: bexI [of _ "length p - 1"])

lemma database_new_host:
  "snd (database_new n pool at h) = (case at of Memory \<Rightarrow> h | File_Path p \<Rightarrow> prepare_file p h)"
  by (auto simp: database_new_def action_defs split: option.split result.split db_path.split)

lemma prepare_file_files: "ho_files (prepare_file p h) = ho_files h \<or> ho_files (prepare_file p h) = ho_files h @ [(p, OWNER_ONLY)] \<and> map_of (ho_files h) p = None"
  by (auto simp: prepare_file_def Let_def create_file_def path_exists_def)

lemma prepare_file_dirs: "set (ho_dirs (prepare_file p h)) - set (ho_dirs h) \<subseteq> set (ancestors p)"
  using make_dirs_dirs [of h "ancestors p"] by (auto simp: prepare_file_def Let_def create_file_def)

lemma prepare_file_exists:
  assumes "\<And>d. d \<in> set (ancestors p) \<Longrightarrow> \<not> ho_mkdir_fails h d \<and> map_of (ho_files h) d = None" and "\<not> ho_create_fails h p"
  shows "path_exists p (prepare_file p h)"
proof -
  define h1 where "h1 = (if \<not> path_exists (butlast p) h then make_dirs (ancestors p) h else h)"
  have "butlast p = [] \<or> butlast p \<in> set (ho_dirs h1)"
  proof (cases "butlast p = []")
    case False
    then have "butlast p \<in> set (ancestors p)" by (rule ancestors_parent)
    then show ?thesis using make_dirs_all [of "ancestors p" h] assms(1) by (auto simp: path_exists_def h1_def)
  qed simp
  moreover have "\<not> ho_create_fails h1 p" using assms(2) by (simp add: h1_def)
  ultimately have "path_exists p (create_file p OWNER_ONLY h1)"
    by (auto simp: create_file_def path_exists_def map_add_def split: option.split)
  moreover have "prepare_file p h = (if path_exists p h1 then h1 else create_file p OWNER_ONLY h1)"
    by (simp add: prepare_file_def Let_def h1_def)
  ultimately show ?thesis by simp
qed

section \<open>Properties\<close>

text \<open>
  Opening a database harms nothing and sets one connection up. Whatever the file system and the pool answer: every file
  keeps its permissions; the only file that can appear is the database itself, readable and writable by the owner alone,
  and only where there was none; the only directories that can appear lie on its path; an in-memory database touches
  nothing. The settings reach exactly one connection of the pool.
\<close>

theorem database_new_effect:
  "case database_new (Suc n) pool at h of (r, h') \<Rightarrow>
     (ho_files h' = ho_files h \<or> (\<exists>p. at = File_Path p \<and> map_of (ho_files h) p = None \<and> ho_files h' = ho_files h @ [(p, OWNER_ONLY)]))
     \<and> set (ho_dirs h') - set (ho_dirs h) \<subseteq> (case at of Memory \<Rightarrow> {} | File_Path p \<Rightarrow> set (ancestors p))
     \<and> (case at of Memory \<Rightarrow> h' = h | File_Path p \<Rightarrow> True)
     \<and> (case r of Ok db \<Rightarrow> db_at db = at \<and> db_settings db = pragmas # replicate n [] | Err e \<Rightarrow> True | Panic \<Rightarrow> False)"
proof -
  obtain r h' where run: "database_new (Suc n) pool at h = (r, h')" by (cases "database_new (Suc n) pool at h")
  then have h': "h' = (case at of Memory \<Rightarrow> h | File_Path p \<Rightarrow> prepare_file p h)" using database_new_host [of "Suc n" pool at h] by simp
  have res: "case r of Ok db \<Rightarrow> db_at db = at \<and> db_settings db = pragmas # replicate n [] | Err e \<Rightarrow> True | Panic \<Rightarrow> False"
    using run by (auto simp: database_new_def action_defs split: option.splits result.splits)
  then show ?thesis
  proof (cases at)
    case Memory
    with res show ?thesis unfolding run by (simp add: h')
  next
    case (File_Path p)
    with res show ?thesis unfolding run
      using prepare_file_files [of p h] prepare_file_dirs [of p h] by (auto simp: h')
  qed
qed

text \<open>
  A database file is there after the opening when the file system refuses nothing and no component of its path is a file.
\<close>

theorem database_file_created:
  assumes "\<And>d. d \<in> set (ancestors p) \<Longrightarrow> \<not> ho_mkdir_fails h d \<and> map_of (ho_files h) d = None" and "\<not> ho_create_fails h p"
  shows "path_exists p (snd (database_new n pool (File_Path p) h))"
  using prepare_file_exists [OF assms] by (simp add: database_new_host)

definition empty_host :: host where
  "empty_host = \<lparr> ho_dirs = [], ho_files = [], ho_mkdir_fails = (\<lambda>_. False), ho_create_fails = (\<lambda>_. False) \<rparr>"

theorem database_file_created_witness:
  "path_exists [''data'', ''rubix.db'']
     (snd (database_new 10 \<lparr> po_build = (\<lambda>_. None), po_get = None, po_pragmas = None \<rparr> (File_Path [''data'', ''rubix.db'']) empty_host))"
  by (rule database_file_created) (simp_all add: empty_host_def)

end
