(* ===== verification/Ui_Controller.thy ===== *)
theory Ui_Controller
  imports App_Ports
begin

text \<open>
  \<open>crates/ui/src/lib.rs\<close>, the actions of the screens (\<open>chat_screen.rs\<close>, \<open>profile_screen.rs\<close>,
  \<open>settings_screen.rs\<close>) and \<open>apps/desktop/src/app.rs\<close>: the shared UI state, the worker task that takes commands, the
  handling of its messages, and what the clicks of a frame do. What a frame draws is in \<open>Ui_View\<close>. An
  execution interleaves frames, turns of the worker and handled messages; a frame acts on the snapshot of the
  state that it took when it began.
\<close>

section \<open>State\<close>

definition MAX_DISPLAYED_MESSAGES :: nat where "MAX_DISPLAYED_MESSAGES = 10000"
definition MAX_INPUT_CHARS :: nat where "MAX_INPUT_CHARS = 65536"
definition MIN_DISCOVERY_TIMEOUT :: "64 word" where "MIN_DISCOVERY_TIMEOUT = 1"
definition MAX_DISCOVERY_TIMEOUT :: "64 word" where "MAX_DISCOVERY_TIMEOUT = 60"

datatype screen = Chat | Profile | Settings

record ui_state =
  us_current_screen :: screen
  us_identity_fingerprint :: "rstr option"
  us_identity_display_name :: rstr
  us_peers :: "peer_response list"
  us_selected_peer :: "rstr option"
  us_messages :: "message_response list"
  us_compose_text :: rstr
  us_error_banner :: "rstr option"
  us_is_loading :: bool
  us_loading_message :: rstr
  us_dark_mode :: bool
  us_notifications_enabled :: bool
  us_discovery_timeout_secs :: "64 word"
  us_online_peer_count :: nat
  us_is_connected :: bool
  us_is_encrypted :: bool

definition ui_state_default :: ui_state where
  "ui_state_default = \<lparr> us_current_screen = Chat, us_identity_fingerprint = None,
     us_identity_display_name = lit ''Anonymous'', us_peers = [], us_selected_peer = None, us_messages = [],
     us_compose_text = [], us_error_banner = None, us_is_loading = False, us_loading_message = [], us_dark_mode = True,
     us_notifications_enabled = True, us_discovery_timeout_secs = 10, us_online_peer_count = 0, us_is_connected = False,
     us_is_encrypted = True \<rparr>"

datatype ui_message =
    PeersUpdated "peer_response list" | MessagesLoaded "message_response list" | NewMessage message_response
  | MessageSent rstr | Ui_Error rstr | ClearError | Loading bool rstr | IdentityUpdated rstr rstr
  | PeerConnected rstr rstr | ConnectionStatus bool nat | Ui_Shutdown

datatype ui_command =
    SendMessage rstr rstr | DiscoverPeers | ConnectPeer rstr rstr | SelectPeer rstr | LoadMessages rstr
  | TrustPeer rstr | UntrustPeer rstr | ResetIdentity rstr | UpdateSettings bool bool "64 word" | Cmd_Shutdown

section \<open>Worker and messages\<close>

text \<open>
  One turn of the worker: the new state, what it sends back, and whether its loop goes on. \<open>fresh\<close> is the
  text of a new UUID. After \<open>SelectPeer\<close> the code sends a \<open>UiMessage::LoadMessages\<close>; the enum has no such variant,
  and the model sends nothing.
\<close>

fun worker_turn :: "rstr \<Rightarrow> ui_command \<Rightarrow> ui_state \<Rightarrow> ui_state \<times> ui_message list \<times> bool" where
  "worker_turn fresh (SendMessage recipient_fp content) s = (s, [MessageSent fresh], True)"
| "worker_turn fresh DiscoverPeers s = (s, [Loading False (lit ''Discovery complete'')], True)"
| "worker_turn fresh (ConnectPeer address fp) s = (s, [], True)"
| "worker_turn fresh (SelectPeer fp) s = (s\<lparr> us_selected_peer := Some fp, us_current_screen := Chat \<rparr>, [], True)"
| "worker_turn fresh (LoadMessages fp) s = (s, [], True)"
| "worker_turn fresh (TrustPeer fp) s = (s, [], True)"
| "worker_turn fresh (UntrustPeer fp) s = (s, [], True)"
| "worker_turn fresh (ResetIdentity name) s = (s, [], True)"
| "worker_turn fresh (UpdateSettings dark notif timeout) s =
     (s\<lparr> us_dark_mode := dark, us_notifications_enabled := notif, us_discovery_timeout_secs := timeout \<rparr>, [], True)"
| "worker_turn fresh Cmd_Shutdown s = (s, [Ui_Shutdown], False)"

fun is_online_dto :: "peer_status_dto \<Rightarrow> bool" where
  "is_online_dto (Dto_Online at) = True"
| "is_online_dto _ = False"

text \<open>The arms of \<open>process_messages\<close>.\<close>

fun handle_message :: "ui_message \<Rightarrow> ui_state \<Rightarrow> ui_state" where
  "handle_message (PeersUpdated peers) s =
     s\<lparr> us_peers := peers, us_online_peer_count := length (filter (\<lambda>p. is_online_dto (pr_status p)) peers) \<rparr>"
| "handle_message (MessagesLoaded messages) s = s\<lparr> us_messages := messages \<rparr>"
| "handle_message (NewMessage msg) s =
     (let kept = (if length (us_messages s) \<ge> MAX_DISPLAYED_MESSAGES then tl (us_messages s) else us_messages s)
      in s\<lparr> us_messages := kept @ [msg] \<rparr>)"
| "handle_message (MessageSent message_id) s = s\<lparr> us_is_loading := False \<rparr>"
| "handle_message (Ui_Error message) s = s\<lparr> us_error_banner := Some message, us_is_loading := False \<rparr>"
| "handle_message ClearError s = s\<lparr> us_error_banner := None \<rparr>"
| "handle_message (Loading is_loading message) s = s\<lparr> us_is_loading := is_loading, us_loading_message := message \<rparr>"
| "handle_message (IdentityUpdated fp name) s =
     s\<lparr> us_identity_fingerprint := Some fp, us_identity_display_name := name \<rparr>"
| "handle_message (PeerConnected fp name) s = s"
| "handle_message (ConnectionStatus connected peer_count) s =
     s\<lparr> us_is_connected := connected, us_online_peer_count := peer_count \<rparr>"
| "handle_message Ui_Shutdown s = s"

text \<open>
  The application: the state, both channels, whether the worker still receives, the snapshot of the current frame,
  and the shutdown flag of \<open>RubixApp\<close>.
\<close>

record app =
  ap_state :: ui_state
  ap_commands :: "ui_command list"
  ap_messages :: "ui_message list"
  ap_worker :: bool
  ap_snapshot :: ui_state
  ap_shutdown :: bool

definition app_new :: "ui_state \<Rightarrow> app" where
  "app_new s = \<lparr> ap_state = s, ap_commands = [], ap_messages = [], ap_worker = True, ap_snapshot = s, ap_shutdown = False \<rparr>"

text \<open>A command for a worker that has ended is lost.\<close>

definition send_command :: "ui_command \<Rightarrow> app \<Rightarrow> app" where
  "send_command cmd a = (if ap_worker a then a\<lparr> ap_commands := ap_commands a @ [cmd] \<rparr> else a)"

definition worker_step :: "rstr \<Rightarrow> app \<Rightarrow> app" where
  "worker_step fresh a =
     (case ap_commands a of
        [] \<Rightarrow> a
      | cmd # cmds \<Rightarrow>
          (case worker_turn fresh cmd (ap_state a) of (s, msgs, go) \<Rightarrow>
             a\<lparr> ap_state := s, ap_commands := (if go then cmds else []), ap_messages := ap_messages a @ msgs, ap_worker := go \<rparr>))"

definition process_one :: "app \<Rightarrow> app" where
  "process_one a =
     (case ap_messages a of
        [] \<Rightarrow> a
      | msg # msgs \<Rightarrow> a\<lparr> ap_state := handle_message msg (ap_state a), ap_messages := msgs \<rparr>)"

definition process_messages :: "app \<Rightarrow> app" where
  "process_messages a = a\<lparr> ap_state := fold handle_message (ap_messages a) (ap_state a), ap_messages := [] \<rparr>"

section \<open>Screens\<close>

text \<open>\<open>str::trim\<close>: characters with the property White\_Space.\<close>

definition is_whitespace :: "rchar \<Rightarrow> bool" where
  "is_whitespace c \<longleftrightarrow> (9 \<le> c \<and> c \<le> 13) \<or> c \<in> {32, 133, 160, 5760, 8232, 8233, 8239, 8287, 12288} \<or> (8192 \<le> c \<and> c \<le> 8202)"

definition str_trim :: "rstr \<Rightarrow> rstr" where
  "str_trim s = rev (dropWhile is_whitespace (rev (dropWhile is_whitespace s)))"

text \<open>
  What the user does in a frame of the chat screen: a click on an entry of the peer list, on the discovery
  button, an edit of the input (with its new text), and the send button or shortcut.
\<close>

record chat_input =
  ci_peer :: "nat option"
  ci_discover :: bool
  ci_edit :: "rstr option"
  ci_send :: bool

definition click_peer :: "(rstr \<Rightarrow> ui_command) \<Rightarrow> peer_response list \<Rightarrow> nat option \<Rightarrow> app \<Rightarrow> app" where
  "click_peer cmd peers i a =
     (case i of Some i \<Rightarrow> if i < length peers then send_command (cmd (pr_fingerprint (peers ! i))) a else a | None \<Rightarrow> a)"

definition set_compose :: "rstr \<Rightarrow> app \<Rightarrow> app" where
  "set_compose t a = a\<lparr> ap_state := (ap_state a)\<lparr> us_compose_text := t \<rparr> \<rparr>"

definition chat_render :: "chat_input \<Rightarrow> app \<Rightarrow> app" where
  "chat_render inp a0 =
     (let snap = ap_snapshot a0;
          a1 = click_peer SelectPeer (us_peers snap) (ci_peer inp) a0;
          a2 = (if ci_discover inp \<and> \<not> us_is_loading snap then send_command DiscoverPeers a1 else a1);
          typed = (case ci_edit inp of Some t \<Rightarrow> t | None \<Rightarrow> us_compose_text snap);
          a3 = (case ci_edit inp of Some t \<Rightarrow> set_compose t a2 | None \<Rightarrow> a2)
      in if ci_send inp \<and> str_trim typed \<noteq> [] then
           (case us_selected_peer snap of
              Some fp \<Rightarrow> set_compose [] (send_command (SendMessage fp (str_trim typed)) a3)
            | None \<Rightarrow> a3)
         else a3)"

text \<open>
  A frame of the profile screen: the reset button, and the rows clicked in the list of verified peers and in
  the list of all peers. The trust button is shown only for peers that are not verified.
\<close>

record profile_input =
  pi_reset :: bool
  pi_untrust :: "nat option"
  pi_trust :: "nat option"
  pi_chat :: "nat option"

definition profile_render :: "profile_input \<Rightarrow> app \<Rightarrow> app" where
  "profile_render inp a0 =
     (let snap = ap_snapshot a0;
          a1 = (if pi_reset inp then send_command (ResetIdentity (lit ''Anonymous'')) a0 else a0);
          a2 = click_peer UntrustPeer (filter pr_verified (us_peers snap)) (pi_untrust inp) a1;
          a3 = (case pi_trust inp of
                  Some i \<Rightarrow> if i < length (us_peers snap) \<and> \<not> pr_verified (us_peers snap ! i)
                            then click_peer TrustPeer (us_peers snap) (Some i) a2 else a2
                | None \<Rightarrow> a2)
      in click_peer SelectPeer (us_peers snap) (pi_chat inp) a3)"

text \<open>A frame of the settings screen: the values of the two boxes and of the slider, as \<open>u64\<close>, after it.\<close>

record settings_input =
  si_dark :: bool
  si_notifications :: bool
  si_timeout :: "64 word"

definition settings_render :: "settings_input \<Rightarrow> app \<Rightarrow> app" where
  "settings_render inp a0 =
     (let snap = ap_snapshot a0;
          dark_mode = us_dark_mode snap; notifications_enabled = us_notifications_enabled snap;
          discovery_timeout = us_discovery_timeout_secs snap;
          a1 = (if si_dark inp \<noteq> dark_mode
                then send_command (UpdateSettings (si_dark inp) notifications_enabled discovery_timeout) a0 else a0);
          a2 = (if si_notifications inp \<noteq> notifications_enabled
                then send_command (UpdateSettings dark_mode (si_notifications inp) discovery_timeout) a1 else a1)
      in if si_timeout inp \<noteq> discovery_timeout
         then send_command (UpdateSettings dark_mode notifications_enabled
                (min (max (si_timeout inp) MIN_DISCOVERY_TIMEOUT) MAX_DISCOVERY_TIMEOUT)) a2
         else a2)"

text \<open>\<open>app.rs\<close>: the navigation buttons and \<open>on_exit\<close>.\<close>

definition navigate :: "screen \<Rightarrow> app \<Rightarrow> app" where
  "navigate sc a = (if us_current_screen (ap_state a) = sc then a else a\<lparr> ap_state := (ap_state a)\<lparr> us_current_screen := sc \<rparr> \<rparr>)"

definition on_exit :: "app \<Rightarrow> app" where
  "on_exit a = (send_command Cmd_Shutdown a)\<lparr> ap_shutdown := True \<rparr>"

section \<open>Executions\<close>

datatype app_step =
    Frame_Start | Navigate screen | Chat_Frame chat_input | Profile_Frame profile_input | Settings_Frame settings_input
  | Worker_Step rstr | Process_One | On_Exit

fun app_exec :: "app_step \<Rightarrow> app \<Rightarrow> app" where
  "app_exec Frame_Start a = a\<lparr> ap_snapshot := ap_state a \<rparr>"
| "app_exec (Navigate sc) a = navigate sc a"
| "app_exec (Chat_Frame inp) a = chat_render inp a"
| "app_exec (Profile_Frame inp) a = profile_render inp a"
| "app_exec (Settings_Frame inp) a = settings_render inp a"
| "app_exec (Worker_Step fresh) a = worker_step fresh a"
| "app_exec Process_One a = process_one a"
| "app_exec On_Exit a = on_exit a"

text \<open>
  After \<open>on_exit\<close> no frame does anything. A frame reads which screen to show before it takes the snapshot that the screen
  works on, so any screen may meet any snapshot; the text field keeps to its \<open>char_limit\<close>.
\<close>

fun app_enabled :: "app_step \<Rightarrow> app \<Rightarrow> bool" where
  "app_enabled (Chat_Frame inp) a \<longleftrightarrow> \<not> ap_shutdown a
     \<and> (case ci_edit inp of Some t \<Rightarrow> length t \<le> MAX_INPUT_CHARS | None \<Rightarrow> True)"
| "app_enabled (Profile_Frame inp) a \<longleftrightarrow> \<not> ap_shutdown a"
| "app_enabled (Settings_Frame inp) a \<longleftrightarrow> \<not> ap_shutdown a"
| "app_enabled (Navigate sc) a \<longleftrightarrow> \<not> ap_shutdown a"
| "app_enabled (Worker_Step fresh) a \<longleftrightarrow> ap_worker a \<and> ap_commands a \<noteq> []"
| "app_enabled Process_One a \<longleftrightarrow> ap_messages a \<noteq> []"
| "app_enabled _ a \<longleftrightarrow> True"

inductive app_reachable :: "app \<Rightarrow> app \<Rightarrow> bool" for a0 where
  start: "app_reachable a0 a0"
| step: "app_reachable a0 a \<Longrightarrow> app_enabled st a \<Longrightarrow> app_reachable a0 (app_exec st a)"

fun app_run :: "app_step list \<Rightarrow> app \<Rightarrow> app option" where
  "app_run [] a = Some a"
| "app_run (st # sts) a = (if app_enabled st a then app_run sts (app_exec st a) else None)"

text \<open>What the worker and the task that handles its messages do meanwhile: of the given steps, those that are theirs and possible.\<close>

fun is_background :: "app_step \<Rightarrow> bool" where
  "is_background (Worker_Step fresh) = True"
| "is_background Process_One = True"
| "is_background _ = False"

definition meanwhile :: "app_step list \<Rightarrow> app \<Rightarrow> app" where
  "meanwhile = fold (\<lambda>st a. if is_background st \<and> app_enabled st a then app_exec st a else a)"

section \<open>Lemmas\<close>

lemma meanwhile_invariant:
  assumes "\<And>st a. P a \<Longrightarrow> is_background st \<Longrightarrow> app_enabled st a \<Longrightarrow> P (app_exec st a)"
  shows "P a \<Longrightarrow> P (meanwhile sts a)"
  unfolding meanwhile_def by (induction sts arbitrary: a) (auto intro: assms)

lemma meanwhile_reachable: "app_reachable a0 a \<Longrightarrow> app_reachable a0 (meanwhile sts a)"
  by (rule meanwhile_invariant) (auto intro: app_reachable.step)

lemma meanwhile_Nil [simp]: "meanwhile [] a = a"
  by (simp add: meanwhile_def)

lemma meanwhile_shutdown [simp]: "ap_shutdown (meanwhile sts a) = ap_shutdown a"
  by (rule meanwhile_invariant [where P = "\<lambda>b. ap_shutdown b = ap_shutdown a"])
     (auto simp: worker_step_def process_one_def split: list.splits prod.splits elim!: is_background.elims)

lemma meanwhile_snapshot [simp]: "ap_snapshot (meanwhile sts a) = ap_snapshot a"
  by (rule meanwhile_invariant [where P = "\<lambda>b. ap_snapshot b = ap_snapshot a"])
     (auto simp: worker_step_def process_one_def split: list.splits prod.splits elim!: is_background.elims)

text \<open>The worker changes the screen only when a peer is selected.\<close>

fun selects_peer :: "ui_command \<Rightarrow> bool" where
  "selects_peer (SelectPeer fp) = True"
| "selects_peer _ = False"

definition screen_kept :: "screen \<Rightarrow> bool \<Rightarrow> app \<Rightarrow> bool" where
  "screen_kept sc quiet a \<longleftrightarrow> us_current_screen (ap_state a) = sc \<and> (quiet \<longrightarrow> list_all (\<lambda>c. \<not> selects_peer c) (ap_commands a))
     \<or> \<not> quiet \<and> us_current_screen (ap_state a) = Chat"

lemma handle_message_screen [simp]: "us_current_screen (handle_message msg s) = us_current_screen s"
  by (cases msg) (simp_all add: Let_def)

lemma worker_turn_screen:
  "us_current_screen (fst (worker_turn fresh cmd s)) = (if selects_peer cmd then Chat else us_current_screen s)"
  by (cases cmd) simp_all

lemma meanwhile_screen: "screen_kept sc quiet a \<Longrightarrow> screen_kept sc quiet (meanwhile sts a)"
proof (rule meanwhile_invariant)
  fix st a assume a: "screen_kept sc quiet a" "is_background st"
  show "screen_kept sc quiet (app_exec st a)"
  proof (cases st)
    case (Worker_Step fresh)
    with a(1) worker_turn_screen [of fresh "hd (ap_commands a)" "ap_state a"] show ?thesis
      by (cases "ap_commands a") (auto simp: screen_kept_def worker_step_def split: prod.splits if_splits)
  next
    case Process_One
    with a(1) show ?thesis by (auto simp: screen_kept_def process_one_def split: list.splits)
  qed (use a(2) in simp_all)
qed

lemma app_run_reachable: "app_run sts a = Some a' \<Longrightarrow> app_reachable a0 a \<Longrightarrow> app_reachable a0 a'"
  by (induction sts arbitrary: a) (auto intro: app_reachable.step split: if_splits)

text \<open>An invariant of every enabled step holds in every reachable state.\<close>

lemma app_invariant:
  assumes "\<And>st a. P a \<Longrightarrow> app_enabled st a \<Longrightarrow> P (app_exec st a)"
  shows "app_reachable a0 a \<Longrightarrow> P a0 \<Longrightarrow> P a"
  by (induction rule: app_reachable.induct) (auto intro: assms)

lemma process_messages_is_steps:
  "process_messages a = (process_one ^^ length (ap_messages a)) a"
proof (induction "ap_messages a" arbitrary: a)
  case Nil
  then show ?case by (simp add: process_messages_def)
next
  case (Cons msg msgs)
  have one: "ap_messages (process_one a) = msgs" "process_messages (process_one a) = process_messages a"
    by (simp_all add: process_one_def process_messages_def flip: Cons.hyps(2))
  from Cons.hyps(1) [of "process_one a"] one Cons.hyps(2) [symmetric] show ?case
    by (simp add: funpow_swap1)
qed

lemma send_command_simps [simp]:
  "ap_state (send_command cmd a) = ap_state a" "ap_snapshot (send_command cmd a) = ap_snapshot a"
  "ap_messages (send_command cmd a) = ap_messages a" "ap_worker (send_command cmd a) = ap_worker a"
  by (simp_all add: send_command_def)

lemma set_commands_send [simp]:
  "set (ap_commands (send_command cmd a)) = set (ap_commands a) \<union> (if ap_worker a then {cmd} else {})"
  by (simp add: send_command_def)

lemma click_peer_simps [simp]:
  "ap_state (click_peer c ps i a) = ap_state a" "ap_snapshot (click_peer c ps i a) = ap_snapshot a"
  "ap_messages (click_peer c ps i a) = ap_messages a" "ap_worker (click_peer c ps i a) = ap_worker a"
  by (simp_all add: click_peer_def split: option.splits)

lemma set_commands_click:
  "set (ap_commands (click_peer c ps i a)) \<subseteq> set (ap_commands a) \<union> (c \<circ> pr_fingerprint) ` set ps"
  by (auto simp: click_peer_def split: option.splits if_splits)

lemma click_peer_Nil [simp]: "click_peer c [] i a = a"
  by (simp add: click_peer_def split: option.splits)

lemma length_dropWhile_le: "length (dropWhile P xs) \<le> length xs"
  by (induction xs) auto

lemma length_str_trim: "length (str_trim s) \<le> length s"
  using length_dropWhile_le [of is_whitespace "rev (dropWhile is_whitespace s)"] length_dropWhile_le [of is_whitespace s]
  by (simp add: str_trim_def)

lemma dropWhile_rev_dropWhile:
  "dropWhile P (rev (dropWhile P (rev (dropWhile P xs)))) = rev (dropWhile P (rev (dropWhile P xs)))"
proof (cases "dropWhile P xs")
  case (Cons y ys)
  then have "\<not> P y" by (metis hd_dropWhile list.discI list.sel(1))
  then have "dropWhile P (rev ys @ [y]) = dropWhile P (rev ys) @ [y]" by (simp add: dropWhile_append3)
  then show ?thesis using Cons \<open>\<not> P y\<close> by simp
next
  case Nil
  show ?thesis by (simp only: Nil rev.simps dropWhile.simps)
qed

lemma str_trim_idem [simp]: "str_trim (str_trim s) = str_trim s"
  by (simp add: str_trim_def dropWhile_rev_dropWhile)

section \<open>Bounds\<close>

definition ui_state_ok :: "ui_state \<Rightarrow> bool" where
  "ui_state_ok s \<longleftrightarrow> 1 \<le> us_discovery_timeout_secs s \<and> us_discovery_timeout_secs s \<le> 60 \<and> length (us_compose_text s) \<le> MAX_INPUT_CHARS"

fun ui_command_ok :: "ui_command \<Rightarrow> bool" where
  "ui_command_ok (SendMessage fp content) \<longleftrightarrow> content \<noteq> [] \<and> str_trim content = content \<and> length content \<le> MAX_INPUT_CHARS"
| "ui_command_ok (UpdateSettings dark notif timeout) \<longleftrightarrow> 1 \<le> timeout \<and> timeout \<le> 60"
| "ui_command_ok _ \<longleftrightarrow> True"

definition app_ok :: "app \<Rightarrow> bool" where
  "app_ok a \<longleftrightarrow> ui_state_ok (ap_state a) \<and> ui_state_ok (ap_snapshot a) \<and> (\<forall>c\<in>set (ap_commands a). ui_command_ok c)"

lemma handle_message_ok [simp]: "ui_state_ok (handle_message msg s) = ui_state_ok s"
  by (cases msg) (simp_all add: ui_state_ok_def Let_def)

lemma worker_turn_ok: "ui_command_ok cmd \<Longrightarrow> ui_state_ok s \<Longrightarrow> ui_state_ok (fst (worker_turn fresh cmd s))"
  by (cases cmd) (simp_all add: ui_state_ok_def)

lemma click_peer_ok:
  "app_ok a \<Longrightarrow> (\<And>fp. ui_command_ok (c fp)) \<Longrightarrow> app_ok (click_peer c ps i a)"
  using set_commands_click [of c ps i a] by (auto simp: app_ok_def)

lemma send_command_ok: "app_ok a \<Longrightarrow> ui_command_ok cmd \<Longrightarrow> app_ok (send_command cmd a)"
  by (auto simp: app_ok_def)

lemma set_compose_ok: "app_ok a \<Longrightarrow> length t \<le> MAX_INPUT_CHARS \<Longrightarrow> app_ok (set_compose t a)"
  by (simp add: app_ok_def ui_state_ok_def set_compose_def)

lemma chat_render_ok: "app_ok a \<Longrightarrow> app_enabled (Chat_Frame inp) a \<Longrightarrow> app_ok (chat_render inp a)"
proof -
  assume ok: "app_ok a" and en: "app_enabled (Chat_Frame inp) a"
  have typed: "length (case ci_edit inp of Some t \<Rightarrow> t | None \<Rightarrow> us_compose_text (ap_snapshot a)) \<le> MAX_INPUT_CHARS"
    using ok en by (auto simp: app_ok_def ui_state_ok_def split: option.splits)
  then have trimmed: "length (str_trim (case ci_edit inp of Some t \<Rightarrow> t | None \<Rightarrow> us_compose_text (ap_snapshot a))) \<le> MAX_INPUT_CHARS"
    by (rule order_trans [OF length_str_trim])
  with typed ok show ?thesis
    by (cases "ci_edit inp") (auto simp: chat_render_def Let_def
      intro!: set_compose_ok send_command_ok click_peer_ok split: option.splits)
qed

lemma profile_render_ok: "app_ok a \<Longrightarrow> app_ok (profile_render inp a)"
  unfolding profile_render_def Let_def
  by (auto intro!: send_command_ok click_peer_ok split: option.splits)

lemma settings_render_ok: "app_ok a \<Longrightarrow> app_ok (settings_render inp a)"
proof -
  assume ok: "app_ok a"
  then have "1 \<le> us_discovery_timeout_secs (ap_snapshot a)" "us_discovery_timeout_secs (ap_snapshot a) \<le> 60"
    by (simp_all add: app_ok_def ui_state_ok_def)
  moreover have "1 \<le> min (max t MIN_DISCOVERY_TIMEOUT) MAX_DISCOVERY_TIMEOUT"
    "min (max t MIN_DISCOVERY_TIMEOUT) MAX_DISCOVERY_TIMEOUT \<le> 60" for t
    by (simp_all add: MIN_DISCOVERY_TIMEOUT_def MAX_DISCOVERY_TIMEOUT_def le_max_iff_disj)
  ultimately show ?thesis unfolding settings_render_def Let_def
    by (auto intro!: send_command_ok ok)
qed

lemma app_exec_ok: "app_ok a \<Longrightarrow> app_enabled st a \<Longrightarrow> app_ok (app_exec st a)"
proof (cases st)
  case (Worker_Step fresh)
  moreover assume "app_ok a" "app_enabled st a"
  ultimately show ?thesis
    using worker_turn_ok [of "hd (ap_commands a)" "ap_state a" fresh]
    by (cases "ap_commands a") (auto simp: worker_step_def app_ok_def split: prod.splits)
next
  case Process_One
  moreover assume "app_ok a"
  ultimately show ?thesis by (auto simp: process_one_def app_ok_def split: list.splits)
next
  case (Navigate sc)
  moreover assume "app_ok a"
  ultimately show ?thesis by (auto simp: navigate_def app_ok_def ui_state_ok_def)
next
  case Frame_Start
  moreover assume "app_ok a"
  ultimately show ?thesis by (auto simp: app_ok_def)
next
  case On_Exit
  moreover assume "app_ok a"
  ultimately show ?thesis by (auto simp: on_exit_def app_ok_def)
qed (simp_all add: chat_render_ok profile_render_ok settings_render_ok)

section \<open>An interface without adapters\<close>

text \<open>
  No message that the worker sends ever fills the list of peers, so nothing can be selected. These are the states
  and commands that occur.
\<close>

definition inert_state :: "ui_state \<Rightarrow> ui_state \<Rightarrow> bool" where
  "inert_state s0 s \<longleftrightarrow> us_peers s = [] \<and> us_selected_peer s = None \<and> us_messages s = [] \<and> us_error_banner s = None
     \<and> \<not> us_is_connected s \<and> us_is_encrypted s \<and> us_online_peer_count s = 0
     \<and> us_identity_fingerprint s = us_identity_fingerprint s0 \<and> us_identity_display_name s = us_identity_display_name s0"

fun inert_command :: "ui_command \<Rightarrow> bool" where
  "inert_command DiscoverPeers \<longleftrightarrow> True"
| "inert_command (ResetIdentity name) \<longleftrightarrow> True"
| "inert_command (UpdateSettings dark notif timeout) \<longleftrightarrow> True"
| "inert_command Cmd_Shutdown \<longleftrightarrow> True"
| "inert_command _ \<longleftrightarrow> False"

fun inert_message :: "ui_message \<Rightarrow> bool" where
  "inert_message (Loading is_loading message) \<longleftrightarrow> True"
| "inert_message Ui_Shutdown \<longleftrightarrow> True"
| "inert_message _ \<longleftrightarrow> False"

definition inert :: "ui_state \<Rightarrow> app \<Rightarrow> bool" where
  "inert s0 a \<longleftrightarrow> inert_state s0 (ap_state a) \<and> inert_state s0 (ap_snapshot a)
     \<and> (\<forall>c\<in>set (ap_commands a). inert_command c) \<and> (\<forall>m\<in>set (ap_messages a). inert_message m)"

lemma inert_handle: "inert_message msg \<Longrightarrow> inert_state s0 s \<Longrightarrow> inert_state s0 (handle_message msg s)"
  by (cases msg) (simp_all add: inert_state_def)

lemma inert_worker:
  "inert_command cmd \<Longrightarrow> inert_state s0 s \<Longrightarrow>
   inert_state s0 (fst (worker_turn fresh cmd s)) \<and> (\<forall>m\<in>set (fst (snd (worker_turn fresh cmd s))). inert_message m)"
  by (cases cmd) (simp_all add: inert_state_def)

lemma inert_exec: "inert s0 a \<Longrightarrow> inert s0 (app_exec st a)"
proof (cases st)
  case (Worker_Step fresh)
  moreover assume "inert s0 a"
  ultimately show ?thesis
    using inert_worker [of "hd (ap_commands a)" s0 "ap_state a" fresh]
    by (cases "ap_commands a") (auto simp: worker_step_def inert_def split: prod.splits)
next
  case Process_One
  moreover assume "inert s0 a"
  ultimately show ?thesis by (auto simp: process_one_def inert_def inert_handle split: list.splits)
next
  case (Chat_Frame inp)
  moreover assume "inert s0 a"
  ultimately show ?thesis
    by (auto simp: chat_render_def Let_def inert_def inert_state_def set_compose_def split: option.splits)
next
  case (Profile_Frame inp)
  moreover assume "inert s0 a"
  ultimately show ?thesis by (auto simp: profile_render_def Let_def inert_def inert_state_def split: option.splits)
next
  case (Settings_Frame inp)
  moreover assume "inert s0 a"
  ultimately show ?thesis by (auto simp: settings_render_def Let_def inert_def)
qed (auto simp: navigate_def on_exit_def inert_def inert_state_def)

text \<open>The state that \<open>bootstrap\<close> hands to the controller: the default one with the identity filled in.\<close>

definition identity_state :: "crates \<Rightarrow> identity \<Rightarrow> ui_state" where
  "identity_state K i = ui_state_default\<lparr> us_identity_fingerprint := Some (to_formatted_string K (ident_fingerprint i)),
     us_identity_display_name := ident_display_name i \<rparr>"

section \<open>Properties\<close>

text \<open>
  C36: Whatever the interleaving of frames, worker turns and handled messages, from any state whose
  discovery timeout is between 1 and 60 seconds and whose input is within 65536 characters: the timeout stays in
  that range, the input stays within its limit, and every message that waits to be sent is non-empty, has no white
  space at its ends and is within the limit too. A frame that acts on an old snapshot does not break this.
\<close>

theorem ui_bounds:
  assumes "app_reachable (app_new s) a" and "ui_state_ok s"
  shows "1 \<le> us_discovery_timeout_secs (ap_state a) \<and> us_discovery_timeout_secs (ap_state a) \<le> 60
    \<and> length (us_compose_text (ap_state a)) \<le> MAX_INPUT_CHARS \<and> list_all ui_command_ok (ap_commands a)"
proof -
  have "app_ok (app_new s)" using assms(2) by (simp add: app_ok_def app_new_def)
  with assms(1) have "app_ok a" by (rule app_invariant [where P = app_ok, rotated]) (rule app_exec_ok)
  then show ?thesis by (simp add: app_ok_def ui_state_ok_def list_all_iff)
qed

text \<open>Two changes of the settings, both made before the worker takes a turn.\<close>

definition two_changes :: "app_step list" where
  "two_changes = [Navigate Settings, Frame_Start,
     Settings_Frame \<lparr> si_dark = False, si_notifications = True, si_timeout = 10 \<rparr>, Frame_Start,
     Settings_Frame \<lparr> si_dark = True, si_notifications = False, si_timeout = 10 \<rparr>, Worker_Step [], Worker_Step []]"

text \<open>
  A change of the settings can be lost. The command carries all three settings as the frame saw them; when
  the user switches off the dark mode and, in a later frame that the worker has not caught up with, the
  notifications, the second command restores the dark mode.
\<close>

theorem settings_change_lost:
  "case app_run two_changes (app_new ui_state_default) of
     Some a \<Rightarrow> us_dark_mode (ap_state a) \<and> \<not> us_notifications_enabled (ap_state a) \<and> ap_commands a = []
   | None \<Rightarrow> False"
  by (simp add: two_changes_def app_new_def ui_state_default_def navigate_def settings_render_def send_command_def worker_step_def Let_def)

text \<open>
  The user interface reaches no peer. From the state that start-up hands over, in every interleaving: the lists of peers
  and messages stay empty, no peer is ever selected, no error is shown, the displayed identity never changes, not even
  after a reset, and no command to send, connect, select or trust is ever queued; yet the status bar
  says encrypted.
\<close>

theorem ui_reaches_no_peer:
  assumes "app_reachable (app_new (identity_state K i)) a"
  shows "us_peers (ap_state a) = [] \<and> us_messages (ap_state a) = [] \<and> us_selected_peer (ap_state a) = None
    \<and> us_error_banner (ap_state a) = None \<and> us_identity_fingerprint (ap_state a) = Some (to_formatted_string K (ident_fingerprint i))
    \<and> us_is_encrypted (ap_state a) \<and> list_all inert_command (ap_commands a)"
proof -
  have "inert (identity_state K i) (app_new (identity_state K i))"
    by (simp add: inert_def inert_state_def app_new_def identity_state_def ui_state_default_def)
  with assms have "inert (identity_state K i) a"
    by (rule app_invariant [where P = "inert (identity_state K i)", rotated]) (rule inert_exec)
  then show ?thesis by (simp add: inert_def inert_state_def list_all_iff identity_state_def)
qed

text \<open>
  The chat history keeps the latest messages: after any number of new messages it holds the last 10000 of what it
  had and what arrived, in order.
\<close>

theorem history_keeps_latest:
  assumes "length (us_messages s) \<le> MAX_DISPLAYED_MESSAGES"
  shows "us_messages (fold handle_message (map NewMessage ms) s) =
    drop (length (us_messages s @ ms) - MAX_DISPLAYED_MESSAGES) (us_messages s @ ms)"
  using assms
proof (induction ms arbitrary: s)
  case (Cons m ms)
  let ?s = "handle_message (NewMessage m) s"
  have len: "length (us_messages ?s) \<le> MAX_DISPLAYED_MESSAGES"
    using Cons.prems by (simp add: Let_def MAX_DISPLAYED_MESSAGES_def)
  show ?case
  proof (cases "length (us_messages s) < MAX_DISPLAYED_MESSAGES")
    case True
    then show ?thesis using Cons.IH [OF len] by simp
  next
    case False
    then obtain x xs where xs: "us_messages s = x # xs" and max: "MAX_DISPLAYED_MESSAGES = Suc (length xs)"
      using Cons.prems by (cases "us_messages s") (auto simp: MAX_DISPLAYED_MESSAGES_def)
    have "us_messages ?s = xs @ [m]" using xs max by (simp add: Let_def)
    with Cons.IH [OF len] show ?thesis by (simp add: xs, simp only: max, simp)
  qed
qed simp

text \<open>A session: the user opens the settings, changes the timeout to 0, which the slider's handler lifts to 1, and leaves.\<close>

definition sample_session :: "app_step list" where
  "sample_session = [Frame_Start, Chat_Frame \<lparr> ci_peer = Some 0, ci_discover = True, ci_edit = Some (lit '' hi ''), ci_send = True \<rparr>,
     Navigate Settings, Frame_Start, Settings_Frame \<lparr> si_dark = True, si_notifications = True, si_timeout = 0 \<rparr>,
     Worker_Step [], Process_One, Worker_Step [], On_Exit, Worker_Step []]"

lemma sample_session_runs:
  "\<exists>a. app_run sample_session (app_new (identity_state ref_crates ref_identity)) = Some a \<and> us_discovery_timeout_secs (ap_state a) = 1
     \<and> us_compose_text (ap_state a) = lit '' hi '' \<and> \<not> ap_worker a"
  by (simp add: sample_session_def app_new_def identity_state_def ui_state_default_def navigate_def settings_render_def
      chat_render_def click_peer_def set_compose_def send_command_def worker_step_def process_one_def on_exit_def Let_def
      MAX_INPUT_CHARS_def MIN_DISCOVERY_TIMEOUT_def MAX_DISCOVERY_TIMEOUT_def lit_def)

lemma identity_state_ok: "ui_state_ok (identity_state K i)"
  by (simp add: ui_state_ok_def identity_state_def ui_state_default_def)

theorem ui_bounds_witness:
  "\<exists>a. app_reachable (app_new (identity_state ref_crates ref_identity)) a \<and> us_discovery_timeout_secs (ap_state a) = 1
     \<and> list_all ui_command_ok (ap_commands a)"
proof -
  obtain a where run: "app_run sample_session (app_new (identity_state ref_crates ref_identity)) = Some a"
    and "us_discovery_timeout_secs (ap_state a) = 1" using sample_session_runs by blast
  moreover from run have "app_reachable (app_new (identity_state ref_crates ref_identity)) a"
    by (rule app_run_reachable) (rule app_reachable.start)
  ultimately show ?thesis using ui_bounds [OF _ identity_state_ok] by blast
qed

theorem ui_reaches_no_peer_witness:
  "\<exists>a. app_reachable (app_new (identity_state ref_crates ref_identity)) a \<and> us_compose_text (ap_state a) = lit '' hi ''
     \<and> us_selected_peer (ap_state a) = None \<and> list_all inert_command (ap_commands a)"
proof -
  obtain a where run: "app_run sample_session (app_new (identity_state ref_crates ref_identity)) = Some a"
    and "us_compose_text (ap_state a) = lit '' hi ''" using sample_session_runs by blast
  moreover from run have "app_reachable (app_new (identity_state ref_crates ref_identity)) a"
    by (rule app_run_reachable) (rule app_reachable.start)
  ultimately show ?thesis using ui_reaches_no_peer by blast
qed

definition sample_response :: message_response where
  "sample_response = \<lparr> mr_id = [], mr_sender_fingerprint = [], mr_recipient_fingerprints = [], mr_content_type = Dto_Text,
     mr_state = Dto_Pending, mr_created_at = [], mr_sent_at = None, mr_delivered_at = None, mr_read_at = None, mr_content_preview = [] \<rparr>"

theorem history_keeps_latest_witness:
  "length (us_messages (fold handle_message (map NewMessage (replicate 10001 sample_response)) ui_state_default)) = 10000"
  using history_keeps_latest [of ui_state_default "replicate 10001 sample_response"]
  by (simp add: ui_state_default_def MAX_DISPLAYED_MESSAGES_def)

end
