(* ===== verification/Bootstrap.thy ===== *)
theory Bootstrap
  imports Ui_Controller Connect_Peer Receive_Message
begin

text \<open>
  \<open>apps/desktop/src/bootstrap.rs\<close>: the start of the application. The factories of the ports are in the
  source; three of them are stubs that fail. \<open>bootstrap_with\<close> is the sequence with the factories as arguments, and
  \<open>bootstrap\<close> the sequence with the ones of the source.
\<close>

section \<open>Model\<close>

datatype bootstrap_error =
    Boot_Security rstr | Boot_Persistence rstr | Boot_Network rstr | Boot_Notification rstr | Boot_IdentityNotFound | Boot_Internal rstr

text \<open>U+2014 is the dash of the messages.\<close>

fun display_bootstrap_error :: "bootstrap_error \<Rightarrow> rstr" where
  "display_bootstrap_error (Boot_Security e) = lit ''security initialization failed: '' @ e"
| "display_bootstrap_error (Boot_Persistence e) = lit ''persistence initialization failed: '' @ e"
| "display_bootstrap_error (Boot_Network e) = lit ''network initialization failed: '' @ e"
| "display_bootstrap_error (Boot_Notification e) = lit ''notification initialization failed: '' @ e"
| "display_bootstrap_error Boot_IdentityNotFound = lit ''identity not found '' @ [8212] @ lit '' run first-time setup''"
| "display_bootstrap_error (Boot_Internal e) = lit ''internal bootstrap error: '' @ e"

fun display_security_port_error :: "security_port_error \<Rightarrow> rstr" where
  "display_security_port_error Sp_KeyGenerationFailed = lit ''key generation failed''"
| "display_security_port_error Sp_EncryptionFailed = lit ''encryption failed''"
| "display_security_port_error Sp_DecryptionFailed = lit ''decryption failed''"
| "display_security_port_error Sp_SignatureInvalid = lit ''signature invalid''"
| "display_security_port_error Sp_FingerprintFailed = lit ''fingerprint derivation failed''"
| "display_security_port_error Sp_StorageFailed = lit ''secure storage error''"
| "display_security_port_error Sp_Internal = lit ''internal security error''"

definition stub :: "string \<Rightarrow> rstr" where
  "stub what = lit what @ lit '' infrastructure not yet implemented '' @ [8212] @ lit '' stub''"

definition create_persistence_port :: "(unit, bootstrap_error) result" where
  "create_persistence_port = Err (Boot_Persistence (stub ''persistence''))"

definition create_security_port :: "(unit, bootstrap_error) result" where
  "create_security_port = Err (Boot_Security (stub ''security''))"

definition create_network_port :: "(unit, bootstrap_error) result" where
  "create_network_port = Err (Boot_Network (stub ''network''))"

text \<open>The notifier that does nothing, and the trust store that trusts nobody.\<close>

definition noop_notifier :: "'a event list \<Rightarrow> (unit, notification_error) result" where
  "noop_notifier t = Ok ()"

definition create_notification_port :: "('a event list \<Rightarrow> (unit, notification_error) result, bootstrap_error) result" where
  "create_notification_port = Ok noop_notifier"

definition fail_closed_trust :: "'a event list \<Rightarrow> (bool, trust_error) result" where
  "fail_closed_trust t = Ok False"

definition create_trust_port :: "('a event list \<Rightarrow> (bool, trust_error) result, bootstrap_error) result" where
  "create_trust_port = Ok fail_closed_trust"

text \<open>Calls to the security port, on the history alone.\<close>

definition boot_call :: "('a event list \<Rightarrow> ('b, security_port_error) result) \<Rightarrow> 'a event \<Rightarrow> ('a event list, 'b, bootstrap_error) action" where
  "boot_call reply ev t =
     (map_err (\<lambda>e. Boot_Security (display_security_port_error e)) (reply (t @ [ev])), t @ [ev])"

text \<open>Step 3; \<open>stored\<close> is what \<open>load_identity\<close> answers.\<close>

definition load_or_create ::
  "'a env \<Rightarrow> (identity option, security_port_error) result \<Rightarrow> ('a event list, identity, bootstrap_error) action" where
  "load_or_create E stored =
     abind (alift (map_err (\<lambda>e. Boot_Security (display_security_port_error e)) stored)) (\<lambda>found.
     case found of
       Some i \<Rightarrow> aret i
     | None \<Rightarrow>
         abind (boot_call (en_generate_identity E) (Ev_GenerateIdentity (lit ''Anonymous''))) (\<lambda>new_id.
         abind (boot_call (en_save_identity E) (Ev_SaveIdentity new_id)) (\<lambda>_.
         aret new_id)))"

text \<open>The running application: the identity, the ports that the use cases got, and the controller.\<close>

record 'a booted =
  bt_identity :: identity
  bt_env :: "'a env"
  bt_app :: app

definition bootstrap_with ::
  "(unit, bootstrap_error) result \<Rightarrow> (unit, bootstrap_error) result \<Rightarrow> (unit, bootstrap_error) result
    \<Rightarrow> crates \<Rightarrow> 'a env \<Rightarrow> (identity option, security_port_error) result \<Rightarrow> ('a event list, 'a booted, bootstrap_error) action" where
  "bootstrap_with persistence security network K E stored =
     abind (alift persistence) (\<lambda>_.
     abind (alift security) (\<lambda>_.
     abind (load_or_create E stored) (\<lambda>i.
     abind (alift network) (\<lambda>_.
     abind (alift create_notification_port) (\<lambda>notification.
     abind (alift create_trust_port) (\<lambda>trust.
     aret \<lparr> bt_identity = i, bt_env = E\<lparr> en_notify := notification, en_is_trusted := trust \<rparr>,
            bt_app = app_new (identity_state K i) \<rparr>))))))"

definition bootstrap ::
  "crates \<Rightarrow> 'a env \<Rightarrow> (identity option, security_port_error) result \<Rightarrow> ('a event list, 'a booted, bootstrap_error) action" where
  "bootstrap = bootstrap_with create_persistence_port create_security_port create_network_port"

section \<open>Lemmas\<close>

lemma boot_call_eq_Ok: "boot_call reply ev t = (Ok x, t') \<longleftrightarrow> reply (t @ [ev]) = Ok x \<and> t' = t @ [ev]"
  by (cases "reply (t @ [ev])") (auto simp: boot_call_def)

lemma bootstrap_with_Ok:
  assumes "bootstrap_with p s n K E stored t = (Ok b, t')"
  shows "load_or_create E stored t = (Ok (bt_identity b), t')"
    and "bt_env b = E\<lparr> en_notify := noop_notifier, en_is_trusted := fail_closed_trust \<rparr>"
    and "bt_app b = app_new (identity_state K (bt_identity b))" and "is_ok p \<and> is_ok s \<and> is_ok n"
  using assms
  by (auto simp: bootstrap_with_def action_eq_Ok create_notification_port_def create_trust_port_def)

lemma load_or_create_Ok:
  "load_or_create E stored t = (Ok i, t') \<longleftrightarrow>
     stored = Ok (Some i) \<and> t' = t
     \<or> stored = Ok None \<and> en_generate_identity E (t @ [Ev_GenerateIdentity (lit ''Anonymous'')]) = Ok i
       \<and> t' = t @ [Ev_GenerateIdentity (lit ''Anonymous''), Ev_SaveIdentity i] \<and> en_save_identity E t' = Ok ()"
  by (cases stored) (auto simp: load_or_create_def action_eq_Ok boot_call_eq_Ok split: option.splits)

section \<open>Properties\<close>

text \<open>
  C28: Start-up never replaces an identity and never shows one that is not stored. Whatever the factories and the security port answer, if
  start-up succeeds then the identity in use is the stored one and the security port was not asked for another, or
  none was stored and the identity in use is one that was generated and then saved; and it is the one the window shows.
  With the factories of the source, start-up does not succeed: it always ends with the same persistence error.
\<close>

theorem bootstrap_identity:
  "(case bootstrap_with p s n K E stored t of
      (Ok b, t') \<Rightarrow>
        us_identity_fingerprint (ap_state (bt_app b)) = Some (to_formatted_string K (ident_fingerprint (bt_identity b)))
        \<and> us_identity_display_name (ap_state (bt_app b)) = ident_display_name (bt_identity b)
        \<and> (stored = Ok (Some (bt_identity b)) \<and> t' = t
           \<or> stored = Ok None \<and> t' = t @ [Ev_GenerateIdentity (lit ''Anonymous''), Ev_SaveIdentity (bt_identity b)]
             \<and> en_generate_identity E (butlast t') = Ok (bt_identity b) \<and> en_save_identity E t' = Ok ())
    | _ \<Rightarrow> True)
   \<and> bootstrap K E stored t = (Err (Boot_Persistence (stub ''persistence'')), t)"
proof -
  have "bootstrap K E stored t = (Err (Boot_Persistence (stub ''persistence'')), t)"
    by (simp add: bootstrap_def bootstrap_with_def create_persistence_port_def action_defs)
  moreover have "us_identity_fingerprint (ap_state (bt_app b)) = Some (to_formatted_string K (ident_fingerprint (bt_identity b)))"
      "us_identity_display_name (ap_state (bt_app b)) = ident_display_name (bt_identity b)"
      "stored = Ok (Some (bt_identity b)) \<and> t' = t
         \<or> stored = Ok None \<and> t' = t @ [Ev_GenerateIdentity (lit ''Anonymous''), Ev_SaveIdentity (bt_identity b)]
           \<and> en_generate_identity E (butlast t') = Ok (bt_identity b) \<and> en_save_identity E t' = Ok ()"
    if "bootstrap_with p s n K E stored t = (Ok b, t')" for b t'
    using bootstrap_with_Ok [OF that] by (auto simp: load_or_create_Ok app_new_def identity_state_def butlast_append)
  ultimately show ?thesis by (auto split: prod.splits result.splits)
qed

text \<open>
  The application that start-up wires trusts nobody: a connection is answered as verified only if the network itself returned a verified peer, and
  no received ciphertext is ever opened.
\<close>

theorem booted_trusts_nobody:
  assumes "bootstrap_with p s n K E stored t = (Ok b, t')"
  shows "(case connect_execute K (bt_env b) req w of
      (Ok resp, w') \<Rightarrow>
        (\<exists>addr fp conn_id peer. en_connect E (w_trace w @ [Ev_Connect addr (Some fp)]) = Some (Ok (conn_id, peer))
           \<and> pr_verified resp = peer_verified peer)
    | _ \<Rightarrow> True)
    \<and> (\<exists>n\<le>2. w_trace (snd (receive_process K (bt_env b) incoming w)) = w_trace w @ take n (receive_calls incoming))"
proof -
  have env: "en_connect (bt_env b) = en_connect E" "en_is_trusted (bt_env b) = (\<lambda>_. Ok False)"
    using bootstrap_with_Ok(2) [OF assms] by (simp_all add: fail_closed_trust_def fun_eq_iff)
  have "\<exists>addr fp conn_id peer. en_connect E (w_trace w @ [Ev_Connect addr (Some fp)]) = Some (Ok (conn_id, peer))
           \<and> pr_verified resp = peer_verified peer"
    if conn: "connect_execute K (bt_env b) req w = (Ok resp, w')" for resp w'
  proof -
    from conn obtain addr fp rl c p where c: "en_connect E (w_trace w @ [Ev_Connect addr (Some fp)]) = Some (Ok (c, p))"
      "settle_peer K (bt_env b) p (w\<lparr> w_limiter := rl, w_trace := w_trace w @ [Ev_Connect addr (Some fp)] \<rparr>) = (Ok resp, w')"
      by (auto simp: connect_execute_def port_eq_Ok timed_connect_Ok env split: if_splits)
    from settle_peer_Ok [OF c(2) refl refl] c(1) show ?thesis by (auto simp: env)
  qed
  moreover obtain m where "m \<le> 3" "w_trace (snd (receive_process K (bt_env b) incoming w)) = w_trace w @ take m (receive_calls incoming)"
    "\<not> 2 < m" using receive_process_calls [of K "bt_env b" incoming w] by (auto simp: env)
  then have "\<exists>n\<le>2. w_trace (snd (receive_process K (bt_env b) incoming w)) = w_trace w @ take n (receive_calls incoming)"
    by (intro exI [of _ m]) simp
  ultimately show ?thesis by (auto split: prod.splits result.splits)
qed

theorem booted_trusts_nobody_witness:
  "case bootstrap_with (Ok ()) (Ok ()) (Ok ()) ref_crates ref_env (Ok None) [] of
     (Ok b, t') \<Rightarrow> bt_identity b = ref_identity \<and>
       (\<exists>n\<le>2. w_trace (snd (receive_process ref_crates (bt_env b) \<lparr> im_sender = ref_fp, im_ciphertext = [1], im_received_at = 0 \<rparr>
          (ref_world connect_limiter))) = take n (receive_calls \<lparr> im_sender = ref_fp, im_ciphertext = [1], im_received_at = 0 \<rparr>))
   | _ \<Rightarrow> False"
proof -
  obtain b t' where b: "bootstrap_with (Ok ()) (Ok ()) (Ok ()) ref_crates ref_env (Ok None) [] = (Ok b, t')"
      "bt_identity b = ref_identity"
    by (simp add: bootstrap_with_def load_or_create_def boot_call_def action_defs create_notification_port_def create_trust_port_def ref_env_def)
  from booted_trusts_nobody [OF b(1), where req = ref_connect_request and w = "ref_world connect_limiter"
      and incoming = "\<lparr> im_sender = ref_fp, im_ciphertext = [1], im_received_at = 0 \<rparr>"] b
  show ?thesis by (auto simp: ref_world_def)
qed

end
