(* ===== verification/Message_Frame.thy ===== *)
theory Message_Frame
  imports Connection Connection_Manager
begin

text \<open>
  \<open>crates/networking/src/protocol/frame.rs\<close>: the frames that are the plaintexts of a connection;
  the contents of \<open>message_frame.rs\<close>; and \<open>crates/networking/src/heartbeat/heartbeat.rs\<close>, the task that should send one of them at intervals. The JSON
  encoding of a frame is a parameter.
\<close>

section \<open>Frames\<close>

datatype frame_type = Frame_Chat | Frame_Ack | Frame_Heartbeat | Frame_PeerInfo | Frame_ConnectRequest | Frame_ConnectResponse

record message_frame =
  mf_id :: uuid
  mf_frame_type :: frame_type
  mf_sender :: rstr
  mf_timestamp :: "64 word"
  mf_payload :: bytes

text \<open>\<open>Utc::now().timestamp() as u64\<close>: a time before 1970 wraps around.\<close>

definition unix_u64 :: "datetime \<Rightarrow> 64 word" where
  "unix_u64 now = word_of_int (timestamp now)"

text \<open>\<open>Uuid::as_bytes\<close>: sixteen bytes, most significant first.\<close>

definition uuid_bytes :: "uuid \<Rightarrow> bytes" where
  "uuid_bytes u = map (\<lambda>i. ucast (drop_bit (8 * (15 - i)) u)) [0..<16]"

definition frame_chat :: "uuid \<Rightarrow> datetime \<Rightarrow> rstr \<Rightarrow> bytes \<Rightarrow> message_frame" where
  "frame_chat fresh now sender content = \<lparr> mf_id = fresh, mf_frame_type = Frame_Chat, mf_sender = sender,
     mf_timestamp = unix_u64 now, mf_payload = content \<rparr>"

definition frame_heartbeat :: "uuid \<Rightarrow> datetime \<Rightarrow> rstr \<Rightarrow> message_frame" where
  "frame_heartbeat fresh now sender = \<lparr> mf_id = fresh, mf_frame_type = Frame_Heartbeat, mf_sender = sender,
     mf_timestamp = unix_u64 now, mf_payload = [] \<rparr>"

definition frame_ack :: "uuid \<Rightarrow> datetime \<Rightarrow> rstr \<Rightarrow> uuid \<Rightarrow> message_frame" where
  "frame_ack fresh now sender message_id = \<lparr> mf_id = fresh, mf_frame_type = Frame_Ack, mf_sender = sender,
     mf_timestamp = unix_u64 now, mf_payload = uuid_bytes message_id \<rparr>"

record frame_json =
  fj_to_vec :: "message_frame \<Rightarrow> bytes option"
  fj_from_slice :: "bytes \<Rightarrow> message_frame option"

definition frame_to_bytes :: "frame_json \<Rightarrow> message_frame \<Rightarrow> bytes" where
  "frame_to_bytes J f = (case fj_to_vec J f of Some bs \<Rightarrow> bs | None \<Rightarrow> [])"

definition frame_from_bytes :: "frame_json \<Rightarrow> bytes \<Rightarrow> message_frame option" where
  "frame_from_bytes J data = fj_from_slice J data"

section \<open>Contents\<close>

text \<open>\<open>message_frame.rs\<close>: what the payloads of the frames are meant to hold. No code fills them in yet.\<close>

record chat_content =
  cc_text :: rstr
  cc_reply_to :: "uuid option"

record peer_info_content =
  pc_display_name :: rstr
  pc_ed25519_public :: rstr
  pc_x25519_public :: rstr
  pc_fingerprint :: rstr
  pc_tcp_port :: "16 word"
  pc_protocol_version :: "16 word"

record connect_content =
  nc_accepted :: bool
  nc_reason :: "rstr option"

section \<open>Heartbeat\<close>

definition HEARTBEAT_INTERVAL_SECS :: nat where "HEARTBEAT_INTERVAL_SECS = 30"
definition CONNECTION_TIMEOUT_SECS :: nat where "CONNECTION_TIMEOUT_SECS = 90"

record heartbeat_manager =
  hb_connections :: manager
  hb_our_fingerprint :: rstr

definition heartbeat_manager_new :: "manager \<Rightarrow> rstr \<Rightarrow> heartbeat_manager" where
  "heartbeat_manager_new connections our_fingerprint =
     \<lparr> hb_connections = connections, hb_our_fingerprint = our_fingerprint \<rparr>"

text \<open>
  The two handlers as they are: a frame is made and dropped, and no connection is looked at. The turns of the loop are
  the ticks of its two timers and the cancellation; \<open>None\<close> is a task that still runs.
\<close>

definition send_heartbeats :: "frame_json \<Rightarrow> uuid \<Rightarrow> datetime \<Rightarrow> heartbeat_manager \<Rightarrow> bytes \<times> heartbeat_manager" where
  "send_heartbeats J fresh now hb =
     (let frame = frame_heartbeat fresh now (hb_our_fingerprint hb); data = frame_to_bytes J frame in (data, hb))"

definition check_timeouts :: "heartbeat_manager \<Rightarrow> heartbeat_manager" where
  "check_timeouts hb = hb"

datatype heartbeat_turn = Heartbeat_Tick uuid datetime | Timeout_Tick | Heartbeat_Cancelled

fun heartbeat_run :: "frame_json \<Rightarrow> heartbeat_turn list \<Rightarrow> heartbeat_manager \<Rightarrow> (unit, network_error) result option \<times> heartbeat_manager" where
  "heartbeat_run J [] hb = (None, hb)"
| "heartbeat_run J (Heartbeat_Cancelled # turns) hb = (Some (Ok ()), hb)"
| "heartbeat_run J (Heartbeat_Tick fresh now # turns) hb = heartbeat_run J turns (snd (send_heartbeats J fresh now hb))"
| "heartbeat_run J (Timeout_Tick # turns) hb = heartbeat_run J turns (check_timeouts hb)"

section \<open>Lemmas\<close>

text \<open>What is used of \<open>serde_json\<close>: a frame is serialised, and its text is read back as the same frame.\<close>

definition frame_json_ok :: "frame_json \<Rightarrow> message_frame \<Rightarrow> bool" where
  "frame_json_ok J f \<longleftrightarrow> (case fj_to_vec J f of Some bs \<Rightarrow> fj_from_slice J bs = Some f | None \<Rightarrow> False)"

lemma frame_roundtrip: "frame_json_ok J f \<Longrightarrow> frame_from_bytes J (frame_to_bytes J f) = Some f"
  by (simp add: frame_json_ok_def frame_from_bytes_def frame_to_bytes_def split: option.splits)

lemma uuid_bytes_nth_bit:
  assumes "n < 128"
  shows "bit (uuid_bytes u ! (15 - n div 8)) (n mod 8) = bit u n"
proof -
  have "15 - (15 - n div 8) = n div 8" using assms by simp
  then show ?thesis using assms by (simp add: uuid_bytes_def bit_ucast_iff bit_drop_bit_eq)
qed

lemma uuid_bytes_inj: "uuid_bytes u = uuid_bytes v \<longleftrightarrow> u = v"
proof
  assume "uuid_bytes u = uuid_bytes v"
  then have "bit u n = bit v n" if "n < 128" for n
    using uuid_bytes_nth_bit [OF that, of u] uuid_bytes_nth_bit [OF that, of v] by simp
  then show "u = v" by (intro bit_word_eqI) simp
qed simp

text \<open>An acknowledgement names its message.\<close>

lemma ack_names_message: "mf_payload (frame_ack u t s m) = mf_payload (frame_ack u' t' s' m') \<longleftrightarrow> m = m'"
  by (simp add: frame_ack_def uuid_bytes_inj)

lemma heartbeat_run_unchanged: "snd (heartbeat_run J turns hb) = hb"
  by (induction J turns hb rule: heartbeat_run.induct) (simp_all add: send_heartbeats_def check_timeouts_def Let_def)

section \<open>Properties\<close>

text \<open>
  Frames cross an encrypted connection intact and in order: if the transports of the two ends belong together, the
  JSON text of every frame can be read back and no encoded frame exceeds 65519 bytes, then every sequence of frames is sent
  without error, and the other end receives exactly as many messages, which decode to these frames in
  this order.
\<close>

theorem frames_cross_connection:
  assumes "snow_transport_ok S paired" and "paired (tr_state (co_transport a)) (tr_state (co_transport b))"
    and "list_all (frame_json_ok J) fs" and "list_all (\<lambda>f. length (frame_to_bytes J f) \<le> 65519) fs"
    and "\<not> tr_poisoned (co_transport a)" and "\<not> tr_poisoned (co_transport b)" and "healthy (co_stream a)"
  shows "\<exists>a' w. send_all K S (map (frame_to_bytes J) fs) a = (Ok (), a') \<and> tx (co_stream a') = tx (co_stream a) @ w
    \<and> (\<forall>rest. rx (co_stream b) = w @ rest \<longrightarrow>
        (\<exists>b' ds. recv_many (conn_recv K S) (length fs) b = (Ok ds, b') \<and> rx (co_stream b') = rest
           \<and> map (frame_from_bytes J) ds = map Some fs))"
proof -
  have "\<forall>m\<in>set (map (frame_to_bytes J) fs). length m \<le> 65519" using assms(4) by (simp add: list_all_iff)
  from send_all_recv_many [OF assms(1,2) this assms(5-7), of K]
  obtain a' w where "send_all K S (map (frame_to_bytes J) fs) a = (Ok (), a')" "tx (co_stream a') = tx (co_stream a) @ w"
    and recv: "\<And>rest. rx (co_stream b) = w @ rest \<Longrightarrow>
      \<exists>b'. recv_many (conn_recv K S) (length fs) b = (Ok (map (frame_to_bytes J) fs), b') \<and> rx (co_stream b') = rest"
    by auto
  moreover have "map (frame_from_bytes J) (map (frame_to_bytes J) fs) = map Some fs"
    using assms(3) by (simp add: list_all_iff frame_roundtrip)
  ultimately show ?thesis by metis
qed

definition sample_frame :: message_frame where
  "sample_frame = frame_chat 1 0 (lit ''alice'') [104, 105]"

definition sample_frame_json :: frame_json where
  "sample_frame_json = \<lparr> fj_to_vec = (\<lambda>f. Some [1, 2, 3]), fj_from_slice = (\<lambda>bs. Some sample_frame) \<rparr>"

theorem frames_cross_connection_witness:
  "\<exists>a' w. send_all ref_crates ref_snow (map (frame_to_bytes sample_frame_json) [sample_frame]) (ref_connection []) = (Ok (), a')
    \<and> tx (co_stream a') = w
    \<and> (\<exists>b' ds. recv_many (conn_recv ref_crates ref_snow) 1 (ref_connection w) = (Ok ds, b')
        \<and> map (frame_from_bytes sample_frame_json) ds = [Some sample_frame])"
proof -
  have clean: "\<not> tr_poisoned (co_transport (ref_connection x))" "healthy (co_stream (ref_connection x))"
    "tx (co_stream (ref_connection x)) = []" "rx (co_stream (ref_connection x)) = x" for x
    by (simp_all add: ref_connection_def healthy_def)
  have json: "list_all (frame_json_ok sample_frame_json) [sample_frame]"
    "list_all (\<lambda>f. length (frame_to_bytes sample_frame_json f) \<le> 65519) [sample_frame]"
    by (simp_all add: frame_json_ok_def sample_frame_json_def frame_to_bytes_def)
  have run: "\<exists>a' w. send_all ref_crates ref_snow (map (frame_to_bytes sample_frame_json) [sample_frame]) (ref_connection []) = (Ok (), a')
      \<and> tx (co_stream a') = w
      \<and> (\<forall>rest. g = w @ rest \<longrightarrow> (\<exists>b' ds. recv_many (conn_recv ref_crates ref_snow) (length [sample_frame]) (ref_connection g) = (Ok ds, b')
           \<and> map (frame_from_bytes sample_frame_json) ds = map Some [sample_frame]))" for g
  proof -
    from frames_cross_connection [OF ref_snow_transport_ok TrueI json clean(1) [of "[]"] clean(1) [of g] clean(2), where K = ref_crates]
    obtain a' w where sent: "send_all ref_crates ref_snow (map (frame_to_bytes sample_frame_json) [sample_frame]) (ref_connection []) = (Ok (), a')"
        "tx (co_stream a') = tx (co_stream (ref_connection [])) @ w"
      and recv: "\<forall>rest. rx (co_stream (ref_connection g)) = w @ rest \<longrightarrow>
        (\<exists>b' ds. recv_many (conn_recv ref_crates ref_snow) (length [sample_frame]) (ref_connection g) = (Ok ds, b') \<and> rx (co_stream b') = rest
          \<and> map (frame_from_bytes sample_frame_json) ds = map Some [sample_frame])"
      by - (elim exE conjE, rule that)
    from recv have "\<forall>rest. g = w @ rest \<longrightarrow> (\<exists>b' ds. recv_many (conn_recv ref_crates ref_snow) (length [sample_frame]) (ref_connection g) = (Ok ds, b')
           \<and> map (frame_from_bytes sample_frame_json) ds = map Some [sample_frame])"
      unfolding clean(4) by metis
    with sent show ?thesis unfolding clean(3) append_Nil by blast
  qed
  then obtain a' w where w: "send_all ref_crates ref_snow (map (frame_to_bytes sample_frame_json) [sample_frame]) (ref_connection []) = (Ok (), a')"
    "tx (co_stream a') = w" by blast
  with run [of w] have "\<exists>b' ds. recv_many (conn_recv ref_crates ref_snow) (length [sample_frame]) (ref_connection w) = (Ok ds, b')
      \<and> map (frame_from_bytes sample_frame_json) ds = map Some [sample_frame]" by auto
  with w show ?thesis by (simp del: recv_many.simps)
qed

text \<open>
  No heartbeat is ever sent and no connection is ever timed out: the task leaves the connection manager as it
  was, whatever its timers do; it only ends when it is cancelled.
\<close>

theorem heartbeat_does_nothing:
  "snd (heartbeat_run J turns hb) = hb \<and> (fst (heartbeat_run J turns hb) = None \<longleftrightarrow> Heartbeat_Cancelled \<notin> set turns)"
proof -
  have "fst (heartbeat_run J turns hb) = None \<longleftrightarrow> Heartbeat_Cancelled \<notin> set turns"
    by (induction J turns hb rule: heartbeat_run.induct) simp_all
  then show ?thesis by (simp add: heartbeat_run_unchanged)
qed

end
