(* ===== verification/Key_Types.thy ===== *)
theory Key_Types
  imports Security_Keys
begin

text \<open>
  The serde implementation of \<open>Ed25519Signature\<close> in \<open>crates/security/src/keys/ed25519.rs\<close>, which is written by hand. A
  deserializer calls one method of the visitor, with the bytes or with a sequence whose elements may fail; which one
  is up to the data format.
\<close>

section \<open>Model\<close>

datatype serde_error = Invalid_Length nat | Invalid_Type | Format_Error string

datatype serde_input = In_Bytes bytes | In_Seq "(byte, string) result list" | In_Other

definition signature_serialize :: "bytes \<Rightarrow> bytes" where
  "signature_serialize sig = sig"

definition visit_bytes :: "bytes \<Rightarrow> (bytes, serde_error) result" where
  "visit_bytes v = (if length v \<noteq> 64 then Err (Invalid_Length (length v)) else Ok v)"

text \<open>The loop over the 64 slots, from slot \<open>i\<close> on; what follows the last one is left in the sequence.\<close>

function visit_slots :: "nat \<Rightarrow> (byte, string) result list \<Rightarrow> (bytes, serde_error) result" where
  "visit_slots i elems =
     (if i \<ge> 64 then Ok []
      else case elems of
        [] \<Rightarrow> Err (Invalid_Length i)
      | Err e # _ \<Rightarrow> Err (Format_Error e)
      | Panic # _ \<Rightarrow> Panic
      | Ok b # rest \<Rightarrow> map_ok (Cons b) (visit_slots (Suc i) rest))"
  by pat_completeness auto
termination
  by (relation "measure (\<lambda>(i, elems). 64 - i)") auto

declare visit_slots.simps [simp del]

definition visit_seq :: "(byte, string) result list \<Rightarrow> (bytes, serde_error) result" where
  "visit_seq elems = visit_slots 0 elems"

fun signature_deserialize :: "serde_input \<Rightarrow> (bytes, serde_error) result" where
  "signature_deserialize (In_Bytes v) = visit_bytes v"
| "signature_deserialize (In_Seq elems) = visit_seq elems"
| "signature_deserialize In_Other = Err Invalid_Type"

section \<open>Lemmas\<close>

lemma visit_slots_Ok:
  "visit_slots i elems = Ok bs \<longleftrightarrow> length bs = 64 - i \<and> take (64 - i) elems = map Ok bs"
proof (induction i elems arbitrary: bs rule: visit_slots.induct)
  case (1 i elems)
  show ?case
  proof (cases "i \<ge> 64")
    case True
    then show ?thesis by (subst visit_slots.simps) auto
  next
    case False
    then have n: "64 - i = Suc (64 - Suc i)" by simp
    show ?thesis
    proof (cases elems)
      case Nil
      with False show ?thesis by (subst visit_slots.simps) auto
    next
      case (Cons x rest)
      show ?thesis
      proof (cases x)
        case (Ok b)
        have "visit_slots i elems = map_ok (Cons b) (visit_slots (Suc i) rest)"
          using False Cons Ok by (subst visit_slots.simps) simp
        moreover have "map_ok (Cons b) r = Ok bs \<longleftrightarrow> (\<exists>cs. r = Ok cs \<and> bs = b # cs)" for r by (cases r) auto
        moreover have "visit_slots (Suc i) rest = Ok cs \<longleftrightarrow> length cs = 64 - Suc i \<and> take (64 - Suc i) rest = map Ok cs" for cs
          using "1.IH" False Cons Ok by blast
        ultimately show ?thesis unfolding Cons Ok n by (cases bs) auto
      next
        case (Err e)
        have "visit_slots i elems = Err (Format_Error e)" using False Cons Err by (subst visit_slots.simps) simp
        then show ?thesis unfolding Cons Err n by (cases bs) auto
      next
        case Panic
        have "visit_slots i elems = Panic" using False Cons Panic by (subst visit_slots.simps) simp
        then show ?thesis unfolding Cons Panic n by (cases bs) auto
      qed
    qed
  qed
qed

lemma visit_slots_short: "i + length bs < 64 \<Longrightarrow> visit_slots i (map Ok bs) = Err (Invalid_Length (i + length bs))"
  by (induction bs arbitrary: i) (subst visit_slots.simps, simp)+

section \<open>Properties\<close>

text \<open>
  A signature survives serialisation in both kinds of format, as a byte string and as a sequence of bytes; and
  nothing else is read as a signature: whatever the input, an accepted value has 64 bytes, which are the whole byte
  string or the first 64 elements of the sequence; a shorter input is refused with its length.
\<close>

theorem signature_serde_roundtrip:
  assumes "length sig = 64"
  shows "signature_deserialize (In_Bytes (signature_serialize sig)) = Ok sig
    \<and> signature_deserialize (In_Seq (map Ok (signature_serialize sig))) = Ok sig
    \<and> (case signature_deserialize inp of
         Ok v \<Rightarrow> length v = 64 \<and> (case inp of In_Bytes w \<Rightarrow> w = v | In_Seq elems \<Rightarrow> take 64 elems = map Ok v | In_Other \<Rightarrow> False)
       | _ \<Rightarrow> True)
    \<and> (if length short < 64 then signature_deserialize (In_Bytes short) = Err (Invalid_Length (length short))
         \<and> signature_deserialize (In_Seq (map Ok short)) = Err (Invalid_Length (length short)) else True)"
proof -
  have "visit_seq (map Ok sig) = Ok sig" using assms by (simp add: visit_seq_def visit_slots_Ok)
  moreover have "case signature_deserialize inp of
         Ok v \<Rightarrow> length v = 64 \<and> (case inp of In_Bytes w \<Rightarrow> w = v | In_Seq elems \<Rightarrow> take 64 elems = map Ok v | In_Other \<Rightarrow> False)
       | _ \<Rightarrow> True"
    by (cases inp) (auto simp: visit_bytes_def visit_seq_def visit_slots_Ok split: result.split)
  ultimately show ?thesis using assms visit_slots_short [of 0 short]
    by (simp add: signature_serialize_def visit_bytes_def visit_seq_def)
qed

theorem signature_serde_roundtrip_witness:
  "signature_deserialize (In_Seq (map Ok (replicate 64 7))) = Ok (replicate 64 7)
   \<and> signature_deserialize (In_Bytes (replicate 63 7)) = Err (Invalid_Length 63)
   \<and> length (replicate 64 (7 :: byte)) = 64"
  using signature_serde_roundtrip [of "replicate 64 7" In_Other "replicate 63 7"] by (simp add: signature_serialize_def)

text \<open>
  A sequence that is too long is read as a signature when the format does not look for its end: the first 64 elements are
  taken and the rest is not looked at, while a byte string of that length is refused.
\<close>

theorem long_sequence_accepted:
  assumes "length sig = 64"
  shows "signature_deserialize (In_Seq (map Ok sig @ extra)) = Ok sig
    \<and> signature_deserialize (In_Bytes (sig @ [b])) = Err (Invalid_Length 65)"
  using assms by (simp add: visit_seq_def visit_slots_Ok visit_bytes_def)

end
