(* ===== verification/Store_Permissions.thy ===== *)
theory Store_Permissions
  imports Secure_Store
begin

text \<open>
  The permission bits of the identity file, \<open>crates/security/src/storage/secure_store.rs\<close>: a save writes a new
  temporary file, renames it, and then restricts it to its owner. The bits of every name stand beside the directory of
  \<open>Secure_Store\<close>.
\<close>

section \<open>Model\<close>

record modes =
  mo_bits :: "string \<Rightarrow> nat"
  mo_default :: nat
  mo_chmod_fails :: bool

definition OWNER_ONLY_BITS :: nat where "OWNER_ONLY_BITS = 384" \<comment> \<open>octal 600\<close>

text \<open>\<open>fs::write\<close> keeps the bits of a file that is there and gives a new one the default.\<close>

definition write_bits :: "string \<Rightarrow> directory \<Rightarrow> modes \<Rightarrow> modes" where
  "write_bits name d m = (if fs_files d name = None then m\<lparr> mo_bits := (mo_bits m)(name := mo_default m) \<rparr> else m)"

definition rename_bits :: "string \<Rightarrow> string \<Rightarrow> modes \<Rightarrow> modes" where
  "rename_bits from_name to_name m = m\<lparr> mo_bits := (mo_bits m)(to_name := mo_bits m from_name) \<rparr>"

text \<open>The last step of \<open>save\<close>; a failure of \<open>set_permissions\<close> is only logged.\<close>

definition restrict_bits :: "string \<Rightarrow> modes \<Rightarrow> modes" where
  "restrict_bits name m = (if mo_chmod_fails m then m else m\<lparr> mo_bits := (mo_bits m)(name := OWNER_ONLY_BITS) \<rparr>)"

text \<open>
  \<open>save\<close> with the bits after each of its three steps on them: the write, the rename, the restriction. The last entry
  is what it leaves.
\<close>

definition save_bits :: "directory \<Rightarrow> modes \<Rightarrow> modes list" where
  "save_bits d m =
     (let m1 = write_bits TEMP_FILE d m; m2 = rename_bits TEMP_FILE STORAGE_FILE m1 in [m1, m2, restrict_bits STORAGE_FILE m2])"

definition store_save_restricted ::
  "crates \<Rightarrow> bytes \<Rightarrow> bytes \<Rightarrow> identity_keys \<Rightarrow> rstr \<Rightarrow> (directory \<times> modes, unit, security_error) action" where
  "store_save_restricted K salt nonce ik passphrase s =
     (case store_save K salt nonce ik passphrase (fst s) of
        (Ok u, d') \<Rightarrow> (Ok u, (d', last (save_bits (fst s) (snd s))))
      | (Err e, d') \<Rightarrow>
          (Err e, (d', if fs_files d' TEMP_FILE = fs_files (fst s) TEMP_FILE then snd s else write_bits TEMP_FILE (fst s) (snd s)))
      | (Panic, d') \<Rightarrow> (Panic, (d', snd s)))"

section \<open>Properties\<close>

text \<open>
  A saved identity is for its owner only, in the end. The restricted save answers what the save answers; if it
  succeeds and the restriction works, the identity file has the owner's bits only; if it fails, the bits of the
  identity file are untouched; and no other file but the temporary one changes its bits.
\<close>

theorem save_restricts_identity:
  "case store_save_restricted K salt nonce ik pass (d, m) of (r, (d', m')) \<Rightarrow>
     (r, d') = store_save K salt nonce ik pass d
     \<and> mo_bits m' STORAGE_FILE =
         (if r = Ok () then if mo_chmod_fails m then mo_bits (save_bits d m ! 1) STORAGE_FILE else OWNER_ONLY_BITS
          else mo_bits m STORAGE_FILE)
     \<and> (\<forall>name. name = STORAGE_FILE \<or> name = TEMP_FILE \<or> mo_bits m' name = mo_bits m name)"
proof -
  have ne: "STORAGE_FILE \<noteq> TEMP_FILE" by (simp add: STORAGE_FILE_def TEMP_FILE_def)
  obtain r d' where s: "store_save K salt nonce ik pass d = (r, d')" by (cases "store_save K salt nonce ik pass d")
  show ?thesis
    using ne by (cases r) (auto simp: store_save_restricted_def s save_bits_def write_bits_def rename_bits_def restrict_bits_def Let_def)
qed

text \<open>
  Between the rename and the restriction the identity file has the default bits, whatever bits the file it replaces
  had.
\<close>

theorem save_leaves_window:
  assumes "fs_files d TEMP_FILE = None"
  shows "mo_bits (save_bits d m ! 1) STORAGE_FILE = mo_default m"
  using assms by (simp add: save_bits_def write_bits_def rename_bits_def Let_def)

end
