(* ===== verification/Tcp_Endpoints.thy ===== *)
theory Tcp_Endpoints
  imports Connection
begin

text \<open>
  The ends of a TCP connection as values: \<open>TcpServer\<close> and its builder in \<open>crates/networking/src/tcp/server.rs\<close>, its
  \<open>run\<close> up to the accept loop, its \<open>local_addr\<close>, and \<open>TcpClient\<close> in \<open>client.rs\<close>. The loop and the handling of a
  connection are those of \<open>Connection\<close>.
\<close>

section \<open>Model\<close>

record tcp_server =
  ts_identity :: identity_keys
  ts_validator :: "(verified_identity \<Rightarrow> bool) option"
  ts_bind_addr :: string

record tcp_client =
  tc_identity :: identity_keys

definition tcp_client_new :: "identity_keys \<Rightarrow> tcp_client" where
  "tcp_client_new ik = \<lparr> tc_identity = ik \<rparr>"

definition tcp_server_new :: "identity_keys \<Rightarrow> string \<Rightarrow> tcp_server" where
  "tcp_server_new ik addr = \<lparr> ts_identity = ik, ts_validator = None, ts_bind_addr = addr \<rparr>"

definition with_peer_validator :: "(verified_identity \<Rightarrow> bool) \<Rightarrow> tcp_server \<Rightarrow> tcp_server" where
  "with_peer_validator v srv = srv\<lparr> ts_validator := Some v \<rparr>"

text \<open>
  Binding a listener: the text of the address has a port, port 0 asks for any free one, and a port in use is
  refused. The ports in use, the choice of a free one, the parser and the texts of the errors belong to the system.
\<close>

record net_stack =
  ns_used :: "16 word list"
  ns_free :: "16 word list \<Rightarrow> 16 word"
  ns_port_of :: "string \<Rightarrow> 16 word option"
  ns_local_addr_fault :: "string option"

definition sane_stack :: "net_stack \<Rightarrow> bool" where
  "sane_stack n \<longleftrightarrow> ns_free n (ns_used n) \<notin> set (ns_used n) \<and> 0 \<notin> set (ns_used n)"

definition tcp_bind :: "string \<Rightarrow> (net_stack, 16 word, string) action" where
  "tcp_bind addr n =
     (case ns_port_of n addr of
        None \<Rightarrow> (Err ''invalid socket address'', n)
      | Some p \<Rightarrow>
          if p = 0 then (let q = ns_free n (ns_used n) in (Ok q, n\<lparr> ns_used := q # ns_used n \<rparr>))
          else if p \<in> set (ns_used n) then (Err ''Address already in use'', n)
          else (Ok p, n\<lparr> ns_used := p # ns_used n \<rparr>))"

text \<open>\<open>run\<close>: the bind, then the loop in its first state. The result has the port of the listener.\<close>

definition server_run_start :: "tcp_server \<Rightarrow> (net_stack, 16 word \<times> server, network_error) action" where
  "server_run_start srv =
     abind (amap_err (\<lambda>e. BindFailed (ts_bind_addr srv @ '': '' @ e)) (tcp_bind (ts_bind_addr srv))) (\<lambda>port.
     aret (port, server_start))"

definition server_local_addr :: "tcp_server \<Rightarrow> (net_stack, 16 word, network_error) action" where
  "server_local_addr srv =
     abind (amap_err BindFailed (tcp_bind (ts_bind_addr srv))) (\<lambda>port.
     aget (\<lambda>n. case ns_local_addr_fault n of Some e \<Rightarrow> Err (Net_Internal (''local_addr: '' @ e)) | None \<Rightarrow> Ok port))"

text \<open>A task of the loop handles its connection with the validator of the server.\<close>

definition server_task ::
  "crates \<Rightarrow> ('h, 't) snow \<Rightarrow> tcp_server \<Rightarrow> 'h handshake security_result \<Rightarrow> string option \<Rightarrow> io
    \<Rightarrow> 'h session race \<Rightarrow> datetime \<Rightarrow> bytes \<Rightarrow> datetime \<Rightarrow> instant \<Rightarrow> ('t connection, network_error) result" where
  "server_task K S srv setup = handle_connection K S setup (ts_validator srv)"

section \<open>Properties\<close>

text \<open>
  \<open>local_addr\<close> never tells the port of the running server. Once the server listens on a port, \<open>local_addr\<close> binds
  a second listener: with a fixed port it ends in a bind error, with port 0 it answers another port.
\<close>

theorem local_addr_not_running_port:
  assumes "server_run_start srv n = (Ok (port, s), n')" and "sane_stack n'"
  shows "fst (server_local_addr srv n') \<noteq> Ok port"
proof -
  from assms(1) have bound: "tcp_bind (ts_bind_addr srv) n = (Ok port, n')"
    by (auto simp: server_run_start_def action_eq_Ok)
  then have "port \<in> set (ns_used n')" "ns_port_of n' = ns_port_of n"
    by (auto simp: tcp_bind_def Let_def split: option.splits if_splits)
  then show ?thesis using bound assms(2)
    by (auto simp: server_local_addr_def tcp_bind_def Let_def action_defs sane_stack_def split: option.splits if_splits)
qed

text \<open>The parser of the sample reads \<open>a:0\<close> and \<open>a:7878\<close>.\<close>

definition sample_stack :: net_stack where
  "sample_stack = \<lparr> ns_used = [22], ns_free = (\<lambda>used. if 40000 \<in> set used then 40001 else 40000),
     ns_port_of = (\<lambda>a. if a = ''a:0'' then Some 0 else if a = ''a:7878'' then Some 7878 else None), ns_local_addr_fault = None \<rparr>"

definition sample_server :: "string \<Rightarrow> tcp_server" where
  "sample_server addr = tcp_server_new
     \<lparr> ik_ed25519 = \<lparr> ed_pub = [], ed_secret = [] \<rparr>, ik_x25519 = \<lparr> x_pub = [], x_secret = [] \<rparr> \<rparr> addr"

theorem local_addr_not_running_port_witness:
  "\<exists>n'. server_run_start (sample_server ''a:0'') sample_stack = (Ok (40000, server_start), n')
     \<and> fst (server_local_addr (sample_server ''a:0'') n') = Ok 40001 \<and> fst (server_local_addr (sample_server ''a:0'') n') \<noteq> Ok 40000"
proof -
  let ?n = "sample_stack\<lparr> ns_used := [40000, 22] \<rparr>"
  have run: "server_run_start (sample_server ''a:0'') sample_stack = (Ok (40000, server_start), ?n)"
    by (simp add: server_run_start_def action_defs tcp_bind_def sample_server_def tcp_server_new_def sample_stack_def)
  have "sane_stack ?n" by (simp add: sane_stack_def sample_stack_def)
  from local_addr_not_running_port [OF run this] run show ?thesis
    by (simp add: server_local_addr_def action_defs tcp_bind_def sample_server_def tcp_server_new_def sample_stack_def)
qed

end
