(* ===== verification/Ui_View.thy ===== *)
theory Ui_View
  imports Ui_Controller
begin

text \<open>
  What a frame shows: the screens and widgets of \<open>crates/ui/src\<close> and the panels of \<open>apps/desktop/src/app.rs\<close> as
  functions from the state to the widgets they draw, with texts and colours; sizes, margins and spacing are left out. What
  clicks do is in \<open>Ui_Controller\<close>; \<open>app_update\<close> puts both together into the frame of \<open>RubixApp::update\<close>. Numbers in
  texts are code points of characters outside ASCII.
\<close>

section \<open>Widgets\<close>

datatype color = Rgb nat nat nat | White | Yellow | Green | Light_Green | Cyan | Red | Gray | Transparent

datatype widget =
    W_Heading rstr | W_Label rstr "color option" | W_Button rstr "color option" | W_Combo rstr "(rstr \<times> bool) list"
  | W_Check rstr bool | W_Slider nat nat nat | W_Edit rstr rstr nat | W_Dot color | W_Spinner | W_Separator
  | W_Frame "color option" "widget list" | W_Close

text \<open>The texts on a widget, in order.\<close>

fun widget_texts :: "widget \<Rightarrow> rstr list" where
  "widget_texts (W_Heading t) = [t]"
| "widget_texts (W_Label t c) = [t]"
| "widget_texts (W_Button t c) = [t]"
| "widget_texts (W_Combo t es) = t # map fst es"
| "widget_texts (W_Check t b) = [t]"
| "widget_texts (W_Edit t hint limit) = [t, hint]"
| "widget_texts (W_Frame c ws) = concat (map widget_texts ws)"
| "widget_texts _ = []"

definition label :: "string \<Rightarrow> widget" where "label t = W_Label (lit t) None"
definition colored :: "rstr \<Rightarrow> color \<Rightarrow> widget" where "colored t c = W_Label t (Some c)"

text \<open>\<open>show_rows\<close>: the widgets of the rows in view that exist.\<close>

definition rows_in_view :: "nat list \<Rightarrow> 'a list \<Rightarrow> 'a list" where
  "rows_in_view rows xs = map ((!) xs) (filter (\<lambda>i. i < length xs) rows)"

section \<open>Theme\<close>

definition PRIMARY :: color where "PRIMARY = Rgb 0 120 215"
definition PRIMARY_HOVER :: color where "PRIMARY_HOVER = Rgb 0 140 240"
definition SUCCESS :: color where "SUCCESS = Rgb 0 200 180"
definition WARNING :: color where "WARNING = Rgb 255 180 0"
definition ERROR :: color where "ERROR = Rgb 255 80 100"
definition BG :: color where "BG = Rgb 18 18 24"
definition SURFACE :: color where "SURFACE = Rgb 28 28 36"
definition SURFACE_ELEVATED :: color where "SURFACE_ELEVATED = Rgb 38 38 48"
definition TEXT_PRIMARY :: color where "TEXT_PRIMARY = Rgb 230 230 240"
definition TEXT_SECONDARY :: color where "TEXT_SECONDARY = Rgb 150 150 170"
definition TEXT_DISABLED :: color where "TEXT_DISABLED = Rgb 100 100 120"
definition BORDER :: color where "BORDER = Rgb 50 50 65"
definition BORDER_HOVER :: color where "BORDER_HOVER = Rgb 70 70 90"

text \<open>The colours that \<open>build_visuals\<close> sets, by the field it sets.\<close>

definition build_visuals :: "(string \<times> color) list" where
  "build_visuals =
     [(''override_text_color'', TEXT_PRIMARY), (''noninteractive.bg_fill'', SURFACE), (''inactive.bg_fill'', SURFACE_ELEVATED),
      (''hovered.bg_fill'', SURFACE_ELEVATED), (''active.bg_fill'', Rgb 48 48 60), (''open.bg_fill'', SURFACE_ELEVATED),
      (''selection.bg_fill'', PRIMARY), (''selection.stroke'', TEXT_PRIMARY), (''window_fill'', BG), (''panel_fill'', BG),
      (''window_stroke'', BORDER), (''noninteractive.bg_stroke'', BORDER), (''inactive.bg_stroke'', BORDER),
      (''hovered.bg_stroke'', BORDER_HOVER), (''active.bg_stroke'', PRIMARY), (''hyperlink_color'', PRIMARY_HOVER),
      (''faint_bg_color'', SURFACE), (''extreme_bg_color'', Rgb 12 12 16), (''code_bg_color'', SURFACE_ELEVATED),
      (''warn_fg_color'', WARNING), (''error_fg_color'', ERROR)]"

section \<open>Chat screen\<close>

fun status_emoji :: "peer_status_dto \<Rightarrow> rstr" where
  "status_emoji (Dto_Online at) = [128994]"
| "status_emoji (Dto_Away at) = [128993]"
| "status_emoji Dto_Offline = [9898]"
| "status_emoji Dto_Blocked = [128683]"

definition peer_is_verified :: "peer_response list \<Rightarrow> rstr \<Rightarrow> bool" where
  "peer_is_verified peers fp \<longleftrightarrow> list_ex (\<lambda>p. pr_fingerprint p = fp \<and> pr_verified p) peers"

text \<open>The delivery status of a message, as the chat screen writes it.\<close>

fun chat_status :: "message_state_dto \<Rightarrow> widget" where
  "chat_status Dto_Pending = colored (9203 # lit '' Pending'') Yellow"
| "chat_status Dto_Sending = colored (128228 # lit '' Sending'' @ [8230]) Yellow"
| "chat_status (Dto_Sent at) = colored (10003 # lit '' Sent '' @ at) Light_Green"
| "chat_status (Dto_Delivered at) = colored (10003 # 10003 # lit '' Delivered '' @ at) Green"
| "chat_status (Dto_Read at) = colored (10003 # 10003 # lit '' Read '' @ at) Cyan"
| "chat_status (Dto_Failed at again) =
     colored (10007 # lit '' Failed '' @ at @ lit '' ('' @ lit (if again then ''retryable'' else ''permanent'') @ lit '')'')
       (if again then Yellow else Red)"

definition is_sent_to :: "rstr option \<Rightarrow> message_response \<Rightarrow> bool" where
  "is_sent_to selected msg = (case selected of Some fp \<Rightarrow> fp \<in> set (mr_recipient_fingerprints msg) | None \<Rightarrow> False)"

definition bubble_color :: "bool \<Rightarrow> color" where
  "bubble_color own = (if own then Rgb 0 120 215 else Rgb 50 50 55)"

definition render_message_bubble :: "rstr option \<Rightarrow> message_response \<Rightarrow> widget" where
  "render_message_bubble selected msg =
     W_Frame (Some (bubble_color (is_sent_to selected msg)))
       [W_Label (mr_sender_fingerprint msg) None, colored (mr_created_at msg) Gray, W_Label (mr_content_preview msg) None,
        chat_status (mr_state msg)]"

text \<open>The screen is drawn from its snapshot \<open>s\<close>, the status bar at its end from a later reading \<open>t\<close> of the state.\<close>

definition chat_view :: "nat list \<Rightarrow> ui_state \<Rightarrow> ui_state \<Rightarrow> widget list" where
  "chat_view rows s t =
     [W_Heading (128172 # lit '' Chat''), W_Separator,
      W_Combo (case us_selected_peer s of Some fp \<Rightarrow> fp | None \<Rightarrow> lit ''Select a peer'' @ [8230])
        (map (\<lambda>p. (status_emoji (pr_status p) @ 32 # pr_display_name p, us_selected_peer s = Some (pr_fingerprint p))) (us_peers s))]
     @ (case us_selected_peer s of
          Some fp \<Rightarrow> [colored fp Gray,
            if peer_is_verified (us_peers s) fp then colored (10003 # lit '' Verified'') Green
            else colored (9888 # lit '' Unverified'') Yellow]
        | None \<Rightarrow> [])
     @ [W_Button (128269 # lit '' Discover'') None, W_Separator]
     @ map (render_message_bubble (us_selected_peer s)) (rows_in_view rows (us_messages s))
     @ [W_Separator, W_Edit (us_compose_text s) (lit ''Type a secure message'' @ [8230]) MAX_INPUT_CHARS,
        W_Button (lit ''Send '' @ [10148]) (Some (Rgb 0 120 215)),
        if us_is_connected t then colored (9679 # lit '' Connected'') Green else colored (9679 # lit '' Disconnected'') Red]
     @ (if us_is_encrypted t then [colored (128274 # lit '' Encrypted'') Green] else [])
     @ [W_Label (lit (nat_str (us_online_peer_count t)) @ lit '' peers online'') None]"

section \<open>Widgets of their own\<close>

text \<open>\<open>message_bubble.rs\<close>.\<close>

fun bubble_status :: "message_state_dto \<Rightarrow> widget" where
  "bubble_status Dto_Pending = colored (9203 # lit '' Pending'') Yellow"
| "bubble_status Dto_Sending = colored (128228 # lit '' Sending'' @ [8230]) Yellow"
| "bubble_status (Dto_Sent at) = colored (10003 # lit '' Sent '' @ at) (Rgb 0 200 180)"
| "bubble_status (Dto_Delivered at) = colored (10003 # 10003 # lit '' Delivered '' @ at) Green"
| "bubble_status (Dto_Read at) = colored (10003 # 10003 # lit '' Read '' @ at) Cyan"
| "bubble_status (Dto_Failed at again) =
     colored (if again then 10007 # lit '' Failed '' @ at @ lit '' (retryable)'' else 10007 # lit '' Failed '' @ at @ lit '' (permanent)'')
       (Rgb 255 80 100)"

definition message_bubble :: "bool \<Rightarrow> message_response \<Rightarrow> widget" where
  "message_bubble own msg =
     W_Frame (Some (if own then Rgb 0 120 215 else Rgb 50 50 55))
       [colored (mr_sender_fingerprint msg) (Rgb 200 200 220), colored (mr_created_at msg) (Rgb 150 150 170),
        colored (mr_content_preview msg) White, bubble_status (mr_state msg)]"

text \<open>\<open>peer_list.rs\<close>: a row cuts the fingerprint after 8 bytes, which panics off a character boundary.\<close>

fun status_color :: "peer_status_dto \<Rightarrow> color" where
  "status_color (Dto_Online at) = Rgb 0 200 100"
| "status_color (Dto_Away at) = Rgb 255 180 0"
| "status_color Dto_Offline = Rgb 120 120 120"
| "status_color Dto_Blocked = Rgb 255 80 100"

definition render_peer_row :: "bool \<Rightarrow> peer_response \<Rightarrow> (widget, unit) result" where
  "render_peer_row is_selected p =
     (case str_prefix 8 (pr_fingerprint p) of
        None \<Rightarrow> Panic
      | Some short \<Rightarrow>
          Ok (W_Frame (Some (if is_selected then Rgb 0 100 180 else Transparent))
            ([W_Dot (status_color (pr_status p)), W_Label (pr_display_name p) None]
             @ (if pr_verified p then [colored [10003] (Rgb 0 200 180)] else [])
             @ [colored short (Rgb 120 120 140)])))"

text \<open>The rows in view, with the one that \<open>clicked\<close> says was clicked; of several the last counts.\<close>

fun peer_rows ::
  "(nat \<Rightarrow> bool) \<Rightarrow> rstr option \<Rightarrow> peer_response list \<Rightarrow> nat list \<Rightarrow> rstr option \<Rightarrow> (widget list \<times> rstr option, unit) result" where
  "peer_rows clicked selected peers [] acc = Ok ([], acc)"
| "peer_rows clicked selected peers (row # rows) acc =
     (if row < length peers then
        rbind (render_peer_row (selected = Some (pr_fingerprint (peers ! row))) (peers ! row)) (\<lambda>w.
        rbind (peer_rows clicked selected peers rows (if clicked row then Some (pr_fingerprint (peers ! row)) else acc)) (\<lambda>(ws, c).
        Ok (w # ws, c)))
      else peer_rows clicked selected peers rows acc)"

definition peer_list ::
  "(nat \<Rightarrow> bool) \<Rightarrow> nat list \<Rightarrow> peer_response list \<Rightarrow> rstr option \<Rightarrow> (widget list \<times> rstr option, unit) result" where
  "peer_list clicked rows peers selected = peer_rows clicked selected peers rows None"

text \<open>\<open>status_indicator.rs\<close>.\<close>

definition status_indicator :: "bool \<Rightarrow> bool \<Rightarrow> nat \<Rightarrow> bool \<Rightarrow> widget list" where
  "status_indicator is_connected is_encrypted peer_count is_loading =
     [if is_connected then colored (9679 # lit '' Connected'') (Rgb 0 200 100) else colored (9679 # lit '' Disconnected'') (Rgb 255 80 100),
      if is_encrypted then colored (128274 # lit '' Encrypted'') (Rgb 0 200 180) else colored (128275 # lit '' Unencrypted'') (Rgb 255 180 0),
      colored (if peer_count = 1 then lit ''1 peer online'' else lit (nat_str peer_count) @ lit '' peers online'') (Rgb 150 150 170)]
     @ (if is_loading then [W_Spinner, colored (lit ''Working'' @ [8230]) (Rgb 150 150 170)] else [])"

section \<open>Profile and settings\<close>

definition card :: "widget list \<Rightarrow> widget" where
  "card ws = W_Frame (Some (Rgb 28 28 36)) ws"

definition join_comma :: "rstr list \<Rightarrow> rstr" where
  "join_comma xs = (case xs of [] \<Rightarrow> [] | x # rest \<Rightarrow> x @ concat (map (\<lambda>y. lit '', '' @ y) rest))"

definition copy_button :: widget where
  "copy_button = W_Button (128203 # lit '' Copy'') None"

definition identity_card :: "ui_state \<Rightarrow> widget" where
  "identity_card s = card ([W_Heading (lit ''Your Identity''), label ''Display Name:'', W_Label (us_identity_display_name s) None]
     @ (case us_identity_fingerprint s of
          Some fp \<Rightarrow> [label ''Fingerprint:'', W_Label fp None, copy_button,
            colored (lit ''Share this fingerprint with peers for out-of-band verification.'') Gray]
        | None \<Rightarrow> [colored (lit ''No identity configured.'') Red])
     @ [W_Separator, W_Button (128260 # lit '' Reset Identity'') None,
        colored (9888 # lit '' Warning: This will generate new keys. Old conversations will be inaccessible.'') Yellow])"

definition verified_card :: "peer_response \<Rightarrow> widget" where
  "verified_card p = card [W_Label (pr_display_name p) None, colored (10003 # lit '' Verified'') Green,
     W_Label (pr_fingerprint p) None, copy_button, colored (lit ''Addresses: '' @ join_comma (pr_addresses p)) Gray,
     W_Button (128465 # 65039 # lit '' Untrust'') None]"

definition known_row :: "peer_response \<Rightarrow> widget list" where
  "known_row p = [W_Label (status_emoji (pr_status p)) None, W_Label (pr_display_name p) None, W_Label (pr_fingerprint p) None]
     @ (if \<not> pr_verified p then [W_Button (10003 # lit '' Trust'') None] else [])
     @ [W_Button (128172 # lit '' Chat'') None, W_Separator]"

definition profile_view :: "ui_state \<Rightarrow> widget list" where
  "profile_view s =
     [W_Heading (128100 # lit '' Profile & Trust''), W_Separator, identity_card s, W_Separator,
      W_Heading (lit ''Trusted Peers''), label ''Peers you have cryptographically verified.'']
     @ (let verified = filter pr_verified (us_peers s) in
        if verified = [] then
          [colored (lit ''No trusted peers yet. Connect to peers and verify their fingerprints out-of-band.'') Gray]
        else map verified_card verified)
     @ [W_Separator, W_Heading (lit ''All Known Peers''), W_Label (lit (nat_str (length (us_peers s))) @ lit '' peers discovered'') None]
     @ concat (map known_row (us_peers s))"

text \<open>\<open>timeout\<close> is the value of the slider after the frame, as \<open>u64\<close>.\<close>

definition settings_view :: "64 word \<Rightarrow> ui_state \<Rightarrow> widget list" where
  "settings_view timeout s =
     [W_Heading (9881 # 65039 # lit '' Settings''), W_Separator,
      card [W_Heading (lit ''Appearance''), W_Check (lit ''Dark Mode'') (us_dark_mode s)], W_Separator,
      card [W_Heading (lit ''Notifications''), W_Check (lit ''Enable OS Notifications'') (us_notifications_enabled s),
        colored (lit ''Show toast notifications for incoming messages and peer connections.'') Gray], W_Separator,
      card [W_Heading (lit ''Peer Discovery''), label ''Discovery Timeout (seconds):'',
        W_Slider (unat MIN_DISCOVERY_TIMEOUT) (unat MAX_DISCOVERY_TIMEOUT) (unat (us_discovery_timeout_secs s)),
        colored (lit ''Peers will be discovered for up to '' @ lit (nat_str (unat timeout)) @ lit '' seconds.'') Gray], W_Separator,
      card [W_Heading (lit ''Security''), label ''All communications are encrypted with Noise Protocol (X25519 + Ed25519).'',
        label ''No messages are stored unencrypted.'', label ''No internet connection is required.'', W_Separator,
        colored (lit ''Protocol: Noise_XX_25519_ChaChaPoly_BLAKE3'') Gray], W_Separator,
      card [W_Heading (lit ''About''), label ''Rubix-PingPongzz v1.0.0'', label ''Secure Offline LAN Messaging'',
        colored (lit ''Built with Rust '' @ [8226] @ lit '' Tokio '' @ [8226] @ lit '' egui '' @ [8226] @ lit '' Noise Protocol'') Gray]]"

section \<open>The window\<close>

definition nav_button :: "screen \<Rightarrow> screen \<Rightarrow> rstr \<Rightarrow> string \<Rightarrow> widget" where
  "nav_button current sc icon text = W_Button (icon @ 32 # lit text) (Some (if current = sc then Rgb 0 100 180 else Transparent))"

definition sidebar_view :: "screen \<Rightarrow> rstr \<Rightarrow> ui_state \<Rightarrow> widget list" where
  "sidebar_view current name s =
     [W_Heading (lit ''Rubix''), colored (lit ''PingPongzz'') (Rgb 150 150 170),
      W_Frame None [W_Label name None, colored (lit ''Secure LAN Messaging'') Gray],
      nav_button current Chat [128172] ''Chat'', nav_button current Profile [128100] ''Profile'',
      nav_button current Settings [9881, 65039] ''Settings'',
      W_Label ([if us_is_connected s then 128994 else 128308] @ 32 # lit (nat_str (us_online_peer_count s)) @ lit '' peers'') None]
     @ (if us_is_encrypted s then [colored (128274 # lit '' Encrypted'') (Rgb 0 200 180)] else [])"

definition error_banner_view :: "ui_state \<Rightarrow> widget list" where
  "error_banner_view s = (case us_error_banner s of
      Some msg \<Rightarrow> [W_Frame (Some (Rgb 80 30 30)) [colored (9888 # 65039 # lit '' Error'') (Rgb 255 150 150),
         colored msg (Rgb 255 200 200), W_Button (10005 # lit '' Dismiss'') None]]
    | None \<Rightarrow> [])"

text \<open>
  The user's part in a frame: the navigation button clicked, the rows of messages in view, and the input to each
  screen, of which only the one shown counts.
\<close>

record frame_input =
  fi_navigate :: "screen option"
  fi_rows :: "nat list"
  fi_chat :: chat_input
  fi_profile :: profile_input
  fi_settings :: settings_input

definition content_view :: "frame_input \<Rightarrow> screen \<Rightarrow> ui_state \<Rightarrow> ui_state \<Rightarrow> widget list" where
  "content_view inp sc s t = (case sc of
      Chat \<Rightarrow> chat_view (fi_rows inp) s t
    | Profile \<Rightarrow> profile_view s
    | Settings \<Rightarrow> settings_view (si_timeout (fi_settings inp)) s)"

definition content_step :: "frame_input \<Rightarrow> screen \<Rightarrow> app_step" where
  "content_step inp sc = (case sc of
      Chat \<Rightarrow> Chat_Frame (fi_chat inp) | Profile \<Rightarrow> Profile_Frame (fi_profile inp) | Settings \<Rightarrow> Settings_Frame (fi_settings inp))"

text \<open>
  \<open>RubixApp::update\<close>. The frame reads the shared state at the top of the sidebar, at its last lines, for the
  banner, to find the screen, for the screen's snapshot, and for the status bar of the chat; between two of these accesses,
  and before the write of a navigation button, the worker and the handling of its messages make the turns \<open>bg\<close>. A navigation button does nothing if
  its screen was the current one at the first reading.
\<close>

definition app_update :: "(nat \<Rightarrow> app_step list) \<Rightarrow> frame_input \<Rightarrow> app \<Rightarrow> widget list \<times> app" where
  "app_update bg inp a =
     (if ap_shutdown a then ([W_Close], a)
      else
        (let before = ap_state a;
             a0 = meanwhile (bg 0) a;
             a1 = (case fi_navigate inp of
                     Some sc \<Rightarrow> if us_current_screen before = sc then a0 else navigate sc a0
                   | None \<Rightarrow> a0);
             a2 = meanwhile (bg 1) a1;
             a3 = meanwhile (bg 2) a2;
             a4 = meanwhile (bg 3) a3;
             sc = us_current_screen (ap_state a4);
             a5 = app_exec Frame_Start (meanwhile (bg 4) a4);
             a6 = meanwhile (bg 5) (app_exec (content_step inp sc) a5)
         in (sidebar_view (us_current_screen before) (us_identity_display_name before) (ap_state a2)
               @ error_banner_view (ap_state a3) @ content_view inp sc (ap_snapshot a5) (ap_state a6),
             a6)))"

section \<open>Lemmas\<close>

lemma widget_texts_label [simp]: "widget_texts (label t) = [lit t]"
  by (simp add: label_def)

lemma widget_texts_colored [simp]: "widget_texts (colored t c) = [t]"
  by (simp add: colored_def)

lemma status_texts: "widget_texts (bubble_status st) = widget_texts (chat_status st)"
  by (cases st) (simp_all add: lit_def)

definition input_fits :: "frame_input \<Rightarrow> bool" where
  "input_fits inp \<longleftrightarrow> (case ci_edit (fi_chat inp) of Some t \<Rightarrow> length t \<le> MAX_INPUT_CHARS | None \<Rightarrow> True)"

lemma navigate_simps [simp]:
  "us_current_screen (ap_state (navigate sc a)) = sc" "ap_shutdown (navigate sc a) = ap_shutdown a"
  by (simp_all add: navigate_def)

lemma content_enabled: "\<not> ap_shutdown a \<Longrightarrow> input_fits inp \<Longrightarrow> app_enabled (content_step inp sc) a"
  by (cases sc) (auto simp: content_step_def input_fits_def)

lemma app_update_parts:
  assumes "\<not> ap_shutdown a"
  obtains a0 a1 a2 a3 a4 a5 a6 sc where "a0 = meanwhile (bg 0) a"
    "a1 = (case fi_navigate inp of Some sc \<Rightarrow> if us_current_screen (ap_state a) = sc then a0 else navigate sc a0 | None \<Rightarrow> a0)"
    "a2 = meanwhile (bg 1) a1" "a3 = meanwhile (bg 2) a2" "a4 = meanwhile (bg 3) a3" "sc = us_current_screen (ap_state a4)"
    "a5 = app_exec Frame_Start (meanwhile (bg 4) a4)" "a6 = meanwhile (bg 5) (app_exec (content_step inp sc) a5)"
    "app_update bg inp a = (sidebar_view (us_current_screen (ap_state a)) (us_identity_display_name (ap_state a)) (ap_state a2)
               @ error_banner_view (ap_state a3) @ content_view inp sc (ap_snapshot a5) (ap_state a6), a6)"
  by (rule that [OF refl refl refl refl refl refl refl refl]) (simp only: app_update_def Let_def assms if_False)

text \<open>A frame is a sequence of the steps of \<open>Ui_Controller\<close>, so what every step keeps, a frame keeps.\<close>

lemma app_update_reachable:
  assumes "app_reachable a0 a" and "input_fits inp"
  shows "app_reachable a0 (snd (app_update bg inp a))"
proof (cases "ap_shutdown a")
  case False
  have nav: "app_reachable a0 (navigate sc b)" if "app_reachable a0 b" "\<not> ap_shutdown b" for sc b
    using app_reachable.step [OF that(1), of "Navigate sc"] that(2) by simp
  have content: "app_reachable a0 (app_exec (content_step inp sc) (app_exec Frame_Start b))" if "app_reachable a0 b" "\<not> ap_shutdown b" for sc b
    by (intro app_reachable.step that(1)) (use that(2) content_enabled assms(2) in simp_all)
  show ?thesis using assms(1) False
    by (cases "fi_navigate inp") (auto simp add: app_update_def Let_def simp del: app_exec.simps intro!: meanwhile_reachable content nav)
qed (use assms(1) in \<open>simp add: app_update_def\<close>)

text \<open>The rows of the peer list.\<close>

lemma peer_rows_total:
  assumes "\<And>p. p \<in> set peers \<Longrightarrow> str_prefix 8 (pr_fingerprint p) \<noteq> None"
  shows "\<exists>ws c. peer_rows clicked selected peers rows acc = Ok (ws, c) \<and> length ws = length (filter (\<lambda>i. i < length peers) rows)
    \<and> (c = acc \<or> (\<exists>i\<in>set rows. i < length peers \<and> clicked i \<and> c = Some (pr_fingerprint (peers ! i))))"
proof (induction rows arbitrary: acc)
  case (Cons row rows)
  show ?case
  proof (cases "row < length peers")
    case True
    obtain short where "str_prefix 8 (pr_fingerprint (peers ! row)) = Some short" using assms [of "peers ! row"] True by auto
    then obtain w where w: "render_peer_row b (peers ! row) = Ok (w b)" for b by (simp add: render_peer_row_def)
    let ?acc = "if clicked row then Some (pr_fingerprint (peers ! row)) else acc"
    from Cons.IH [of ?acc] obtain ws c where "peer_rows clicked selected peers rows ?acc = Ok (ws, c)"
      "length ws = length (filter (\<lambda>i. i < length peers) rows)"
      "c = ?acc \<or> (\<exists>i\<in>set rows. i < length peers \<and> clicked i \<and> c = Some (pr_fingerprint (peers ! i)))"
      by - (elim exE conjE, rule that)
    with True w show ?thesis by (auto simp del: rbind_Ok_conv split: if_splits)
  next
    case False
    with Cons.IH [of acc] show ?thesis by auto
  qed
qed simp

lemma shown_fingerprint_prefix:
  assumes "hex_ok K" and "wf_fingerprint (peer_fingerprint p)"
  shows "str_prefix 8 (pr_fingerprint (from_peer K p)) \<noteq> None"
proof -
  have "c < 128" if "c \<in> set (to_formatted_string K (peer_fingerprint p))" for c
    using formatted_chars [OF assms(1) that] by (auto simp: is_ascii_hexdigit_def)
  then show ?thesis
    using str_prefix_ascii [of "to_formatted_string K (peer_fingerprint p)" 8] formatted_length [OF assms] by (simp add: from_peer_def)
qed

section \<open>Properties\<close>

text \<open>
  The two ways to draw a message say the same. The bubble of the chat screen and the bubble widget show the
  same texts for every message and state, and the same background when the widget is told what the chat screen finds out itself.
\<close>

theorem bubbles_agree:
  "widget_texts (render_message_bubble selected msg) = widget_texts (message_bubble own msg)
   \<and> (case (render_message_bubble selected msg, message_bubble (is_sent_to selected msg) msg) of
        (W_Frame c _, W_Frame c' _) \<Rightarrow> c = c' | _ \<Rightarrow> False)"
  by (simp add: render_message_bubble_def message_bubble_def status_texts bubble_color_def)

text \<open>
  The peer list cannot panic on peers of the program. It cuts every fingerprint in view after 8 bytes; for the
  responses made from peers with well-formed fingerprints that works for every row, so the list draws exactly the
  rows in view that exist, and what it reports as clicked is the fingerprint of a row in view that was clicked. A response whose
  fingerprint is shorter panics as soon as it is in view.
\<close>

theorem peer_list_total:
  assumes "hex_ok K" and "list_all (\<lambda>p. wf_fingerprint (peer_fingerprint p)) ps" and "str_len (pr_fingerprint q) < 8"
  shows "(\<exists>ws c. peer_list clicked rows (map (from_peer K) ps) selected = Ok (ws, c)
      \<and> length ws = length (filter (\<lambda>i. i < length ps) rows)
      \<and> (c = None \<or> list_ex (\<lambda>i. i < length ps \<and> clicked i \<and> c = Some (to_formatted_string K (peer_fingerprint (ps ! i)))) rows))
    \<and> peer_list clicked (0 # rows) (q # qs) selected = Panic"
proof
  have cut: "\<And>p. p \<in> set (map (from_peer K) ps) \<Longrightarrow> str_prefix 8 (pr_fingerprint p) \<noteq> None"
    using assms(2) shown_fingerprint_prefix [OF assms(1)] by (auto simp: list_all_iff)
  have "\<exists>ws c. peer_rows clicked selected (map (from_peer K) ps) rows None = Ok (ws, c)
      \<and> length ws = length (filter (\<lambda>i. i < length (map (from_peer K) ps)) rows)
      \<and> (c = None \<or> (\<exists>i\<in>set rows. i < length (map (from_peer K) ps) \<and> clicked i \<and> c = Some (pr_fingerprint (map (from_peer K) ps ! i))))"
    by (rule peer_rows_total) (rule cut)
  then show
    "\<exists>ws c. peer_list clicked rows (map (from_peer K) ps) selected = Ok (ws, c)
      \<and> length ws = length (filter (\<lambda>i. i < length ps) rows)
      \<and> (c = None \<or> list_ex (\<lambda>i. i < length ps \<and> clicked i \<and> c = Some (to_formatted_string K (peer_fingerprint (ps ! i)))) rows)"
    unfolding peer_list_def length_map list_ex_iff by - (elim exE conjE, intro exI conjI, assumption, assumption, auto simp: from_peer_def)
next
  have "str_prefix 8 (pr_fingerprint q) = None"
  proof (rule ccontr)
    assume "str_prefix 8 (pr_fingerprint q) \<noteq> None"
    then obtain t where "str_prefix 8 (pr_fingerprint q) = Some t" by blast
    from str_prefix_Some [OF this] have "8 \<le> str_len (pr_fingerprint q)" by auto
    with assms(3) show False by simp
  qed
  then show "peer_list clicked (0 # rows) (q # qs) selected = Panic" by (simp add: peer_list_def render_peer_row_def)
qed

theorem peer_list_total_witness:
  "(\<exists>ws c. peer_list (\<lambda>i. i = 0) [0, 1] (map (from_peer ref_crates) [ref_peer]) None = Ok (ws, c) \<and> length ws = 1)
   \<and> peer_list (\<lambda>i. False) [0] [(from_peer ref_crates ref_peer)\<lparr> pr_fingerprint := lit ''short'' \<rparr>] None = Panic"
proof -
  let ?q = "(from_peer ref_crates ref_peer)\<lparr> pr_fingerprint := lit ''short'' \<rparr>"
  have "list_all (\<lambda>p. wf_fingerprint (peer_fingerprint p)) [ref_peer]" "str_len (pr_fingerprint ?q) < 8"
    by (simp_all add: ref_peer_def ref_fp_def wf_fingerprint_def lit_def len_utf8_def)
  note total = peer_list_total [OF ref_hex_ok this]
  have "\<exists>ws c. peer_list (\<lambda>i. i = 0) [0, 1] (map (from_peer ref_crates) [ref_peer]) None = Ok (ws, c)
      \<and> length ws = length (filter (\<lambda>i. i < length [ref_peer]) [0, 1])"
    using total [where clicked = "\<lambda>i. i = 0" and rows = "[0, 1]" and selected = None] by blast
  moreover have "peer_list (\<lambda>i. False) [0] [?q] None = Panic"
    using total [where clicked = "\<lambda>i. False" and rows = "[]" and selected = None and qs = "[]"] by blast
  ultimately show ?thesis by simp
qed

definition verified_mark :: widget where
  "verified_mark = colored (10003 # lit '' Verified'') Green"

definition screen_title :: "screen \<Rightarrow> widget" where
  "screen_title sc = W_Heading (case sc of
      Chat \<Rightarrow> 128172 # lit '' Chat'' | Profile \<Rightarrow> 128100 # lit '' Profile & Trust'' | Settings \<Rightarrow> 9881 # 65039 # lit '' Settings'')"

lemma chat_marks: "verified_mark \<in> set (chat_view rows s t) \<longleftrightarrow>
    (\<exists>p\<in>set (us_peers s). us_selected_peer s = Some (pr_fingerprint p) \<and> pr_verified p)"
  by (cases "us_selected_peer s")
     (auto simp: chat_view_def verified_mark_def colored_def lit_def render_message_bubble_def peer_is_verified_def list_ex_iff)

lemma screen_title_inj: "screen_title sc = screen_title sc' \<longleftrightarrow> sc = sc'"
  by (cases sc; cases sc') (simp_all add: screen_title_def lit_def)

lemma content_title: "screen_title sc' \<in> set (content_view inp sc s t) \<longleftrightarrow> sc' = sc"
proof -
  have "screen_title sc' \<in> set (content_view inp sc s t) \<Longrightarrow> screen_title sc' = screen_title sc"
    by (cases sc; cases sc')
       (auto simp: content_view_def screen_title_def chat_view_def profile_view_def settings_view_def colored_def label_def card_def
         identity_card_def verified_card_def known_row_def render_message_bubble_def lit_def Let_def split: if_splits option.splits)
  moreover have "screen_title sc \<in> set (content_view inp sc s t)"
    by (cases sc) (auto simp: content_view_def screen_title_def chat_view_def profile_view_def settings_view_def)
  ultimately show ?thesis by (auto simp: screen_title_inj)
qed

lemma content_step_screen:
  "us_current_screen (ap_state (app_exec (content_step inp sc) a)) = us_current_screen (ap_state a)"
  by (cases sc) (auto simp: content_step_def chat_render_def profile_render_def settings_render_def set_compose_def Let_def split: option.split)

lemma content_step_snapshot [simp]: "ap_snapshot (app_exec (content_step inp sc) a) = ap_snapshot a"
  by (cases sc) (auto simp: content_step_def chat_render_def profile_render_def settings_render_def set_compose_def Let_def split: option.split)

lemma title_only_in_content: "screen_title sc \<notin> set (sidebar_view c name s) \<and> screen_title sc \<notin> set (error_banner_view s)"
  by (cases sc) (auto simp: screen_title_def sidebar_view_def error_banner_view_def colored_def nav_button_def lit_def split: option.splits)

lemma mark_only_in_chat:
  "verified_mark \<in> set (sidebar_view c name s' @ error_banner_view s'' @ content_view inp sc s t) \<longleftrightarrow>
     sc = Chat \<and> (\<exists>p\<in>set (us_peers s). us_selected_peer s = Some (pr_fingerprint p) \<and> pr_verified p)"
proof -
  have "verified_mark \<notin> set (sidebar_view c name s')" "verified_mark \<notin> set (error_banner_view s'')"
    by (auto simp: verified_mark_def sidebar_view_def error_banner_view_def colored_def nav_button_def split: option.splits)
  moreover have "verified_mark \<notin> set (profile_view s)"
    by (auto simp: verified_mark_def profile_view_def colored_def label_def identity_card_def verified_card_def card_def known_row_def Let_def split: if_splits)
  moreover have "verified_mark \<notin> set (settings_view t s)" for t
    by (auto simp: verified_mark_def settings_view_def colored_def label_def card_def)
  ultimately show ?thesis by (cases sc) (simp_all add: content_view_def chat_marks)
qed


text \<open>A window with a selected peer, and a click on the settings.\<close>

definition sample_ui :: "bool \<Rightarrow> ui_state" where
  "sample_ui verified = ui_state_default\<lparr> us_peers := [(from_peer ref_crates ref_peer)\<lparr> pr_verified := verified \<rparr>],
     us_selected_peer := Some (pr_fingerprint (from_peer ref_crates ref_peer)) \<rparr>"

definition sample_frame :: "screen option \<Rightarrow> frame_input" where
  "sample_frame nav = \<lparr> fi_navigate = nav, fi_rows = [0, 1], fi_chat = \<lparr> ci_peer = None, ci_discover = False, ci_edit = None, ci_send = False \<rparr>,
     fi_profile = \<lparr> pi_reset = False, pi_untrust = None, pi_trust = None, pi_chat = None \<rparr>,
     fi_settings = \<lparr> si_dark = True, si_notifications = True, si_timeout = 10 \<rparr> \<rparr>"

lemma sample_snapshot:
  "ap_snapshot (snd (app_update (\<lambda>i. []) (sample_frame nav) (app_new (sample_ui verified)))) =
     (sample_ui verified)\<lparr> us_current_screen := (case nav of Some sc \<Rightarrow> sc | None \<Rightarrow> Chat) \<rparr>"
  by (cases nav) (auto simp add: app_update_def Let_def app_new_def sample_frame_def sample_ui_def ui_state_default_def navigate_def)


end
