(* ===== verification/Desktop_Main.thy ===== *)
theory Desktop_Main
  imports Bootstrap Ui_View Send_Message Reset_Identity
begin

text \<open>
  \<open>apps/desktop/src/main.rs\<close>: the start of the process around \<open>bootstrap\<close>, and the window it opens; and the
  constructors of the use cases that have a state of their own. Logging is left out.
\<close>

section \<open>Model\<close>

text \<open>\<open>native_options\<close>, and the visuals that the creator of the app installs.\<close>

record native_options =
  no_title :: rstr
  no_inner_size :: "nat \<times> nat"
  no_min_inner_size :: "nat \<times> nat"

definition main_options :: native_options where
  "main_options = \<lparr> no_title = lit ''Rubix-PingPongzz '' @ [8212] @ lit '' Secure LAN Messaging'',
     no_inner_size = (1200, 800), no_min_inner_size = (800, 600) \<rparr>"

text \<open>How the process ends, or the window with which it goes on.\<close>

record window =
  wi_options :: native_options
  wi_visuals :: "(string \<times> color) list"
  wi_app :: app

datatype desktop = Exit_Code nat | Window window

definition run_native :: "native_options \<Rightarrow> app \<Rightarrow> window" where
  "run_native options a = \<lparr> wi_options = options, wi_visuals = build_visuals, wi_app = a \<rparr>"

definition desktop_main_with ::
  "string option \<Rightarrow> ('a event list, 'a booted, bootstrap_error) action \<Rightarrow> desktop \<times> 'a event list" where
  "desktop_main_with runtime_fault boot =
     (case runtime_fault of
        Some e \<Rightarrow> (Exit_Code 1, [])
      | None \<Rightarrow> (case boot [] of
            (Ok b, t) \<Rightarrow> (Window (run_native main_options (bt_app b)), t)
          | (Err e, t) \<Rightarrow> (Exit_Code 1, t)
          | (Panic, t) \<Rightarrow> (Exit_Code 101, t)))"

definition desktop_main ::
  "string option \<Rightarrow> crates \<Rightarrow> 'a env \<Rightarrow> (identity option, security_port_error) result \<Rightarrow> desktop \<times> 'a event list" where
  "desktop_main runtime_fault K E stored = desktop_main_with runtime_fault (bootstrap K E stored)"

text \<open>A use case starts with a limiter of its own and shares the identity.\<close>

definition send_use_case_new :: "identity \<Rightarrow> 'a world" where
  "send_use_case_new i = \<lparr> w_trace = [], w_limiter = rate_limiter_new, w_identity = i \<rparr>"

definition connect_use_case_new :: "identity \<Rightarrow> 'a world" where
  "connect_use_case_new i = \<lparr> w_trace = [], w_limiter = connect_limiter, w_identity = i \<rparr>"

section \<open>The first window\<close>

text \<open>What every state of a window without adapters shows.\<close>

lemma inert_meanwhile: "inert s0 a \<Longrightarrow> inert s0 (meanwhile sts a)"
  by (erule meanwhile_invariant [rotated]) (rule inert_exec)

lemma inert_frame:
  assumes "inert s0 a" and "\<not> ap_shutdown a"
  shows "verified_mark \<notin> set (fst (app_update bg inp a))
    \<and> W_Label (us_identity_display_name s0) None \<in> set (concat (map (\<lambda>w. case w of W_Frame c ws \<Rightarrow> ws | _ \<Rightarrow> []) (fst (app_update bg inp a))))
    \<and> W_Label (128308 # 32 # lit ''0 peers'') None \<in> set (fst (app_update bg inp a))
    \<and> colored (128274 # lit '' Encrypted'') (Rgb 0 200 180) \<in> set (fst (app_update bg inp a))"
proof -
  have nav: "inert s0 (navigate sc b)" if "inert s0 b" for sc b
    using inert_exec [OF that, of "Navigate sc"] by simp
  have state: "inert_state s0 (ap_state b)" "inert_state s0 (ap_snapshot b)" if "inert s0 b" for b
    using that by (simp_all add: inert_def)
  obtain a0 a1 a2 a3 a4 a5 a6 sc where parts: "a0 = meanwhile (bg 0) a"
    "a1 = (case fi_navigate inp of Some sc \<Rightarrow> if us_current_screen (ap_state a) = sc then a0 else navigate sc a0 | None \<Rightarrow> a0)"
    "a2 = meanwhile (bg 1) a1" "a3 = meanwhile (bg 2) a2" "a4 = meanwhile (bg 3) a3"
    "a5 = app_exec Frame_Start (meanwhile (bg 4) a4)"
    and "sc = us_current_screen (ap_state a4)" and "a6 = meanwhile (bg 5) (app_exec (content_step inp sc) a5)"
    and f: "app_update bg inp a = (sidebar_view (us_current_screen (ap_state a)) (us_identity_display_name (ap_state a)) (ap_state a2)
               @ error_banner_view (ap_state a3) @ content_view inp sc (ap_snapshot a5) (ap_state a6), a6)"
    using app_update_parts [OF assms(2), where bg = bg and inp = inp] .
  have "inert s0 a0" unfolding parts(1) by (rule inert_meanwhile [OF assms(1)])
  then have "inert s0 a1" unfolding parts(2) by (auto intro: nav split: option.split)
  then have "inert s0 a2" unfolding parts(3) by (rule inert_meanwhile)
  moreover from this have "inert s0 a5" unfolding parts(4-6) by (intro inert_exec inert_meanwhile)
  ultimately have st: "inert_state s0 (ap_state a2)" "inert_state s0 (ap_snapshot a5)" by (simp_all add: state)
  have ws: "fst (app_update bg inp a) = sidebar_view (us_current_screen (ap_state a)) (us_identity_display_name (ap_state a)) (ap_state a2)
        @ error_banner_view (ap_state a3) @ content_view inp sc (ap_snapshot a5) (ap_state a6)"
    by (simp add: f)
  have "verified_mark \<notin> set (fst (app_update bg inp a))"
    unfolding ws mark_only_in_chat using st(2) by (simp add: inert_state_def)
  moreover have "lit (nat_str 0) = [48]" by (simp add: nat_str.simps [of 0] lit_def)
  ultimately show ?thesis unfolding ws using st state(1) [OF assms(1)]
    by (auto simp: inert_state_def sidebar_view_def lit_def)
qed

section \<open>Properties\<close>

text \<open>
  The process either ends with code 1 (101, the code of a panic, if start-up panics) or opens a window on the identity in use. It opens one exactly when
  the runtime starts and start-up succeeds; with the factories of the source it never does. In every window it opens, after any interleaving, each frame
  shows the display name of that identity, no connected peer and no verified one, and says encrypted.
\<close>

theorem desktop_window:
  "fst (desktop_main f K E stored) = Exit_Code 1
   \<and> (case desktop_main_with f (bootstrap_with p s n K E stored) of
        (Exit_Code c, t) \<Rightarrow> c = (if f = None \<and> fst (bootstrap_with p s n K E stored []) = Panic then 101 else 1)
          \<and> \<not> (f = None \<and> is_ok (fst (bootstrap_with p s n K E stored [])))
      | (Window w, t) \<Rightarrow> f = None \<and> (\<exists>b. bootstrap_with p s n K E stored [] = (Ok b, t) \<and> w = run_native main_options (bt_app b)
          \<and> (if app_reachable (wi_app w) a \<and> \<not> ap_shutdown a then verified_mark \<notin> set (fst (app_update bg inp a))
               \<and> W_Label (ident_display_name (bt_identity b)) None
                   \<in> set (concat (map (\<lambda>w. case w of W_Frame c ws \<Rightarrow> ws | _ \<Rightarrow> []) (fst (app_update bg inp a))))
               \<and> W_Label (128308 # 32 # lit ''0 peers'') None \<in> set (fst (app_update bg inp a))
               \<and> colored (128274 # lit '' Encrypted'') (Rgb 0 200 180) \<in> set (fst (app_update bg inp a)) else True)))"
proof
  have "fst (bootstrap K E stored []) = Err (Boot_Persistence (stub ''persistence''))"
    by (simp add: bootstrap_def bootstrap_with_def create_persistence_port_def action_defs)
  then show "fst (desktop_main f K E stored) = Exit_Code 1"
    by (auto simp: desktop_main_def desktop_main_with_def split: option.split prod.split result.split)
next
  obtain r t where boot: "bootstrap_with p s n K E stored [] = (r, t)" by (cases "bootstrap_with p s n K E stored []")
  show "case desktop_main_with f (bootstrap_with p s n K E stored) of
        (Exit_Code c, t) \<Rightarrow> c = (if f = None \<and> fst (bootstrap_with p s n K E stored []) = Panic then 101 else 1)
          \<and> \<not> (f = None \<and> is_ok (fst (bootstrap_with p s n K E stored [])))
      | (Window w, t) \<Rightarrow> f = None \<and> (\<exists>b. bootstrap_with p s n K E stored [] = (Ok b, t) \<and> w = run_native main_options (bt_app b)
          \<and> (if app_reachable (wi_app w) a \<and> \<not> ap_shutdown a then verified_mark \<notin> set (fst (app_update bg inp a))
               \<and> W_Label (ident_display_name (bt_identity b)) None
                   \<in> set (concat (map (\<lambda>w. case w of W_Frame c ws \<Rightarrow> ws | _ \<Rightarrow> []) (fst (app_update bg inp a))))
               \<and> W_Label (128308 # 32 # lit ''0 peers'') None \<in> set (fst (app_update bg inp a))
               \<and> colored (128274 # lit '' Encrypted'') (Rgb 0 200 180) \<in> set (fst (app_update bg inp a)) else True))"
  proof (cases "\<exists>b. f = None \<and> r = Ok b")
    case True
    then obtain b where b: "f = None" "r = Ok b" by blast
    have app: "bt_app b = app_new (identity_state K (bt_identity b))" using bootstrap_with_Ok(3) boot b(2) by blast
    have "inert (identity_state K (bt_identity b)) (bt_app b)"
      by (simp add: app inert_def inert_state_def app_new_def identity_state_def ui_state_default_def)
    then have "inert (identity_state K (bt_identity b)) a" if "app_reachable (bt_app b) a"
      using app_invariant [where P = "inert (identity_state K (bt_identity b))", OF _ that] inert_exec by blast
    then show ?thesis using b inert_frame [of "identity_state K (bt_identity b)" a bg inp]
      by (auto simp: desktop_main_with_def boot identity_state_def run_native_def)
  next
    case False
    then show ?thesis by (auto simp: desktop_main_with_def boot split: option.split result.split)
  qed
qed

end
