(* ===== verification/Manager_Traffic.thy ===== *)
theory Manager_Traffic
  imports Connection_Manager "HOL-Library.Sublist"
begin

text \<open>
  What flows through the channels of the connection manager: the histories of one task's two channels during an
  execution, and the order in which messages leave them.
\<close>

section \<open>Histories\<close>

text \<open>
  Of one task: the messages that \<open>send_to\<close> accepted for it, those that its loop sent over the connection, those that it
  received, and those that the holder of its receiver took.
\<close>

record traffic =
  tf_accepted :: "bytes list"
  tf_sent :: "bytes list"
  tf_received :: "bytes list"
  tf_taken :: "bytes list"

definition no_traffic :: traffic where
  "no_traffic = \<lparr> tf_accepted = [], tf_sent = [], tf_received = [], tf_taken = [] \<rparr>"

text \<open>What a call adds to the histories of task \<open>tid\<close>, seen from the state before it.\<close>

definition accepted_for :: "crates \<Rightarrow> nat \<Rightarrow> fingerprint \<Rightarrow> bytes \<Rightarrow> manager \<Rightarrow> bool" where
  "accepted_for K tid fp msg m \<longleftrightarrow>
     (case map_of (mg_active m) fp of Some h \<Rightarrow> ch_task h = tid \<and> fst (send_to K fp msg m) = Some (Ok ()) | None \<Rightarrow> False)"

definition next_of :: "(conn_task \<Rightarrow> bytes list) \<Rightarrow> nat \<Rightarrow> manager \<Rightarrow> bytes list" where
  "next_of channel tid m = (case map_of (mg_tasks m) tid of Some t \<Rightarrow> take 1 (channel t) | None \<Rightarrow> [])"

fun observe :: "crates \<Rightarrow> nat \<Rightarrow> manager_call \<Rightarrow> manager \<Rightarrow> traffic \<Rightarrow> traffic" where
  "observe K tid (Call_Send fp msg) m T =
     (if accepted_for K tid fp msg m then T\<lparr> tf_accepted := tf_accepted T @ [msg] \<rparr> else T)"
| "observe K tid (Task_Turn i (Turn_Outgoing True)) m T =
     (if i = tid then T\<lparr> tf_sent := tf_sent T @ next_of ct_outgoing tid m \<rparr> else T)"
| "observe K tid (Task_Turn i (Turn_Received msg)) m T =
     (if i = tid then T\<lparr> tf_received := tf_received T @ [msg] \<rparr> else T)"
| "observe K tid (Receiver_Take i) m T =
     (if i = tid then T\<lparr> tf_taken := tf_taken T @ next_of ct_incoming tid m \<rparr> else T)"
| "observe K tid _ m T = T"

fun observed :: "crates \<Rightarrow> nat \<Rightarrow> manager_call list \<Rightarrow> manager \<Rightarrow> traffic \<Rightarrow> traffic" where
  "observed K tid [] m T = T"
| "observed K tid (c # cs) m T = observed K tid cs (manager_exec K c m) (observe K tid c m T)"

section \<open>Invariant\<close>

definition held_by :: "conn_task \<Rightarrow> bytes list" where
  "held_by t = (case ct_phase t of Delivering msg \<Rightarrow> [msg] | _ \<Rightarrow> [])"

text \<open>
  While the task serves, nothing is lost between what came in and what is queued; a task that is closing may have dropped
  one message in each direction (the incoming one only if its receiver is gone), and after its end what was queued is gone.
\<close>

definition outgoing_ok :: "conn_task \<Rightarrow> traffic \<Rightarrow> bool" where
  "outgoing_ok t T \<longleftrightarrow> prefix (tf_sent T) (tf_accepted T)
     \<and> (ct_phase t = Closing \<or> tf_accepted T = tf_sent T @ ct_outgoing t)"

definition incoming_ok :: "conn_task \<Rightarrow> traffic \<Rightarrow> bool" where
  "incoming_ok t T \<longleftrightarrow> prefix (tf_taken T @ ct_incoming t @ held_by t) (tf_received T)
     \<and> (\<not> ct_receiver_alive t \<and> ct_phase t = Closing \<or> tf_received T = tf_taken T @ ct_incoming t @ held_by t)"

definition channels_ok :: "nat \<Rightarrow> manager \<Rightarrow> traffic \<Rightarrow> bool" where
  "channels_ok tid m T \<longleftrightarrow> (mg_next m \<le> tid \<longrightarrow> T = no_traffic)
     \<and> (case map_of (mg_tasks m) tid of
          Some t \<Rightarrow> outgoing_ok t T \<and> incoming_ok t T
        | None \<Rightarrow> prefix (tf_sent T) (tf_accepted T) \<and> prefix (tf_taken T) (tf_received T))"

lemma channels_prefix:
  "channels_ok tid m T \<Longrightarrow> prefix (tf_sent T) (tf_accepted T) \<and> prefix (tf_taken T) (tf_received T)"
  by (auto simp: channels_ok_def outgoing_ok_def incoming_ok_def dest: append_prefixD split: option.splits)

lemma prefix_shorter: "prefix (xs @ ys @ zs) ws \<Longrightarrow> prefix (xs @ ys) ws"
  by (metis append_assoc append_prefixD)

text \<open>A call that leaves the tasks alone.\<close>

lemma channels_same_tasks:
  "channels_ok tid m T \<Longrightarrow> mg_tasks m' = mg_tasks m \<Longrightarrow> mg_next m' = mg_next m \<Longrightarrow> channels_ok tid m' T"
  by (simp add: channels_ok_def)

text \<open>The end of a task, and a change of one task.\<close>

lemma channels_end_task:
  assumes "channels_ok tid m T"
  shows "channels_ok tid (end_task i m) T"
  using assms channels_prefix [OF assms] by (auto simp: channels_ok_def end_task_def alist_simps split: option.splits)

lemma channels_set_task:
  assumes "channels_ok tid m T" and "map_of (mg_tasks m) i = Some t" and "mg_next m \<le> tid \<Longrightarrow> i \<noteq> tid"
    and "i \<noteq> tid \<Longrightarrow> T' = T"
    and "i = tid \<Longrightarrow> outgoing_ok t T \<Longrightarrow> incoming_ok t T \<Longrightarrow> outgoing_ok t' T' \<and> incoming_ok t' T'"
  shows "channels_ok tid (set_task i t' m) T'"
  using assms by (cases "i = tid") (auto simp: channels_ok_def set_task_def alist_simps)

lemma channels_on_task:
  assumes "manager_inv m" and "channels_ok tid m T" and "i \<noteq> tid \<Longrightarrow> T' = T" and "map_of (mg_tasks m) i \<noteq> None"
    and "\<And>t. i = tid \<Longrightarrow> map_of (mg_tasks m) i = Some t \<Longrightarrow> outgoing_ok t T \<Longrightarrow> incoming_ok t T \<Longrightarrow>
      outgoing_ok (f t) T' \<and> incoming_ok (f t) T'"
  shows "channels_ok tid (on_task f i m) T'"
proof -
  obtain t where t: "map_of (mg_tasks m) i = Some t" using assms(4) by blast
  then have "i < mg_next m" using assms(1) by (simp add: inv_defs)
  then have "channels_ok tid (set_task i (f t) m) T'"
    using assms(3,5) t by (intro channels_set_task [OF assms(2) t]) auto
  then show ?thesis by (simp add: on_task_def t)
qed

lemma channels_send_to:
  assumes "manager_inv m" and "channels_ok tid m T"
  shows "channels_ok tid (snd (send_to K fp msg m)) (observe K tid (Call_Send fp msg) m T)"
proof (cases "map_of (mg_active m) fp")
  case (Some h)
  from handleE [OF assms(1) this] obtain t where t: "map_of (mg_tasks m) (ch_task h) = Some t" by blast
  then have old: "ch_task h < mg_next m" using assms(1) by (simp add: inv_defs)
  show ?thesis
  proof (cases "length (ct_outgoing t) \<ge> OUTGOING_BUFFER_SIZE")
    case False
    let ?t = "t\<lparr> ct_outgoing := ct_outgoing t @ [msg] \<rparr>"
    have "outgoing_ok ?t (T\<lparr> tf_accepted := tf_accepted T @ [msg] \<rparr>) \<and> incoming_ok ?t (T\<lparr> tf_accepted := tf_accepted T @ [msg] \<rparr>)"
      if "outgoing_ok t T" "incoming_ok t T"
      using that by (auto simp: outgoing_ok_def incoming_ok_def held_by_def)
    then have "channels_ok tid (set_task (ch_task h) ?t m)
        (if ch_task h = tid then T\<lparr> tf_accepted := tf_accepted T @ [msg] \<rparr> else T)"
      using old by (intro channels_set_task [OF assms(2) t]) auto
    then show ?thesis using Some t False by (simp add: send_to_def accepted_for_def set_task_def)
  qed (use Some t assms(2) in \<open>simp add: send_to_def accepted_for_def\<close>)
qed (use assms(2) in \<open>simp add: send_to_def accepted_for_def\<close>)

lemma channels_connect:
  assumes "manager_inv m" and "channels_ok tid m T"
  shows "channels_ok tid (snd (connect_to_peer K fp m)) T"
proof -
  have "channels_ok tid (m\<lparr> mg_tasks := AList.update (mg_next m) (new_task info fp) (mg_tasks m), mg_next := Suc (mg_next m) \<rparr>) T" for info
    using assms(2) by (cases "tid = mg_next m")
      (auto simp: channels_ok_def alist_simps no_traffic_def outgoing_ok_def incoming_ok_def new_task_def held_by_def)
  then show ?thesis using assms(2) by (auto simp: connect_to_peer_def split: option.splits)
qed

lemma channels_task_connect:
  assumes "manager_inv m" and "channels_ok tid m T" and "call_enabled (Task_Connect i now ok) m"
  shows "channels_ok tid (task_connect now ok i m) T"
proof -
  obtain t where t: "map_of (mg_tasks m) i = Some t" "ct_phase t = Connecting"
    using assms(3) by (auto split: option.splits)
  then have old: "i < mg_next m" using assms(1) by (simp add: inv_defs)
  have "channels_ok tid (set_task i (t\<lparr> ct_phase := Serving \<rparr>) m) T"
    using old t(2) by (intro channels_set_task [OF assms(2) t(1)])
      (auto simp: outgoing_ok_def incoming_ok_def held_by_def)
  then have "channels_ok tid (set_task i (t\<lparr> ct_phase := Serving \<rparr>) (m\<lparr> mg_active := A \<rparr>)) T" for A
    by (rule channels_same_tasks) (simp_all add: set_task_def)
  then show ?thesis using t channels_end_task [OF assms(2)] by (auto simp: task_connect_def split: option.splits)
qed

lemma channels_task_finish: "channels_ok tid m T \<Longrightarrow> channels_ok tid (task_finish i m) T"
proof -
  assume ok: "channels_ok tid m T"
  have "channels_ok tid (m\<lparr> mg_active := A \<rparr>) T" for A using ok by (simp add: channels_ok_def)
  then show ?thesis using ok channels_end_task by (auto simp: task_finish_def split: option.splits)
qed

lemma channels_turn:
  assumes "manager_inv m" and "channels_ok tid m T" and "call_enabled (Task_Turn i turn) m"
  shows "channels_ok tid (on_task (take_turn turn) i m) (observe K tid (Task_Turn i turn) m T)"
proof -
  have en: "ct_phase t = Serving \<and> turn_enabled (mg_cancelled m) turn t" if "map_of (mg_tasks m) i = Some t" for t
    using assms(3) that by simp
  have some: "map_of (mg_tasks m) i \<noteq> None" using assms(3) by (auto split: option.splits)
  show ?thesis
  proof (rule channels_on_task [OF assms(1,2) _ some])
    show "observe K tid (Task_Turn i turn) m T = T" if "i \<noteq> tid"
    proof (cases turn)
      case (Turn_Outgoing sent)
      then show ?thesis using that by (cases sent) simp_all
    qed (use that in simp_all)
  next
    fix t assume i: "i = tid" and t: "map_of (mg_tasks m) i = Some t" and ok: "outgoing_ok t T" "incoming_ok t T"
    have s: "ct_phase t = Serving" "turn_enabled (mg_cancelled m) turn t" using en [OF t] by simp_all
    show "outgoing_ok (take_turn turn t) (observe K tid (Task_Turn i turn) m T)
      \<and> incoming_ok (take_turn turn t) (observe K tid (Task_Turn i turn) m T)"
    proof (cases turn)
      case (Turn_Outgoing sent)
      then obtain x xs where "ct_outgoing t = x # xs" using s(2) by (cases "ct_outgoing t") auto
      then show ?thesis using ok s(1) i t Turn_Outgoing
        by (cases sent) (auto simp: outgoing_ok_def incoming_ok_def held_by_def next_of_def)
    qed (use ok s(1) i t in \<open>auto simp: outgoing_ok_def incoming_ok_def held_by_def\<close>)
  qed
qed

lemma channels_step:
  assumes "manager_inv m" and "channels_ok tid m T" and "call_enabled c m"
  shows "channels_ok tid (manager_exec K c m) (observe K tid c m T)"
proof (cases c)
  case (Task_Turn i turn)
  then show ?thesis using channels_turn [OF assms(1,2)] assms(3) by simp
next
  case (Task_Deliver i)
  have "channels_ok tid (on_task task_deliver i m) T"
  proof (rule channels_on_task [OF assms(1,2) refl])
    show "map_of (mg_tasks m) i \<noteq> None" using assms(3) Task_Deliver by (auto split: option.splits)
    fix t assume ok: "outgoing_ok t T" "incoming_ok t T" "map_of (mg_tasks m) i = Some t"
    then show "outgoing_ok (task_deliver t) T \<and> incoming_ok (task_deliver t) T"
      by (cases "ct_phase t") (auto simp: outgoing_ok_def incoming_ok_def held_by_def task_deliver_def dest: prefix_shorter)
  qed
  then show ?thesis using Task_Deliver by simp
next
  case (Receiver_Take i)
  have "channels_ok tid (on_task (\<lambda>t. t\<lparr> ct_incoming := tl (ct_incoming t) \<rparr>) i m) (observe K tid c m T)"
  proof (rule channels_on_task [OF assms(1,2)])
    show "i \<noteq> tid \<Longrightarrow> observe K tid c m T = T" using Receiver_Take by simp
    show "map_of (mg_tasks m) i \<noteq> None" using assms(3) Receiver_Take by (auto split: option.splits)
    fix t assume i: "i = tid" and ok: "outgoing_ok t T" "incoming_ok t T" and t: "map_of (mg_tasks m) i = Some t"
    obtain x xs where "ct_incoming t = x # xs" using assms(3) t Receiver_Take by (cases "ct_incoming t") auto
    then show "outgoing_ok (t\<lparr> ct_incoming := tl (ct_incoming t) \<rparr>) (observe K tid c m T)
      \<and> incoming_ok (t\<lparr> ct_incoming := tl (ct_incoming t) \<rparr>) (observe K tid c m T)"
      using ok t i Receiver_Take by (auto simp: outgoing_ok_def incoming_ok_def held_by_def next_of_def)
  qed
  then show ?thesis using Receiver_Take by simp
next
  case (Receiver_Drop i)
  have "channels_ok tid (on_task (\<lambda>t. t\<lparr> ct_receiver_alive := False \<rparr>) i m) T"
    using assms(3) Receiver_Drop
    by (intro channels_on_task [OF assms(1,2) refl]) (auto simp: outgoing_ok_def incoming_ok_def held_by_def)
  then show ?thesis using Receiver_Drop by simp
next
  case (Call_Load fps)
  have "mg_tasks (load_trusted fps m) = mg_tasks m" "mg_next (load_trusted fps m) = mg_next m"
    unfolding load_trusted_def by (induction fps arbitrary: m) (simp_all add: trust_peer_def)
  then show ?thesis using Call_Load by (simp add: channels_same_tasks [OF assms(2)])
next
  case (Call_Send fp msg)
  then show ?thesis using channels_send_to [OF assms(1,2)] by simp
next
  case (Task_Connect i now ok)
  then show ?thesis using channels_task_connect [OF assms(1,2)] assms(3) by simp
next
  case (Call_Connect fp)
  then show ?thesis using channels_connect [OF assms(1,2)] by simp
next
  case (Task_Finish i)
  then show ?thesis using channels_task_finish [OF assms(2)] by simp
qed (simp_all add: channels_same_tasks [OF assms(2)] add_start_def add_lookup_def add_insert_def Let_def trust_peer_def disconnect_def shutdown_def cleanup_stale_def)

lemma channels_run:
  "manager_run K cs m = Some m' \<Longrightarrow> manager_inv m \<Longrightarrow> channels_ok tid m T \<Longrightarrow>
     manager_inv m' \<and> channels_ok tid m' (observed K tid cs m T)"
proof (induction cs arbitrary: m T)
  case (Cons c cs)
  then have en: "call_enabled c m" and run: "manager_run K cs (manager_exec K c m) = Some m'" by (auto split: if_splits)
  have "manager_inv (manager_exec K c m)" using inv_step [OF manager_step.exec [OF en] Cons.prems(2)] .
  from Cons.IH [OF run this channels_step [OF Cons.prems(2,3) en]] show ?case by simp
qed simp

lemma channels_new: "channels_ok tid manager_new no_traffic"
  by (simp add: channels_ok_def manager_new_def no_traffic_def)

section \<open>Properties\<close>

text \<open>
  C15: The manager's channels keep order. In every execution, with any interleaving of calls, task turns and network answers: what
  a task has sent over its connection is a beginning of what \<open>send_to\<close> accepted for it, and what the holder of its receiver has
  taken is a beginning of what it received, so nothing is duplicated, reordered or made up. Until the task closes, the
  accepted messages are exactly the sent ones and those in the queue; and as long as the receiver exists, the received
  ones are exactly those taken, those in the queue and the one being handed over.
\<close>

theorem manager_channels_in_order:
  assumes "manager_run K cs manager_new = Some m" and "T = observed K tid cs manager_new no_traffic"
  shows "prefix (tf_sent T) (tf_accepted T) \<and> prefix (tf_taken T) (tf_received T)
    \<and> (case map_of (mg_tasks m) tid of
         None \<Rightarrow> True
       | Some t \<Rightarrow> (if ct_phase t = Closing then True else tf_accepted T = tf_sent T @ ct_outgoing t)
           \<and> (if ct_receiver_alive t then tf_received T = tf_taken T @ ct_incoming t @ held_by t else True))"
proof -
  have "channels_ok tid m T" using channels_run [OF assms(1) inv_new channels_new] assms(2) by blast
  then show ?thesis using channels_prefix [of tid m T]
    by (auto simp: channels_ok_def outgoing_ok_def incoming_ok_def split: option.splits)
qed

definition traffic_sample :: "manager_call list" where
  "traffic_sample = sample_known [1] @ [Call_Connect (sample_fp 1), Task_Connect 0 0 True, Call_Send (sample_fp 1) [1],
     Call_Send (sample_fp 1) [2], Task_Turn 0 (Turn_Outgoing True), Task_Turn 0 (Turn_Outgoing True),
     Task_Turn 0 (Turn_Received [7]), Task_Deliver 0, Call_Send (sample_fp 1) [3], Receiver_Take 0]"

theorem manager_channels_in_order_witness:
  "let T = observed ref_crates 0 traffic_sample manager_new no_traffic in
   tf_sent T = [[1], [2]] \<and> tf_accepted T = [[1], [2], [3]] \<and> tf_taken T = [[7]] \<and> prefix (tf_sent T) (tf_accepted T)
   \<and> prefix (tf_taken T) (tf_received T)"
proof -
  let ?T = "observed ref_crates 0 traffic_sample manager_new no_traffic"
  have "manager_run ref_crates traffic_sample manager_new \<noteq> None" by code_simp
  then obtain m where "manager_run ref_crates traffic_sample manager_new = Some m" by blast
  from manager_channels_in_order [OF this refl]
  have "prefix (tf_sent ?T) (tf_accepted ?T)" "prefix (tf_taken ?T) (tf_received ?T)" by blast+
  moreover have "tf_sent ?T = [[1], [2]] \<and> tf_accepted ?T = [[1], [2], [3]] \<and> tf_taken ?T = [[7]]" by code_simp
  ultimately show ?thesis by (simp add: Let_def)
qed

end
