(* ===== verification/Manager_Trust.thy ===== *)
theory Manager_Trust
  imports Connection_Manager Trust_Store
begin

text \<open>
  The connection manager on a trust store: the task of \<open>ConnectionManager::new\<close> that reads the store, where the trust of
  a peer comes from, and what is left of it after a restart.
\<close>

section \<open>Model\<close>

text \<open>The task reads the list once. It keeps nothing of an error.\<close>

definition loader_task :: "'s trust_store option \<Rightarrow> bool \<Rightarrow> 's \<Rightarrow> manager_call list" where
  "loader_task store up s =
     (case store of
        None \<Rightarrow> []
      | Some T \<Rightarrow> (case ts_list_trusted T up s of Ok fps \<Rightarrow> [Call_Load fps] | _ \<Rightarrow> []))"

section \<open>Where trust comes from\<close>

fun given_trust :: "manager_call \<Rightarrow> fingerprint set" where
  "given_trust (Call_Trust fp) = {fp}"
| "given_trust (Call_Load fps) = set fps"
| "given_trust _ = {}"

lemma set_task_trusted [simp]: "mg_trusted (set_task tid t m) = mg_trusted m"
  by (simp add: set_task_def)

lemma on_task_trusted [simp]: "mg_trusted (on_task f tid m) = mg_trusted m"
  by (simp add: on_task_def split: option.split)

lemma end_task_trusted [simp]: "mg_trusted (end_task tid m) = mg_trusted m"
  by (simp add: end_task_def)

lemma task_connect_trusted [simp]: "mg_trusted (task_connect now up tid m) = mg_trusted m"
  by (auto simp: task_connect_def Let_def split: option.splits result.splits)

lemma task_finish_trusted [simp]: "mg_trusted (task_finish tid m) = mg_trusted m"
  by (auto simp: task_finish_def split: option.splits)

lemma connect_trusted [simp]: "mg_trusted (snd (connect_to_peer K fp m)) = mg_trusted m"
  by (auto simp: connect_to_peer_def split: option.splits)

lemma send_trusted [simp]: "mg_trusted (snd (send_to K fp msg m)) = mg_trusted m"
  by (auto simp: send_to_def split: option.splits)

lemma load_trusted_set [simp]: "set (mg_trusted (load_trusted fps m)) = set (mg_trusted m) \<union> set fps"
  unfolding load_trusted_def by (induction fps arbitrary: m) (auto simp: trust_peer_def)

lemma exec_trusted: "set (mg_trusted (manager_exec K c m)) = set (mg_trusted m) \<union> given_trust c"
  by (cases c) (auto simp: add_start_def add_lookup_def add_insert_def Let_def trust_peer_def disconnect_def shutdown_def cleanup_stale_def)

lemma trusted_iff_given: "manager_reachable K cs m \<Longrightarrow> is_trusted fp m \<longleftrightarrow> (\<exists>c\<in>set cs. fp \<in> given_trust c)"
  unfolding is_trusted_def
proof (induction rule: manager_reachable.induct)
  case start
  show ?case by (simp add: manager_new_def)
next
  case (step cs m c m')
  then have "m' = manager_exec K c m" by (auto elim: manager_stepE)
  with step.IH show ?case by (auto simp: exec_trusted)
qed

text \<open>What the loader reads from the table was granted.\<close>

definition granted_fp :: "crates \<Rightarrow> peer_op list \<Rightarrow> peer_table \<Rightarrow> fingerprint \<Rightarrow> bool" where
  "granted_fp K ops db fp \<longleftrightarrow> (\<exists>k. from_hex k = Ok fp \<and> (trusts_text db k \<or> list_ex (\<lambda>op. grants_text K op k) ops))"

lemma loaded_was_granted:
  assumes "table_ok True db"
    and "Call_Load fps \<in> set (loader_task (Some (sqlite_trust_store K J remove)) up (fold (peer_op_exec K J) ops db))" and "fp \<in> set fps"
  shows "granted_fp K ops db fp"
proof -
  let ?db = "fold (peer_op_exec K J) ops db"
  have "list_trusted up ?db = Ok fps"
    using assms(2) by (auto simp: loader_task_def sqlite_trust_store_def split: result.splits)
  then have "list_trusted True ?db = Ok fps" by (cases up) (simp_all add: list_trusted_def)
  from listed_trusts [OF peers.run_inv [OF assms(1)] this assms(3)]
  obtain k where "trusts_text ?db k" "from_hex k = Ok fp" by blast
  then show ?thesis using trust.trusted_was_granted [OF assms(1)] unfolding granted_fp_def by blast
qed

section \<open>Properties\<close>

text \<open>
  C40: The manager connects only to peers that somebody trusted, and forgets whom it was told to trust. Let a manager run on the
  table of peers, after any operations on it. In every state that any interleaving reaches, each active connection is to a peer
  that \<open>trust_peer\<close> was called for or that the table was told to trust. But \<open>trust_peer\<close> does not reach the table: a manager that is
  started again trusts exactly the peers that the table lists, and on a database that the program's own migrations made,
  whatever was done before, it trusts nobody and starts no connection.
\<close>

theorem manager_trust_origin:
  assumes "table_ok True db" and "db' = fold (peer_op_exec K J) ops db" and T: "T = sqlite_trust_store K J remove"
    and "manager_reachable K cs m"
    and "list_all (\<lambda>c. case c of Call_Load fps \<Rightarrow> c \<in> set (loader_task (Some T) up db') | _ \<Rightarrow> True) cs"
  shows "list_all (\<lambda>(fp, h). Call_Trust fp \<in> set cs \<or> granted_fp K ops db fp) (mg_active m)
    \<and> (is_trusted fp (fold (manager_exec K) (loader_task (Some T) up db') manager_new) \<longleftrightarrow>
        (case list_trusted up db' of Ok fps \<Rightarrow> fp \<in> set fps | _ \<Rightarrow> False))
    \<and> (case fold (peer_op_exec K J) ops' (open_table (migrated now)) of db'' \<Rightarrow>
        loader_task (Some T) up' db'' = []
        \<and> \<not> is_ok (fst (connect_to_peer K fp (snd (add_peer info
            (fold (manager_exec K) (loader_task (Some T) up' db'') manager_new))))))"
proof -
  have "Call_Trust g \<in> set cs \<or> granted_fp K ops db g" if "(g, h) \<in> set (mg_active m)" for g h
  proof -
    have "is_trusted g m" using inv_reachable [OF assms(4)] that by (rule active_trusted)
    then obtain c where c: "c \<in> set cs" "g \<in> given_trust c" using trusted_iff_given [OF assms(4)] by blast
    show ?thesis
    proof (cases c)
      case (Call_Load fps)
      then have "Call_Load fps \<in> set (loader_task (Some (sqlite_trust_store K J remove)) up (fold (peer_op_exec K J) ops db))"
        using assms(2,5) T c(1) by (auto simp: list_all_iff)
      then show ?thesis using loaded_was_granted [OF assms(1)] c(2) Call_Load by simp
    qed (use c in simp_all)
  qed
  moreover have "is_trusted fp (fold (manager_exec K) (loader_task (Some T) up db') manager_new) \<longleftrightarrow>
      (case list_trusted up db' of Ok fps \<Rightarrow> fp \<in> set fps | _ \<Rightarrow> False)"
    by (auto simp: T loader_task_def sqlite_trust_store_def is_trusted_def manager_new_def split: result.split)
  moreover have "table_ok False (open_table (migrated now))"
    using migrated_no_trusted [of now] by (simp add: open_table_def table_ok_def)
  from peers.run_inv [OF this, of K J ops']
  have "loader_task (Some T) up' (fold (peer_op_exec K J) ops' (open_table (migrated now))) = []"
    by (simp add: T loader_task_def sqlite_trust_store_def list_trusted_def table_ok_def)
  moreover have "\<not> is_ok (fst (connect_to_peer K fp (snd (add_peer info manager_new))))"
    by (auto simp: connect_to_peer_def add_peer_def get_peer_def is_trusted_def manager_new_def split: option.split)
  ultimately show ?thesis by (auto simp: list_all_iff)
qed

theorem manager_trust_origin_witness:
  "\<exists>cs m. manager_reachable ref_crates cs m \<and> map fst (mg_active m) = [sample_fp 1]
    \<and> \<not> is_trusted (sample_fp 1) (fold (manager_exec ref_crates)
         (loader_task (Some (sqlite_trust_store ref_crates sample_peer_json (\<lambda>_ _ s. (Ok (), s)))) True trusting_table) manager_new)"
proof -
  let ?cs = "sample_known [1] @ [Call_Connect (sample_fp 1), Task_Connect 0 0 True]"
  obtain m where m: "sample_run ?cs m" "mg_active m = [(sample_fp 1, \<lparr> ch_task = 0, ch_last_activity = 0 \<rparr>)]"
    using sample_connected by blast
  have ok: "table_ok True trusting_table" by (simp add: table_ok_def trusting_table_def)
  note r = sample_run_reachable [OF m(1)]
  have "list_trusted True trusting_table = Ok []" by (simp add: list_trusted_def trusting_table_def)
  with manager_trust_origin [OF ok _ refl r, where ops = "[]" and db' = trusting_table and up = True and J = sample_peer_json
      and remove = "\<lambda>_ _ s. (Ok (), s)" and fp = "sample_fp 1"]
  have "\<not> is_trusted (sample_fp 1) (fold (manager_exec ref_crates)
      (loader_task (Some (sqlite_trust_store ref_crates sample_peer_json (\<lambda>_ _ s. (Ok (), s)))) True trusting_table) manager_new)"
    by (simp add: sample_known_def sample_added_def)
  with r m(2) show ?thesis by (intro exI [of _ ?cs] exI [of _ m]) simp
qed

end
