(* ===== verification/Server_Tasks.thy ===== *)
theory Server_Tasks
  imports Tcp_Endpoints
begin

text \<open>
  What becomes of the sockets that the server of \<open>crates/networking/src/tcp/server.rs\<close> has accepted: the task that \<open>run\<close>
  spawns for each, and how the tasks that are left come to an end once the loop has stopped.
\<close>

section \<open>The spawned task\<close>

text \<open>
  The task looks at an error only; a connection that \<open>handle_connection\<close> returns is dropped at the end of the
  \<open>if let\<close>, which closes its socket. What is left of it is what the other end can read before the end of file.
\<close>

definition spawned_task ::
  "crates \<Rightarrow> ('h, 't) snow \<Rightarrow> tcp_server \<Rightarrow> 'h handshake security_result \<Rightarrow> string option \<Rightarrow> io
    \<Rightarrow> 'h session race \<Rightarrow> datetime \<Rightarrow> bytes \<Rightarrow> datetime \<Rightarrow> instant \<Rightarrow> (bytes, network_error) result" where
  "spawned_task K S srv setup clone_fault stream race created nonce clock inst =
     map_ok (\<lambda>conn. tx (co_stream conn)) (server_task K S srv setup clone_fault stream race created nonce clock inst)"

section \<open>The end of the tasks\<close>

inductive server_steps :: "nat \<Rightarrow> server \<Rightarrow> server \<Rightarrow> bool" where
  none: "server_steps 0 s s"
| more: "server_steps n s t \<Longrightarrow> server_step t u \<Longrightarrow> server_steps (Suc n) s u"

text \<open>A waiting task has two steps to make, a handshaking one has one.\<close>

definition pending_steps :: "server \<Rightarrow> nat" where
  "pending_steps s = 2 * card (sv_waiting s) + card (sv_handshaking s)"

inductive_cases server_stepE: "server_step s t"

lemma server_finite: "server_reachable s \<Longrightarrow> finite (sv_waiting s) \<and> finite (sv_handshaking s)"
proof -
  assume r: "server_reachable s"
  have "sv_waiting s \<subseteq> {..<sv_accepted s}" using server_permits [OF r] by auto
  then have "finite (sv_waiting s)" by (rule finite_subset) simp
  with server_permits [OF r] show ?thesis by blast
qed

lemma stopped_step:
  assumes "server_reachable s" and "sv_stopped s \<noteq> None" and "server_step s t"
  shows "pending_steps t < pending_steps s \<and> sv_stopped t = sv_stopped s \<and> sv_accepted t = sv_accepted s"
  using assms(3)
proof cases
  case (acquire i)
  have fin: "finite (sv_waiting s)" "finite (sv_handshaking s)" using server_finite [OF assms(1)] by simp_all
  have "i \<notin> sv_handshaking s" using server_permits [OF assms(1)] acquire(2) by blast
  moreover have "card (sv_waiting s) > 0" using fin(1) acquire(2) by (auto simp: card_gt_0_iff)
  ultimately show ?thesis using acquire fin by (simp add: pending_steps_def card_Diff_singleton)
next
  case (handled i)
  have "finite (sv_handshaking s)" using server_finite [OF assms(1)] by simp
  then have "card (sv_handshaking s - {i}) < card (sv_handshaking s)" using handled(2) by (intro psubset_card_mono) auto
  with handled show ?thesis by (simp add: pending_steps_def)
qed (use assms(2) in simp_all)

lemma server_steps_stopped:
  assumes "server_steps n s t" and "server_reachable s" and "sv_stopped s \<noteq> None"
  shows "server_reachable t \<and> sv_stopped t = sv_stopped s \<and> sv_accepted t = sv_accepted s \<and> n + pending_steps t \<le> pending_steps s"
  using assms
proof (induction rule: server_steps.induct)
  case (more n s t u)
  then have t: "server_reachable t" "sv_stopped t = sv_stopped s" "sv_accepted t = sv_accepted s" "n + pending_steps t \<le> pending_steps s"
    by simp_all
  have "sv_stopped t \<noteq> None" using t(2) more.prems(2) by simp
  from stopped_step [OF t(1) this more.hyps(2)] show ?case
    using t server_reachable.step [OF t(1) more.hyps(2)] by simp
qed simp

lemma stopped_progress:
  assumes "server_reachable s" and "sv_stopped s \<noteq> None"
  shows "(\<exists>t. server_step s t) \<longleftrightarrow> sv_waiting s \<noteq> {} \<or> sv_handshaking s \<noteq> {}"
proof
  show "sv_waiting s \<noteq> {} \<or> sv_handshaking s \<noteq> {}" if "\<exists>t. server_step s t"
    using that assms(2) by (auto elim!: server_stepE)
  assume "sv_waiting s \<noteq> {} \<or> sv_handshaking s \<noteq> {}"
  then consider i where "i \<in> sv_handshaking s" | i where "i \<in> sv_waiting s" "sv_handshaking s = {}" by blast
  then show "\<exists>t. server_step s t"
  proof cases
    case (1 i)
    then show ?thesis by (blast intro: server_step.handled)
  next
    case (2 i)
    then have "card (sv_handshaking s) < HANDSHAKE_PERMITS" by (simp add: HANDSHAKE_PERMITS_def)
    with 2(1) show ?thesis by (blast intro: server_step.acquire)
  qed
qed

section \<open>Properties\<close>

text \<open>
  C35: A stopped server comes to rest. Once the accept loop has ended, by cancellation or by an error, the tasks that are left make at
  most two steps each, no socket is accepted any more, and as long as a task waits for a permit or holds one some
  task can go on: no task waits for ever, so every run ends with all sockets handled.
\<close>

theorem stopped_server_drains:
  assumes "server_reachable s" and "sv_stopped s \<noteq> None" and "server_steps n s t"
  shows "n \<le> 2 * card (sv_waiting s) + card (sv_handshaking s) \<and> sv_accepted t = sv_accepted s
    \<and> (\<exists>u. server_step t u) = (sv_waiting t \<noteq> {} \<or> sv_handshaking t \<noteq> {})"
proof -
  have t: "server_reachable t" "sv_stopped t = sv_stopped s" "sv_accepted t = sv_accepted s" "n + pending_steps t \<le> pending_steps s"
    using server_steps_stopped [OF assms(3,1,2)] by simp_all
  have "sv_stopped t \<noteq> None" using t(2) assms(2) by simp
  from stopped_progress [OF t(1) this] t(3,4) show ?thesis by (simp add: pending_steps_def)
qed

text \<open>One socket is accepted, the loop is cancelled, and the task is handled in two steps.\<close>

theorem stopped_server_drains_witness:
  "\<exists>s t. server_reachable s \<and> sv_waiting s = {0} \<and> server_steps 2 s t \<and> sv_waiting t = {} \<and> \<not> (\<exists>u. server_step t u)"
proof -
  let ?s1 = "server_start\<lparr> sv_accepted := 1, sv_waiting := {0} \<rparr>"
  let ?s = "?s1\<lparr> sv_stopped := Some (Ok ()) \<rparr>"
  let ?u = "?s\<lparr> sv_waiting := {}, sv_handshaking := {0} \<rparr>" and ?t = "?s\<lparr> sv_waiting := {}, sv_handshaking := {} \<rparr>"
  have "server_reachable ?s1"
    using server_reachable.step [OF start accept] by (simp add: server_start_def)
  from server_reachable.step [OF this server_step.cancelled] have s: "server_reachable ?s" by (simp add: server_start_def)
  have u: "server_step ?s ?u" using server_step.acquire [of 0 ?s] by (simp add: server_start_def HANDSHAKE_PERMITS_def)
  have t: "server_step ?u ?t" using server_step.handled [of 0 ?u] by (simp add: server_start_def)
  have steps: "server_steps 2 ?s ?t"
    using server_steps.more [OF server_steps.more [OF server_steps.none u] t] by (simp add: numeral_2_eq_2)
  have "sv_stopped ?s \<noteq> None" by simp
  from stopped_server_drains [OF s this steps] s steps show ?thesis
    by (intro exI [of _ ?s] exI [of _ ?t]) simp
qed

end
