(* ===== verification/Unit_Test.thy ===== *)
theory Unit_Test
  imports Crates
begin

text \<open>
  How the unit tests of the repository are written in the model: a test is a program that returns or panics. It
  panics at an \<open>assert!\<close> that does not hold and at the \<open>unwrap\<close> of anything but a value; it passes when it returns.
\<close>

type_synonym unit_test = "(unit, unit) result"

definition passed :: unit_test where
  "passed = Ok ()"

text \<open>\<open>assert!(b)\<close>, then the rest of the test.\<close>

definition assert_that :: "bool \<Rightarrow> unit_test \<Rightarrow> unit_test" where
  "assert_that b rest = (if b then rest else Panic)"

text \<open>\<open>let x = r.unwrap()\<close>, for results and for options.\<close>

definition unwrapped :: "('a, 'e) result \<Rightarrow> ('a \<Rightarrow> unit_test) \<Rightarrow> unit_test" where
  "unwrapped r rest = (case r of Ok x \<Rightarrow> rest x | _ \<Rightarrow> Panic)"

definition unwrapped_option :: "'a option \<Rightarrow> ('a \<Rightarrow> unit_test) \<Rightarrow> unit_test" where
  "unwrapped_option r rest = (case r of Some x \<Rightarrow> rest x | None \<Rightarrow> Panic)"

text \<open>\<open>x.op().unwrap()\<close> for a method that changes \<open>x\<close>, then the rest with the new \<open>x\<close>.\<close>

definition mutated :: "('s, 'a, 'e) action \<Rightarrow> 's \<Rightarrow> ('a \<Rightarrow> 's \<Rightarrow> unit_test) \<Rightarrow> unit_test" where
  "mutated act s rest = (case act s of (Ok x, s') \<Rightarrow> rest x s' | _ \<Rightarrow> Panic)"

lemma assert_that_passed [simp]: "assert_that b rest = Ok u \<longleftrightarrow> b \<and> rest = Ok u"
  by (simp add: assert_that_def)

lemma unwrapped_passed [simp]: "unwrapped r rest = Ok u \<longleftrightarrow> (\<exists>x. r = Ok x \<and> rest x = Ok u)"
  by (auto simp: unwrapped_def split: result.splits)

lemma unwrapped_option_passed [simp]: "unwrapped_option r rest = Ok u \<longleftrightarrow> (\<exists>x. r = Some x \<and> rest x = Ok u)"
  by (auto simp: unwrapped_option_def split: option.splits)

lemma mutated_passed: "mutated act s rest = Ok u \<longleftrightarrow> (\<exists>x s'. act s = (Ok x, s') \<and> rest x s' = Ok u)"
  by (auto simp: mutated_def split: prod.splits result.splits)

lemma passed_Ok [simp]: "passed = Ok ()"
  by (simp add: passed_def)

end
