(* ===== verification/Domain_Tests.thy ===== *)
theory Domain_Tests
  imports Unit_Test Identity Message Peer "HOL-Library.Sublist"
begin

text \<open>
  The unit tests of \<open>crates/domain\<close>, run on the model. Every test passes, for every clock reading and every fresh
  id, given what the crates promise; \<open>update_display_name_valid\<close> needs the clock to have moved between two calls.
\<close>

section \<open>\<open>domain_error.rs\<close>\<close>

fun invalid_field :: "('a, domain_error) result \<Rightarrow> string option" where
  "invalid_field (Err (Validation field reason)) = Some field"
| "invalid_field _ = None"

fun over_limit :: "('a, domain_error) result \<Rightarrow> bool" where
  "over_limit (Err (ResourceLimit r)) = True"
| "over_limit _ = False"

definition empty_display_name_fails :: unit_test where
  "empty_display_name_fails =
     assert_that (validate_display_name [] = Err (Validation ''display_name'' ''cannot be empty'')) passed"

definition oversized_display_name_fails :: unit_test where
  "oversized_display_name_fails =
     (let name = replicate (MAX_DISPLAY_NAME_LEN + 1) 97 in assert_that (over_limit (validate_display_name name)) passed)"

definition control_char_in_display_name_fails :: unit_test where
  "control_char_in_display_name_fails =
     assert_that (invalid_field (validate_display_name (lit ''test'' @ 0 # lit ''name'')) \<noteq> None) passed"

definition valid_display_name_passes :: unit_test where
  "valid_display_name_passes = assert_that (is_ok (validate_display_name (lit ''ValidUser_123''))) passed"

definition empty_message_content_fails :: unit_test where
  "empty_message_content_fails = assert_that (invalid_field (validate_message_content []) = Some ''content'') passed"

definition oversized_message_content_fails :: unit_test where
  "oversized_message_content_fails =
     (let content = replicate (MAX_MESSAGE_CONTENT_LEN + 1) 0 in assert_that (over_limit (validate_message_content content)) passed)"

definition error_display_does_not_leak :: unit_test where
  "error_display_does_not_leak =
     (let msg = display_domain_error Cryptographic in
      assert_that (\<not> sublist ''key'' msg) (assert_that (\<not> sublist ''private'' msg) (assert_that (\<not> sublist ''secret'' msg) passed)))"

lemma error_tests_pass:
  "empty_display_name_fails = passed" "oversized_display_name_fails = passed"
  "control_char_in_display_name_fails = passed" "valid_display_name_passes = passed"
  "empty_message_content_fails = passed" "oversized_message_content_fails = passed" "error_display_does_not_leak = passed"
  by (simp_all add: empty_display_name_fails_def oversized_display_name_fails_def control_char_in_display_name_fails_def
      valid_display_name_passes_def empty_message_content_fails_def oversized_message_content_fails_def error_display_does_not_leak_def
      validate_display_name_def validate_message_content_def limit_defs lit_def is_control_def str_len_def len_utf8_def
      sum_list_replicate sublist_code Let_def)

section \<open>\<open>fingerprint.rs\<close>\<close>

definition sample_bytes :: bytes where
  "sample_bytes = [161, 178, 195, 212, 229, 246, 120, 144, 18, 52, 86, 120, 154, 188, 222, 240, 17, 34, 51, 68]"

definition valid_bytes_construction :: unit_test where
  "valid_bytes_construction = unwrapped (fp_from_bytes sample_bytes) (\<lambda>fp. assert_that (as_bytes fp = sample_bytes) passed)"

definition wrong_byte_length_fails :: unit_test where
  "wrong_byte_length_fails = assert_that (invalid_field (fp_from_bytes (replicate 19 0)) \<noteq> None) passed"

definition hex_parsing_with_separators :: unit_test where
  "hex_parsing_with_separators =
     unwrapped (from_hex (lit ''A1B2-C3D4-E5F6-7890-1234-5678-9ABC-DEF0-1122-3344'')) (\<lambda>fp.
     assert_that (as_bytes fp ! 0 = 161) (assert_that (as_bytes fp ! 19 = 68) passed))"

definition hex_parsing_without_separators :: unit_test where
  "hex_parsing_without_separators =
     unwrapped (from_hex (lit ''A1B2C3D4E5F67890123456789ABCDEF011223344'')) (\<lambda>fp. assert_that (as_bytes fp ! 0 = 161) passed)"

definition formatted_string_length :: "crates \<Rightarrow> unit_test" where
  "formatted_string_length K =
     unwrapped (fp_from_bytes (replicate 20 255)) (\<lambda>fp. let s = to_formatted_string K fp in
     assert_that (str_len s = FINGERPRINT_STRING_LEN)
       (assert_that (s = lit ''FFFF-FFFF-FFFF-FFFF-FFFF-FFFF-FFFF-FFFF-FFFF-FFFF'') passed))"

definition constant_time_equality :: "crates \<Rightarrow> unit_test" where
  "constant_time_equality K =
     unwrapped (fp_from_bytes (replicate 20 170)) (\<lambda>a. unwrapped (fp_from_bytes (replicate 20 170)) (\<lambda>b.
     unwrapped (fp_from_bytes (replicate 20 187)) (\<lambda>c.
     assert_that (constant_time_eq K a b) (assert_that (\<not> constant_time_eq K a c) passed))))"

definition display_does_not_expose_raw_bytes :: "crates \<Rightarrow> unit_test" where
  "display_does_not_expose_raw_bytes K =
     unwrapped (fp_from_bytes (replicate 20 255)) (\<lambda>fp. let display = display_fingerprint K fp in
     assert_that (0 \<notin> set display) (assert_that (str_len display = FINGERPRINT_STRING_LEN) passed))"

definition fingerprint_serialization_roundtrip :: "crates \<Rightarrow> unit_test" where
  "fingerprint_serialization_roundtrip K =
     unwrapped (fp_from_bytes [18, 52, 86, 120, 154, 188, 222, 240, 17, 34, 51, 68, 85, 102, 119, 136, 153, 170, 187, 204]) (\<lambda>fp.
     let serialized = fp_serialize K fp in
     unwrapped (fp_deserialize serialized) (\<lambda>deserialized. assert_that (as_bytes fp = as_bytes deserialized) passed))"

lemma fingerprint_tests_pass:
  "valid_bytes_construction = passed" "wrong_byte_length_fails = passed"
  "hex_parsing_with_separators = passed" "hex_parsing_without_separators = passed"
  by (simp_all add: valid_bytes_construction_def wrong_byte_length_fails_def hex_parsing_with_separators_def
      hex_parsing_without_separators_def fp_from_bytes_def sample_bytes_def FINGERPRINT_BYTES_def)
   (simp_all add: from_hex_def lit_def is_ascii_hexdigit_def FINGERPRINT_BYTES_def str_len_def len_utf8_def
      chunks.simps u8_from_str_radix16_def radix16_digits_def hex_value_def Let_def)

lemma from_hex_lower_hex: "length bs = 20 \<Longrightarrow> from_hex (lower_hex bs) = Ok (Fingerprint bs)"
  using is_hex_of_digits [OF is_hex_of_lower_hex [of bs]]
  by (intro from_hex_is_hex_of) (simp_all add: is_hex_of_lower_hex list_all_iff wf_fingerprint_def)

lemma chunks_4: "chunks 4 (a # b # c # d # xs) = [a, b, c, d] # chunks 4 xs" "chunks 4 [] = []"
  by (subst chunks.simps, simp)+

lemma lower_hex_ff: "lower_hex (replicate n 255) = replicate (2 * n) 102"
  by (induction n) (simp_all add: lower_hex_def hex_pair_def hex_digit_def)

lemma fingerprint_print_tests_pass:
  assumes "hex_ok K" and "ct_eq_ok K"
  shows "formatted_string_length K = passed" "constant_time_equality K = passed"
    "display_does_not_expose_raw_bytes K = passed" "fingerprint_serialization_roundtrip K = passed"
proof -
  let ?fp = "Fingerprint (replicate 20 255)"
  have wf: "wf_fingerprint ?fp" by (simp add: wf_fingerprint_def)
  have fp: "fp_from_bytes (replicate 20 255) = Ok ?fp" by (simp add: fp_from_bytes_wf)
  have ascii: "c < 128 \<and> c \<noteq> 0" if "c \<in> set (to_formatted_string K ?fp)" for c
    using formatted_chars [OF assms(1) that] by (auto simp: is_ascii_hexdigit_def)
  then have len: "str_len (to_formatted_string K ?fp) = 49" using formatted_length [OF assms(1) wf] by (subst str_len_ascii) auto
  show "display_does_not_expose_raw_bytes K = passed"
    using ascii len by (auto simp: display_does_not_expose_raw_bytes_def fp display_fingerprint_def FINGERPRINT_STRING_LEN_def Let_def)
  have ff: "lower_hex (replicate 20 255) = replicate 40 102"
    using lower_hex_ff [of 20] by simp
  have "to_ascii_uppercase (replicate 40 102) = replicate 40 70" by (simp add: to_ascii_uppercase_def)
  moreover have "replicate 40 70 = (let q = [70, 70, 70, 70] in q @ q @ q @ q @ q @ q @ q @ q @ q @ (q :: rstr))"
    by (simp add: eval_nat_numeral)
  ultimately have "to_formatted_string K ?fp = lit ''FFFF-FFFF-FFFF-FFFF-FFFF-FFFF-FFFF-FFFF-FFFF-FFFF''"
    by (simp add: to_formatted_string_def hex_okD [OF assms(1)] ff chunks_4 lit_def)
  with len show "formatted_string_length K = passed" by (simp add: formatted_string_length_def fp FINGERPRINT_STRING_LEN_def Let_def)
  show "constant_time_equality K = passed"
    by (simp add: constant_time_equality_def fp_from_bytes_def FINGERPRINT_BYTES_def constant_time_eq_def ct_eq_okD [OF assms(2)])
  show "fingerprint_serialization_roundtrip K = passed"
    by (simp add: fingerprint_serialization_roundtrip_def fp_from_bytes_wf Let_def
        fp_deserialize_def fp_serialize_def hex_okD [OF assms(1)] from_hex_lower_hex wf_fingerprint_def)
qed

section \<open>\<open>identity.rs\<close>\<close>

text \<open>Serialisation of the entities is derived and not part of the source; the tests of it stand for \<open>serde_json\<close>.\<close>

definition valid_fingerprint :: "(fingerprint \<Rightarrow> unit_test) \<Rightarrow> unit_test" where
  "valid_fingerprint rest = unwrapped (fp_from_bytes (replicate 20 170)) rest"

definition full_builder :: "rstr \<Rightarrow> fingerprint \<Rightarrow> identity_builder" where
  "full_builder name fp =
     with_fingerprint fp (with_x25519_public (replicate 32 2) (with_ed25519_public (replicate 32 1)
       (with_display_name name identity_builder_new)))"

definition builder_creates_valid_identity :: "datetime \<Rightarrow> uuid \<Rightarrow> unit_test" where
  "builder_creates_valid_identity now fresh =
     valid_fingerprint (\<lambda>fp. unwrapped (identity_build now fresh (full_builder (lit ''TestUser'') fp)) (\<lambda>i.
     assert_that (ident_display_name i = lit ''TestUser'') (assert_that (ident_ed25519_public i = replicate 32 1)
       (assert_that (ident_x25519_public i = replicate 32 2) passed))))"

definition missing_display_name_fails :: "datetime \<Rightarrow> uuid \<Rightarrow> unit_test" where
  "missing_display_name_fails now fresh =
     valid_fingerprint (\<lambda>fp.
     let r = identity_build now fresh (with_fingerprint fp (with_x25519_public (replicate 32 2)
               (with_ed25519_public (replicate 32 1) identity_builder_new)))
     in assert_that (invalid_field r = Some ''display_name'') passed)"

definition invalid_display_name_fails :: "datetime \<Rightarrow> uuid \<Rightarrow> unit_test" where
  "invalid_display_name_fails now fresh =
     valid_fingerprint (\<lambda>fp. assert_that (is_err (identity_build now fresh (full_builder [] fp))) passed)"

definition update_display_name_valid :: "datetime \<Rightarrow> datetime \<Rightarrow> uuid \<Rightarrow> unit_test" where
  "update_display_name_valid now later fresh =
     valid_fingerprint (\<lambda>fp. unwrapped (identity_build now fresh (full_builder (lit ''OldName'') fp))
     (\<lambda>i. mutated (identity_set_display_name later (lit ''NewName'')) i (\<lambda>_ i.
     assert_that (ident_display_name i = lit ''NewName'') (assert_that (ident_updated_at i > ident_created_at i) passed))))"

definition update_display_name_invalid_fails :: "datetime \<Rightarrow> datetime \<Rightarrow> uuid \<Rightarrow> unit_test" where
  "update_display_name_invalid_fails now later fresh =
     valid_fingerprint (\<lambda>fp. unwrapped (identity_build now fresh (full_builder (lit ''Valid'') fp)) (\<lambda>i.
     case identity_set_display_name later [] i of
       (r, i) \<Rightarrow> assert_that (is_err r) (assert_that (ident_display_name i = lit ''Valid'') passed)))"

definition identity_serialization_roundtrip ::
  "(identity \<Rightarrow> string option) \<Rightarrow> (string \<Rightarrow> identity option) \<Rightarrow> datetime \<Rightarrow> uuid \<Rightarrow> unit_test" where
  "identity_serialization_roundtrip to_json of_json now fresh =
     valid_fingerprint (\<lambda>fp.
     unwrapped (identity_build now fresh (with_fingerprint fp (with_x25519_public (replicate 32 205)
       (with_ed25519_public (replicate 32 171) (with_display_name (lit ''SerializeTest'') identity_builder_new))))) (\<lambda>i.
     unwrapped_option (to_json i) (\<lambda>json. unwrapped_option (of_json json) (\<lambda>j.
     assert_that (ident_id i = ident_id j) (assert_that (ident_display_name i = ident_display_name j)
       (assert_that (ident_ed25519_public i = ident_ed25519_public j)
         (assert_that (as_bytes (ident_fingerprint i) = as_bytes (ident_fingerprint j)) passed)))))))"

definition verify_fingerprint_with :: "crates \<Rightarrow> byte \<Rightarrow> (bool \<Rightarrow> unit_test) \<Rightarrow> datetime \<Rightarrow> uuid \<Rightarrow> unit_test" where
  "verify_fingerprint_with K b rest now fresh =
     valid_fingerprint (\<lambda>fp. unwrapped (identity_build now fresh (full_builder (lit ''Test'') fp)) (\<lambda>i.
     unwrapped (fp_from_bytes (replicate 20 b)) (\<lambda>derived.
     unwrapped (verify_fingerprint K (\<lambda>_ _. derived) i) rest)))"

definition verify_fingerprint_matches :: "crates \<Rightarrow> datetime \<Rightarrow> uuid \<Rightarrow> unit_test" where
  "verify_fingerprint_matches K = verify_fingerprint_with K 170 (\<lambda>r. assert_that r passed)"

definition verify_fingerprint_mismatch :: "crates \<Rightarrow> datetime \<Rightarrow> uuid \<Rightarrow> unit_test" where
  "verify_fingerprint_mismatch K = verify_fingerprint_with K 187 (\<lambda>r. assert_that (\<not> r) passed)"

lemma short_name: "length name \<le> 64 \<Longrightarrow> name \<noteq> [] \<Longrightarrow> list_all (\<lambda>c. 32 \<le> c \<and> c < 127) name \<Longrightarrow> valid_display_name name"
  using str_len_ascii [of name] by (force simp: valid_display_name_def is_control_def list_all_iff)

lemmas identity_test_defs =
  valid_fingerprint_def full_builder_def identity_builder_defs fp_from_bytes_wf identity_set_display_name_cases

lemma valid_sample_names:
  "valid_display_name (lit ''TestUser'')" "valid_display_name (lit ''OldName'')" "valid_display_name (lit ''NewName'')"
  "valid_display_name (lit ''Valid'')" "valid_display_name (lit ''SerializeTest'')" "valid_display_name (lit ''Test'')"
  "valid_display_name (lit ''RemotePeer'')" "\<not> valid_display_name []"
  by (simp_all add: lit_def valid_display_name_def len_utf8_def is_control_def)

lemma identity_tests_pass:
  "builder_creates_valid_identity now fresh = passed" "missing_display_name_fails now fresh = passed"
  "invalid_display_name_fails now fresh = passed" "update_display_name_invalid_fails now later fresh = passed"
  by (simp_all add: builder_creates_valid_identity_def missing_display_name_fails_def invalid_display_name_fails_def
      update_display_name_invalid_fails_def identity_test_defs identity_build_Ok valid_sample_names)
    (simp_all add: identity_build_def validate_display_name_def)

text \<open>The one test that depends on the clock: it fails if both readings are the same.\<close>

lemma update_display_name_valid_iff:
  "update_display_name_valid now later fresh = passed \<longleftrightarrow> now < later"
  by (simp add: update_display_name_valid_def identity_test_defs identity_build_Ok valid_sample_names mutated_passed)

lemma verify_fingerprint_tests_pass:
  assumes "ct_eq_ok K"
  shows "verify_fingerprint_matches K now fresh = passed" "verify_fingerprint_mismatch K now fresh = passed"
  by (simp_all add: verify_fingerprint_matches_def verify_fingerprint_mismatch_def verify_fingerprint_with_def identity_test_defs
      identity_build_Ok valid_sample_names verify_fingerprint_def constant_time_eq_def ct_eq_okD [OF assms])

lemma identity_serialization_passes:
  assumes "\<And>i. \<exists>json. to_json i = Some json \<and> of_json json = Some i"
  shows "identity_serialization_roundtrip to_json of_json now fresh = passed"
proof -
  obtain json where "\<And>i. to_json i = Some (json i) \<and> of_json (json i) = Some i" using assms by metis
  then show ?thesis
    by (simp add: identity_serialization_roundtrip_def identity_test_defs identity_build_Ok valid_sample_names)
qed

section \<open>\<open>message_state.rs\<close>\<close>

definition pending_to_sending_valid :: unit_test where
  "pending_to_sending_valid = assert_that (is_ok (transition_to Pending Sending)) passed"

definition pending_to_delivered_invalid :: "datetime \<Rightarrow> unit_test" where
  "pending_to_delivered_invalid now = assert_that (is_err (transition_to Pending (Delivered now))) passed"

definition sent_to_delivered_valid :: "datetime \<Rightarrow> datetime \<Rightarrow> unit_test" where
  "sent_to_delivered_valid now later = (let sent = Sent now in assert_that (is_ok (transition_to sent (Delivered later))) passed)"

definition read_is_terminal :: "datetime \<Rightarrow> unit_test" where
  "read_is_terminal now = (let read = Read now in assert_that (is_err (transition_to read Pending)) passed)"

definition retryable_failure_can_reset :: "datetime \<Rightarrow> unit_test" where
  "retryable_failure_can_reset now = (let failed = Failed now True in assert_that (is_ok (transition_to failed Pending)) passed)"

definition non_retryable_failure_is_terminal :: "datetime \<Rightarrow> unit_test" where
  "non_retryable_failure_is_terminal now = (let failed = Failed now False in assert_that (is_err (transition_to failed Pending)) passed)"

definition terminal_states_detected :: "datetime \<Rightarrow> datetime \<Rightarrow> unit_test" where
  "terminal_states_detected now later =
     assert_that (\<not> is_terminal Pending) (assert_that (is_terminal (Read now)) (assert_that (is_terminal (Failed later False)) passed))"

lemma state_tests_pass:
  "pending_to_sending_valid = passed" "pending_to_delivered_invalid now = passed" "sent_to_delivered_valid now later = passed"
  "read_is_terminal now = passed" "retryable_failure_can_reset now = passed" "non_retryable_failure_is_terminal now = passed"
  "terminal_states_detected now later = passed"
  by (simp_all add: pending_to_sending_valid_def pending_to_delivered_invalid_def sent_to_delivered_valid_def read_is_terminal_def
      retryable_failure_can_reset_def non_retryable_failure_is_terminal_def terminal_states_detected_def transition_to_def)

section \<open>\<open>message.rs\<close>\<close>

definition test_fingerprint :: "byte \<Rightarrow> (fingerprint \<Rightarrow> unit_test) \<Rightarrow> unit_test" where
  "test_fingerprint val rest = unwrapped (fp_from_bytes (replicate 20 val)) rest"

definition ascii_bytes :: "string \<Rightarrow> bytes" where
  "ascii_bytes t = map (\<lambda>c. word_of_nat (of_char c)) t"

definition valid_message :: "datetime \<Rightarrow> uuid \<Rightarrow> (message \<Rightarrow> unit_test) \<Rightarrow> unit_test" where
  "valid_message now fresh rest =
     test_fingerprint 170 (\<lambda>a. test_fingerprint 187 (\<lambda>b.
     unwrapped (message_build now fresh (with_content (ascii_bytes ''Hello, secure world!'')
       (with_recipient b (with_sender a message_builder_new)))) rest))"

definition builder_creates_message :: "datetime \<Rightarrow> uuid \<Rightarrow> unit_test" where
  "builder_creates_message now fresh = valid_message now fresh (\<lambda>msg.
     assert_that (msg_content msg = ascii_bytes ''Hello, secure world!'') (assert_that (msg_content_type msg = Text)
       (assert_that (msg_state msg = Pending) passed)))"

definition missing_sender_fails :: "datetime \<Rightarrow> uuid \<Rightarrow> unit_test" where
  "missing_sender_fails now fresh = test_fingerprint 187 (\<lambda>b.
     let r = message_build now fresh (with_content (ascii_bytes ''test'') (with_recipient b message_builder_new))
     in assert_that (invalid_field r = Some ''sender_fingerprint'') passed)"

definition missing_recipient_fails :: "datetime \<Rightarrow> uuid \<Rightarrow> unit_test" where
  "missing_recipient_fails now fresh = test_fingerprint 170 (\<lambda>a.
     let r = message_build now fresh (with_content (ascii_bytes ''test'') (with_sender a message_builder_new))
     in assert_that (invalid_field r = Some ''recipient_fingerprints'') passed)"

fun add_recipients :: "nat list \<Rightarrow> message_builder \<Rightarrow> (message_builder \<Rightarrow> unit_test) \<Rightarrow> unit_test" where
  "add_recipients [] b rest = rest b"
| "add_recipients (i # is) b rest = test_fingerprint (word_of_nat i) (\<lambda>fp. add_recipients is (with_recipient fp b) rest)"

definition too_many_recipients_fails :: "datetime \<Rightarrow> uuid \<Rightarrow> unit_test" where
  "too_many_recipients_fails now fresh = test_fingerprint 170 (\<lambda>a.
     add_recipients [0..<Suc MAX_RECIPIENTS] (with_content (ascii_bytes ''test'') (with_sender a message_builder_new)) (\<lambda>b.
     assert_that (over_limit (message_build now fresh b)) passed))"

definition empty_content_fails :: "datetime \<Rightarrow> uuid \<Rightarrow> unit_test" where
  "empty_content_fails now fresh = test_fingerprint 170 (\<lambda>a. test_fingerprint 187 (\<lambda>b.
     let r = message_build now fresh (with_content [] (with_recipient b (with_sender a message_builder_new)))
     in assert_that (invalid_field r \<noteq> None) passed))"

definition state_transitions_work :: "crates \<Rightarrow> datetime \<Rightarrow> uuid \<Rightarrow> datetime \<Rightarrow> datetime \<Rightarrow> datetime \<Rightarrow> unit_test" where
  "state_transitions_work K now fresh t1 t2 t3 = valid_message now fresh (\<lambda>msg.
     mutated (mark_sending K) msg (\<lambda>_ msg. assert_that (msg_state msg = Sending) (
     mutated (mark_sent K t1) msg (\<lambda>_ msg. assert_that (is_sent (msg_state msg)) (assert_that (msg_sent_at msg \<noteq> None) (
     mutated (mark_delivered K t2) msg (\<lambda>_ msg. assert_that (is_delivered (msg_state msg)) (
     mutated (mark_read K t3) msg (\<lambda>_ msg. assert_that (is_read (msg_state msg)) passed)))))))))"

definition invalid_transition_fails :: "crates \<Rightarrow> datetime \<Rightarrow> uuid \<Rightarrow> datetime \<Rightarrow> unit_test" where
  "invalid_transition_fails K now fresh t = valid_message now fresh (\<lambda>msg.
     case mark_delivered K t msg of (r, msg) \<Rightarrow> assert_that (is_err r) passed)"

definition sender_check_uses_constant_time :: "crates \<Rightarrow> datetime \<Rightarrow> uuid \<Rightarrow> unit_test" where
  "sender_check_uses_constant_time K now fresh = valid_message now fresh (\<lambda>msg.
     test_fingerprint 170 (\<lambda>a. assert_that (is_from K a msg) (test_fingerprint 187 (\<lambda>b. assert_that (\<not> is_from K b msg) passed))))"

definition recipient_deduplication :: "datetime \<Rightarrow> uuid \<Rightarrow> unit_test" where
  "recipient_deduplication now fresh =
     test_fingerprint 170 (\<lambda>a. test_fingerprint 187 (\<lambda>b. test_fingerprint 187 (\<lambda>b'. test_fingerprint 204 (\<lambda>c.
     unwrapped (message_build now fresh (with_content (ascii_bytes ''test'') (with_recipient c (with_recipient b' (with_recipient b
       (with_sender a message_builder_new)))))) (\<lambda>msg. assert_that (length (msg_recipients msg) = 2) passed)))))"

definition group_message_detection :: "datetime \<Rightarrow> uuid \<Rightarrow> unit_test" where
  "group_message_detection now fresh =
     test_fingerprint 170 (\<lambda>a. test_fingerprint 187 (\<lambda>b. test_fingerprint 204 (\<lambda>c.
     unwrapped (message_build now fresh (with_content (ascii_bytes ''test'') (with_recipient c (with_recipient b
       (with_sender a message_builder_new))))) (\<lambda>msg. assert_that (is_group msg) passed))))"

definition message_serialization_roundtrip ::
  "(message \<Rightarrow> string option) \<Rightarrow> (string \<Rightarrow> message option) \<Rightarrow> datetime \<Rightarrow> uuid \<Rightarrow> unit_test" where
  "message_serialization_roundtrip to_json of_json now fresh = valid_message now fresh (\<lambda>msg.
     unwrapped_option (to_json msg) (\<lambda>json. unwrapped_option (of_json json) (\<lambda>m.
     assert_that (msg_id msg = msg_id m) (assert_that (msg_content msg = msg_content m)
       (assert_that (as_bytes (msg_sender msg) = as_bytes (msg_sender m)) passed)))))"

lemmas builder_test_defs =
  test_fingerprint_def fp_from_bytes_wf ascii_bytes_def with_content_def with_recipient_def with_sender_def message_builder_new_def

lemma message_builder_tests_pass:
  "missing_sender_fails now fresh = passed" "missing_recipient_fails now fresh = passed" "empty_content_fails now fresh = passed"
  "recipient_deduplication now fresh = passed" "group_message_detection now fresh = passed"
  by (simp_all add: missing_sender_fails_def missing_recipient_fails_def empty_content_fails_def recipient_deduplication_def
      group_message_detection_def builder_test_defs message_build_def validate_message_content_def limit_defs is_group_def Let_def)

lemma add_recipients_passed:
  "add_recipients is b rest = Ok u
   \<longleftrightarrow> rest (b\<lparr> mb_recipients := mb_recipients b @ map (\<lambda>i. Fingerprint (replicate 20 (word_of_nat i))) is \<rparr>) = Ok u"
  by (induction "is" arbitrary: b) (simp_all add: builder_test_defs)

lemma too_many_recipients_passes: "too_many_recipients_fails now fresh = passed"
  by (simp add: too_many_recipients_fails_def add_recipients_passed builder_test_defs message_build_def limit_defs Let_def del: upt_Suc)

text \<open>The message of the helper.\<close>

definition hello :: "datetime \<Rightarrow> uuid \<Rightarrow> message" where
  "hello now fresh = \<lparr> msg_id = fresh, msg_sender = Fingerprint (replicate 20 170), msg_recipients = [Fingerprint (replicate 20 187)],
     msg_content = ascii_bytes ''Hello, secure world!'', msg_content_type = Text, msg_state = Pending, msg_created_at = now,
     msg_sent_at = None, msg_delivered_at = None, msg_read_at = None \<rparr>"

lemma valid_message_hello: "valid_message now fresh rest = rest (hello now fresh)"
  by (simp add: valid_message_def unwrapped_def builder_test_defs fp_from_bytes_def FINGERPRINT_BYTES_def message_build_def limit_defs
      validate_message_content_def hello_def)

lemma message_tests_pass:
  "builder_creates_message now fresh = passed" "state_transitions_work K now fresh t1 t2 t3 = passed"
  "invalid_transition_fails K now fresh t = passed"
  by (simp_all add: builder_creates_message_def state_transitions_work_def invalid_transition_fails_def valid_message_hello hello_def
      mutated_def mark_defs transition_state_def transition_to_def stamp_def)

lemma sender_check_passes: "ct_eq_ok K \<Longrightarrow> sender_check_uses_constant_time K now fresh = passed"
  by (simp add: sender_check_uses_constant_time_def valid_message_hello hello_def test_fingerprint_def fp_from_bytes_wf is_from_def
      constant_time_eq_def ct_eq_okD)

lemma message_serialization_passes:
  assumes "\<And>m. \<exists>json. to_json m = Some json \<and> of_json json = Some m"
  shows "message_serialization_roundtrip to_json of_json now fresh = passed"
  using assms [of "hello now fresh"] by (auto simp: message_serialization_roundtrip_def valid_message_hello)

section \<open>\<open>peer_status.rs\<close>\<close>

definition online_status_detected :: "datetime \<Rightarrow> unit_test" where
  "online_status_detected now = (let status = online_now now in assert_that (is_online status) passed)"

definition refresh_expires_online :: "datetime \<Rightarrow> datetime \<Rightarrow> unit_test" where
  "refresh_expires_online now later =
     (let old_time = now - seconds (ONLINE_TIMEOUT_SECONDS + 1); refreshed = refresh later (Online old_time)
      in assert_that (case refreshed of Away _ \<Rightarrow> True | _ \<Rightarrow> False) passed)"

definition blocked_overrides_online :: unit_test where
  "blocked_overrides_online = (let status = blocked in assert_that (is_blocked status) (assert_that (\<not> is_online status) passed))"

definition offline_has_no_last_seen :: unit_test where
  "offline_has_no_last_seen = assert_that (status_last_seen offline = None) passed"

definition display_format_no_panic :: "(datetime \<Rightarrow> string) \<Rightarrow> datetime \<Rightarrow> unit_test" where
  "display_format_no_panic hms now = (let text = display_peer_status hms (online_now now) in passed)"

lemma status_tests_pass:
  "online_status_detected now = passed" "blocked_overrides_online = passed" "offline_has_no_last_seen = passed"
  "display_format_no_panic hms now = passed" "now \<le> later \<Longrightarrow> refresh_expires_online now later = passed"
  by (simp_all add: online_status_detected_def blocked_overrides_online_def offline_has_no_last_seen_def display_format_no_panic_def
      refresh_expires_online_def online_now_def blocked_def offline_def seconds_def ONLINE_TIMEOUT_SECONDS_def Let_def)

section \<open>\<open>peer.rs\<close>\<close>

definition keyed_builder :: "rstr \<Rightarrow> fingerprint \<Rightarrow> peer_builder" where
  "keyed_builder name fp = pb_set_x25519_public (replicate 32 34) (pb_set_ed25519_public (replicate 32 17)
     (pb_set_fingerprint fp (pb_set_display_name name peer_builder_new)))"

definition valid_peer :: "datetime \<Rightarrow> uuid \<Rightarrow> (peer \<Rightarrow> unit_test) \<Rightarrow> unit_test" where
  "valid_peer now fresh rest = test_fingerprint 187 (\<lambda>fp.
     unwrapped (peer_build now fresh (pb_address (lit ''192.168.1.100:8080'') (keyed_builder (lit ''RemotePeer'') fp))) rest)"

definition builder_creates_peer :: "datetime \<Rightarrow> uuid \<Rightarrow> unit_test" where
  "builder_creates_peer now fresh = valid_peer now fresh (\<lambda>p.
     assert_that (peer_display_name p = lit ''RemotePeer'') (assert_that (\<not> peer_verified p) passed))"

definition address_limit_enforced :: "datetime \<Rightarrow> uuid \<Rightarrow> unit_test" where
  "address_limit_enforced now fresh = test_fingerprint 187 (\<lambda>fp.
     let b = fold (\<lambda>i. pb_address (lit ''192.168.1.'' @ lit (nat_str i) @ lit '':8080'')) [0..<Suc MAX_PEER_ADDRESSES]
               (keyed_builder (lit ''Test'') fp)
     in assert_that (over_limit (peer_build now fresh b)) passed)"

definition verification_works :: "datetime \<Rightarrow> uuid \<Rightarrow> unit_test" where
  "verification_works now fresh = valid_peer now fresh (\<lambda>p. assert_that (\<not> peer_verified p) (
     let p = verify_peer p in assert_that (peer_verified p) (let p = unverify_peer p in assert_that (\<not> peer_verified p) passed)))"

definition fingerprint_matching :: "crates \<Rightarrow> datetime \<Rightarrow> uuid \<Rightarrow> unit_test" where
  "fingerprint_matching K now fresh = valid_peer now fresh (\<lambda>p. test_fingerprint 187 (\<lambda>fp.
     assert_that (matches_fingerprint K p fp) (unwrapped (fp_from_bytes (replicate 20 204)) (\<lambda>other_fp.
     assert_that (\<not> matches_fingerprint K p other_fp) passed))))"

definition status_refresh_updates_last_seen :: "datetime \<Rightarrow> uuid \<Rightarrow> datetime \<Rightarrow> datetime \<Rightarrow> unit_test" where
  "status_refresh_updates_last_seen now fresh t1 t2 = valid_peer now fresh (\<lambda>p.
     let old_last_seen = peer_last_seen p; p = set_status t2 (online_now t1) p in assert_that (peer_last_seen p \<ge> old_last_seen) passed)"

definition add_address_deduplicates :: "datetime \<Rightarrow> uuid \<Rightarrow> unit_test" where
  "add_address_deduplicates now fresh = valid_peer now fresh (\<lambda>p. let initial_count = length (peer_addresses p) in
     mutated (add_address (lit ''192.168.1.100:8080'')) p (\<lambda>_ p. assert_that (length (peer_addresses p) = initial_count) (
     mutated (add_address (lit ''192.168.1.101:8080'')) p (\<lambda>_ p. assert_that (length (peer_addresses p) = initial_count + 1) passed))))"

definition peer_serialization_roundtrip :: "(peer \<Rightarrow> string option) \<Rightarrow> (string \<Rightarrow> peer option) \<Rightarrow> datetime \<Rightarrow> uuid \<Rightarrow> unit_test" where
  "peer_serialization_roundtrip to_json of_json now fresh = valid_peer now fresh (\<lambda>p.
     unwrapped_option (to_json p) (\<lambda>json. unwrapped_option (of_json json) (\<lambda>q.
     assert_that (peer_id p = peer_id q) (assert_that (as_bytes (peer_fingerprint p) = as_bytes (peer_fingerprint q)) passed))))"

definition remote_peer :: "datetime \<Rightarrow> uuid \<Rightarrow> peer" where
  "remote_peer now fresh = \<lparr> peer_id = fresh, peer_display_name = lit ''RemotePeer'', peer_fingerprint = Fingerprint (replicate 20 187),
     peer_ed25519_public = replicate 32 17, peer_x25519_public = replicate 32 34, peer_addresses = [lit ''192.168.1.100:8080''],
     peer_status = offline, peer_verified = False, peer_first_seen = now, peer_last_seen = now \<rparr>"

lemmas keyed_builder_defs =
  keyed_builder_def pb_set_x25519_public_def pb_set_ed25519_public_def pb_set_fingerprint_def pb_set_display_name_def
  pb_address_def peer_builder_new_def

lemma valid_peer_remote: "valid_peer now fresh rest = rest (remote_peer now fresh)"
proof -
  have "validate_display_name (lit ''RemotePeer'') = Ok ()" using valid_sample_names(7) by simp
  then show ?thesis
    by (simp add: valid_peer_def test_fingerprint_def unwrapped_def fp_from_bytes_def FINGERPRINT_BYTES_def keyed_builder_defs
        peer_build_def MAX_PEER_ADDRESSES_def remote_peer_def del: validate_display_name_Ok)
qed

lemma peer_tests_pass:
  "builder_creates_peer now fresh = passed" "verification_works now fresh = passed" "add_address_deduplicates now fresh = passed"
  "now \<le> t2 \<Longrightarrow> status_refresh_updates_last_seen now fresh t1 t2 = passed"
  by (simp_all add: builder_creates_peer_def verification_works_def add_address_deduplicates_def status_refresh_updates_last_seen_def
      valid_peer_remote remote_peer_def verify_peer_def unverify_peer_def mutated_def add_address_def MAX_PEER_ADDRESSES_def
      set_status_def online_now_def lit_def Let_def)

lemma fingerprint_matching_passes: "ct_eq_ok K \<Longrightarrow> fingerprint_matching K now fresh = passed"
  by (simp add: fingerprint_matching_def valid_peer_remote remote_peer_def test_fingerprint_def fp_from_bytes_wf matches_fingerprint_def
      constant_time_eq_def ct_eq_okD)

lemma fold_pb_address: "pb_addresses (fold (\<lambda>i. pb_address (f i)) is b) = pb_addresses b @ map f is"
  "pb_display_name (fold (\<lambda>i. pb_address (f i)) is b) = pb_display_name b"
  "pb_fingerprint (fold (\<lambda>i. pb_address (f i)) is b) = pb_fingerprint b"
  "pb_ed25519_public (fold (\<lambda>i. pb_address (f i)) is b) = pb_ed25519_public b"
  "pb_x25519_public (fold (\<lambda>i. pb_address (f i)) is b) = pb_x25519_public b"
  by (induction "is" arbitrary: b) (simp_all add: pb_address_def)

lemma address_limit_passes: "address_limit_enforced now fresh = passed"
proof -
  have "validate_display_name (lit ''Test'') = Ok ()" using valid_sample_names(6) by simp
  then show ?thesis
    by (simp add: address_limit_enforced_def test_fingerprint_def fp_from_bytes_wf peer_build_def fold_pb_address keyed_builder_defs
        MAX_PEER_ADDRESSES_def Let_def del: validate_display_name_Ok upt_Suc)
qed

lemma peer_serialization_passes:
  assumes "\<And>p. \<exists>json. to_json p = Some json \<and> of_json json = Some p"
  shows "peer_serialization_roundtrip to_json of_json now fresh = passed"
  using assms [of "remote_peer now fresh"] by (auto simp: peer_serialization_roundtrip_def valid_peer_remote)

end
