(* ===== verification/Security_Tests.thy ===== *)
theory Security_Tests
  imports Unit_Test Identity_Bind Key_Types
begin

text \<open>
  The unit tests of the keys and the identity binding (\<open>crates/security\<close>), run on the model. The
  random bytes of every \<open>generate\<close> are arguments. A test that something forged is refused rests on the
  cryptography: its lemma names what the crate has to refuse.
\<close>

definition ascii_message :: "string \<Rightarrow> bytes" where
  "ascii_message t = map (\<lambda>c. word_of_nat (of_char c)) t"

definition flip_first :: "bytes \<Rightarrow> bytes" where
  "flip_first bs = (case bs of [] \<Rightarrow> [] | b # rest \<Rightarrow> xor b 255 # rest)"

fun is_invalid_public_key :: "('a, security_error) result \<Rightarrow> bool" where
  "is_invalid_public_key (Err (InvalidPublicKey e)) = True"
| "is_invalid_public_key _ = False"

section \<open>\<open>ed25519.rs\<close>\<close>

definition ed_keygen_works :: "crates \<Rightarrow> bytes \<Rightarrow> unit_test" where
  "ed_keygen_works K seed = unwrapped (ed25519_generate K seed) (\<lambda>kp. assert_that (length (ed_pub kp) = 32) passed)"

definition sign_verify_works :: "crates \<Rightarrow> bytes \<Rightarrow> unit_test" where
  "sign_verify_works K seed = unwrapped (ed25519_generate K seed) (\<lambda>kp.
     let msg = ascii_message ''hello world''; sig = ed25519_sign K kp msg
     in assert_that (is_ok (ed25519_verify K (ed_pub kp) msg sig)) passed)"

definition tampered_message_fails :: "crates \<Rightarrow> bytes \<Rightarrow> unit_test" where
  "tampered_message_fails K seed = unwrapped (ed25519_generate K seed) (\<lambda>kp.
     let sig = ed25519_sign K kp (ascii_message ''hello world'')
     in assert_that (is_err (ed25519_verify K (ed_pub kp) (ascii_message ''goodbye'') sig)) passed)"

definition ed_tampered_signature_fails :: "crates \<Rightarrow> bytes \<Rightarrow> unit_test" where
  "ed_tampered_signature_fails K seed = unwrapped (ed25519_generate K seed) (\<lambda>kp.
     let sig = flip_first (ed25519_sign K kp (ascii_message ''hello world''))
     in assert_that (is_err (ed25519_verify K (ed_pub kp) (ascii_message ''hello world'') sig)) passed)"

definition wrong_key_fails :: "crates \<Rightarrow> bytes \<Rightarrow> bytes \<Rightarrow> unit_test" where
  "wrong_key_fails K seed1 seed2 = unwrapped (ed25519_generate K seed1) (\<lambda>kp1. unwrapped (ed25519_generate K seed2) (\<lambda>kp2.
     let sig = ed25519_sign K kp1 (ascii_message ''hello world'')
     in assert_that (is_err (ed25519_verify K (ed_pub kp2) (ascii_message ''hello world'') sig)) passed))"

definition ed_from_bytes_rejects_wrong_length :: unit_test where
  "ed_from_bytes_rejects_wrong_length = assert_that (is_err (ed25519_public_from_bytes (replicate 16 0))) passed"

text \<open>JSON has no bytes: \<open>serialize_bytes\<close> writes an array, and \<open>deserialize_bytes\<close> visits its elements.\<close>

definition signature_json_roundtrip :: "crates \<Rightarrow> bytes \<Rightarrow> unit_test" where
  "signature_json_roundtrip K seed = unwrapped (ed25519_generate K seed) (\<lambda>kp.
     let sig = ed25519_sign K kp (ascii_message ''roundtrip test''); json = In_Seq (map Ok (signature_serialize sig))
     in unwrapped (signature_deserialize json) (\<lambda>decoded. assert_that (sig = decoded) passed))"

definition ed_from_parts_valid :: "crates \<Rightarrow> bytes \<Rightarrow> unit_test" where
  "ed_from_parts_valid K seed = unwrapped (ed25519_generate K seed) (\<lambda>kp.
     unwrapped (ed25519_from_parts K (ed_secret kp) (ed_pub kp)) (\<lambda>rebuilt. assert_that (ed_pub rebuilt = ed_pub kp) (
     let msg = ascii_message ''test''; sig = ed25519_sign K rebuilt msg
     in assert_that (is_ok (ed25519_verify K (ed_pub rebuilt) msg sig)) passed)))"

definition ed_from_parts_mismatch_fails :: "crates \<Rightarrow> bytes \<Rightarrow> bytes \<Rightarrow> unit_test" where
  "ed_from_parts_mismatch_fails K seed1 seed2 = unwrapped (ed25519_generate K seed1) (\<lambda>kp1. unwrapped (ed25519_generate K seed2) (\<lambda>kp2.
     assert_that (is_invalid_public_key (ed25519_from_parts K (ed_secret kp1) (ed_pub kp2))) passed))"

lemma ed25519_tests_pass:
  assumes "ed25519_ok K"
  shows "ed_keygen_works K seed = passed" "sign_verify_works K seed = passed" "ed_from_bytes_rejects_wrong_length = passed"
    "ed_from_parts_valid K seed = passed"
  using assms
  by (simp_all add: ed_keygen_works_def sign_verify_works_def ed_from_bytes_rejects_wrong_length_def ed_from_parts_valid_def
      ed25519_generate_def ed25519_from_parts_def ed25519_public_from_bytes_def ed25519_verify_def ed25519_sign_def ed25519_ok_def Let_def)

lemma ed25519_forgery_tests_pass:
  "\<not> ed_verify K (ed_public K s) (ascii_message ''goodbye'') (ed_sign K s (ascii_message ''hello world'')) \<Longrightarrow> tampered_message_fails K s = passed"
  "\<not> ed_verify K (ed_public K s) (ascii_message ''hello world'') (flip_first (ed_sign K s (ascii_message ''hello world''))) \<Longrightarrow>
     ed_tampered_signature_fails K s = passed"
  "\<not> ed_verify K (ed_public K t) (ascii_message ''hello world'') (ed_sign K s (ascii_message ''hello world'')) \<Longrightarrow> wrong_key_fails K s t = passed"
  "ed_public K s \<noteq> ed_public K t \<Longrightarrow> ed_from_parts_mismatch_fails K s t = passed"
  by (simp_all add: tampered_message_fails_def ed_tampered_signature_fails_def wrong_key_fails_def ed_from_parts_mismatch_fails_def
      ed25519_generate_def ed25519_verify_def ed25519_sign_def ed25519_from_parts_def Let_def)

lemma signature_json_passes: "ed25519_ok K \<Longrightarrow> signature_json_roundtrip K seed = passed"
  by (simp add: signature_json_roundtrip_def ed25519_generate_def ed25519_sign_def signature_serialize_def ed25519_ok_def
      visit_seq_def visit_slots_Ok Let_def)

section \<open>\<open>x25519.rs\<close>\<close>

definition x_keygen_works :: "crates \<Rightarrow> bytes \<Rightarrow> unit_test" where
  "x_keygen_works K seed = unwrapped (x25519_generate K seed) (\<lambda>kp. assert_that (length (x_pub kp) = 32) passed)"

definition dh_agreement :: "crates \<Rightarrow> bytes \<Rightarrow> bytes \<Rightarrow> unit_test" where
  "dh_agreement K s t = unwrapped (x25519_generate K s) (\<lambda>alice. unwrapped (x25519_generate K t) (\<lambda>bob.
     unwrapped (diffie_hellman K alice (x_pub bob)) (\<lambda>shared_a. unwrapped (diffie_hellman K bob (x_pub alice)) (\<lambda>shared_b.
     assert_that (shared_a = shared_b) passed))))"

definition dh_with_different_keys :: "crates \<Rightarrow> bytes \<Rightarrow> bytes \<Rightarrow> bytes \<Rightarrow> unit_test" where
  "dh_with_different_keys K s t u =
     unwrapped (x25519_generate K s) (\<lambda>alice. unwrapped (x25519_generate K t) (\<lambda>bob. unwrapped (x25519_generate K u) (\<lambda>charlie.
     unwrapped (diffie_hellman K alice (x_pub bob)) (\<lambda>shared_ab. unwrapped (diffie_hellman K alice (x_pub charlie)) (\<lambda>shared_ac.
     assert_that (shared_ab \<noteq> shared_ac) passed)))))"

definition x_from_bytes_rejects_wrong_length :: unit_test where
  "x_from_bytes_rejects_wrong_length = assert_that (is_err (x25519_public_from_bytes (replicate 16 0))) passed"

definition low_order_point_rejected :: "crates \<Rightarrow> bytes \<Rightarrow> unit_test" where
  "low_order_point_rejected K seed = unwrapped (x25519_generate K seed) (\<lambda>alice.
     assert_that (is_invalid_public_key (diffie_hellman K alice (replicate 32 0))) passed)"

definition x_from_parts_valid :: "crates \<Rightarrow> bytes \<Rightarrow> bytes \<Rightarrow> unit_test" where
  "x_from_parts_valid K s t = unwrapped (x25519_generate K s) (\<lambda>kp.
     unwrapped (x25519_from_parts K (x_secret kp) (x_pub kp)) (\<lambda>rebuilt. assert_that (x_pub rebuilt = x_pub kp) (
     unwrapped (x25519_generate K t) (\<lambda>other.
     unwrapped (diffie_hellman K kp (x_pub other)) (\<lambda>shared1. unwrapped (diffie_hellman K rebuilt (x_pub other)) (\<lambda>shared2.
     assert_that (shared1 = shared2) passed))))))"

definition x_from_parts_mismatch_fails :: "crates \<Rightarrow> bytes \<Rightarrow> bytes \<Rightarrow> unit_test" where
  "x_from_parts_mismatch_fails K s t = unwrapped (x25519_generate K s) (\<lambda>kp1. unwrapped (x25519_generate K t) (\<lambda>kp2.
     assert_that (is_invalid_public_key (x25519_from_parts K (x_secret kp1) (x_pub kp2))) passed))"

text \<open>The test vectors of RFC 7748, section 6.1; \<open>hex32\<close> takes the digits by pairs.\<close>

definition hex_pairs :: "string \<Rightarrow> bytes option" where
  "hex_pairs hex = those (map (\<lambda>i. u8_from_str_radix16 (lit (take 2 (drop (i * 2) hex)))) [0..<32])"

definition hex32 :: "string \<Rightarrow> (bytes \<Rightarrow> unit_test) \<Rightarrow> unit_test" where
  "hex32 hex rest = assert_that (length hex = 64) (unwrapped_option (hex_pairs hex) rest)"

definition ALICE_SECRET :: string where "ALICE_SECRET = ''77076d0a7318a57d3c16c17251b26645df4c2f87ebc0992ab177fba51db92c2a''"
definition BOB_PUBLIC :: string where "BOB_PUBLIC = ''de9edb7d7b7dc1b4d35b61c2ece435373f8343c85b78674dadfc7e146f882b4f''"
definition SHARED_EXPECTED :: string where "SHARED_EXPECTED = ''4a5d9d5ba4ce2de1728e3bf480350f25e07e21c947d19e3376f09b3c1e161742''"

definition rfc7748_ecdh_vectors :: "crates \<Rightarrow> unit_test" where
  "rfc7748_ecdh_vectors K =
     hex32 ALICE_SECRET (\<lambda>alice_secret. hex32 BOB_PUBLIC (\<lambda>bob_public. hex32 SHARED_EXPECTED (\<lambda>shared_expected.
     let alice = \<lparr> x_pub = replicate 32 0, x_secret = alice_secret \<rparr>
     in unwrapped (diffie_hellman K alice bob_public) (\<lambda>shared. assert_that (shared = shared_expected) passed))))"

definition all_ones_public_key_dh_does_not_panic :: "crates \<Rightarrow> bytes \<Rightarrow> unit_test" where
  "all_ones_public_key_dh_does_not_panic K seed = unwrapped (x25519_generate K seed) (\<lambda>alice.
     case diffie_hellman K alice (replicate 32 255) of Panic \<Rightarrow> Panic | _ \<Rightarrow> passed)"

definition secret_bytes_roundtrip :: "crates \<Rightarrow> bytes \<Rightarrow> bytes \<Rightarrow> unit_test" where
  "secret_bytes_roundtrip K s t = unwrapped (x25519_generate K s) (\<lambda>kp. let bs = x_secret kp in
     unwrapped (x25519_from_parts K bs (x_pub kp)) (\<lambda>rebuilt. unwrapped (x25519_generate K t) (\<lambda>peer.
     unwrapped (diffie_hellman K kp (x_pub peer)) (\<lambda>s1. unwrapped (diffie_hellman K rebuilt (x_pub peer)) (\<lambda>s2.
     assert_that (s1 = s2) passed)))))"

lemmas x_test_defs = x25519_generate_def x25519_from_parts_def diffie_hellman_def Let_def

lemma x25519_tests_pass:
  "x25519_ok K \<Longrightarrow> x_keygen_works K s = passed" "x_from_bytes_rejects_wrong_length = passed"
  "all_ones_public_key_dh_does_not_panic K s = passed"
  "x_public K s \<noteq> x_public K t \<Longrightarrow> x_from_parts_mismatch_fails K s t = passed"
  by (simp_all add: x_keygen_works_def x_from_bytes_rejects_wrong_length_def all_ones_public_key_dh_does_not_panic_def
      x_from_parts_mismatch_fails_def x_test_defs x25519_ok_def x25519_public_from_bytes_def)

text \<open>Agreement works for keys that share no low-order secret.\<close>

lemma x25519_agreement_tests_pass:
  assumes "x25519_ok K" and "\<not> ct_eq K (x_dh K s (x_public K t)) (replicate 32 0)"
  shows "dh_agreement K s t = passed" "x_from_parts_valid K s t = passed" "secret_bytes_roundtrip K s t = passed"
  using assms by (auto simp: dh_agreement_def x_from_parts_valid_def secret_bytes_roundtrip_def x_test_defs x25519_ok_def)

lemma x25519_vector_tests_pass:
  "\<not> ct_eq K (x_dh K s (x_public K t)) (replicate 32 0) \<Longrightarrow> \<not> ct_eq K (x_dh K s (x_public K u)) (replicate 32 0) \<Longrightarrow>
     x_dh K s (x_public K t) \<noteq> x_dh K s (x_public K u) \<Longrightarrow> dh_with_different_keys K s t u = passed"
  "ct_eq_ok K \<Longrightarrow> x_dh K s (replicate 32 0) = replicate 32 0 \<Longrightarrow> low_order_point_rejected K s = passed"
  by (simp_all add: dh_with_different_keys_def low_order_point_rejected_def x_test_defs ct_eq_okD)

lemmas vector_defs = ALICE_SECRET_def BOB_PUBLIC_def SHARED_EXPECTED_def

lemma vectors_parse:
  "hex_pairs ALICE_SECRET \<noteq> None" "hex_pairs BOB_PUBLIC \<noteq> None" "hex_pairs SHARED_EXPECTED \<noteq> None"
  by (simp_all add: vector_defs hex_pairs_def upt_rec [of _ 32] lit_def u8_from_str_radix16_def radix16_digits_def hex_value_def)

lemma rfc7748_passes:
  assumes "x_dh K (the (hex_pairs ALICE_SECRET)) (the (hex_pairs BOB_PUBLIC)) = the (hex_pairs SHARED_EXPECTED)"
    and "\<not> ct_eq K (the (hex_pairs SHARED_EXPECTED)) (replicate 32 0)"
  shows "rfc7748_ecdh_vectors K = passed"
proof -
  have "length ALICE_SECRET = 64" "length BOB_PUBLIC = 64" "length SHARED_EXPECTED = 64" by (simp_all add: vector_defs)
  then show ?thesis using assms vectors_parse by (auto simp: rfc7748_ecdh_vectors_def hex32_def diffie_hellman_def Let_def)
qed

section \<open>\<open>identity_keys.rs\<close> and \<open>derive.rs\<close>\<close>

definition generate_identity_keys :: "crates \<Rightarrow> bytes \<Rightarrow> bytes \<Rightarrow> unit_test" where
  "generate_identity_keys K s t = unwrapped (identity_keys_generate K s t) (\<lambda>keys.
     assert_that (length (ed_pub (ik_ed25519 keys)) = 32) (assert_that (length (x_pub (ik_x25519 keys)) = 32) (
     unwrapped (keys_fingerprint K keys) (\<lambda>fp. assert_that (length (as_bytes fp) = 20) passed))))"

definition fingerprint_deterministic :: "crates \<Rightarrow> bytes \<Rightarrow> bytes \<Rightarrow> unit_test" where
  "fingerprint_deterministic K s t = unwrapped (identity_keys_generate K s t) (\<lambda>keys.
     unwrapped (keys_fingerprint K keys) (\<lambda>fp1. unwrapped (keys_fingerprint K keys) (\<lambda>fp2.
     assert_that (constant_time_eq K fp1 fp2) passed)))"

definition to_domain_identity_works :: "crates \<Rightarrow> bytes \<Rightarrow> bytes \<Rightarrow> datetime \<Rightarrow> uuid \<Rightarrow> unit_test" where
  "to_domain_identity_works K s t now fresh = unwrapped (identity_keys_generate K s t) (\<lambda>keys.
     unwrapped (to_domain_identity K now fresh keys (lit ''TestUser'')) (\<lambda>identity.
     assert_that (ident_display_name identity = lit ''TestUser'') (
     unwrapped (keys_fingerprint K keys) (\<lambda>fp. assert_that (constant_time_eq K fp (ident_fingerprint identity)) passed))))"

definition different_keys_different_fingerprints :: "crates \<Rightarrow> bytes \<times> bytes \<Rightarrow> bytes \<times> bytes \<Rightarrow> unit_test" where
  "different_keys_different_fingerprints K a b =
     unwrapped (identity_keys_generate K (fst a) (snd a)) (\<lambda>keys1. unwrapped (identity_keys_generate K (fst b) (snd b)) (\<lambda>keys2.
     unwrapped (keys_fingerprint K keys1) (\<lambda>fp1. unwrapped (keys_fingerprint K keys2) (\<lambda>fp2.
     assert_that (\<not> constant_time_eq K fp1 fp2) passed))))"

definition keys_from_parts_works :: "crates \<Rightarrow> bytes \<Rightarrow> bytes \<Rightarrow> unit_test" where
  "keys_from_parts_works K s t = unwrapped (ed25519_generate K s) (\<lambda>ed. unwrapped (x25519_generate K t) (\<lambda>x.
     unwrapped (derive_fingerprint K (ed_pub ed) (x_pub x)) (\<lambda>fp. unwrapped (identity_keys_from_parts K ed x) (\<lambda>rebuilt.
     unwrapped (keys_fingerprint K rebuilt) (\<lambda>fp'. assert_that (constant_time_eq K fp' fp) passed)))))"

definition public_eq_matches :: "crates \<Rightarrow> bytes \<times> bytes \<Rightarrow> bytes \<times> bytes \<Rightarrow> unit_test" where
  "public_eq_matches K a b =
     unwrapped (identity_keys_generate K (fst a) (snd a)) (\<lambda>keys1. unwrapped (identity_keys_generate K (fst b) (snd b)) (\<lambda>keys2.
     assert_that (public_eq keys1 keys1) (assert_that (\<not> public_eq keys1 keys2) passed)))"

definition fingerprint_stable :: "crates \<Rightarrow> bytes \<Rightarrow> bytes \<Rightarrow> unit_test" where
  "fingerprint_stable K s t = unwrapped (ed25519_generate K s) (\<lambda>ed. unwrapped (x25519_generate K t) (\<lambda>x.
     unwrapped (derive_fingerprint K (ed_pub ed) (x_pub x)) (\<lambda>fp1. unwrapped (derive_fingerprint K (ed_pub ed) (x_pub x)) (\<lambda>fp2.
     assert_that (constant_time_eq K fp1 fp2) passed))))"

definition fingerprint_different_keys :: "crates \<Rightarrow> bytes \<times> bytes \<Rightarrow> bytes \<times> bytes \<Rightarrow> unit_test" where
  "fingerprint_different_keys K a b =
     unwrapped (ed25519_generate K (fst a)) (\<lambda>ed1. unwrapped (x25519_generate K (snd a)) (\<lambda>x1.
     unwrapped (ed25519_generate K (fst b)) (\<lambda>ed2. unwrapped (x25519_generate K (snd b)) (\<lambda>x2.
     unwrapped (derive_fingerprint K (ed_pub ed1) (x_pub x1)) (\<lambda>fp1. unwrapped (derive_fingerprint K (ed_pub ed2) (x_pub x2)) (\<lambda>fp2.
     assert_that (\<not> constant_time_eq K fp1 fp2) passed))))))"

definition fingerprint_length_correct :: "crates \<Rightarrow> bytes \<Rightarrow> bytes \<Rightarrow> unit_test" where
  "fingerprint_length_correct K s t = unwrapped (ed25519_generate K s) (\<lambda>ed. unwrapped (x25519_generate K t) (\<lambda>x.
     unwrapped (derive_fingerprint K (ed_pub ed) (x_pub x)) (\<lambda>fp. assert_that (length (as_bytes fp) = 20) passed)))"

lemmas generate_defs = identity_keys_generate_def ed25519_generate_def x25519_generate_def keys_fingerprint_def

lemma wf_derived: "blake3_ok K \<Longrightarrow> length (take 20 (blake3 K m)) = 20"
  by (simp add: blake3_ok_def)

lemma fingerprint_derivation_tests_pass:
  assumes "ct_eq_ok K" and "blake3_ok K" and "ed25519_ok K" and "x25519_ok K"
  shows "generate_identity_keys K s t = passed" "fingerprint_deterministic K s t = passed"
    "keys_from_parts_works K s t = passed" "fingerprint_stable K s t = passed" "fingerprint_length_correct K s t = passed"
  using assms wf_derived [OF assms(2)]
  by (simp_all add: generate_identity_keys_def fingerprint_deterministic_def keys_from_parts_works_def fingerprint_stable_def
      fingerprint_length_correct_def generate_defs identity_keys_from_parts_def derive_fingerprint_Ok constant_time_eq_def ct_eq_okD)
    (simp add: ed25519_ok_def x25519_ok_def)

lemma to_domain_identity_passes:
  assumes "ct_eq_ok K" and "blake3_ok K"
  shows "to_domain_identity_works K s t now fresh = passed"
proof -
  have "valid_display_name (lit ''TestUser'')" by (simp add: lit_def valid_display_name_def len_utf8_def is_control_def)
  then show ?thesis using assms
    by (simp add: to_domain_identity_works_def to_domain_identity_def generate_defs derive_fingerprint_Ok identity_build_Ok
        identity_builder_defs constant_time_eq_def ct_eq_okD)
qed

text \<open>Different keys: the hash must tell them apart.\<close>

lemma different_fingerprint_tests_pass:
  assumes "ct_eq_ok K" and "blake3_ok K"
    and "take 20 (blake3 K (ed_public K (fst a) @ x_public K (snd a))) \<noteq> take 20 (blake3 K (ed_public K (fst b) @ x_public K (snd b)))"
  shows "different_keys_different_fingerprints K a b = passed" "fingerprint_different_keys K a b = passed"
    "public_eq_matches K a b = passed"
  using assms wf_derived [OF assms(2)]
  by (auto simp: different_keys_different_fingerprints_def fingerprint_different_keys_def public_eq_matches_def public_eq_def
      generate_defs derive_fingerprint_Ok constant_time_eq_def ct_eq_okD)

section \<open>\<open>identity_bind.rs\<close>\<close>

text \<open>Every test starts with fresh keys and a payload made with them.\<close>

definition with_payload ::
  "crates \<Rightarrow> bytes \<Rightarrow> bytes \<Rightarrow> datetime \<Rightarrow> bytes \<Rightarrow> (identity_keys \<Rightarrow> bind_payload \<Rightarrow> unit_test) \<Rightarrow> unit_test" where
  "with_payload K s t created nonce rest = unwrapped (identity_keys_generate K s t) (\<lambda>keys.
     unwrapped (bind_create K created nonce (ik_ed25519 keys) (x_pub (ik_x25519 keys))) (rest keys))"

definition resign :: "crates \<Rightarrow> identity_keys \<Rightarrow> bind_payload \<Rightarrow> bind_payload" where
  "resign K keys payload = payload\<lparr> bp_signature := ed25519_sign K (ik_ed25519 keys) (signature_payload payload) \<rparr>"

fun is_binding_failed :: "('a, security_error) result \<Rightarrow> bool" where
  "is_binding_failed (Err (IdentityBindingFailed e)) = True"
| "is_binding_failed _ = False"

fun is_replay :: "('a, security_error) result \<Rightarrow> bool" where
  "is_replay (Err (ReplayDetected e)) = True"
| "is_replay _ = False"

definition create_and_verify_roundtrip :: "crates \<Rightarrow> bytes \<Rightarrow> bytes \<Rightarrow> datetime \<Rightarrow> bytes \<Rightarrow> datetime \<Rightarrow> unit_test" where
  "create_and_verify_roundtrip K s t created nonce clock = with_payload K s t created nonce (\<lambda>keys payload.
     unwrapped (keys_fingerprint K keys) (\<lambda>fp. unwrapped (bind_verify K clock fp payload) (\<lambda>verified.
     assert_that (constant_time_eq K (vi_fingerprint verified) fp) passed)))"

definition bind_tampered_signature_fails :: "crates \<Rightarrow> bytes \<Rightarrow> bytes \<Rightarrow> datetime \<Rightarrow> bytes \<Rightarrow> datetime \<Rightarrow> unit_test" where
  "bind_tampered_signature_fails K s t created nonce clock = with_payload K s t created nonce (\<lambda>keys payload.
     let payload = payload\<lparr> bp_signature := flip_first (bp_signature payload) \<rparr>
     in unwrapped (keys_fingerprint K keys) (\<lambda>fp. assert_that (is_binding_failed (bind_verify K clock fp payload)) passed))"

definition old_timestamp_fails :: "crates \<Rightarrow> bytes \<Rightarrow> bytes \<Rightarrow> datetime \<Rightarrow> bytes \<Rightarrow> datetime \<Rightarrow> unit_test" where
  "old_timestamp_fails K s t created nonce clock = with_payload K s t created nonce (\<lambda>keys payload.
     let payload = payload\<lparr> bp_timestamp := bp_timestamp payload - word_of_int (TIMESTAMP_SKEW_SECS * 10) \<rparr>;
         payload = resign K keys payload
     in unwrapped (keys_fingerprint K keys) (\<lambda>fp. assert_that (is_replay (bind_verify K clock fp payload)) passed))"

definition future_timestamp_fails :: "crates \<Rightarrow> bytes \<Rightarrow> bytes \<Rightarrow> datetime \<Rightarrow> bytes \<Rightarrow> datetime \<Rightarrow> unit_test" where
  "future_timestamp_fails K s t created nonce clock = with_payload K s t created nonce (\<lambda>keys payload.
     let payload = payload\<lparr> bp_timestamp := bp_timestamp payload + word_of_int (TIMESTAMP_SKEW_SECS * 10) \<rparr>;
         payload = resign K keys payload
     in unwrapped (keys_fingerprint K keys) (\<lambda>fp. assert_that (is_replay (bind_verify K clock fp payload)) passed))"

definition wrong_expected_fingerprint_fails ::
  "crates \<Rightarrow> bytes \<Rightarrow> bytes \<Rightarrow> bytes \<times> bytes \<Rightarrow> datetime \<Rightarrow> bytes \<Rightarrow> datetime \<Rightarrow> unit_test" where
  "wrong_expected_fingerprint_fails K s t other created nonce clock = with_payload K s t created nonce (\<lambda>keys payload.
     unwrapped (identity_keys_generate K (fst other) (snd other)) (\<lambda>other_keys.
     unwrapped (keys_fingerprint K other_keys) (\<lambda>wrong_fp.
     assert_that (bind_verify K clock wrong_fp payload = Err FingerprintMismatch) passed)))"

definition verify_unbound_succeeds :: "crates \<Rightarrow> bytes \<Rightarrow> bytes \<Rightarrow> datetime \<Rightarrow> bytes \<Rightarrow> datetime \<Rightarrow> unit_test" where
  "verify_unbound_succeeds K s t created nonce clock = with_payload K s t created nonce (\<lambda>keys payload.
     unwrapped (bind_verify_unbound K clock payload) (\<lambda>verified. unwrapped (keys_fingerprint K keys) (\<lambda>fp.
     assert_that (constant_time_eq K (vi_fingerprint verified) fp) passed)))"

definition version_rejected_if_not_1 :: "crates \<Rightarrow> bytes \<Rightarrow> bytes \<Rightarrow> datetime \<Rightarrow> bytes \<Rightarrow> datetime \<Rightarrow> unit_test" where
  "version_rejected_if_not_1 K s t created nonce clock = with_payload K s t created nonce (\<lambda>keys payload.
     let payload = resign K keys (payload\<lparr> bp_version := 2 \<rparr>)
     in unwrapped (keys_fingerprint K keys) (\<lambda>fp. assert_that (is_binding_failed (bind_verify K clock fp payload)) passed))"

definition nonce_exact_length :: "crates \<Rightarrow> bytes \<Rightarrow> bytes \<Rightarrow> datetime \<Rightarrow> bytes \<Rightarrow> unit_test" where
  "nonce_exact_length K s t created nonce = with_payload K s t created nonce (\<lambda>keys payload.
     assert_that (length (bp_nonce payload) = 12) passed)"

definition binary_roundtrip :: "crates \<Rightarrow> bytes \<Rightarrow> bytes \<Rightarrow> datetime \<Rightarrow> bytes \<Rightarrow> unit_test" where
  "binary_roundtrip K s t created nonce = with_payload K s t created nonce (\<lambda>keys payload. let bs = bind_to_bytes payload in
     assert_that (length bs = 149) (unwrapped (bind_from_bytes bs) (\<lambda>restored.
     assert_that (bp_version restored = bp_version payload) (assert_that (bp_ed25519_public restored = bp_ed25519_public payload) (
     assert_that (bp_x25519_public restored = bp_x25519_public payload) (assert_that (bp_timestamp restored = bp_timestamp payload) (
     assert_that (bp_nonce restored = bp_nonce payload) (assert_that (bp_signature restored = bp_signature payload) passed))))))))"

text \<open>The keys and the payload of the tests.\<close>

definition made_keys :: "crates \<Rightarrow> bytes \<Rightarrow> bytes \<Rightarrow> identity_keys" where
  "made_keys K s t = \<lparr> ik_ed25519 = \<lparr> ed_pub = ed_public K s, ed_secret = s \<rparr>, ik_x25519 = \<lparr> x_pub = x_public K t, x_secret = t \<rparr> \<rparr>"

definition unsigned_payload :: "crates \<Rightarrow> bytes \<Rightarrow> bytes \<Rightarrow> datetime \<Rightarrow> bytes \<Rightarrow> bind_payload" where
  "unsigned_payload K s t created nonce = \<lparr> bp_version = 1, bp_ed25519_public = ed_public K s, bp_x25519_public = x_public K t,
     bp_timestamp = word_of_int (timestamp created), bp_nonce = nonce, bp_signature = replicate 64 0 \<rparr>"

lemma with_payload_made:
  "with_payload K s t created nonce rest = rest (made_keys K s t) (resign K (made_keys K s t) (unsigned_payload K s t created nonce))"
  by (simp add: with_payload_def unwrapped_def generate_defs bind_create_def resign_def made_keys_def unsigned_payload_def Let_def)

lemma made_payload:
  "bind_create K created nonce (ik_ed25519 (made_keys K s t)) (x_pub (ik_x25519 (made_keys K s t)))
     = Ok (resign K (made_keys K s t) (unsigned_payload K s t created nonce))"
  by (simp add: bind_create_def resign_def made_keys_def unsigned_payload_def Let_def)

lemma sint_timestamp: "\<bar>i\<bar> < 2 ^ 63 \<Longrightarrow> sint (word_of_int i :: 64 word) = i"
  unfolding sint_sbintrunc' by (intro signed_take_bit_int_eq_self) auto

text \<open>A payload of version 1 that is signed with the key in it fails on its time alone.\<close>

lemma stale_payload:
  assumes "bp_version p = 1" and "\<bar>timestamp clock\<bar> < 2 ^ 62" and "\<bar>sint (bp_timestamp p) - timestamp clock\<bar> > 30"
  shows "is_replay (bind_verify K clock fp p)"
  using assms by (auto simp: bind_verify_def verify_signature_and_freshness_def checked_i64_def TIMESTAMP_SKEW_SECS_def Let_def)

lemma made_keys_wf: "length s = 32 \<Longrightarrow> length t = 32 \<Longrightarrow> wf_keys K (made_keys K s t)"
  by (simp add: wf_keys_def made_keys_def)

lemma bind_tests_pass:
  assumes crates: "ct_eq_ok K" "blake3_ok K" "ed25519_ok K" "x25519_ok K" and seeds: "length s = 32" "length t = 32"
    and nonce: "length nonce = 12" and clock: "\<bar>timestamp created\<bar> < 2 ^ 61" "\<bar>timestamp created - timestamp clock\<bar> \<le> 30"
  shows "create_and_verify_roundtrip K s t created nonce clock = passed" "old_timestamp_fails K s t created nonce clock = passed"
    "future_timestamp_fails K s t created nonce clock = passed" "verify_unbound_succeeds K s t created nonce clock = passed"
    "version_rejected_if_not_1 K s t created nonce clock = passed" "nonce_exact_length K s t created nonce = passed"
    "binary_roundtrip K s t created nonce = passed"
proof -
  let ?keys = "made_keys K s t" and ?p = "resign K (made_keys K s t) (unsigned_payload K s t created nonce)"
  obtain fp where fp: "keys_fingerprint K ?keys = Ok fp" using keys_fingerprint_Ok [OF crates(2)] by blast
  have wf_fp: "wf_fingerprint fp" using fp keys_fingerprint_Ok [OF crates(2), of ?keys] derived_wf [OF crates(2)] by auto
  have created: "\<bar>timestamp created\<bar> < 2 ^ 62" using clock(1) by simp
  from bind_created_verifies [OF crates made_keys_wf [OF seeds] nonce fp created made_payload clock(2)]
  have wf: "wf_payload ?p" and ok: "\<exists>v. bind_verify K clock fp ?p = Ok v \<and> vi_fingerprint v = fp" by auto
  have same: "constant_time_eq K fp fp" by (simp add: constant_time_eq_def ct_eq_okD [OF crates(1)])
  show "create_and_verify_roundtrip K s t created nonce clock = passed"
    using ok same by (auto simp: create_and_verify_roundtrip_def with_payload_made fp)
  from ok obtain v where "bind_verify K clock fp ?p = Ok v" "vi_fingerprint v = fp" by blast
  then have "bind_verify_unbound K clock ?p = Ok v"
    by (auto simp: bind_verify_def bind_verify_unbound_def split: if_splits)
  then show "verify_unbound_succeeds K s t created nonce clock = passed"
    using same \<open>vi_fingerprint v = fp\<close> by (simp add: verify_unbound_succeeds_def with_payload_made fp)
  have now: "\<bar>timestamp clock\<bar> < 2 ^ 62" using clock by simp
  have shifted: "\<bar>sint (word_of_int (timestamp created) - word_of_int 300 :: 64 word) - timestamp clock\<bar> > 30"
    "\<bar>sint (word_of_int (timestamp created) + word_of_int 300 :: 64 word) - timestamp clock\<bar> > 30"
  proof -
    have "sint (word_of_int (timestamp created - 300) :: 64 word) = timestamp created - 300"
      "sint (word_of_int (timestamp created + 300) :: 64 word) = timestamp created + 300"
      using clock(1) by (intro sint_timestamp; simp)+
    then show "\<bar>sint (word_of_int (timestamp created) - word_of_int 300 :: 64 word) - timestamp clock\<bar> > 30"
      "\<bar>sint (word_of_int (timestamp created) + word_of_int 300 :: 64 word) - timestamp clock\<bar> > 30"
      unfolding wi_hom_syms using clock(2) by simp_all
  qed
  have base: "bp_version ?p = 1" "bp_timestamp ?p = word_of_int (timestamp created)" "bp_nonce ?p = nonce"
    by (simp_all add: resign_def unsigned_payload_def)
  have "is_replay (bind_verify K clock fp (resign K ?keys (?p\<lparr> bp_timestamp := bp_timestamp ?p - word_of_int 300 \<rparr>)))"
    "is_replay (bind_verify K clock fp (resign K ?keys (?p\<lparr> bp_timestamp := bp_timestamp ?p + word_of_int 300 \<rparr>)))"
    using shifted base by (intro stale_payload [OF _ now]; simp add: resign_def)+
  then show "old_timestamp_fails K s t created nonce clock = passed" "future_timestamp_fails K s t created nonce clock = passed"
    by (simp_all add: old_timestamp_fails_def future_timestamp_fails_def with_payload_made fp TIMESTAMP_SKEW_SECS_def Let_def)
  show "version_rejected_if_not_1 K s t created nonce clock = passed"
    by (simp add: version_rejected_if_not_1_def with_payload_made fp resign_def bind_verify_def verify_signature_and_freshness_def Let_def)
  show "nonce_exact_length K s t created nonce = passed" using nonce base by (simp add: nonce_exact_length_def with_payload_made)
  show "binary_roundtrip K s t created nonce = passed"
    using length_bind_to_bytes [OF wf] bind_from_to_bytes [OF wf] by (simp add: binary_roundtrip_def with_payload_made Let_def)
qed

text \<open>The two tests on forged payloads.\<close>

lemma bind_forgery_tests_pass:
  assumes "ct_eq_ok K" "blake3_ok K" "ed25519_ok K" "x25519_ok K"
    and "\<bar>timestamp created\<bar> < 2 ^ 61" "\<bar>timestamp created - timestamp clock\<bar> \<le> 30"
  shows "\<not> ed_verify K (ed_public K s) (signature_payload (unsigned_payload K s t created nonce))
      (flip_first (ed_sign K s (signature_payload (unsigned_payload K s t created nonce)))) \<Longrightarrow>
      bind_tampered_signature_fails K s t created nonce clock = passed"
    and "take 20 (blake3 K (ed_public K s @ x_public K t)) \<noteq> take 20 (blake3 K (ed_public K (fst other) @ x_public K (snd other))) \<Longrightarrow>
      wrong_expected_fingerprint_fails K s t other created nonce clock = passed"
proof -
  let ?keys = "made_keys K s t" and ?u = "unsigned_payload K s t created nonce"
  have len: "length (ed_public K s) = 32" "length (x_public K t) = 32" using assms(3,4) by (simp_all add: ed25519_ok_def x25519_ok_def)
  have "\<bar>timestamp created\<bar> < 2 ^ 63" using assms(5) by simp
  then have ts: "sint (bp_timestamp ?u) = timestamp created" by (simp add: unsigned_payload_def sint_timestamp)
  have fields: "bp_version ?u = 1" "bp_ed25519_public ?u = ed_public K s" "bp_x25519_public ?u = x_public K t"
    by (simp_all add: unsigned_payload_def)
  have same: "signature_payload (?u\<lparr> bp_signature := sig \<rparr>) = signature_payload ?u" for sig by (simp add: signature_payload_def)
  have fresh: "verify_signature_and_freshness K clock (?u\<lparr> bp_signature := sig \<rparr>) =
      (if ed25519_verify K (ed_public K s) (signature_payload ?u) sig = Ok () then Ok (ed_public K s, x_public K t)
       else Err (IdentityBindingFailed ''signature verification failed''))" for sig
    using assms(5,6) ts len fields
    by (auto simp: verify_signature_and_freshness_def checked_i64_def TIMESTAMP_SKEW_SECS_def ed25519_public_from_bytes_def
        x25519_public_from_bytes_def same ed25519_verify_def Let_def)
  have own: "ed25519_verify K (ed_public K s) m (ed25519_sign K \<lparr> ed_pub = ed_public K s, ed_secret = s \<rparr> m) = Ok ()" for m
    using own_signature_verifies [OF assms(3), of "\<lparr> ed_pub = ed_public K s, ed_secret = s \<rparr>"] by simp
  have made: "ik_ed25519 ?keys = \<lparr> ed_pub = ed_public K s, ed_secret = s \<rparr>" by (simp add: made_keys_def)
  show "bind_tampered_signature_fails K s t created nonce clock = passed"
    if "\<not> ed_verify K (ed_public K s) (signature_payload ?u) (flip_first (ed_sign K s (signature_payload ?u)))"
    using that assms(2)
    by (simp add: bind_tampered_signature_fails_def with_payload_made keys_fingerprint_Ok resign_def made ed25519_sign_def
        bind_verify_def fresh ed25519_verify_def Let_def)
  show "wrong_expected_fingerprint_fails K s t other created nonce clock = passed"
    if "take 20 (blake3 K (ed_public K s @ x_public K t)) \<noteq> take 20 (blake3 K (ed_public K (fst other) @ x_public K (snd other)))"
    using that assms(1-3) wf_derived [OF assms(2)]
    by (simp add: wrong_expected_fingerprint_fails_def with_payload_made generate_defs resign_def made bind_verify_def fresh
        derive_fingerprint_Ok own ct_eq_okD)
qed

end
