(* ===== verification/Handshake_Tests.thy ===== *)
theory Handshake_Tests
  imports Security_Tests Noise
begin

text \<open>
  The unit tests of \<open>crates/security/src/noise\<close>: handshakes over a pipe with a nonce cache that both sides share. The
  random bytes, clocks and instants of a side are one record. Tests that something forged is refused name what
  \<open>snow\<close> has to refuse.
\<close>

section \<open>Two ends of a pipe\<close>

record party =
  pt_ed_seed :: bytes
  pt_x_seed :: bytes
  pt_created :: datetime
  pt_nonce :: bytes
  pt_clock :: datetime
  pt_inst :: instant

definition pipe_end :: io where
  "pipe_end = \<lparr> rx = [], rx_end = Io_Error True ''unexpected end of file'', tx = [], tx_fault = \<lambda>_. None, flush_fault = \<lambda>_. None \<rparr>"

definition initiate :: "crates \<Rightarrow> ('h, 't) snow \<Rightarrow> party \<Rightarrow> ('h session, 't transport \<times> verified_identity, security_error) action" where
  "initiate K S p = run_initiator_handshake K S Finished (pt_created p) (pt_nonce p) (pt_clock p) (pt_inst p)"

definition respond :: "crates \<Rightarrow> ('h, 't) snow \<Rightarrow> party \<Rightarrow> ('h session, 't transport \<times> verified_identity, security_error) action" where
  "respond K S p = run_responder_handshake K S Finished (pt_created p) (pt_nonce p) (pt_clock p) (pt_inst p)"

text \<open>
  \<open>try_join!\<close> of both sides. What the initiator writes first depends on nothing it reads, so the responder can be fed with it; the
  initiator then goes on with the cache as the responder left it. The first error in time is the result.
\<close>

definition try_join ::
  "crates \<Rightarrow> ('h, 't) snow \<Rightarrow> party \<Rightarrow> party \<Rightarrow> 'h handshake \<Rightarrow> 'h handshake
    \<Rightarrow> (('t transport \<times> verified_identity) \<times> ('t transport \<times> verified_identity)) security_result" where
  "try_join K S a b alice bob =
     (let sent = tx (snd (snd (initiate K S a (alice, pipe_end))))
      in case respond K S b (bob, pipe_end\<lparr> rx := sent \<rparr>) of
           (r_b, (bob', io_b)) \<Rightarrow>
             rbind r_b (\<lambda>out_b.
             rbind (fst (initiate K S a (alice\<lparr> hs_cache := hs_cache bob' \<rparr>, pipe_end\<lparr> rx := tx io_b \<rparr>))) (\<lambda>out_a.
             Ok (out_a, out_b))))"

definition shared_cache :: nonce_cache where
  "shared_cache = nonce_cache_new 10000"

definition party_keys :: "crates \<Rightarrow> party \<Rightarrow> (identity_keys \<Rightarrow> fingerprint \<Rightarrow> unit_test) \<Rightarrow> unit_test" where
  "party_keys K p rest = unwrapped (identity_keys_generate K (pt_ed_seed p) (pt_x_seed p)) (\<lambda>keys.
     unwrapped (keys_fingerprint K keys) (rest keys))"

section \<open>The tests\<close>

definition handshake_success :: "crates \<Rightarrow> ('h, 't) snow \<Rightarrow> party \<Rightarrow> party \<Rightarrow> unit_test" where
  "handshake_success K S a b =
     party_keys K a (\<lambda>alice_keys alice_fp. party_keys K b (\<lambda>bob_keys bob_fp.
     unwrapped (new_initiator_with_cache S alice_keys bob_fp (x_pub (ik_x25519 bob_keys)) shared_cache) (\<lambda>alice.
     unwrapped (new_responder_with_cache S bob_keys alice_fp (x_pub (ik_x25519 alice_keys)) shared_cache) (\<lambda>bob.
     unwrapped (try_join K S a b alice bob) (\<lambda>((alice_transport, alice_verified), (bob_transport, bob_verified)).
     assert_that (constant_time_eq K (vi_fingerprint alice_verified) bob_fp) (
     assert_that (constant_time_eq K (vi_fingerprint bob_verified) alice_fp) (
     mutated (transport_encrypt S (ascii_message ''hello'')) alice_transport (\<lambda>encrypted _.
     mutated (transport_decrypt S encrypted) bob_transport (\<lambda>decrypted _.
     assert_that (ascii_message ''hello'' = decrypted) passed)))))))))"

definition handshake_wrong_fingerprint_fails :: "crates \<Rightarrow> ('h, 't) snow \<Rightarrow> party \<Rightarrow> party \<Rightarrow> party \<Rightarrow> unit_test" where
  "handshake_wrong_fingerprint_fails K S a b fake =
     party_keys K a (\<lambda>alice_keys _. party_keys K b (\<lambda>bob_keys bob_fp. party_keys K fake (\<lambda>_ fake_fp.
     unwrapped (new_initiator_with_cache S alice_keys bob_fp (x_pub (ik_x25519 bob_keys)) shared_cache) (\<lambda>alice.
     unwrapped (new_responder_with_cache S bob_keys fake_fp (x_pub (ik_x25519 alice_keys)) shared_cache) (\<lambda>bob.
     let results = try_join K S a b alice bob
     in assert_that (is_err results) (assert_that (results = Err FingerprintMismatch) passed))))))"

text \<open>In the next two a side talks to itself, as in the source; the interrupted handshake leaves \<open>left\<close> behind.\<close>

definition lone_initiator :: "crates \<Rightarrow> ('h, 't) snow \<Rightarrow> party \<Rightarrow> ('h handshake \<Rightarrow> unit_test) \<Rightarrow> unit_test" where
  "lone_initiator K S a rest = party_keys K a (\<lambda>keys fp.
     unwrapped (new_initiator_with_cache S keys fp (x_pub (ik_x25519 keys)) shared_cache) rest)"

definition handshake_timeout :: "crates \<Rightarrow> ('h, 't) snow \<Rightarrow> party \<Rightarrow> 'h session \<Rightarrow> unit_test" where
  "handshake_timeout K S a left = lone_initiator K S a (\<lambda>h.
     case run_initiator_handshake K S (TimedOut left) (pt_created a) (pt_nonce a) (pt_clock a) (pt_inst a) (h, pipe_end) of
       (r, _) \<Rightarrow> assert_that (case r of Err (HandshakeTimeout n) \<Rightarrow> n = 10 | _ \<Rightarrow> False) passed)"

definition handshake_cancellation :: "crates \<Rightarrow> ('h, 't) snow \<Rightarrow> party \<Rightarrow> 'h session \<Rightarrow> unit_test" where
  "handshake_cancellation K S a left = lone_initiator K S a (\<lambda>h.
     case run_initiator_handshake K S (CancelledFirst left) (pt_created a) (pt_nonce a) (pt_clock a) (pt_inst a) (h, pipe_end) of
       (r, _) \<Rightarrow> assert_that (case r of Err HandshakeCancelled \<Rightarrow> True | _ \<Rightarrow> False) passed)"

definition noise_message_bit_flip_fails :: "crates \<Rightarrow> ('h, 't) snow \<Rightarrow> party \<Rightarrow> party \<Rightarrow> unit_test" where
  "noise_message_bit_flip_fails K S a b =
     party_keys K a (\<lambda>alice_keys alice_fp. party_keys K b (\<lambda>bob_keys bob_fp.
     unwrapped (new_initiator_with_cache S alice_keys bob_fp (x_pub (ik_x25519 bob_keys)) shared_cache) (\<lambda>alice.
     unwrapped (new_responder_with_cache S bob_keys alice_fp (x_pub (ik_x25519 alice_keys)) shared_cache) (\<lambda>bob.
     unwrapped (create_identity_payload K (pt_created a) (pt_nonce a) alice) (\<lambda>payload.
     mutated (hs_write_message S payload) alice (\<lambda>msg1 _.
     mutated (send_message msg1) pipe_end (\<lambda>_ alice_stream.
     mutated recv_message (pipe_end\<lparr> rx := tx alice_stream \<rparr>) (\<lambda>received _.
     let corrupted = flip_first received
     in assert_that (is_err (fst (hs_read_message S corrupted bob))) passed))))))))"

definition oversized_length_prefix_fails :: unit_test where
  "oversized_length_prefix_fails =
     (let cursor = pipe_end\<lparr> rx := [255, 255, 255, 255] \<rparr>
      in assert_that (case fst (recv_message cursor) of Err (HandshakeFailed e) \<Rightarrow> True | _ \<Rightarrow> False) passed)"

definition handshake_wrong_x25519_key_fails :: "crates \<Rightarrow> ('h, 't) snow \<Rightarrow> party \<Rightarrow> party \<Rightarrow> party \<Rightarrow> unit_test" where
  "handshake_wrong_x25519_key_fails K S a b c =
     party_keys K a (\<lambda>alice_keys alice_fp. party_keys K b (\<lambda>bob_keys bob_fp. party_keys K c (\<lambda>charlie_keys _.
     unwrapped (new_initiator_with_cache S alice_keys bob_fp (x_pub (ik_x25519 charlie_keys)) shared_cache) (\<lambda>alice.
     unwrapped (new_responder_with_cache S bob_keys alice_fp (x_pub (ik_x25519 alice_keys)) shared_cache) (\<lambda>bob.
     assert_that (is_err (try_join K S a b alice bob)) passed)))))"

text \<open>The peer's end is dropped: the initiator's read meets the end of the pipe.\<close>

definition handshake_mid_stream_drop_fails :: "crates \<Rightarrow> ('h, 't) snow \<Rightarrow> party \<Rightarrow> unit_test" where
  "handshake_mid_stream_drop_fails K S a = lone_initiator K S a (\<lambda>h.
     assert_that (is_err (fst (initiate K S a (h, pipe_end)))) passed)"

definition nonce_cache_rejects_duplicate :: "crates \<Rightarrow> party \<Rightarrow> instant \<Rightarrow> instant \<Rightarrow> unit_test" where
  "nonce_cache_rejects_duplicate K p now later = party_keys K p (\<lambda>_ fp. let nonce = replicate 12 42 in
     case check_and_insert now fp nonce (nonce_cache_new 100) of (r1, c) \<Rightarrow> assert_that r1 (
     case check_and_insert later fp nonce c of (r2, _) \<Rightarrow> assert_that (\<not> r2) passed))"

definition size_constants_are_sane :: unit_test where
  "size_constants_are_sane =
     assert_that (MAX_TRANSPORT_MSG_SIZE = 1048576) (assert_that (AEAD_TAG_SIZE = 16) (
     assert_that (MAX_TRANSPORT_FRAME_SIZE = 1048592) passed))"

section \<open>They pass\<close>

text \<open>The clock of the second check is at most the lifetime of an entry later.\<close>

lemma plain_tests_pass:
  "oversized_length_prefix_fails = passed" "size_constants_are_sane = passed"
  "blake3_ok K \<Longrightarrow> later - now \<le> seconds 60 \<Longrightarrow> nonce_cache_rejects_duplicate K p now later = passed"
  by (simp_all add: oversized_length_prefix_fails_def size_constants_are_sane_def nonce_cache_rejects_duplicate_def pipe_end_def
      recv_message_def recv_frame_def action_defs read_exact_def u32_from_be_def MAX_HANDSHAKE_MSG_SIZE_def MAX_TRANSPORT_MSG_SIZE_def
      AEAD_TAG_SIZE_def MAX_TRANSPORT_FRAME_SIZE_def party_keys_def identity_keys_generate_def ed25519_generate_def x25519_generate_def
      keys_fingerprint_Ok check_and_insert_def nonce_cache_new_def evict_oldest_def NONCE_CACHE_TTL_SECS_def Let_def)

text \<open>What the keys, the builders and the first message are for parties with seeds of the right size.\<close>

definition party_ok :: "party \<Rightarrow> bool" where
  "party_ok p \<longleftrightarrow> length (pt_ed_seed p) = 32 \<and> length (pt_x_seed p) = 32 \<and> length (pt_nonce p) = 12"

definition clocks_ok :: "party \<Rightarrow> party \<Rightarrow> bool" where
  "clocks_ok p q \<longleftrightarrow> \<bar>timestamp (pt_created p)\<bar> < 2 ^ 61 \<and> \<bar>timestamp (pt_created p) - timestamp (pt_clock q)\<bar> \<le> 30"

definition keys_of :: "crates \<Rightarrow> party \<Rightarrow> identity_keys" where
  "keys_of K p = made_keys K (pt_ed_seed p) (pt_x_seed p)"

definition fp_of :: "crates \<Rightarrow> party \<Rightarrow> fingerprint" where
  "fp_of K p = Fingerprint (take 20 (blake3 K (ed_public K (pt_ed_seed p) @ x_public K (pt_x_seed p))))"

definition payload_of :: "crates \<Rightarrow> party \<Rightarrow> bind_payload" where
  "payload_of K p = resign K (keys_of K p) (unsigned_payload K (pt_ed_seed p) (pt_x_seed p) (pt_created p) (pt_nonce p))"

definition start :: "'h \<Rightarrow> identity_keys \<Rightarrow> fingerprint \<Rightarrow> 'h handshake" where
  "start st ik fp = \<lparr> hs_state = st, hs_our_identity = ik, hs_remote_fingerprint = Some fp, hs_verified_remote = None,
     hs_cache = shared_cache, hs_cache_poisoned = False \<rparr>"

lemma start_fields [simp]:
  "hs_state (start st ik fp) = st" "hs_our_identity (start st ik fp) = ik" "hs_remote_fingerprint (start st ik fp) = Some fp"
  "hs_cache (start st ik fp) = shared_cache" "hs_cache_poisoned (start st ik fp) = False"
  by (simp_all add: start_def)

lemma party_keys_made: "blake3_ok K \<Longrightarrow> party_keys K p rest = rest (keys_of K p) (fp_of K p)"
  by (simp add: party_keys_def unwrapped_def identity_keys_generate_def ed25519_generate_def x25519_generate_def keys_fingerprint_Ok
      keys_of_def fp_of_def made_keys_def)

lemma keys_of_wf: "party_ok p \<Longrightarrow> wf_keys K (keys_of K p)"
  by (simp add: party_ok_def keys_of_def made_keys_wf)

lemma keys_of_fields [simp]: "x_pub (ik_x25519 (keys_of K p)) = x_public K (pt_x_seed p)" "x_secret (ik_x25519 (keys_of K p)) = pt_x_seed p"
  by (simp_all add: keys_of_def made_keys_def)

lemma fingerprint_of: "blake3_ok K \<Longrightarrow> keys_fingerprint K (keys_of K p) = Ok (fp_of K p)"
  by (simp add: keys_fingerprint_Ok keys_of_def made_keys_def fp_of_def)

lemma first_payload: "hs_our_identity h = keys_of K p \<Longrightarrow>
    create_identity_payload K (pt_created p) (pt_nonce p) h = Ok (bind_to_bytes (payload_of K p))"
  using made_payload [of K "pt_created p" "pt_nonce p" "pt_ed_seed p" "pt_x_seed p"]
  by (simp add: create_identity_payload_def payload_of_def keys_of_def)

definition builds :: "crates \<Rightarrow> ('h, 't) snow \<Rightarrow> party \<Rightarrow> party \<Rightarrow> 'h \<Rightarrow> 'h \<Rightarrow> bool" where
  "builds K S a b hi hr \<longleftrightarrow>
     (\<forall>fp. new_initiator_with_cache S (keys_of K a) fp (x_public K (pt_x_seed b)) shared_cache = Ok (start hi (keys_of K a) fp))
     \<and> (\<forall>fp. new_responder_with_cache S (keys_of K b) fp (x_public K (pt_x_seed a)) shared_cache = Ok (start hr (keys_of K b) fp))"

lemma built:
  assumes "snow_kk_ok K S paired" and "party_ok a" and "party_ok b"
  obtains hi hr where "builds K S a b hi hr" and "kk_exchange S paired hi hr"
proof -
  obtain hi hr where "sn_params S = Ok ()" "sn_build_initiator S (pt_x_seed a) (x_public K (pt_x_seed b)) = Ok hi"
      "sn_build_responder S (pt_x_seed b) (x_public K (pt_x_seed a)) = Ok hr" "kk_exchange S paired hi hr"
    using snow_kk_exchange [OF assms(1) keys_of_wf [OF assms(2)] keys_of_wf [OF assms(3)]] by auto
  then show ?thesis
    by (intro that [of hi hr])
      (simp_all add: builds_def new_initiator_with_cache_def new_responder_with_cache_def new_handshake_Ok start_def)
qed

lemma interrupted_tests_pass:
  assumes "blake3_ok K" and "snow_kk_ok K S paired" and "party_ok a"
  shows "handshake_timeout K S a left = passed" "handshake_cancellation K S a left = passed"
proof -
  from built [OF assms(2,3,3)] obtain hi hr where "builds K S a a hi hr" .
  then show "handshake_timeout K S a left = passed" "handshake_cancellation K S a left = passed"
    by (simp_all add: handshake_timeout_def handshake_cancellation_def lone_initiator_def party_keys_made [OF assms(1)]
        run_initiator_handshake_def HANDSHAKE_TIMEOUT_SECS_def builds_def)
qed

lemma healthy_pipe: "healthy (pipe_end\<lparr> rx := bs \<rparr>)" "healthy pipe_end" "tx (pipe_end\<lparr> rx := bs \<rparr>) = []" "tx pipe_end = []" "rx pipe_end = []"
  by (simp_all add: healthy_def pipe_end_def)

lemma recv_from_empty: "rx s = [] \<Longrightarrow> recv_message s = (Err (HandshakeFailed (''recv len: '' @ io_text (rx_end s))), s)"
  by (simp add: recv_message_def recv_frame_def action_defs read_exact_def)

text \<open>The initiator alone: it sends its first message and meets the end of the pipe.\<close>

lemma initiate_alone:
  assumes "hs_our_identity h = keys_of K a" and "sn_hs_write S (bind_to_bytes (payload_of K a)) 4096 (hs_state h) = (Ok m1, st)"
  shows "is_err (fst (initiate K S a (h, pipe_end))) \<and> tx (snd (snd (initiate K S a (h, pipe_end)))) = wire m1"
  using assms recv_from_empty [of "pipe_end\<lparr> tx := wire m1 \<rparr>"] send_message_healthy [OF healthy_pipe(2), of m1]
  by (simp add: initiate_def run_initiator_handshake_def perform_initiator_handshake_def action_defs first_payload hs_write_message_def
      on_state_def MAX_HANDSHAKE_MSG_SIZE_def healthy_pipe)

lemma length_payload:
  "ed25519_ok K \<Longrightarrow> x25519_ok K \<Longrightarrow> party_ok p \<Longrightarrow> wf_payload (payload_of K p) \<and> length (bind_to_bytes (payload_of K p)) = 149"
proof -
  assume K: "ed25519_ok K" "x25519_ok K" and p: "party_ok p"
  have "wf_payload (payload_of K p)"
    using K p by (simp add: wf_payload_def payload_of_def resign_def unsigned_payload_def party_ok_def ed25519_ok_def x25519_ok_def
        ed25519_sign_def)
  then show ?thesis using length_bind_to_bytes by blast
qed

lemma kk_messages:
  assumes "kk_exchange S paired hi hr" and "length p1 + 48 \<le> 4096" and "length p2 + 48 \<le> 4096"
  obtains m1 m2 hi1 hi2 hr1 hr2 ti tr where
    "sn_hs_write S p1 4096 hi = (Ok m1, hi1)" "sn_hs_read S m1 4096 hr = (Ok p1, hr1)"
    "sn_hs_write S p2 4096 hr1 = (Ok m2, hr2)" "sn_hs_read S m2 4096 hi1 = (Ok p2, hi2)"
    "length m1 = length p1 + 48" "length m2 = length p2 + 48" "sn_finished S hi2" "sn_finished S hr2"
    "sn_into_transport S hi2 = Ok ti" "sn_into_transport S hr2 = Ok tr" "paired ti tr"
  using assms(1) [unfolded kk_exchange_def, rule_format, OF assms(2,3)] that by blast

lemma mid_stream_drop_passes:
  assumes "blake3_ok K" "ed25519_ok K" "x25519_ok K" and "snow_kk_ok K S paired" and "party_ok a"
  shows "handshake_mid_stream_drop_fails K S a = passed"
proof -
  from built [OF assms(4,5,5)] obtain hi hr where new: "builds K S a a hi hr" and ex: "kk_exchange S paired hi hr" .
  have len: "length (bind_to_bytes (payload_of K a)) + 48 \<le> 4096" "length ([] :: bytes) + 48 \<le> 4096"
    using length_payload [OF assms(2,3,5)] by simp_all
  from kk_messages [OF ex len] obtain m1 st where "sn_hs_write S (bind_to_bytes (payload_of K a)) 4096 hi = (Ok m1, st)" .
  then have "is_err (fst (initiate K S a (start hi (keys_of K a) fp, pipe_end)))" for fp
    using initiate_alone [of "start hi (keys_of K a) fp" K a S m1 st] by simp
  then show ?thesis by (simp add: handshake_mid_stream_drop_fails_def lone_initiator_def party_keys_made [OF assms(1)] new [unfolded builds_def])
qed

text \<open>A complete run: the responder with the cache it leaves, then the initiator.\<close>

lemma cache_two:
  "fst (check_and_insert i fp n shared_cache)"
  "(fp', n') \<noteq> (fp, n) \<Longrightarrow> fst (check_and_insert j fp' n' (snd (check_and_insert i fp n shared_cache)))"
  by (auto simp: check_and_insert_def shared_cache_def nonce_cache_new_def evict_oldest_def Let_def)

lemma payload_verifies:
  assumes "ct_eq_ok K" "blake3_ok K" "ed25519_ok K" "x25519_ok K" and "party_ok p" and "clocks_ok p q"
  obtains v where "bind_verify K (pt_clock q) (fp_of K p) (payload_of K p) = Ok v" "vi_fingerprint v = fp_of K p" "vi_nonce v = pt_nonce p"
proof -
  have n: "length (pt_nonce p) = 12" using assms(5) by (simp add: party_ok_def)
  have t: "\<bar>timestamp (pt_created p)\<bar> < 2 ^ 62" "\<bar>timestamp (pt_created p) - timestamp (pt_clock q)\<bar> \<le> 30"
    using assms(6) by (simp_all add: clocks_ok_def)
  have made: "bind_create K (pt_created p) (pt_nonce p) (ik_ed25519 (keys_of K p)) (x_pub (ik_x25519 (keys_of K p))) = Ok (payload_of K p)"
    unfolding keys_of_def payload_of_def by (rule made_payload)
  from bind_created_verifies [OF assms(1-4) keys_of_wf [OF assms(5)] n fingerprint_of [OF assms(2)] t(1) made t(2)]
  show ?thesis by (auto intro: that)
qed

lemma payload_accepted:
  assumes "bind_verify K clock fp p = Ok v" and "wf_payload p" and "hs_remote_fingerprint h = Some fp" and "\<not> hs_cache_poisoned h"
    and "fst (check_and_insert inst (vi_fingerprint v) (vi_nonce v) (hs_cache h))"
  shows "verify_identity_payload K clock inst (bind_to_bytes p) h =
    (Ok v, h\<lparr> hs_cache := snd (check_and_insert inst (vi_fingerprint v) (vi_nonce v) (hs_cache h)) \<rparr>)"
  unfolding verify_identity_payload_Ok using assms bind_from_to_bytes [OF assms(2)] by (auto simp: prod_eq_iff)

lemma respond_run:
  fixes h :: "'h handshake"
  assumes "length m1 \<le> 4096" and "sn_hs_read S m1 4096 (hs_state h) = (Ok pay1, st1)"
    and "verify_identity_payload K (pt_clock b) (pt_inst b) pay1 (h\<lparr> hs_state := st1 \<rparr>) = (Ok v, h\<lparr> hs_state := st1, hs_cache := c \<rparr>)"
    and "hs_our_identity h = keys_of K b" and "sn_hs_write S (bind_to_bytes (payload_of K b)) 4096 st1 = (Ok m2, st2)"
    and "sn_finished S st2" and "sn_into_transport S st2 = Ok t"
  shows "respond K S b (h, pipe_end\<lparr> rx := wire m1 \<rparr>) =
    (Ok (\<lparr> tr_state = t, tr_poisoned = False \<rparr>, v),
     (h\<lparr> hs_state := st2, hs_cache := c, hs_verified_remote := Some v \<rparr>, pipe_end\<lparr> rx := [], tx := wire m2 \<rparr>))"
proof -
  have "recv_message (pipe_end\<lparr> rx := wire m1 \<rparr>) = (Ok m1, pipe_end\<lparr> rx := [] \<rparr>)"
    using assms(1) hs_frames.dec_frame [of m1 "pipe_end\<lparr> rx := wire m1 \<rparr>" "[]"] by (simp add: MAX_HANDSHAKE_MSG_SIZE_def)
  moreover have "send_message m2 (pipe_end\<lparr> rx := [] \<rparr>) = (Ok (), pipe_end\<lparr> rx := [], tx := wire m2 \<rparr>)"
    using send_message_healthy [OF healthy_pipe(1)] by (simp add: pipe_end_def)
  ultimately show ?thesis using assms
    by (simp add: respond_def run_responder_handshake_def perform_responder_handshake_def action_defs hs_write_message_def hs_read_message_def
        on_state_def set_verified_remote_def into_transport_def is_complete_def MAX_HANDSHAKE_MSG_SIZE_def first_payload)
qed

lemma joined:
  assumes K: "ct_eq_ok K" "blake3_ok K" "ed25519_ok K" "x25519_ok K" and ex: "kk_exchange S paired hi hr"
    and parties: "party_ok a" "party_ok b" "clocks_ok a b" "clocks_ok b a" "pt_nonce a \<noteq> pt_nonce b"
  obtains t_a t_b v_a v_b where
    "try_join K S a b (start hi (keys_of K a) (fp_of K b)) (start hr (keys_of K b) (fp_of K a)) =
      Ok ((\<lparr> tr_state = t_a, tr_poisoned = False \<rparr>, v_a), (\<lparr> tr_state = t_b, tr_poisoned = False \<rparr>, v_b))"
    and "vi_fingerprint v_a = fp_of K b" and "vi_fingerprint v_b = fp_of K a" and "paired t_a t_b"
proof -
  let ?pa = "bind_to_bytes (payload_of K a)" and ?pb = "bind_to_bytes (payload_of K b)"
  let ?alice = "start hi (keys_of K a) (fp_of K b)" and ?bob = "start hr (keys_of K b) (fp_of K a)"
  have len: "length ?pa + 48 \<le> 4096" "length ?pb + 48 \<le> 4096"
    using length_payload [OF K(3,4) parties(1)] length_payload [OF K(3,4) parties(2)] by simp_all
  have wf: "wf_payload (payload_of K a)" "wf_payload (payload_of K b)"
    using length_payload [OF K(3,4) parties(1)] length_payload [OF K(3,4) parties(2)] by simp_all
  from payload_verifies [OF K parties(1,3)] obtain v_b where v_b: "bind_verify K (pt_clock b) (fp_of K a) (payload_of K a) = Ok v_b"
    "vi_fingerprint v_b = fp_of K a" "vi_nonce v_b = pt_nonce a" .
  from payload_verifies [OF K parties(2,4)] obtain v_a where v_a: "bind_verify K (pt_clock a) (fp_of K b) (payload_of K b) = Ok v_a"
    "vi_fingerprint v_a = fp_of K b" "vi_nonce v_a = pt_nonce b" .
  from kk_messages [OF ex len] obtain m1 m2 hi1 hi2 hr1 hr2 ti tr where m:
    "sn_hs_write S ?pa 4096 hi = (Ok m1, hi1)" "sn_hs_read S m1 4096 hr = (Ok ?pa, hr1)"
    "sn_hs_write S ?pb 4096 hr1 = (Ok m2, hr2)" "sn_hs_read S m2 4096 hi1 = (Ok ?pb, hi2)"
    "length m1 = length ?pa + 48" "length m2 = length ?pb + 48" "sn_finished S hi2" "sn_finished S hr2"
    "sn_into_transport S hi2 = Ok ti" "sn_into_transport S hr2 = Ok tr" "paired ti tr" .
  let ?c = "snd (check_and_insert (pt_inst b) (fp_of K a) (pt_nonce a) shared_cache)"
  let ?d = "snd (check_and_insert (pt_inst a) (fp_of K b) (pt_nonce b) ?c)"
  have "verify_identity_payload K (pt_clock b) (pt_inst b) ?pa (?bob\<lparr> hs_state := hr1 \<rparr>) = (Ok v_b, ?bob\<lparr> hs_state := hr1, hs_cache := ?c \<rparr>)"
    using payload_accepted [OF v_b(1) wf(1), of "?bob\<lparr> hs_state := hr1 \<rparr>" "pt_inst b"] v_b(2,3) cache_two(1) by simp
  from respond_run [OF _ _ this _ m(3,8,10)] m(2,5) len(1)
  have B: "respond K S b (?bob, pipe_end\<lparr> rx := wire m1 \<rparr>) = (Ok (\<lparr> tr_state = tr, tr_poisoned = False \<rparr>, v_b),
     (?bob\<lparr> hs_state := hr2, hs_cache := ?c, hs_verified_remote := Some v_b \<rparr>, pipe_end\<lparr> rx := [], tx := wire m2 \<rparr>))" by simp
  have V: "verify_identity_payload K (pt_clock a) (pt_inst a) ?pb (?alice\<lparr> hs_cache := ?c, hs_state := hi2 \<rparr>) =
      (Ok v_a, ?alice\<lparr> hs_cache := ?c, hs_state := hi2, hs_cache := ?d \<rparr>)"
    using payload_accepted [OF v_a(1) wf(2), of "?alice\<lparr> hs_cache := ?c, hs_state := hi2 \<rparr>" "pt_inst a"] v_a(2,3) parties(5)
      cache_two(2) [of "fp_of K b" "pt_nonce b" "fp_of K a" "pt_nonce a" "pt_inst a" "pt_inst b"] by simp
  have "\<exists>h'. perform_initiator_handshake K S (pt_created a) (pt_nonce a) (pt_clock a) (pt_inst a)
      (?alice\<lparr> hs_cache := ?c \<rparr>, pipe_end\<lparr> rx := wire m2 \<rparr>) = (Ok (\<lparr> tr_state = ti, tr_poisoned = False \<rparr>, v_a),
        (h', (pipe_end\<lparr> rx := wire m2 \<rparr>)\<lparr> tx := tx (pipe_end\<lparr> rx := wire m2 \<rparr>) @ wire m1, rx := [] \<rparr>))"
    by (rule initiator_honest [OF first_payload _ m(4) _ healthy_pipe(1) _ _ m(7,9)])
      (use m(1,6) len(2) V in simp_all)
  then have A: "fst (initiate K S a (?alice\<lparr> hs_cache := ?c \<rparr>, pipe_end\<lparr> rx := wire m2 \<rparr>)) = Ok (\<lparr> tr_state = ti, tr_poisoned = False \<rparr>, v_a)"
    by (auto simp: initiate_def run_initiator_handshake_def)
  have "tx (snd (snd (initiate K S a (?alice, pipe_end)))) = wire m1"
    using initiate_alone [of ?alice K a S m1 hi1] m(1) by simp
  then have "try_join K S a b ?alice ?bob = Ok ((\<lparr> tr_state = ti, tr_poisoned = False \<rparr>, v_a), (\<lparr> tr_state = tr, tr_poisoned = False \<rparr>, v_b))"
    using A by (simp add: try_join_def B del: rbind_Ok_conv)
  then show ?thesis using v_a(2) v_b(2) m(11) by (rule that)
qed

lemma handshake_success_passes:
  assumes K: "ct_eq_ok K" "blake3_ok K" "ed25519_ok K" "x25519_ok K" and S: "snow_kk_ok K S paired" "snow_transport_ok S paired"
    and parties: "party_ok a" "party_ok b" "clocks_ok a b" "clocks_ok b a" "pt_nonce a \<noteq> pt_nonce b"
  shows "handshake_success K S a b = passed"
proof -
  from built [OF S(1) parties(1,2)] obtain hi hr where new: "builds K S a b hi hr" and ex: "kk_exchange S paired hi hr" .
  from joined [OF K ex parties] obtain t_a t_b v_a v_b where run:
    "try_join K S a b (start hi (keys_of K a) (fp_of K b)) (start hr (keys_of K b) (fp_of K a)) =
      Ok ((\<lparr> tr_state = t_a, tr_poisoned = False \<rparr>, v_a), (\<lparr> tr_state = t_b, tr_poisoned = False \<rparr>, v_b))"
    "vi_fingerprint v_a = fp_of K b" "vi_fingerprint v_b = fp_of K a" "paired t_a t_b" .
  have "length (ascii_message ''hello'') = 5" by (simp add: ascii_message_def)
  then obtain c t_a' t_b' where "sn_write S (ascii_message ''hello'') (length (ascii_message ''hello'') + 16) t_a = (Ok c, t_a')"
    "sn_read S c (length c) t_b = (Ok (ascii_message ''hello''), t_b')" "length c = 21"
    using snow_transport_okD(4) [OF S(2) run(4), of "ascii_message ''hello''"] snow_transport_okD(3) [OF S(2)] by fastforce
  moreover have "constant_time_eq K (fp_of K p) (fp_of K p)" for p by (simp add: constant_time_eq_def ct_eq_okD [OF K(1)])
  ultimately show ?thesis
    by (simp add: handshake_success_def party_keys_made [OF K(2)] new [unfolded builds_def] run mutated_def transport_encrypt_def
        transport_decrypt_def amap_err_def on_transport_def AEAD_TAG_SIZE_def MAX_TRANSPORT_MSG_SIZE_def MAX_TRANSPORT_FRAME_SIZE_def
        \<open>length (ascii_message ''hello'') = 5\<close>)
qed

text \<open>A responder that fails on the first message fails the pair.\<close>

lemma responder_refuses:
  assumes "hs_our_identity alice = keys_of K a" and "sn_hs_write S (bind_to_bytes (payload_of K a)) 4096 (hs_state alice) = (Ok m1, st)"
    and "length m1 \<le> 4096" and "sn_hs_read S m1 4096 (hs_state bob) = (r, st')"
    and "case r of Ok pay \<Rightarrow> fst (verify_identity_payload K (pt_clock b) (pt_inst b) pay (bob\<lparr> hs_state := st' \<rparr>)) = Err e
      | Err x \<Rightarrow> e = HandshakeFailed (''read error: '' @ x) | Panic \<Rightarrow> False"
  shows "try_join K S a b alice bob = Err e"
proof -
  have "recv_message (pipe_end\<lparr> rx := wire m1 \<rparr>) = (Ok m1, pipe_end\<lparr> rx := [] \<rparr>)"
    using assms(3) hs_frames.dec_frame [of m1 "pipe_end\<lparr> rx := wire m1 \<rparr>" "[]"] by (simp add: MAX_HANDSHAKE_MSG_SIZE_def)
  then have "fst (respond K S b (bob, pipe_end\<lparr> rx := wire m1 \<rparr>)) = Err e" using assms(3-5)
    by (cases r) (auto simp: respond_def run_responder_handshake_def perform_responder_handshake_def action_defs hs_read_message_def
        on_state_def MAX_HANDSHAKE_MSG_SIZE_def split: prod.splits)
  moreover have "tx (snd (snd (initiate K S a (alice, pipe_end)))) = wire m1" using initiate_alone [OF assms(1,2)] by simp
  ultimately show ?thesis by (auto simp: try_join_def split: prod.splits)
qed

lemma wrong_fingerprint_passes:
  assumes K: "ct_eq_ok K" "blake3_ok K" "ed25519_ok K" "x25519_ok K" and S: "snow_kk_ok K S paired"
    and parties: "party_ok a" "party_ok b" "clocks_ok a b" and "fp_of K fake \<noteq> fp_of K a"
  shows "handshake_wrong_fingerprint_fails K S a b fake = passed"
proof -
  from built [OF S parties(1,2)] obtain hi hr where new: "builds K S a b hi hr" and ex: "kk_exchange S paired hi hr" .
  have wf: "wf_payload (payload_of K a)" and len: "length (bind_to_bytes (payload_of K a)) + 48 \<le> 4096" "length ([] :: bytes) + 48 \<le> 4096"
    using length_payload [OF K(3,4) parties(1)] by simp_all
  from kk_messages [OF ex len] obtain m1 hi1 hr1 where m: "sn_hs_write S (bind_to_bytes (payload_of K a)) 4096 hi = (Ok m1, hi1)"
    "sn_hs_read S m1 4096 hr = (Ok (bind_to_bytes (payload_of K a)), hr1)" "length m1 = length (bind_to_bytes (payload_of K a)) + 48" .
  from payload_verifies [OF K parties(1,3)] obtain v where v: "bind_verify K (pt_clock b) (fp_of K a) (payload_of K a) = Ok v" .
  have "as_bytes (fp_of K p) = take 20 (blake3 K (ed_public K (pt_ed_seed p) @ x_public K (pt_x_seed p)))" for p by (simp add: fp_of_def)
  then have "\<not> ct_eq K (as_bytes (fp_of K a)) (as_bytes (fp_of K fake))"
    using assms(9) wf_derived [OF K(2)] by (subst ct_eq_okD [OF K(1)]) (auto simp: fp_of_def)
  moreover have "wf_fingerprint (fp_of K a)" using wf_derived [OF K(2)] by (simp add: wf_fingerprint_def fp_of_def)
  ultimately have "bind_verify K (pt_clock b) (fp_of K fake) (payload_of K a) = Err FingerprintMismatch"
    using v by (auto simp: bind_verify_Ok [OF K(1,2)]) (simp add: bind_verify_def)
  then have "fst (verify_identity_payload K (pt_clock b) (pt_inst b) (bind_to_bytes (payload_of K a))
      ((start hr (keys_of K b) (fp_of K fake))\<lparr> hs_state := hr1 \<rparr>)) = Err FingerprintMismatch"
    by (simp add: verify_identity_payload_def bind_from_to_bytes [OF wf] del: rbind_Ok_conv)
  then have "try_join K S a b (start hi (keys_of K a) (fp_of K b)) (start hr (keys_of K b) (fp_of K fake)) = Err FingerprintMismatch"
    using m len(1) by (intro responder_refuses [of _ K a S m1 hi1 _ "Ok (bind_to_bytes (payload_of K a))" hr1]) simp_all
  then show ?thesis
    by (simp add: handshake_wrong_fingerprint_fails_def party_keys_made [OF K(2)] new [unfolded builds_def])
qed

text \<open>
  The two tests on Noise messages that do not fit: \<open>snow\<close> must refuse a first message whose first byte is flipped, and one that is
  written for another static key.
\<close>

definition refuses_flipped :: "('h, 't) snow \<Rightarrow> 'h \<Rightarrow> 'h \<Rightarrow> bytes \<Rightarrow> bool" where
  "refuses_flipped S hi hr p =
     (case sn_hs_write S p 4096 hi of (Ok m1, _) \<Rightarrow> is_err (fst (sn_hs_read S (flip_first m1) 4096 hr)) | _ \<Rightarrow> True)"

lemma length_flip_first [simp]: "length (flip_first bs) = length bs"
  by (simp add: flip_first_def split: list.split)

lemma bit_flip_passes:
  assumes K: "ct_eq_ok K" "blake3_ok K" "ed25519_ok K" "x25519_ok K" and S: "snow_kk_ok K S paired"
    and parties: "party_ok a" "party_ok b"
    and refuses: "\<And>hi hr. builds K S a b hi hr \<Longrightarrow> refuses_flipped S hi hr (bind_to_bytes (payload_of K a))"
  shows "noise_message_bit_flip_fails K S a b = passed"
proof -
  from built [OF S parties] obtain hi hr where new: "builds K S a b hi hr" and ex: "kk_exchange S paired hi hr" .
  have len: "length (bind_to_bytes (payload_of K a)) + 48 \<le> 4096" "length ([] :: bytes) + 48 \<le> 4096"
    using length_payload [OF K(3,4) parties(1)] by simp_all
  from kk_messages [OF ex len] obtain m1 hi1 where m: "sn_hs_write S (bind_to_bytes (payload_of K a)) 4096 hi = (Ok m1, hi1)"
    "length m1 = length (bind_to_bytes (payload_of K a)) + 48" .
  have no: "is_err (fst (sn_hs_read S (flip_first m1) 4096 hr))" using refuses [OF new] m(1) by (simp add: refuses_flipped_def)
  have "recv_message (pipe_end\<lparr> rx := wire m1 \<rparr>) = (Ok m1, pipe_end\<lparr> rx := [] \<rparr>)"
    using m(2) len(1) hs_frames.dec_frame [of m1 "pipe_end\<lparr> rx := wire m1 \<rparr>" "[]"] by (simp add: MAX_HANDSHAKE_MSG_SIZE_def)
  moreover have "send_message m1 pipe_end = (Ok (), pipe_end\<lparr> tx := wire m1 \<rparr>)"
    using send_message_healthy [OF healthy_pipe(2)] by (simp add: healthy_pipe)
  moreover have "hs_write_message S (bind_to_bytes (payload_of K a)) (start hi (keys_of K a) fp) = (Ok m1, (start hi (keys_of K a) fp)\<lparr> hs_state := hi1 \<rparr>)" for fp
    using m(1) by (simp add: hs_write_message_def amap_err_def on_state_def MAX_HANDSHAKE_MSG_SIZE_def)
  moreover have "is_err (fst (hs_read_message S (flip_first m1) (start hr (keys_of K b) fp)))" for fp
    using no m(2) len(1)
    by (cases "fst (sn_hs_read S (flip_first m1) 4096 hr)")
      (auto simp: hs_read_message_def amap_err_def on_state_def MAX_HANDSHAKE_MSG_SIZE_def split: prod.splits)
  ultimately show ?thesis
    by (simp add: noise_message_bit_flip_fails_def party_keys_made [OF K(2)] new [unfolded builds_def] mutated_def first_payload)
qed

definition refuses_stranger :: "('h, 't) snow \<Rightarrow> 'h \<Rightarrow> 'h \<Rightarrow> bytes \<Rightarrow> bool" where
  "refuses_stranger S hi hr p =
     (case sn_hs_write S p 4096 hi of (Ok m1, _) \<Rightarrow> length m1 \<le> 4096 \<and> is_err (fst (sn_hs_read S m1 4096 hr)) | _ \<Rightarrow> False)"

lemma wrong_x25519_key_passes:
  assumes K: "ct_eq_ok K" "blake3_ok K" and S: "snow_kk_ok K S paired" and parties: "party_ok a" "party_ok b" "party_ok c"
    and refuses: "\<And>hi hi' hr hr'. builds K S a c hi hr' \<Longrightarrow> builds K S a b hi' hr \<Longrightarrow> refuses_stranger S hi hr (bind_to_bytes (payload_of K a))"
  shows "handshake_wrong_x25519_key_fails K S a b c = passed"
proof -
  from built [OF S parties(1,2)] obtain hi' hr where b: "builds K S a b hi' hr" .
  from built [OF S parties(1,3)] obtain hi hr' where c: "builds K S a c hi hr'" .
  from refuses [OF c b] obtain m1 st where m: "sn_hs_write S (bind_to_bytes (payload_of K a)) 4096 hi = (Ok m1, st)" "length m1 \<le> 4096"
    "is_err (fst (sn_hs_read S m1 4096 hr))"
    by (auto simp: refuses_stranger_def split: prod.splits result.splits)
  then obtain e st' where "sn_hs_read S m1 4096 hr = (Err e, st')"
    by (cases "sn_hs_read S m1 4096 hr"; cases "fst (sn_hs_read S m1 4096 hr)") auto
  then have "try_join K S a b (start hi (keys_of K a) fp) (start hr (keys_of K b) fp') = Err (HandshakeFailed (''read error: '' @ e))" for fp fp'
    using m by (intro responder_refuses [of _ K a S m1 st _ "Err e" st']) simp_all
  then show ?thesis
    using b c by (simp add: handshake_wrong_x25519_key_fails_def party_keys_made [OF K(2)] builds_def)
qed

end
