(* ===== verification/Store_Tests.thy ===== *)
theory Store_Tests
  imports Security_Tests Store_Permissions
begin

text \<open>
  The unit tests of \<open>crates/security/src/storage/secure_store.rs\<close>, in a temporary directory on which no call fails. The model
  has one name for the key file; the tests give each its own. Random bytes are arguments.
\<close>

definition temp_dir :: directory where
  "temp_dir = \<lparr> fs_files = Map.empty, fs_fault = \<lambda>_. None, fs_partial = None \<rparr>"

text \<open>\<open>with_path\<close> removes what temporary files are there.\<close>

definition with_path :: "directory \<Rightarrow> directory" where
  "with_path d = cleanup_temp_files d"

fun is_storage_error :: "('a, security_error) result \<Rightarrow> bool" where
  "is_storage_error (Err (Storage e)) = True"
| "is_storage_error _ = False"

record randomness =
  rn_ed :: bytes
  rn_x :: bytes
  rn_salt :: bytes
  rn_nonce :: bytes

definition generated_keys :: "crates \<Rightarrow> randomness \<Rightarrow> (identity_keys \<Rightarrow> unit_test) \<Rightarrow> unit_test" where
  "generated_keys K r rest = unwrapped (identity_keys_generate K (rn_ed r) (rn_x r)) rest"

definition load_or_new :: "crates \<Rightarrow> randomness \<Rightarrow> string \<Rightarrow> (directory, identity_keys, security_error) action" where
  "load_or_new K r pass = store_load_or_create K (rn_ed r) (rn_x r) (rn_salt r) (rn_nonce r) (lit pass)"

definition create :: "crates \<Rightarrow> randomness \<Rightarrow> string \<Rightarrow> (directory, identity_keys, security_error) action" where
  "create K r pass = store_create K (rn_ed r) (rn_x r) (rn_salt r) (rn_nonce r) (lit pass)"

section \<open>The tests\<close>

definition encrypt_decrypt_roundtrip :: "crates \<Rightarrow> randomness \<Rightarrow> unit_test" where
  "encrypt_decrypt_roundtrip K r = generated_keys K r (\<lambda>keys. let pass = lit ''test'' in
     unwrapped (store_encrypt K (rn_salt r) (rn_nonce r) keys pass) (\<lambda>encrypted. unwrapped (store_decrypt K encrypted pass) (\<lambda>decrypted.
     unwrapped (keys_fingerprint K keys) (\<lambda>fp. unwrapped (keys_fingerprint K decrypted) (\<lambda>fp'. assert_that (fp = fp') passed)))))"

definition wrong_passphrase_fails :: "crates \<Rightarrow> randomness \<Rightarrow> unit_test" where
  "wrong_passphrase_fails K r = generated_keys K r (\<lambda>keys.
     unwrapped (store_encrypt K (rn_salt r) (rn_nonce r) keys (lit ''correct'')) (\<lambda>enc.
     let res = store_decrypt K enc (lit ''wrong'') in assert_that (case res of Err InvalidPassphrase \<Rightarrow> True | _ \<Rightarrow> False) passed))"

definition load_or_create_new :: "crates \<Rightarrow> randomness \<Rightarrow> unit_test" where
  "load_or_create_new K r = mutated (load_or_new K r ''pass'') (with_path temp_dir) (\<lambda>keys _.
     assert_that (length (ed_pub (ik_ed25519 keys)) = 32) passed)"

definition load_existing :: "crates \<Rightarrow> randomness \<Rightarrow> unit_test" where
  "load_existing K r = mutated (load_or_new K r ''pass'') (with_path temp_dir) (\<lambda>keys1 d.
     mutated (store_load K (lit ''pass'')) (with_path d) (\<lambda>keys2 _.
     unwrapped (keys_fingerprint K keys1) (\<lambda>fp1. unwrapped (keys_fingerprint K keys2) (\<lambda>fp2. assert_that (fp1 = fp2) passed))))"

definition create_fails_if_exists :: "crates \<Rightarrow> randomness \<Rightarrow> randomness \<Rightarrow> unit_test" where
  "create_fails_if_exists K r r' = mutated (create K r ''pass'') (with_path temp_dir) (\<lambda>_ d.
     let res = fst (create K r' ''pass2'' d) in assert_that (is_storage_error res) passed)"

definition file_permissions_600 :: "crates \<Rightarrow> randomness \<Rightarrow> modes \<Rightarrow> unit_test" where
  "file_permissions_600 K r m = generated_keys K r (\<lambda>keys.
     mutated (store_save_restricted K (rn_salt r) (rn_nonce r) keys (lit ''pass'')) (with_path temp_dir, m) (\<lambda>_ (_, m').
     let mode = mo_bits m' STORAGE_FILE in assert_that (mode mod 512 = 384) passed))"

definition oversized_file_rejected :: "crates \<Rightarrow> unit_test" where
  "oversized_file_rejected K =
     (let d = with_path (temp_dir\<lparr> fs_files := [STORAGE_FILE \<mapsto> replicate 100000 0] \<rparr>); res = fst (store_load K (lit ''pass'') d)
      in assert_that (is_storage_error res) passed)"

definition leftover_temp_removed :: unit_test where
  "leftover_temp_removed =
     (let base = temp_dir\<lparr> fs_files := [''test.tmp'' \<mapsto> ascii_message ''dummy''] \<rparr>; base = cleanup_temp_files base
      in assert_that (fs_files base ''test.tmp'' = None) passed)"

section \<open>They pass\<close>

definition random_ok :: "randomness \<Rightarrow> bool" where
  "random_ok r \<longleftrightarrow> length (rn_ed r) = 32 \<and> length (rn_x r) = 32 \<and> length (rn_salt r) = 32 \<and> length (rn_nonce r) = 12"

definition store_crates :: "crates \<Rightarrow> bool" where
  "store_crates K \<longleftrightarrow> argon2_ok K \<and> chacha_ok K \<and> blake3_ok K \<and> ed25519_ok K \<and> x25519_ok K"

lemma file_tests_pass: "oversized_file_rejected K = passed" "leftover_temp_removed = passed"
  by (simp_all add: oversized_file_rejected_def leftover_temp_removed_def with_path_def cleanup_temp_files_def temp_dir_def
      extension_def STORAGE_FILE_def store_load_def action_defs syscall_fault_def MAX_STORE_SIZE_def Let_def)

lemma generated: "identity_keys_generate K (rn_ed r) (rn_x r) = Ok (made_keys K (rn_ed r) (rn_x r))"
  by (simp add: identity_keys_generate_def ed25519_generate_def x25519_generate_def made_keys_def)

lemma short_pass: "list_all (\<lambda>c. of_char c < (128::nat)) p \<Longrightarrow> length p < 100 \<Longrightarrow> length (str_bytes (lit p)) < 2 ^ 32"
  using str_len_ascii [of "lit p"] by (auto simp: lit_def list_all_iff)

lemma encrypt_cases:
  assumes "store_crates K" and "random_ok r" and "list_all (\<lambda>c. of_char c < (128::nat)) p" and "length p < 100"
  obtains c where "store_encrypt K (rn_salt r) (rn_nonce r) (made_keys K (rn_ed r) (rn_x r)) (lit p) = Ok c" "length c = 193"
    "store_decrypt K c (lit p) = Ok (made_keys K (rn_ed r) (rn_x r))"
  using assms store_decrypt_encrypt [of K "made_keys K (rn_ed r) (rn_x r)" "lit p" "rn_salt r" "rn_nonce r"] made_keys_wf
    short_pass [OF assms(3,4)] unfolding store_crates_def random_ok_def by blast

text \<open>A save of generated keys into the empty directory, and what is there afterwards.\<close>

lemma save_empty:
  assumes "store_crates K" and "random_ok r" and "list_all (\<lambda>c. of_char c < (128::nat)) p" and "length p < 100"
  obtains c where "store_save K (rn_salt r) (rn_nonce r) (made_keys K (rn_ed r) (rn_x r)) (lit p) temp_dir =
      (Ok (), temp_dir\<lparr> fs_files := [STORAGE_FILE \<mapsto> c] \<rparr>)" "length c = 193"
    "store_decrypt K c (lit p) = Ok (made_keys K (rn_ed r) (rn_x r))"
proof -
  obtain c where "store_encrypt K (rn_salt r) (rn_nonce r) (made_keys K (rn_ed r) (rn_x r)) (lit p) = Ok c" "length c = 193"
    "store_decrypt K c (lit p) = Ok (made_keys K (rn_ed r) (rn_x r))"
    using encrypt_cases [OF assms] by blast
  then show ?thesis
    by (intro that [of c]) (simp_all add: store_save_def action_defs syscall_fault_def temp_dir_def TEMP_FILE_def STORAGE_FILE_def
        Let_def fun_eq_iff)
qed

lemma with_path_simps: "with_path temp_dir = temp_dir" "with_path (temp_dir\<lparr> fs_files := [STORAGE_FILE \<mapsto> c] \<rparr>) = temp_dir\<lparr> fs_files := [STORAGE_FILE \<mapsto> c] \<rparr>"
  by (auto simp: with_path_def cleanup_temp_files_def temp_dir_def extension_def STORAGE_FILE_def Let_def fun_eq_iff)

lemma created:
  assumes "store_save K (rn_salt r) (rn_nonce r) (made_keys K (rn_ed r) (rn_x r)) (lit p) temp_dir = (Ok (), d)"
  shows "create K r p temp_dir = (Ok (made_keys K (rn_ed r) (rn_x r)), d)" "load_or_new K r p temp_dir = (Ok (made_keys K (rn_ed r) (rn_x r)), d)"
proof -
  have none: "\<not> store_exists who temp_dir" for who by (simp add: temp_dir_def store_exists_def)
  then show "create K r p temp_dir = (Ok (made_keys K (rn_ed r) (rn_x r)), d)" using assms
    by (simp add: create_def store_create_def generated action_defs)
  then show "load_or_new K r p temp_dir = (Ok (made_keys K (rn_ed r) (rn_x r)), d)" using none
    by (simp add: load_or_new_def store_load_or_create_def create_def)
qed

lemma store_tests_pass:
  assumes "store_crates K" and "random_ok r"
  shows "encrypt_decrypt_roundtrip K r = passed" "load_or_create_new K r = passed" "load_existing K r = passed"
    "create_fails_if_exists K r r' = passed" "\<not> mo_chmod_fails m \<Longrightarrow> file_permissions_600 K r m = passed"
proof -
  have ok: "blake3_ok K" "ed25519_ok K" using assms(1) by (simp_all add: store_crates_def)
  have fp: "keys_fingerprint K k = Ok (Fingerprint (take 20 (blake3 K (ed_pub (ik_ed25519 k) @ x_pub (ik_x25519 k)))))" for k
    by (rule keys_fingerprint_Ok [OF ok(1)])
  obtain c where "store_encrypt K (rn_salt r) (rn_nonce r) (made_keys K (rn_ed r) (rn_x r)) (lit ''test'') = Ok c"
    "store_decrypt K c (lit ''test'') = Ok (made_keys K (rn_ed r) (rn_x r))"
    using encrypt_cases [OF assms, of "''test''"] by auto
  then show "encrypt_decrypt_roundtrip K r = passed" by (simp add: encrypt_decrypt_roundtrip_def generated_keys_def generated fp Let_def)
  obtain c where save: "store_save K (rn_salt r) (rn_nonce r) (made_keys K (rn_ed r) (rn_x r)) (lit ''pass'') temp_dir =
      (Ok (), temp_dir\<lparr> fs_files := [STORAGE_FILE \<mapsto> c] \<rparr>)" "length c = 193"
    "store_decrypt K c (lit ''pass'') = Ok (made_keys K (rn_ed r) (rn_x r))"
    using save_empty [OF assms, of "''pass''"] by auto
  note made = created [OF save(1)]
  have "length (ed_pub (ik_ed25519 (made_keys K (rn_ed r) (rn_x r)))) = 32" using ok(2) by (simp add: made_keys_def ed25519_ok_def)
  then show "load_or_create_new K r = passed" by (simp add: load_or_create_new_def mutated_passed with_path_simps made)
  have "store_load K (lit ''pass'') (temp_dir\<lparr> fs_files := [STORAGE_FILE \<mapsto> c] \<rparr>) =
      (Ok (made_keys K (rn_ed r) (rn_x r)), temp_dir\<lparr> fs_files := [STORAGE_FILE \<mapsto> c] \<rparr>)"
    using save(2,3) by (subst store_load_content) (simp_all add: temp_dir_def)
  then show "load_existing K r = passed" by (simp add: load_existing_def mutated_passed with_path_simps made fp)
  show "create_fails_if_exists K r r' = passed"
    by (simp add: create_fails_if_exists_def mutated_passed with_path_simps made Let_def) (simp add: create_def store_create_def store_exists_def temp_dir_def)
  show "file_permissions_600 K r m = passed" if "\<not> mo_chmod_fails m"
    using that by (simp add: file_permissions_600_def generated_keys_def generated mutated_passed with_path_simps store_save_restricted_def
        save save_bits_def restrict_bits_def write_bits_def rename_bits_def OWNER_ONLY_BITS_def Let_def)
qed

text \<open>The wrong passphrase: the box must not open with the key derived from it.\<close>

lemma wrong_passphrase_passes:
  assumes "store_crates K" and r: "random_ok r"
    and closed: "\<And>k k' m c. derive_key K (lit ''correct'') (rn_salt r) = Ok k \<Longrightarrow> derive_key K (lit ''wrong'') (rn_salt r) = Ok k' \<Longrightarrow>
      chacha_encrypt K k (rn_nonce r) m = Some c \<Longrightarrow> chacha_decrypt K k' (rn_nonce r) c = None"
  shows "wrong_passphrase_fails K r = passed"
proof -
  have K: "argon2_ok K" "chacha_ok K" "ed25519_ok K" "x25519_ok K" using assms(1) by (simp_all add: store_crates_def)
  have len: "length (rn_salt r) = 32" "length (rn_nonce r) = 12" "length (rn_ed r) = 32" "length (rn_x r) = 32"
    using r by (simp_all add: random_ok_def)
  obtain k where k: "derive_key K (lit ''correct'') (rn_salt r) = Ok k" "length k = 32"
    using derive_key_Ok [OF K(1) _ len(1), of "lit ''correct''"] short_pass [of "''correct''"] by auto
  obtain k' where k': "derive_key K (lit ''wrong'') (rn_salt r) = Ok k'" "length k' = 32"
    using derive_key_Ok [OF K(1) _ len(1), of "lit ''wrong''"] short_pass [of "''wrong''"] by auto
  let ?m = "identity_to_bytes (serializable_of_keys (made_keys K (rn_ed r) (rn_x r)))"
  have m: "length ?m = 128"
    using K(3,4) len by (simp add: identity_to_bytes_def serializable_of_keys_def made_keys_def ed25519_ok_def x25519_ok_def)
  obtain ct where ct: "chacha_encrypt K k (rn_nonce r) ?m = Some ct" "length ct = 144"
    using K(2) [unfolded chacha_ok_def, rule_format, OF k(2) len(2), of ?m] m by auto
  define b where "b = \<lparr> eb_version = 1, eb_salt = rn_salt r, eb_nonce = rn_nonce r, eb_ciphertext = ct \<rparr>"
  have blob: "blob_from_bytes (blob_to_bytes b) = Ok b" "length (blob_to_bytes b) = 193"
    using blob_bytes_roundtrip [of b "[]"] len ct(2) by (simp_all add: b_def) (simp add: blob_to_bytes_def)
  have "store_encrypt K (rn_salt r) (rn_nonce r) (made_keys K (rn_ed r) (rn_x r)) (lit ''correct'') = Ok (blob_to_bytes b)"
    using k ct(1) by (simp add: store_encrypt_def b_def)
  moreover have "store_decrypt K (blob_to_bytes b) (lit ''wrong'') = Err InvalidPassphrase"
    using blob k' closed [OF k(1) k'(1) ct(1)]
    by (simp add: store_decrypt_def MAX_STORE_SIZE_def del: rbind_Ok_conv) (simp add: b_def del: rbind_Ok_conv)
  ultimately show ?thesis by (simp add: wrong_passphrase_fails_def generated_keys_def generated Let_def)
qed

end
