(* ===== verification/Network_Tests.thy ===== *)
theory Network_Tests
  imports Security_Tests Message_Frame Discovery_Feeds Tcp_Endpoints
begin

text \<open>
  The unit tests of \<open>crates/networking\<close>. A \<open>Cursor\<close> is a stream that ends after its bytes; what sockets, the mDNS daemon and
  timers do is an argument. The tests of the connection manager leave out the field \<open>x25519_public\<close> of \<open>PeerInfo\<close>, which
  has no default; here it is \<open>None\<close>. The tests of \<open>connection.rs\<close> and \<open>client.rs\<close> call functions that do not exist.
\<close>

section \<open>\<open>codec.rs\<close>\<close>

definition cursor :: "bytes \<Rightarrow> io" where
  "cursor bs = \<lparr> rx = bs, rx_end = Io_Error True ''failed to fill whole buffer'', tx = [], tx_fault = \<lambda>_. None, flush_fault = \<lambda>_. None \<rparr>"

definition encode_decode_roundtrip :: unit_test where
  "encode_decode_roundtrip = (let data = ascii_message ''hello encrypted world'' in
     unwrapped (codec_encode data) (\<lambda>frame. unwrapped (fst (codec_decode (cursor frame))) (\<lambda>decoded. assert_that (decoded = data) passed)))"

definition empty_frame :: unit_test where
  "empty_frame = unwrapped (codec_encode []) (\<lambda>frame. unwrapped (fst (codec_decode (cursor frame))) (\<lambda>decoded.
     assert_that (decoded = []) passed))"

definition large_frame_rejected :: unit_test where
  "large_frame_rejected =
     (let oversized = replicate (MAX_FRAME_SIZE + 1) 0; frame = u32_to_be (word_of_nat (length oversized)) @ oversized
      in assert_that (case fst (codec_decode (cursor frame)) of Err (FrameTooLarge n limit) \<Rightarrow> True | _ \<Rightarrow> False) passed)"

definition truncated_frame :: unit_test where
  "truncated_frame = (let frame = u32_to_be 100 @ ascii_message ''short''
     in assert_that (case fst (codec_decode (cursor frame)) of Err ConnectionClosed \<Rightarrow> True | _ \<Rightarrow> False) passed)"

lemma codec_roundtrip_tests_pass: "encode_decode_roundtrip = passed" "empty_frame = passed"
proof -
  have "fst (codec_decode (cursor (wire d))) = Ok d" if "length d \<le> 65600" for d
    using that by (simp add: codec_decode_def MAX_FRAME_SIZE_def recv_frame_wire [where rest = "[]"] cursor_def)
  then show "encode_decode_roundtrip = passed" "empty_frame = passed"
    by (simp_all add: encode_decode_roundtrip_def empty_frame_def codec_encode_Ok MAX_FRAME_SIZE_def ascii_message_def Let_def)
qed

lemma codec_refusal_tests_pass: "large_frame_rejected = passed" "truncated_frame = passed"
proof -
  have "unat (word_of_nat (MAX_FRAME_SIZE + 1) :: 32 word) = MAX_FRAME_SIZE + 1"
    by (simp add: MAX_FRAME_SIZE_def)
  then show "large_frame_rejected = passed"
    by (simp add: large_frame_rejected_def codec_decode_def cursor_def recv_frame_oversize Let_def)
  show "truncated_frame = passed"
    by (simp add: truncated_frame_def codec_decode_def cursor_def recv_frame_truncated MAX_FRAME_SIZE_def ascii_message_def read_error_def Let_def)
qed

section \<open>\<open>frame.rs\<close>, \<open>message_frame.rs\<close> and \<open>heartbeat.rs\<close>\<close>

definition chat_frame_roundtrip :: "frame_json \<Rightarrow> uuid \<Rightarrow> datetime \<Rightarrow> unit_test" where
  "chat_frame_roundtrip J fresh now =
     (let frame = frame_chat fresh now (lit ''Alice'') (ascii_message ''hello''); bytes = frame_to_bytes J frame in
      unwrapped_option (frame_from_bytes J bytes) (\<lambda>decoded.
      assert_that (mf_frame_type decoded = Frame_Chat) (assert_that (mf_payload decoded = ascii_message ''hello'')
        (assert_that (mf_sender decoded = lit ''Alice'') passed))))"

definition heartbeat_frame :: "uuid \<Rightarrow> datetime \<Rightarrow> unit_test" where
  "heartbeat_frame fresh now = (let frame = frame_heartbeat fresh now (lit ''Bob'') in
     assert_that (mf_frame_type frame = Frame_Heartbeat) (assert_that (mf_payload frame = []) passed))"

definition ack_frame :: "uuid \<Rightarrow> datetime \<Rightarrow> uuid \<Rightarrow> unit_test" where
  "ack_frame fresh now msg_id = (let frame = frame_ack fresh now (lit ''Alice'') msg_id in
     assert_that (mf_frame_type frame = Frame_Ack) (assert_that (mf_payload frame = uuid_bytes msg_id) passed))"

definition chat_content_serde :: "(chat_content \<Rightarrow> string option) \<Rightarrow> (string \<Rightarrow> chat_content option) \<Rightarrow> uuid \<Rightarrow> unit_test" where
  "chat_content_serde to_json of_json fresh =
     (let content = \<lparr> cc_text = lit ''Hello!'', cc_reply_to = Some fresh \<rparr> in
      unwrapped_option (to_json content) (\<lambda>json. unwrapped_option (of_json json) (\<lambda>decoded. assert_that (content = decoded) passed)))"

definition heartbeat_manager_create :: "crates \<Rightarrow> frame_json \<Rightarrow> bytes \<Rightarrow> bytes \<Rightarrow> heartbeat_turn list \<Rightarrow> unit_test" where
  "heartbeat_manager_create K J s t turns = unwrapped (identity_keys_generate K s t) (\<lambda>identity.
     let heartbeat = heartbeat_manager_new manager_new (lit ''test-fingerprint'') in
     unwrapped_option (fst (heartbeat_run J (turns @ [Heartbeat_Cancelled]) heartbeat)) (\<lambda>result. assert_that (is_ok result) passed))"

lemma frame_tests_pass:
  "frame_json_ok J (frame_chat fresh now (lit ''Alice'') (ascii_message ''hello'')) \<Longrightarrow> chat_frame_roundtrip J fresh now = passed"
  "heartbeat_frame fresh now = passed" "ack_frame fresh now m = passed"
  by (simp_all add: chat_frame_roundtrip_def frame_roundtrip heartbeat_frame_def ack_frame_def frame_chat_def frame_heartbeat_def
      frame_ack_def Let_def)

lemma chat_content_serde_passes:
  assumes "\<And>c. \<exists>json. to_json c = Some json \<and> of_json json = Some c"
  shows "chat_content_serde to_json of_json fresh = passed"
  using assms [of "\<lparr> cc_text = lit ''Hello!'', cc_reply_to = Some fresh \<rparr>"] by (auto simp: chat_content_serde_def)

text \<open>However many ticks come before the cancellation.\<close>

lemma heartbeat_cancelled: "fst (heartbeat_run J (turns @ [Heartbeat_Cancelled]) hb) = Some (Ok ())"
  by (induction J turns hb rule: heartbeat_run.induct) simp_all

lemma heartbeat_manager_create_passes: "heartbeat_manager_create K J s t turns = passed"
  by (simp add: heartbeat_manager_create_def heartbeat_cancelled generate_defs)

section \<open>\<open>server.rs\<close>\<close>

text \<open>The turn of the accept loop on a cancelled token.\<close>

definition cancel_server :: "server \<Rightarrow> server" where
  "cancel_server s = s\<lparr> sv_stopped := Some (Ok ()) \<rparr>"

definition server_bind_and_shutdown :: "crates \<Rightarrow> net_stack \<Rightarrow> bytes \<Rightarrow> bytes \<Rightarrow> unit_test" where
  "server_bind_and_shutdown K n s t = unwrapped (identity_keys_generate K s t) (\<lambda>identity.
     let server = tcp_server_new identity ''127.0.0.1:0'' in
     mutated (server_run_start server) n (\<lambda>(port, s) _.
     unwrapped_option (sv_stopped (cancel_server s)) (\<lambda>result. assert_that (is_ok result) passed)))"

lemma cancel_server_step: "sv_stopped s = None \<Longrightarrow> server_step s (cancel_server s)"
  unfolding cancel_server_def by (rule server_step.cancelled)

lemma server_bind_and_shutdown_passes:
  assumes "ns_port_of n ''127.0.0.1:0'' = Some 0"
  shows "server_bind_and_shutdown K n s t = passed"
  using assms by (simp add: server_bind_and_shutdown_def generate_defs mutated_def server_run_start_def tcp_server_new_def tcp_bind_def
      action_defs cancel_server_def Let_def)

section \<open>\<open>connection_manager.rs\<close>\<close>

definition test_peer_info :: "fingerprint \<Rightarrow> rstr \<Rightarrow> datetime \<Rightarrow> peer_info" where
  "test_peer_info fp name now = \<lparr> pi_fingerprint = fp, pi_display_name = name, pi_ip_address = V4 3232235777, pi_tcp_port = 7878,
     pi_x25519_public = None, pi_last_seen = now \<rparr>"

definition add_peer_and_retrieve :: "datetime \<Rightarrow> unit_test" where
  "add_peer_and_retrieve now = unwrapped (fp_from_bytes (replicate 20 170)) (\<lambda>fp.
     mutated (add_peer (test_peer_info fp (lit ''Test'') now)) manager_new (\<lambda>_ manager. assert_that (peer_count manager = 1) (
     unwrapped_option (get_peer fp manager) (\<lambda>retrieved. assert_that (pi_display_name retrieved = lit ''Test'') passed))))"

fun add_peers :: "(nat \<Rightarrow> datetime) \<Rightarrow> nat list \<Rightarrow> manager \<Rightarrow> (manager \<Rightarrow> unit_test) \<Rightarrow> unit_test" where
  "add_peers now [] manager rest = rest manager"
| "add_peers now (i # is) manager rest = unwrapped (fp_from_bytes (replicate 20 (word_of_nat i))) (\<lambda>fp.
     mutated (add_peer (test_peer_info fp (lit (''Peer'' @ nat_str i)) (now i))) manager (\<lambda>_ manager. add_peers now is manager rest))"

definition peer_limit_enforced :: "(nat \<Rightarrow> datetime) \<Rightarrow> datetime \<Rightarrow> unit_test" where
  "peer_limit_enforced now t = add_peers now [0..<MAX_PEERS] manager_new (\<lambda>manager.
     assert_that (peer_count manager = MAX_PEERS) (unwrapped (fp_from_bytes (replicate 20 255)) (\<lambda>extra_fp.
     assert_that (case fst (add_peer (test_peer_info extra_fp (lit ''Extra'') t) manager) of
       Err (PeerLimitExceeded n) \<Rightarrow> True | _ \<Rightarrow> False) passed)))"

definition untrusted_peer_rejected :: "crates \<Rightarrow> datetime \<Rightarrow> unit_test" where
  "untrusted_peer_rejected K now = unwrapped (fp_from_bytes (replicate 20 187)) (\<lambda>fp.
     mutated (add_peer (test_peer_info fp (lit ''Untrusted'') now)) manager_new (\<lambda>_ manager.
     assert_that (case fst (connect_to_peer K fp manager) of Err (PeerNotTrusted s) \<Rightarrow> True | _ \<Rightarrow> False) passed))"

lemma manager_tests_pass: "add_peer_and_retrieve now = passed" "untrusted_peer_rejected K now = passed"
  by (simp_all add: add_peer_and_retrieve_def untrusted_peer_rejected_def fp_from_bytes_wf mutated_def add_peer_def manager_new_def
      MAX_PEERS_def peer_count_def get_peer_def test_peer_info_def connect_to_peer_def is_trusted_def)

text \<open>The fingerprints \<open>[i as u8; 20]\<close> of the loop are distinct, as 200 is below 256.\<close>

lemma numbered_bytes: "i < 256 \<Longrightarrow> j < 256 \<Longrightarrow> (word_of_nat i :: byte) = word_of_nat j \<longleftrightarrow> i = j"
  by (auto simp: word_of_nat_eq_iff take_bit_eq_mod)

lemma update_new: "k \<notin> fst ` set xs \<Longrightarrow> AList.update k v xs = xs @ [(k, v)]"
  by (induction xs) auto

definition numbered :: "nat list \<Rightarrow> fingerprint list" where
  "numbered is = map (\<lambda>i. Fingerprint (replicate 20 (word_of_nat i))) is"

lemma add_peers_passed:
  assumes "distinct (map fst (mg_peers m) @ numbered is)" and "length (mg_peers m) + length is \<le> MAX_PEERS"
    and "\<And>m'. map fst (mg_peers m') = map fst (mg_peers m) @ numbered is \<Longrightarrow> rest m' = passed"
  shows "add_peers now is m rest = passed"
  using assms
proof (induction "is" arbitrary: m)
  case (Cons i "is")
  let ?fp = "Fingerprint (replicate 20 (word_of_nat i))"
  let ?info = "test_peer_info ?fp (lit (''Peer'' @ nat_str i)) (now i)"
  let ?m = "m\<lparr> mg_peers := mg_peers m @ [(?fp, ?info)] \<rparr>"
  have new: "?fp \<notin> fst ` set (mg_peers m)" using Cons.prems(1) by (simp add: numbered_def)
  have add: "add_peer ?info m = (Ok (), ?m)"
    using new Cons.prems(2) by (simp add: add_peer_def test_peer_info_def update_new)
  have "add_peers now is ?m rest = passed"
    using Cons.prems by (intro Cons.IH) (simp_all add: numbered_def)
  with add show ?case by (simp add: mutated_def fp_from_bytes_wf)
qed (simp add: numbered_def)

lemma peer_limit_passes: "peer_limit_enforced now t = passed"
  unfolding peer_limit_enforced_def
proof (rule add_peers_passed)
  show "distinct (map fst (mg_peers manager_new) @ numbered [0..<MAX_PEERS])"
    by (auto simp: manager_new_def numbered_def distinct_map inj_on_def MAX_PEERS_def numbered_bytes)
  show "length (mg_peers manager_new) + length [0..<MAX_PEERS] \<le> MAX_PEERS" by (simp add: manager_new_def)
next
  fix m :: manager
  assume m: "map fst (mg_peers m) = map fst (mg_peers manager_new) @ numbered [0..<MAX_PEERS]"
  then have "length (mg_peers m) = MAX_PEERS" by (metis diff_zero length_append length_map length_upt list.size(3)
    manager.select_convs(1) manager_new_def map_is_Nil_conv numbered_def plus_nat.add_0)
  moreover have "map_of (mg_peers m) (Fingerprint (replicate 20 255)) = None"
  proof -
    have "Fingerprint (replicate 20 255) \<notin> set (map fst (mg_peers m))"
      using numbered_bytes [of 255] unfolding m by (auto simp: manager_new_def numbered_def MAX_PEERS_def)
    then show ?thesis by (simp add: map_of_eq_None_iff)
  qed
  ultimately show "assert_that (peer_count m = MAX_PEERS) (unwrapped (fp_from_bytes (replicate 20 255)) (\<lambda>extra_fp.
     assert_that (case fst (add_peer (test_peer_info extra_fp (lit ''Extra'') t) m) of
       Err (PeerLimitExceeded n) \<Rightarrow> True | _ \<Rightarrow> False) passed)) = passed"
    by (simp add: peer_count_def fp_from_bytes_wf add_peer_def test_peer_info_def)
qed

section \<open>\<open>beacon.rs\<close> and the ends of discovery\<close>

definition with_beacon :: "crates \<Rightarrow> bytes \<Rightarrow> bytes \<Rightarrow> 64 word \<Rightarrow> (identity_keys \<Rightarrow> beacon \<Rightarrow> unit_test) \<Rightarrow> unit_test" where
  "with_beacon K s t now rest = unwrapped (identity_keys_generate K s t) (\<lambda>keys.
     rest keys (beacon_create K (ik_ed25519 keys) (x_pub (ik_x25519 keys)) 7878 (lit ''TestUser'') now))"

definition beacon_create_and_verify :: "crates \<Rightarrow> bool \<Rightarrow> bytes \<Rightarrow> bytes \<Rightarrow> 64 word \<Rightarrow> 64 word \<Rightarrow> unit_test" where
  "beacon_create_and_verify K oc s t now later = with_beacon K s t now (\<lambda>keys beacon.
     assert_that (is_ok (beacon_verify K oc later beacon)) passed)"

definition beacon_tampered_signature_fails :: "crates \<Rightarrow> bool \<Rightarrow> bytes \<Rightarrow> bytes \<Rightarrow> 64 word \<Rightarrow> 64 word \<Rightarrow> unit_test" where
  "beacon_tampered_signature_fails K oc s t now later = with_beacon K s t now (\<lambda>keys beacon.
     let beacon = beacon\<lparr> bc_signature := concat (replicate 64 (lit ''00'')) \<rparr>
     in assert_that (is_err (beacon_verify K oc later beacon)) passed)"

text \<open>\<open>a - b\<close> on \<open>u64\<close>, like \<open>u64_add\<close>.\<close>

definition u64_sub :: "bool \<Rightarrow> 64 word \<Rightarrow> 64 word \<Rightarrow> (64 word, unit) result" where
  "u64_sub overflow_checks a b = (if overflow_checks \<and> a < b then Panic else Ok (a - b))"

definition beacon_old_timestamp_fails :: "crates \<Rightarrow> bool \<Rightarrow> bytes \<Rightarrow> bytes \<Rightarrow> 64 word \<Rightarrow> 64 word \<Rightarrow> unit_test" where
  "beacon_old_timestamp_fails K oc s t now later = with_beacon K s t now (\<lambda>keys beacon.
     unwrapped (u64_sub oc (bc_timestamp beacon) (BEACON_MAX_AGE_SECS + 1)) (\<lambda>old.
     let beacon = beacon\<lparr> bc_timestamp := old \<rparr>; sig = ed25519_sign K (ik_ed25519 keys) (beacon_signature_payload beacon);
         beacon = beacon\<lparr> bc_signature := hex_encode K sig \<rparr>
     in assert_that (is_err (beacon_verify K oc later beacon)) passed))"

definition broadcaster_create :: "crates \<Rightarrow> string option \<Rightarrow> string option \<Rightarrow> bytes \<Rightarrow> bytes \<Rightarrow> unit_test" where
  "broadcaster_create K bind_fault broadcast_fault s t = unwrapped (identity_keys_generate K s t) (\<lambda>identity.
     assert_that (is_ok (broadcaster_new bind_fault broadcast_fault identity 7878 (lit ''Test''))) passed)"

definition listener_create :: "string option \<Rightarrow> unit_test" where
  "listener_create bind_fault = assert_that (is_ok (udp_listener_new bind_fault)) passed"

definition advertiser_create :: "crates \<Rightarrow> daemon_faults \<Rightarrow> bytes \<Rightarrow> bytes \<Rightarrow> unit_test" where
  "advertiser_create K F s t = unwrapped (identity_keys_generate K s t) (\<lambda>identity.
     assert_that (is_ok (advertise K F identity 7878 (lit ''TestUser''))) passed)"

lemma with_beacon_made:
  "with_beacon K s t now rest = rest (made_keys K s t)
     (beacon_create K (ik_ed25519 (made_keys K s t)) (x_pub (ik_x25519 (made_keys K s t))) 7878 (lit ''TestUser'') now)"
  by (simp add: with_beacon_def unwrapped_def generate_defs made_keys_def)

text \<open>A beacon is refused by its age alone.\<close>

lemma stale_beacon:
  assumes "clock_ok now" and "ct_eq_ok K" and "blake3_ok K" and "\<not> beacon_fresh now b"
  shows "is_err (beacon_verify K oc now b)"
  using beacon_verify_Ok [OF assms(1-3), of oc b] beacon_verify_not_Panic [OF assms(1), of K oc b] assms(4)
  by (cases "beacon_verify K oc now b") auto

text \<open>The clock of the tests is past the first minute of 1970 and moves by at most a minute.\<close>

lemma beacon_tests_pass:
  assumes crates: "hex_ok K" "ct_eq_ok K" "blake3_ok K" "ed25519_ok K" "x25519_ok K" and seeds: "length s = 32" "length t = 32"
    and clock: "clock_ok later" "now \<le> later" "unat later \<le> unat now + 60" "61 \<le> unat now"
  shows "beacon_create_and_verify K oc s t now later = passed" "beacon_old_timestamp_fails K oc s t now later = passed"
proof -
  let ?keys = "made_keys K s t"
  let ?b = "beacon_create K (ik_ed25519 ?keys) (x_pub (ik_x25519 ?keys)) 7878 (lit ''TestUser'') now"
  have time: "bc_timestamp ?b = now" by (simp add: beacon_create_def Let_def)
  obtain fp where "keys_fingerprint K ?keys = Ok fp" using keys_fingerprint_Ok [OF crates(3)] by blast
  from created_beacon_proves [OF crates(1,3,4,5) made_keys_wf [OF seeds] this refl, of 7878 "lit ''TestUser''" now]
  have "\<exists>ed x fp. beacon_proves K ?b ed x fp" by blast
  moreover have "beacon_fresh later ?b" using clock by (simp add: beacon_fresh_def time word_le_nat_alt)
  ultimately have "beacon_verify K oc later ?b = Ok ()" using beacon_verify_Ok [OF clock(1) crates(2,3)] by blast
  then show "beacon_create_and_verify K oc s t now later = passed"
    by (simp add: beacon_create_and_verify_def with_beacon_made)
  have "(61 :: 64 word) \<le> now" using clock(4) by (simp add: word_le_nat_alt)
  then have "u64_sub oc now (BEACON_MAX_AGE_SECS + 1) = Ok (now - 61)" "unat (now - 61) = unat now - 61"
    by (auto simp: u64_sub_def BEACON_MAX_AGE_SECS_def unat_sub)
  moreover have "\<not> beacon_fresh later (b\<lparr> bc_timestamp := now - 61, bc_signature := sig \<rparr>)" for b :: beacon and sig
    using clock calculation(2) by (simp add: beacon_fresh_def word_le_nat_alt) arith
  ultimately show "beacon_old_timestamp_fails K oc s t now later = passed"
    using stale_beacon [OF clock(1) crates(2,3)]
    by (simp add: beacon_old_timestamp_fails_def with_beacon_made time Let_def)
qed

lemma unhex_zeros: "unhex (concat (replicate n (lit ''00''))) = Some (replicate n 0)"
  by (induction n) (simp_all add: lit_def hex_value_def)

text \<open>What has to be refused is the signature of 64 zero bytes.\<close>

lemma beacon_tampered_signature_passes:
  assumes "hex_ok K" and "ct_eq_ok K" and "blake3_ok K" and "clock_ok later"
    and zero: "\<And>m. \<not> ed_verify K (ed_public K s) m (replicate 64 0)"
  shows "beacon_tampered_signature_fails K oc s t now later = passed"
proof -
  let ?b = "beacon_create K (ik_ed25519 (made_keys K s t)) (x_pub (ik_x25519 (made_keys K s t))) 7878 (lit ''TestUser'') now"
  let ?c = "?b\<lparr> bc_signature := concat (replicate 64 (lit ''00'')) \<rparr>"
  have "hex_decode K (bc_signature ?c) = Some (replicate 64 0)" by (simp only: hex_okD [OF assms(1)] unhex_zeros) (simp add: unhex_zeros)
  moreover have "hex_decode K (bc_ed25519_public ?c) = Some (ed_public K s)"
    by (simp add: beacon_create_def Let_def hex_okD [OF assms(1)] unhex_lower_hex made_keys_def)
  ultimately have "\<not> beacon_proves K ?c ed x fp" for ed x fp
    using zero by (auto simp: beacon_proves_def simp del: beacon.simps)
  then have "is_err (beacon_verify K oc later ?c)"
    using beacon_verify_Ok [OF assms(4,2,3), of oc ?c] beacon_verify_not_Panic [OF assms(4), of K oc ?c]
    by (cases "beacon_verify K oc later ?c") auto
  then show ?thesis by (simp add: beacon_tampered_signature_fails_def with_beacon_made Let_def)
qed

text \<open>The tests of the constructors pass exactly when the system serves them.\<close>

lemma discovery_ends_tests_pass:
  "broadcaster_create K bind_fault broadcast_fault s t = passed \<longleftrightarrow> bind_fault = None \<and> broadcast_fault = None"
  "listener_create bind_fault = passed \<longleftrightarrow> bind_fault = None"
  by (auto simp: broadcaster_create_def listener_create_def generate_defs broadcaster_new_def udp_listener_new_def sys_call_def
      is_ok_conv split: option.splits)

lemma advertiser_create_passes:
  assumes "blake3_ok K" and "df_create F = None" and "df_service_info F = None" and "df_register F = None"
  shows "advertiser_create K F s t = passed"
  using assms by (auto simp: advertiser_create_def generate_defs advertise_def daemon_call_def derive_fingerprint_Ok Let_def)

end
