(* ===== verification/App_Tests.thy ===== *)
theory App_Tests
  imports Domain_Tests Desktop_Main Notifier Peer_Repository Message_Repository
begin

text \<open>
  The unit tests of \<open>crates/application\<close>, \<open>crates/notifications\<close> and \<open>crates/persistence\<close>. The readings of the monotonic clock
  are arguments. The mock adapters of \<open>send_message.rs\<close> replace the replies of an environment; its second test passes in
  no environment.
\<close>

section \<open>\<open>error.rs\<close> and \<open>rate_limit.rs\<close>\<close>

definition user_message_never_leaks_internals :: unit_test where
  "user_message_never_leaks_internals = (let msg = user_message App_Security in
     assert_that (\<not> sublist ''key'' msg) (assert_that (\<not> sublist ''private'' msg) (assert_that (\<not> sublist ''0x'' msg) passed)))"

definition validation_message_includes_context :: unit_test where
  "validation_message_includes_context =
     assert_that (user_message (App_Validation ''display_name'' ''too long'') = ''Invalid display_name: too long'') passed"

lemma user_message_tests_pass: "user_message_never_leaks_internals = passed" "validation_message_includes_context = passed"
  by (simp_all add: user_message_never_leaks_internals_def validation_message_includes_context_def sublist_code Let_def)

text \<open>\<open>assert!(limiter.check(key))\<close> or its negation, then the rest with the limiter as the call left it.\<close>

definition expect_check :: "bool \<Rightarrow> instant \<Rightarrow> string \<Rightarrow> rate_limiter \<Rightarrow> (rate_limiter \<Rightarrow> unit_test) \<Rightarrow> unit_test" where
  "expect_check expected now key lim rest =
     (case check now (lit key) lim of (allowed, lim') \<Rightarrow> assert_that (allowed = expected) (rest lim'))"

definition millis :: "int \<Rightarrow> int" where
  "millis n = n * 1000000"

definition allows_within_limit :: "instant \<Rightarrow> instant \<Rightarrow> instant \<Rightarrow> unit_test" where
  "allows_within_limit t1 t2 t3 = (let lim = with_config (seconds 10) 3 in
     expect_check True t1 ''peer_a'' lim (\<lambda>lim. expect_check True t2 ''peer_a'' lim (\<lambda>lim.
     expect_check True t3 ''peer_a'' lim (\<lambda>lim. passed))))"

definition blocks_over_limit :: "instant \<Rightarrow> instant \<Rightarrow> instant \<Rightarrow> unit_test" where
  "blocks_over_limit t1 t2 t3 = (let lim = with_config (seconds 10) 2 in
     expect_check True t1 ''peer_b'' lim (\<lambda>lim. expect_check True t2 ''peer_b'' lim (\<lambda>lim.
     expect_check False t3 ''peer_b'' lim (\<lambda>lim. passed))))"

definition reset_clears_limit :: "instant \<Rightarrow> instant \<Rightarrow> instant \<Rightarrow> unit_test" where
  "reset_clears_limit t1 t2 t3 = (let lim = with_config (seconds 10) 1 in
     expect_check True t1 ''peer_c'' lim (\<lambda>lim. expect_check False t2 ''peer_c'' lim (\<lambda>lim.
     let lim = reset (lit ''peer_c'') lim in expect_check True t3 ''peer_c'' lim (\<lambda>lim. passed))))"

definition window_expires_old_entries :: "instant \<Rightarrow> instant \<Rightarrow> instant \<Rightarrow> instant \<Rightarrow> unit_test" where
  "window_expires_old_entries t1 t2 t3 t4 = (let lim = with_config (millis 50) 2 in
     expect_check True t1 ''peer_d'' lim (\<lambda>lim. expect_check True t2 ''peer_d'' lim (\<lambda>lim.
     expect_check False t3 ''peer_d'' lim (\<lambda>lim. expect_check True t4 ''peer_d'' lim (\<lambda>lim. passed)))))"

lemmas limiter_test_defs = expect_check_def check_def with_config_def entries_def reset_def Let_def

text \<open>
  Admission never needs a fast machine; a refusal does: the calls of a test have to fall into one window. The last test
  also sleeps for 60 milliseconds.
\<close>

lemma limiter_tests_pass:
  "allows_within_limit t1 t2 t3 = passed"
  "t1 \<le> t2 \<Longrightarrow> t2 \<le> t3 \<Longrightarrow> t3 < t1 + seconds 10 \<Longrightarrow> blocks_over_limit t1 t2 t3 = passed"
  "t1 \<le> t2 \<Longrightarrow> t2 < t1 + seconds 10 \<Longrightarrow> reset_clears_limit t1 t2 t3 = passed"
  "t1 \<le> t2 \<Longrightarrow> t2 \<le> t3 \<Longrightarrow> t3 < t1 + millis 50 \<Longrightarrow> t3 + millis 60 \<le> t4 \<Longrightarrow> window_expires_old_entries t1 t2 t3 t4 = passed"
  by (simp_all add: allows_within_limit_def blocks_over_limit_def reset_clears_limit_def window_expires_old_entries_def
      limiter_test_defs millis_def)

section \<open>\<open>notifier.rs\<close>\<close>

definition truncate_preview_long :: unit_test where
  "truncate_preview_long = (let long = replicate 200 97; truncated = truncate_preview long in
     assert_that (str_len truncated \<le> 103) (assert_that (truncated \<noteq> [] \<and> last truncated = 8230) passed))"

definition truncate_preview_short :: unit_test where
  "truncate_preview_short = (let short = lit ''Hello''; truncated = truncate_preview short in assert_that (truncated = lit ''Hello'') passed)"

definition rate_limit_blocks_duplicate :: "crates \<Rightarrow> instant \<Rightarrow> instant \<Rightarrow> unit_test" where
  "rate_limit_blocks_duplicate K t1 t2 = test_fingerprint 170 (\<lambda>fp.
     case is_allowed t1 (to_formatted_string K fp) notifier_new of (first, notifier) \<Rightarrow> assert_that first (
     case is_allowed t2 (to_formatted_string K fp) notifier of (second, notifier) \<Rightarrow> assert_that (\<not> second) passed))"

definition rate_limit_allows_different_senders :: "crates \<Rightarrow> instant \<Rightarrow> instant \<Rightarrow> unit_test" where
  "rate_limit_allows_different_senders K t1 t2 = test_fingerprint 170 (\<lambda>fp1. test_fingerprint 187 (\<lambda>fp2.
     case is_allowed t1 (to_formatted_string K fp1) notifier_new of (first, notifier) \<Rightarrow> assert_that first (
     case is_allowed t2 (to_formatted_string K fp2) notifier of (second, notifier) \<Rightarrow> assert_that second passed)))"

lemma preview_tests_pass: "truncate_preview_long = passed" "truncate_preview_short = passed"
  by (simp_all add: truncate_preview_long_def truncate_preview_short_def truncate_preview_def copy_chars_take PREVIEW_CHARS_def
      str_len_def len_utf8_def sum_list_replicate lit_def Let_def)

lemma cooldown_tests_pass:
  assumes "hex_ok K"
  shows "t2 < t1 + seconds 5 \<Longrightarrow> rate_limit_blocks_duplicate K t1 t2 = passed"
    and "rate_limit_allows_different_senders K t1 t2 = passed"
proof -
  show "t2 < t1 + seconds 5 \<Longrightarrow> rate_limit_blocks_duplicate K t1 t2 = passed"
    by (simp add: rate_limit_blocks_duplicate_def test_fingerprint_def fp_from_bytes_wf is_allowed_def notifier_new_def NOTIFICATION_COOLDOWN_def)
  have "from_hex (to_formatted_string K (Fingerprint (replicate 20 b))) = Ok (Fingerprint (replicate 20 b))" for b
    by (rule from_hex_is_hex_of [OF formatted_is_hex_of [OF assms]]) (simp_all add: wf_fingerprint_def)
  from this [of 170] this [of 187]
  have "to_formatted_string K (Fingerprint (replicate 20 170)) \<noteq> to_formatted_string K (Fingerprint (replicate 20 187))" by auto
  then show "rate_limit_allows_different_senders K t1 t2 = passed"
    by (simp add: rate_limit_allows_different_senders_def test_fingerprint_def fp_from_bytes_wf is_allowed_def notifier_new_def)
qed

section \<open>\<open>send_message.rs\<close>\<close>

text \<open>The mocks: what they answer to each call. \<open>unimplemented!()\<close> panics.\<close>

definition mock_security :: "'a env \<Rightarrow> 'a env" where
  "mock_security E = E\<lparr>
     en_generate_identity := \<lambda>_. Panic,
     en_encrypt := \<lambda>t. (case last t of Ev_Encrypt plaintext fp \<Rightarrow> Ok plaintext | _ \<Rightarrow> Panic),
     en_decrypt := \<lambda>t. (case last t of Ev_Decrypt ciphertext fp \<Rightarrow> Ok ciphertext | _ \<Rightarrow> Panic),
     en_save_identity := \<lambda>_. Ok () \<rparr>"

text \<open>What the mutexes of \<open>MockPersistence\<close> hold after a history.\<close>

fun saved_messages :: "'a event list \<Rightarrow> message list" where
  "saved_messages [] = []"
| "saved_messages (Ev_SaveMessage m # t) = m # saved_messages t"
| "saved_messages (_ # t) = saved_messages t"

fun saved_peers :: "'a event list \<Rightarrow> peer list" where
  "saved_peers [] = []"
| "saved_peers (Ev_SavePeer p # t) = p # saved_peers t"
| "saved_peers (_ # t) = saved_peers t"

definition mock_persistence :: "peer list \<Rightarrow> 'a env \<Rightarrow> 'a env" where
  "mock_persistence peers E = E\<lparr>
     en_save_message := \<lambda>_. Ok (),
     en_save_peer := \<lambda>_. Ok (),
     en_load_peer := \<lambda>t. (case last t of
        Ev_LoadPeer fp \<Rightarrow> Ok (find (\<lambda>p. peer_fingerprint p = fp) (peers @ saved_peers t)) | _ \<Rightarrow> Panic),
     en_update_peer_status := \<lambda>_. Ok () \<rparr>"

definition mock_network :: "'a env \<Rightarrow> 'a env" where
  "mock_network E = E\<lparr>
     en_connect := \<lambda>_. Some Panic,
     en_send := \<lambda>_. Ok (),
     en_broadcast := \<lambda>_. Ok (),
     en_discover := \<lambda>_. Ok [] \<rparr>"

definition mock_notification :: "'a env \<Rightarrow> 'a env" where
  "mock_notification E = E\<lparr> en_notify := \<lambda>_. Ok () \<rparr>"

definition mocked :: "'a env \<Rightarrow> peer list \<Rightarrow> 'a env" where
  "mocked E peers = mock_network (mock_persistence peers (mock_security (mock_notification E)))"

definition test_identity :: "datetime \<Rightarrow> uuid \<Rightarrow> (identity \<Rightarrow> unit_test) \<Rightarrow> unit_test" where
  "test_identity now fresh rest = test_fingerprint 170 (\<lambda>fp. unwrapped (identity_build now fresh (full_builder (lit ''TestUser'') fp)) rest)"

definition empty_content_fails_validation :: "crates \<Rightarrow> (peer list \<Rightarrow> 'a env) \<Rightarrow> datetime \<Rightarrow> uuid \<Rightarrow> unit_test" where
  "empty_content_fails_validation K env now fresh = test_identity now fresh (\<lambda>identity.
     let req = \<lparr> sr_recipient_fingerprint = lit ''A1B2C3D4E5F67890123456789ABCDEF011223344'', sr_content = [], sr_content_type = Dto_Text \<rparr>;
         result = fst (send_execute K (env []) req (send_use_case_new identity))
     in assert_that (case result of Err (App_Validation field reason) \<Rightarrow> field = ''content'' | _ \<Rightarrow> False) passed)"

definition recipient_builder :: "fingerprint \<Rightarrow> peer_builder" where
  "recipient_builder fp = pb_address (lit ''127.0.0.1:8080'') (pb_set_x25519_public (replicate 32 4)
     (pb_set_ed25519_public (replicate 32 3) (pb_set_fingerprint fp (pb_set_display_name (lit ''Recipient'') peer_builder_new))))"

definition valid_message_saves_and_returns :: "crates \<Rightarrow> (peer list \<Rightarrow> 'a env) \<Rightarrow> datetime \<Rightarrow> uuid \<Rightarrow> unit_test" where
  "valid_message_saves_and_returns K env now fresh =
     test_fingerprint 187 (\<lambda>fp. unwrapped (peer_build now fresh (recipient_builder fp)) (\<lambda>peer. test_identity now fresh (\<lambda>identity.
     let req = \<lparr> sr_recipient_fingerprint = lit ''BBBBBBBBBBBBBBBBBBBBBBBBBBBBBBBBBBBBBBBB'', sr_content = lit ''Hello secure world'',
           sr_content_type = Dto_Text \<rparr> in
     case send_execute K (env [peer]) req (send_use_case_new identity) of (result, w) \<Rightarrow>
       assert_that (is_ok result) (assert_that (length (saved_messages (w_trace w)) = 1) passed))))"

lemma empty_content_validation_passes: "empty_content_fails_validation K env now fresh = passed"
proof -
  have "lit ''A1B2C3D4E5F67890123456789ABCDEF011223344'' \<noteq> []" by (simp add: lit_def)
  then show ?thesis
    by (simp add: empty_content_fails_validation_def test_identity_def identity_test_defs test_fingerprint_def identity_build_Ok
        valid_sample_names send_execute_def validate_request_def action_defs Let_def)
qed

text \<open>The mock network cannot connect: \<open>connect\<close> is \<open>unimplemented!()\<close>, and every delivery calls it.\<close>

lemma mocked_connect_panics: "fst (connect_call (mocked E peers) addr fp w) = Panic"
  by (simp add: connect_call_def mocked_def mock_network_def port_call_def amap_err_def Let_def)

lemma saved_messages_append [simp]: "saved_messages (t @ u) = saved_messages t @ saved_messages u"
  by (induction t rule: saved_messages.induct) simp_all

text \<open>Nor would a better mock help: a send that succeeds has saved its message twice, before and after the delivery.\<close>

lemma successful_send_saves_twice:
  assumes "fst (send_execute K E req w) = Ok resp"
  shows "\<exists>m m'. saved_messages (w_trace (snd (send_execute K E req w))) = saved_messages (w_trace w) @ [m, m']
    \<and> msg_state m = Pending \<and> message_core m' = message_core m"
proof (cases rule: send_execute_cases [of K E req w])
  case (tried fp ct m m' r w1 evs)
  have none: "saved_messages evs = []"
    using delivery_events_bounds [OF tried(3), THEN conjunct2, THEN conjunct2]
    by (induction evs rule: saved_messages.induct) auto
  have "r \<noteq> Panic" using assms tried(7) by auto
  then have "w_trace (snd (send_execute K E req w)) = w_trace w1 @ [Ev_SaveMessage m']"
    unfolding tried(7) by (auto simp: action_defs port_call_def Let_def split: result.splits)
  then show ?thesis using tried(2,4,6) none by (auto simp: built_message_def)
qed (use assms in auto)

lemma valid_message_test_fails: "valid_message_saves_and_returns K env now fresh \<noteq> passed"
proof
  assume "valid_message_saves_and_returns K env now fresh = passed"
  then obtain peer identity req where
    run: "is_ok (fst (send_execute K (env [peer]) req (send_use_case_new identity)))"
      "length (saved_messages (w_trace (snd (send_execute K (env [peer]) req (send_use_case_new identity))))) = 1"
    by (auto simp: valid_message_saves_and_returns_def test_identity_def test_fingerprint_def Let_def prod.case_eq_if)
  then obtain resp where "fst (send_execute K (env [peer]) req (send_use_case_new identity)) = Ok resp" by (auto simp: is_ok_conv)
  from successful_send_saves_twice [OF this] run(2) show False by (auto simp: send_use_case_new_def)
qed

section \<open>\<open>models/mod.rs\<close>\<close>

definition peer_roundtrip :: "crates \<Rightarrow> peer_json \<Rightarrow> datetime \<Rightarrow> uuid \<Rightarrow> datetime \<Rightarrow> uuid \<Rightarrow> unit_test" where
  "peer_roundtrip K J now fresh later fresh' = test_fingerprint 170 (\<lambda>fp.
     unwrapped (peer_build now fresh (pb_address (lit ''127.0.0.1:8080'') (keyed_builder (lit ''TestPeer'') fp))) (\<lambda>peer.
     let model = peer_model_of K J peer in
     unwrapped (peer_of_model J later fresh' model) (\<lambda>reconstructed. assert_that (peer_display_name reconstructed = peer_display_name peer) passed)))"

definition message_roundtrip_via_json :: "crates \<Rightarrow> message_json \<Rightarrow> datetime \<Rightarrow> uuid \<Rightarrow> unit_test" where
  "message_roundtrip_via_json K J now fresh = test_fingerprint 170 (\<lambda>sender_fp. test_fingerprint 187 (\<lambda>recipient_fp.
     unwrapped (message_build now fresh (with_content (ascii_bytes ''hello'') (with_recipient recipient_fp (with_sender sender_fp
       message_builder_new)))) (\<lambda>msg.
     let model = message_model_of K J msg in
     unwrapped (message_of_model J model) (\<lambda>reconstructed. assert_that (msg_id reconstructed = msg_id msg) passed))))"

lemma peer_roundtrip_passes:
  assumes "hex_ok K" and json: "pj_strings_to J [lit ''127.0.0.1:8080''] = Some js" "pj_strings_from J js = Some [lit ''127.0.0.1:8080'']"
  shows "peer_roundtrip K J now fresh later fresh' = passed"
proof -
  let ?fp = "Fingerprint (replicate 20 170)"
  have "from_hex (to_formatted_string K ?fp) = Ok ?fp"
    by (rule from_hex_is_hex_of [OF formatted_is_hex_of [OF assms(1)]]) (simp_all add: wf_fingerprint_def)
  moreover have "valid_display_name (lit ''TestPeer'')" by (simp add: lit_def valid_display_name_def len_utf8_def is_control_def)
  ultimately show ?thesis
    by (simp add: peer_roundtrip_def test_fingerprint_def fp_from_bytes_wf peer_build_Ok keyed_builder_defs peer_of_model_def
        peer_model_of_def json_or_def json pb_set_addresses_def Let_def)
qed

lemma message_roundtrip_passes:
  assumes "\<And>m. \<exists>js. mj_message_to J m = Some js \<and> mj_message_from J js = Some m"
  shows "message_roundtrip_via_json K J now fresh = passed"
proof -
  obtain js where "\<And>m. mj_message_to J m = Some (js m) \<and> mj_message_from J (js m) = Some m" using assms by metis
  then show ?thesis
    by (simp add: message_roundtrip_via_json_def builder_test_defs message_build_Ok message_model_of_def message_of_model_def
        or_text_def valid_content_def Let_def)
qed

end
