(* ===== verification/Spec2Isabelle.thy ===== *)
theory Spec2Isabelle
  imports Connection Secure_Store Send_Message Receive_Message Connect_Peer Discover_Peer Reset_Identity
    Udp_Discovery Mdns_Discovery Discovery_Feeds Notifier Peer_Repository Trust_Store Message_Repository Migrations Database_Open
    Bootstrap Message_Frame Key_Types Store_Permissions Tcp_Endpoints Ui_View Desktop_Main
    Manager_Traffic Manager_Trust Server_Tasks Domain_Tests Handshake_Tests Store_Tests Network_Tests App_Tests
begin

text \<open>
  \<^bold>\<open>Rubix-PingPongzz: a peer-to-peer messenger for local networks.\<close>

  The program is a Rust workspace. \<open>crates/domain\<close> has the entities (fingerprint, identity, peer, message) and
  their rules; \<open>crates/application\<close> the use cases (send, receive, connect, discover, reset) on top of ports;
  \<open>crates/security\<close> the keys, the identity binding, the Noise handshake, the transport and the encrypted key file;
  \<open>crates/networking\<close> the frame codec, TCP client, server and connection manager, and discovery by UDP and mDNS;
  \<open>crates/persistence\<close> the SQLite repositories; \<open>crates/notifications\<close> the desktop notifier; \<open>crates/ui\<close> and
  \<open>apps/desktop\<close> the window and the start-up. A peer announces itself by discovery, is trusted by the user, is
  connected through a Noise handshake that binds its fingerprint, and then exchanges length-prefixed
  encrypted frames; the use cases store what they send before they send it.

  \<^bold>\<open>How the code is modelled.\<close> A struct is a \<open>record\<close>, an enum a \<open>datatype\<close>, a fixed-width integer a \<open>word\<close>, a
  \<open>String\<close> the list of its code points (\<open>Rust_Str\<close>), and a fallible function returns \<open>('a, 'e) result\<close> with the
  constructors \<open>Ok\<close>, \<open>Err\<close> and \<open>Panic\<close> (\<open>Prelude\<close>): every \<open>?\<close>, early return and panic is a branch. Stateful code is an
  \<open>action\<close>, a function from a state to a result and a new state, composed by \<open>abind\<close> as the source composes its
  calls. Asynchronous tasks that share state are step relations (\<open>inductive\<close>) over calls and task turns, and their
  invariants are proved by rule induction. Clocks, random values and the outcome of every operation that the operating
  system decides are arguments. Third-party crates (\<open>hex\<close>, \<open>subtle\<close>, \<open>blake3\<close>, \<open>ed25519-dalek\<close>,
  \<open>x25519-dalek\<close>, \<open>argon2\<close>, \<open>chacha20poly1305\<close>, \<open>snow\<close>, \<open>serde_json\<close>) are fields of a record that the
  definitions take; what is used of them is a predicate (\<open>hex_ok\<close>, \<open>ct_eq_ok\<close>, \<open>blake3_ok\<close>, \<open>ed25519_ok\<close>, \<open>x25519_ok\<close>,
  \<open>argon2_ok\<close>, \<open>chacha_ok\<close>, \<open>snow_kk_ok\<close>, \<open>snow_transport_ok\<close>), and \<open>ref_crates\<close> and \<open>ref_snow\<close> are
  concrete functions that satisfy them.

  \<^bold>\<open>The theories.\<close>
  \<^item> \<open>Prelude\<close>, \<open>Rust_Str\<close>, \<open>Crates\<close>, \<open>Byte_Stream\<close>: results, actions and their inversion rules; strings and UTF-8; the
    crates; byte streams with faults. They hold the locales that the components share: \<open>frame_relation\<close> (what every
    action leaves alone), \<open>entity\<close> (an operation keeps an invariant and an identity), \<open>length_framing\<close> (a codec of
    length-prefixed frames). \<open>Rate_Limit\<close> has the locale \<open>limiter\<close> and \<open>Database\<close> the locale \<open>simulation\<close>.
  \<^item> Domain: \<open>Domain_Errors\<close> (\<open>domain_error.rs\<close>), \<open>Fingerprint\<close>, \<open>Identity\<close>, \<open>Peer\<close> (with \<open>peer_status.rs\<close>), \<open>Message_State\<close>,
    \<open>Message\<close>. Builders establish and updates keep the well-formedness of the entities; the delivery states are a machine whose
    permitted sequences are the lives made of attempts (\<open>life\<close>); fingerprints survive printing and parsing.
  \<^item> Security: \<open>Security_Keys\<close> (keys, fingerprint derivation), \<open>Identity_Bind\<close> (the signed payload of
    \<open>identity_bind.rs\<close>), \<open>Nonce_Cache\<close> and \<open>Noise\<close> (\<open>handshake.rs\<close>, \<open>transport.rs\<close>), \<open>Secure_Store\<close> (\<open>secure_store.rs\<close>).
    A completed handshake authenticates the expected fingerprint; honest parties complete it; a replay is refused as
    long as the cache is shared; what is saved is loaded again, and a failed save leaves the old file;
    an identity is replaced only when the probes for its file fail.
    \<open>Key_Types\<close> has the serde forms of a signature, \<open>Store_Permissions\<close> the permission bits of the key file.
  \<^item> Networking: \<open>Frame_Codec\<close> (\<open>codec.rs\<close>), \<open>Connection\<close> (\<open>connection.rs\<close>, \<open>client.rs\<close>, \<open>server.rs\<close>),
    \<open>Tcp_Endpoints\<close> (construction and binding of client and server), \<open>Message_Frame\<close> (\<open>frame.rs\<close>, \<open>message_frame.rs\<close>,
    \<open>heartbeat.rs\<close>), \<open>Connection_Manager\<close>, \<open>Manager_Traffic\<close> (histories of its channels), \<open>Manager_Trust\<close> (the manager on the trust store), \<open>Server_Tasks\<close> (what becomes of an
    accepted socket), \<open>Udp_Discovery\<close>, \<open>Mdns_Discovery\<close>, \<open>Discovery_Feeds\<close> (their sockets, threads and channels). Messages and frames arrive
    intact and in order; hostile input is refused without a panic; the server runs at most ten handshakes
    and its tasks come to an end once it is stopped; the manager serves trusted peers only, keeps its channels within
    bounds, and its table of peers too unless calls overlap, and passes messages on in the order in which it took them; discovery reports only
    peers whose keys match the fingerprint, by UDP only with a fresh signature, and hands
    them to the reader in order.
  \<^item> Application: \<open>Rate_Limit\<close>, \<open>App_Ports\<close> (errors, DTOs, ports), \<open>Send_Message\<close>, \<open>Receive_Message\<close>, \<open>Connect_Peer\<close>,
    \<open>Discover_Peer\<close>, \<open>Reset_Identity\<close>. A port call appends an event to a history and is answered by an arbitrary function of
    that history, so the theorems hold for every adapter and every failure.
  \<^item> Storage and notification: \<open>Database_Open\<close>, \<open>Migrations\<close> (\<open>sqlite.rs\<close>: all or nothing, also when the engine fails at any call),
    \<open>Database\<close> (tables and statements), \<open>Peer_Repository\<close>, \<open>Message_Repository\<close> (each refines a map), \<open>Trust_Store\<close> (the trait as a record of operations; trust has to be
    granted), \<open>Notifier\<close> (its cooldown is an instance of the limiter).
  \<^item> Window and start-up: \<open>Ui_Controller\<close> (\<open>ui/src/lib.rs\<close>, the actions of the screens), \<open>Ui_View\<close> (what screens and widgets draw,
    \<open>app.rs\<close>), \<open>Bootstrap\<close> (\<open>bootstrap.rs\<close>), \<open>Desktop_Main\<close> (\<open>main.rs\<close>). A frame shows one screen and marks
    only verified peers, whatever the worker does between its accesses to the shared state.
  \<^item> The unit tests of the repository: \<open>Unit_Test\<close> (assertions and \<open>unwrap\<close> in the model), \<open>Domain_Tests\<close>, \<open>Security_Tests\<close>, \<open>Handshake_Tests\<close>,
    \<open>Store_Tests\<close>, \<open>Network_Tests\<close>, \<open>App_Tests\<close>. Each test is a program on the model's functions that returns or panics, and a
    lemma says that it returns for every clock reading, random value and crate that keeps the promises. The exceptions: \<open>update_display_name_valid\<close>
    passes exactly when the clock has moved between two calls, the tests of the limiters need their calls to fall into one window,
    those of the sockets pass exactly when the system opens them, and \<open>valid_message_saves_and_returns\<close> never passes. They tie the
    definitions to what the authors expect of the code.
  \<^item> This theory: properties that span components: two peers from the handshake to the messages, from a beacon to a
    connection, what the server does with a connection, and the identity across restarts.

  \<^bold>\<open>Interfaces.\<close> \<open>length_framing\<close> is interpreted by the codec and by the handshake's messages, \<open>limiter\<close> by the rate limiter
  and by the notifier, \<open>entity\<close> by messages and peers, \<open>simulation\<close> by both repositories, \<open>frame_relation\<close> by
  the histories of the use cases (only extended, identity kept, only reading) and by the statements
  in a transaction, \<open>feed_source\<close> by both kinds of discovery, \<open>trust_contract\<close> by the table of peers.

  \<^bold>\<open>Bounds and fuel.\<close> No definition uses fuel. Loops over retries, rows, recipients, datagrams and turns are
  structural recursion on a list or a number that the source bounds; a loop that ends only when it is cancelled
  is a function of the list of its turns, and returns \<open>None\<close> when the turns end first. UTF-8 decoding
  has a termination proof.

  \<^bold>\<open>Where the source does not fit together.\<close> Some calls do not match what they call: the server's
  \<open>new_responder\<close>, the \<open>source_ip\<close> of a beacon, \<open>UiMessage::LoadMessages\<close>, \<open>UiCommand::ClearError\<close>, the missing key of an mDNS
  peer. The model takes the missing value as an argument or leaves the call out, and says so at the definition.
  Several theorems state what the code does where it differs from its comments: \<open>receiver_accepts_nothing\<close>,
  \<open>fresh_cache_accepts_replay\<close>, \<open>connect_timeouts_not_limited\<close>, \<open>send_preview_panics\<close>, \<open>connection_limit_exceeded\<close>,
  \<open>peer_limit_exceeded\<close>, \<open>failed_probe_replaces_identity\<close>, \<open>disconnect_leaves_task\<close>, \<open>peer_reload_forgets\<close>, \<open>trust_store_unusable\<close>, \<open>recipient_lists_empty\<close>, \<open>heartbeat_does_nothing\<close>,
  \<open>settings_change_lost\<close>, \<open>ui_reaches_no_peer\<close>, \<open>shipped_migration_fails\<close>, \<open>failed_lookup_skips_migration\<close>,
  \<open>advertiser_shutdown_ineffective\<close>, \<open>local_addr_not_running_port\<close>, \<open>long_sequence_accepted\<close>, \<open>add_peer_never_updates\<close>,
  \<open>save_leaves_window\<close>, \<open>accepted_connection_dropped\<close>, \<open>trusting_unknown_peer_blocks_table\<close>,
  \<open>manager_trust_origin\<close>.

  \<^bold>\<open>Not modelled.\<close> Sizes, spacing, fonts and the clipboard of the window, logging, the inside of sockets, pools and the mDNS daemon,
  zeroisation and locking of secret memory, timing of constant-time operations. The rest is code without behaviour of its own:
  accessors, which are the selectors of the records, constructors of the use cases that only store their ports, trait
  declarations, derived instances, module declarations and re-exports; and \<open>close\<close> and \<open>is_active\<close> of the connection and the unit tests
  of \<open>connection.rs\<close> and \<open>client.rs\<close>, which use what does not exist. In the step relations each access
  to a shared map, channel or lock is one step, and the code of a task between two of them runs with it. \<open>connect_to_peer\<close> is a single
  step although it waits for a lock in the middle: the trust that it looks up there only grows. The writes to the shared state at the end of
  \<open>chat_render\<close> are one step. A write to a socket succeeds as a whole or fails as a whole, the rollback of a dropped transaction always succeeds, and one call of
  the nonce cache reads the clock once. The partial receive that \<open>select!\<close> can cancel in the connection manager is not modelled.
\<close>

section \<open>Two peers, end to end\<close>

text \<open>
  C2: Two honest peers connect and talk. Let both hold well-formed keys, know each other's fingerprint and X25519
  key, have clocks that agree within 30 seconds, and let the server's validator accept the client's
  fingerprint. Then, when each side reads exactly what the other side wrote, the client connects and the server
  accepts, each end is bound to the other's fingerprint, and any sequence of messages of at
  most 65519 bytes that the client sends is what the server receives, in order.
\<close>

theorem peers_talk:
  assumes K: "ct_eq_ok K" "blake3_ok K" "ed25519_ok K" "x25519_ok K"
    and S: "snow_kk_ok K S paired" "snow_transport_ok S paired"
    and a: "wf_keys K a" "keys_fingerprint K a = Ok fp_a" "length nonce_a = 12"
    and b: "wf_keys K b" "keys_fingerprint K b = Ok fp_b" "length nonce_b = 12"
    and clocks: "\<bar>timestamp created_a\<bar> < 2 ^ 62" "\<bar>timestamp created_a - timestamp clock_b\<bar> \<le> 30"
      "\<bar>timestamp created_b\<bar> < 2 ^ 62" "\<bar>timestamp created_b - timestamp clock_a\<bar> \<le> 30"
    and io: "healthy s_a" "tx s_a = []" "healthy s_b" "tx s_b = []"
    and accept: "\<And>v. vi_fingerprint v = fp_a \<Longrightarrow> accept v"
    and ms: "list_all (\<lambda>m. length m \<le> 65519) ms"
  shows "\<exists>c_a c_a' c_b c_b'.
    client_connect K S a addr fp_b (x_pub (ik_x25519 b)) (Tcp_Stream (s_a\<lparr> rx := tx (co_stream c_b) \<rparr>)) None Finished
      created_a nonce_a clock_a inst_a = Ok c_a
    \<and> send_all K S ms c_a = (Ok (), c_a')
    \<and> handle_connection K S (new_responder S b fp_a (x_pub (ik_x25519 a))) (Some accept) None
        (s_b\<lparr> rx := tx (co_stream c_a') \<rparr>) Finished created_b nonce_b clock_b inst_b = Ok c_b
    \<and> recv_many (conn_recv K S) (length ms) c_b = (Ok ms, c_b')
    \<and> co_peer c_a = fp_b \<and> co_peer c_b = fp_a"
proof -
  from honest_handshake [OF K S(1) a b clocks io, of inst_a inst_b]
  obtain h_a h_b bytes_a bytes_b t_a t_b v_a v_b where new: "new_initiator S a fp_b (x_pub (ik_x25519 b)) = Ok h_a"
      "new_responder S b fp_a (x_pub (ik_x25519 a)) = Ok h_b"
    and run_a: "\<And>rest. \<exists>h. run_initiator_handshake K S Finished created_a nonce_a clock_a inst_a (h_a, s_a\<lparr> rx := bytes_b @ rest \<rparr>) =
      (Ok (\<lparr> tr_state = t_a, tr_poisoned = False \<rparr>, v_a), (h, s_a\<lparr> rx := rest, tx := bytes_a \<rparr>))"
    and run_b: "\<And>rest. \<exists>h. run_responder_handshake K S Finished created_b nonce_b clock_b inst_b (h_b, s_b\<lparr> rx := bytes_a @ rest \<rparr>) =
      (Ok (\<lparr> tr_state = t_b, tr_poisoned = False \<rparr>, v_b), (h, s_b\<lparr> rx := rest, tx := bytes_b \<rparr>))"
    and ends: "vi_fingerprint v_a = fp_b" "vi_fingerprint v_b = fp_a" "paired t_a t_b"
    by metis
  define c_a where "c_a = connection_new (s_a\<lparr> rx := [], tx := bytes_a \<rparr>) \<lparr> tr_state = t_a, tr_poisoned = False \<rparr> fp_b"
  define c_b where "c_b f = connection_new (s_b\<lparr> rx := f, tx := bytes_b \<rparr>) \<lparr> tr_state = t_b, tr_poisoned = False \<rparr> fp_a" for f
  have ends_ok: "paired (tr_state (co_transport c_a)) (tr_state (co_transport (c_b f)))" "\<not> tr_poisoned (co_transport c_a)"
    "\<not> tr_poisoned (co_transport (c_b f))" "healthy (co_stream c_a)" "tx (co_stream c_a) = bytes_a"
    "rx (co_stream (c_b f)) = f" "tx (co_stream (c_b f)) = bytes_b" "co_peer c_a = fp_b" "co_peer (c_b f) = fp_a" for f
    using ends(3) io by (simp_all add: c_a_def c_b_def connection_new_def healthy_def)
  have "\<forall>m\<in>set ms. length m \<le> 65519" using ms by (simp add: list_all_iff)
  note talk = send_all_recv_many [OF S(2) ends_ok(1) this ends_ok(2,3,4), of K]
  from talk [of "[]"] obtain c_a' f where sent: "send_all K S ms c_a = (Ok (), c_a')" "tx (co_stream c_a') = bytes_a @ f"
    by (auto simp: ends_ok)
  from talk [of f] sent obtain c_b' where "recv_many (conn_recv K S) (length ms) (c_b f) = (Ok ms, c_b')"
    by (auto simp: ends_ok)
  moreover have "client_connect K S a addr fp_b (x_pub (ik_x25519 b)) (Tcp_Stream (s_a\<lparr> rx := bytes_b \<rparr>)) None Finished
      created_a nonce_a clock_a inst_a = Ok c_a"
    using run_a [of "[]"] new(1) by (auto simp: client_connect_def c_a_def)
  moreover have "handle_connection K S (new_responder S b fp_a (x_pub (ik_x25519 a))) (Some accept) None
        (s_b\<lparr> rx := bytes_a @ f \<rparr>) Finished created_b nonce_b clock_b inst_b = Ok (c_b f)"
    using run_b [of f] new(2) accept [OF ends(2)] ends(2) by (auto simp: handle_connection_def c_b_def)
  ultimately show ?thesis
    by (intro exI [of _ c_a] exI [of _ c_a'] exI [of _ "c_b f"] exI [of _ c_b']) (simp add: sent ends_ok)
qed

theorem peers_talk_witness:
  "\<exists>c_a c_a' c_b c_b'.
    client_connect ref_crates ref_snow ref_keys ''10.0.0.2:9000'' (Fingerprint (replicate 20 1)) (replicate 32 2)
      (Tcp_Stream \<lparr> rx = tx (co_stream c_b), rx_end = Io_Error True [], tx = [], tx_fault = \<lambda>_. None, flush_fault = \<lambda>_. None \<rparr>)
      None Finished (seconds 1000) (replicate 12 4) (seconds 1010) 0 = Ok c_a
    \<and> send_all ref_crates ref_snow [[104, 105], []] c_a = (Ok (), c_a')
    \<and> recv_many (conn_recv ref_crates ref_snow) 2 c_b = (Ok [[104, 105], []], c_b')"
proof -
  let ?s = "\<lparr> rx = [], rx_end = Io_Error True [], tx = [], tx_fault = \<lambda>_. None, flush_fault = \<lambda>_. None \<rparr>"
  have s: "healthy ?s" "tx ?s = []" by (simp_all add: healthy_def)
  have c: "\<bar>timestamp (seconds 1000)\<bar> < 2 ^ 62" "\<bar>timestamp (seconds 1000) - timestamp (seconds 1004)\<bar> \<le> 30"
    "\<bar>timestamp (seconds 1005)\<bar> < 2 ^ 62" "\<bar>timestamp (seconds 1005) - timestamp (seconds 1010)\<bar> \<le> 30"
    by (simp_all add: timestamp_def seconds_def)
  have n: "length (replicate 12 4 :: bytes) = 12" "length (replicate 12 5 :: bytes) = 12" by simp_all
  have ms: "list_all (\<lambda>m. length m \<le> 65519) [[104, 105], [] :: bytes]" by simp
  have key: "x_pub (ik_x25519 ref_keys) = replicate 32 2" by (simp add: ref_keys_def)
  from peers_talk [OF ref_ct_eq_ok ref_blake3_ok ref_ed25519_ok ref_x25519_ok ref_snow_kk_ok ref_snow_transport_ok
      ref_keys_wf ref_keys_fingerprint n(1) ref_keys_wf ref_keys_fingerprint n(2) c s s TrueI ms, of "''10.0.0.2:9000''" 0 0]
  obtain c_a c_a' c_b c_b' where "client_connect ref_crates ref_snow ref_keys ''10.0.0.2:9000'' (Fingerprint (replicate 20 1)) (replicate 32 2)
      (Tcp_Stream (?s\<lparr> rx := tx (co_stream c_b) \<rparr>)) None Finished (seconds 1000) (replicate 12 4) (seconds 1010) 0 = Ok c_a"
    "send_all ref_crates ref_snow [[104, 105], []] c_a = (Ok (), c_a')"
    "recv_many (conn_recv ref_crates ref_snow) (length [[104, 105], [] :: bytes]) c_b = (Ok [[104, 105], []], c_b')"
    unfolding key by - (elim exE conjE, rule that)
  then show ?thesis by (intro exI [of _ c_a] exI [of _ c_a'] exI [of _ c_b] exI [of _ c_b'])
    (simp add: numeral_2_eq_2 del: recv_many.simps send_all.simps)
qed

section \<open>From discovery to a connection\<close>

text \<open>
  C13: A peer that discovery reports can be dialled once it is trusted, and not before. Let a received datagram be
  reported as a peer, and let the manager have room for it and no connection to it. Then the manager records it;
  without trust a connection attempt is refused; after the user trusts it the attempt starts a task, and when
  the network connects, the task has the key it needs: the connection is registered under the peer's fingerprint and
  takes messages.
\<close>

theorem discovered_peer_dialled:
  fixes d :: datagram and m :: manager
  assumes "ct_eq_ok K" and "blake3_ok K" and "clock_ok (dg_now d)"
    and "process_beacon K J oc (dg_now d) (dg_clock d) (dg_source_ip d) (take MAX_BEACON_SIZE (dg_data d)) = Ok (Some p)"
    and "peer_count m < MAX_PEERS" and "active_connection_count m < MAX_ACTIVE_CONNECTIONS"
    and "map_of (mg_active m) (pi_fingerprint p) = None" and "\<not> is_trusted (pi_fingerprint p) m"
  shows "fst (add_peer p m) = Ok ()
    \<and> fst (connect_to_peer K (pi_fingerprint p) (snd (add_peer p m))) =
        Err (PeerNotTrusted (ascii_str (to_formatted_string K (pi_fingerprint p))))
    \<and> (case connect_to_peer K (pi_fingerprint p) (trust_peer (pi_fingerprint p) (snd (add_peer p m))) of
         (Ok tid, m') \<Rightarrow>
           map_of (mg_active (task_connect now True tid m')) (pi_fingerprint p) = Some \<lparr> ch_task = tid, ch_last_activity = timestamp now \<rparr>
           \<and> fst (send_to K (pi_fingerprint p) msg (task_connect now True tid m')) = Some (Ok ())
       | _ \<Rightarrow> False)"
proof -
  have "proved_by K J d p"
    using process_beacon_found [OF assms(3,1,2), of J oc] assms(4) by (simp add: MAX_BEACON_SIZE_def)
  then obtain x where x: "pi_x25519_public p = Some x" "length x = 32" by (auto simp: proved_by_def beacon_proves_def)
  have room: "length (mg_peers m) < MAX_PEERS" "length (mg_active m) < MAX_ACTIVE_CONNECTIONS"
    using assms(5,6) by (simp_all add: peer_count_def active_connection_count_def)
  have added: "add_peer p m = (Ok (), m\<lparr> mg_peers := AList.update (pi_fingerprint p) p (mg_peers m) \<rparr>)"
    using room by (simp add: add_peer_def)
  have key: "is_ok (x25519_public_from_bytes x)" using x by (simp add: x25519_public_from_bytes_def)
  have refused: "fst (connect_to_peer K (pi_fingerprint p) (snd (add_peer p m))) =
        Err (PeerNotTrusted (ascii_str (to_formatted_string K (pi_fingerprint p))))"
    using assms(7,8) by (simp add: added connect_to_peer_def get_peer_def is_trusted_def update_conv')
  show ?thesis using assms(7) room key x refused
    by (simp add: added connect_to_peer_def get_peer_def is_trusted_def trust_peer_def update_conv' new_task_def
        task_connect_def set_task_def send_to_def OUTGOING_BUFFER_SIZE_def)
qed

theorem discovered_peer_dialled_witness:
  "\<exists>p J. process_beacon ref_crates J True 1050 0 None [7] = Ok (Some p) \<and> fst (add_peer p manager_new) = Ok ()
    \<and> (case connect_to_peer ref_crates (pi_fingerprint p) (trust_peer (pi_fingerprint p) (snd (add_peer p manager_new))) of
         (Ok tid, m') \<Rightarrow> fst (send_to ref_crates (pi_fingerprint p) [1] (task_connect 0 True tid m')) = Some (Ok ())
       | _ \<Rightarrow> False)"
proof -
  let ?b = "beacon_create ref_crates (ik_ed25519 sample_keys) (x_pub (ik_x25519 sample_keys)) 7878 [65] 1000"
  let ?J = "\<lparr> js_to_vec = \<lambda>_. Some [7], js_from_slice = \<lambda>_. Some ?b \<rparr>"
  let ?d = "\<lparr> dg_data = [7], dg_source_ip = None, dg_now = 1050, dg_clock = 0 \<rparr>"
  have wf: "wf_keys ref_crates sample_keys" by (simp add: wf_keys_def sample_keys_def ref_crates_def)
  obtain fp where fp: "keys_fingerprint ref_crates sample_keys = Ok fp" using keys_fingerprint_Ok [OF ref_blake3_ok] by blast
  have clock: "clock_ok (dg_now ?d)" by (simp add: clock_ok_def)
  obtain p where p: "process_beacon ref_crates ?J True (dg_now ?d) (dg_clock ?d) (dg_source_ip ?d) (take MAX_BEACON_SIZE (dg_data ?d)) = Ok (Some p)"
    using process_created_beacon [OF ref_hex_ok ref_ct_eq_ok ref_blake3_ok ref_ed25519_ok ref_x25519_ok wf fp refl clock,
        where t = 1000 and J = ?J and data = "[7]" and port = 7878 and name = "[65]" and oc = True and clock = 0 and ip = None]
    by (auto simp: MAX_BEACON_SIZE_def)
  have new: "peer_count manager_new < MAX_PEERS" "active_connection_count manager_new < MAX_ACTIVE_CONNECTIONS"
    "map_of (mg_active manager_new) (pi_fingerprint p) = None" "\<not> is_trusted (pi_fingerprint p) manager_new"
    by (simp_all add: manager_new_def peer_count_def active_connection_count_def is_trusted_def MAX_PEERS_def MAX_ACTIVE_CONNECTIONS_def)
  from discovered_peer_dialled [OF ref_ct_eq_ok ref_blake3_ok clock p new, where now = 0 and msg = "[1]"] p
  show ?thesis by (intro exI [of _ p] exI [of _ ?J]) (auto simp: MAX_BEACON_SIZE_def split: prod.splits result.splits)
qed

section \<open>What becomes of an accepted connection\<close>

text \<open>
  C20: The server drops what it accepts. Let two honest peers meet as above, one through the client and one through a server
  task. Both handshakes succeed, but the task drops the connection that \<open>handle_connection\<close> returns: all that the client can
  ever read is the server's part of the handshake, its first \<open>recv\<close> ends in \<open>ConnectionClosed\<close>, and the manager's
  task that runs this connection closes and removes the peer from the active connections again.
\<close>

theorem accepted_connection_dropped:
  assumes K: "ct_eq_ok K" "blake3_ok K" "ed25519_ok K" "x25519_ok K" and S: "snow_kk_ok K S paired"
    and a: "wf_keys K a" "keys_fingerprint K a = Ok fp_a" "length nonce_a = 12"
    and b: "wf_keys K b" "keys_fingerprint K b = Ok fp_b" "length nonce_b = 12"
    and clocks: "\<bar>timestamp created_a\<bar> < 2 ^ 62" "\<bar>timestamp created_a - timestamp clock_b\<bar> \<le> 30"
      "\<bar>timestamp created_b\<bar> < 2 ^ 62" "\<bar>timestamp created_b - timestamp clock_a\<bar> \<le> 30"
    and io: "healthy s_a" "tx s_a = []" "healthy s_b" "tx s_b = []" "is_eof (rx_end s_a)"
    and task: "map_of (mg_tasks m) tid = Some t" "ct_fingerprint t = fp_b" "ct_x25519_public t = Some (x_pub (ik_x25519 b))"
  shows "\<exists>c_a out.
    client_connect K S a addr fp_b (x_pub (ik_x25519 b)) (Tcp_Stream (s_a\<lparr> rx := out \<rparr>)) None Finished
      created_a nonce_a clock_a inst_a = Ok c_a
    \<and> spawned_task K S (tcp_server_new b bind_addr) (new_responder S b fp_a (x_pub (ik_x25519 a))) None
        (s_b\<lparr> rx := tx (co_stream c_a) \<rparr>) Finished created_b nonce_b clock_b inst_b = Ok out
    \<and> fst (conn_recv K S c_a) = Err ConnectionClosed
    \<and> map_of (mg_active (task_connect now True tid m)) fp_b = Some \<lparr> ch_task = tid, ch_last_activity = timestamp now \<rparr>
    \<and> map_of (mg_active (fold (manager_exec K) [Task_Turn tid Turn_Recv_Failed, Task_Finish tid] (task_connect now True tid m))) fp_b = None"
proof -
  from honest_handshake [OF K S a b clocks io(1-4), of inst_a inst_b]
  obtain h_a h_b bytes_a bytes_b t_a t_b v_a v_b where new: "new_initiator S a fp_b (x_pub (ik_x25519 b)) = Ok h_a"
      "new_responder S b fp_a (x_pub (ik_x25519 a)) = Ok h_b"
    and run_a: "\<And>rest. \<exists>h. run_initiator_handshake K S Finished created_a nonce_a clock_a inst_a (h_a, s_a\<lparr> rx := bytes_b @ rest \<rparr>) =
      (Ok (\<lparr> tr_state = t_a, tr_poisoned = False \<rparr>, v_a), (h, s_a\<lparr> rx := rest, tx := bytes_a \<rparr>))"
    and run_b: "\<And>rest. \<exists>h. run_responder_handshake K S Finished created_b nonce_b clock_b inst_b (h_b, s_b\<lparr> rx := bytes_a @ rest \<rparr>) =
      (Ok (\<lparr> tr_state = t_b, tr_poisoned = False \<rparr>, v_b), (h, s_b\<lparr> rx := rest, tx := bytes_b \<rparr>))"
    by metis
  define c_a where "c_a = connection_new (s_a\<lparr> rx := [], tx := bytes_a \<rparr>) \<lparr> tr_state = t_a, tr_poisoned = False \<rparr> fp_b"
  have stream: "tx (co_stream c_a) = bytes_a" "rx (co_stream c_a) = []" "is_eof (rx_end (co_stream c_a))"
    using io(5) by (simp_all add: c_a_def connection_new_def)
  have "client_connect K S a addr fp_b (x_pub (ik_x25519 b)) (Tcp_Stream (s_a\<lparr> rx := bytes_b \<rparr>)) None Finished
      created_a nonce_a clock_a inst_a = Ok c_a"
    using run_a [of "[]"] new(1) by (auto simp: client_connect_def c_a_def)
  moreover have "spawned_task K S (tcp_server_new b bind_addr) (new_responder S b fp_a (x_pub (ik_x25519 a))) None
        (s_b\<lparr> rx := tx (co_stream c_a) \<rparr>) Finished created_b nonce_b clock_b inst_b = Ok bytes_b"
    using run_b [of "[]"] new(2) stream(1)
    by (auto simp: spawned_task_def server_task_def tcp_server_new_def handle_connection_def connection_new_def)
  moreover have "codec_decode (co_stream c_a) = (Err ConnectionClosed, (co_stream c_a)\<lparr> rx := [] \<rparr>)"
    unfolding codec_decode_def using stream(2,3) by (subst recv_frame_short_prefix) (simp_all add: read_error_def)
  then have "fst (conn_recv K S c_a) = Err ConnectionClosed"
    by (simp add: conn_recv_def on_stream_def action_defs)
  moreover have "is_ok (x25519_public_from_bytes (x_pub (ik_x25519 b)))"
    using wf_keys_lengths [OF b(1) K(3,4)] by (simp add: x25519_public_from_bytes_def)
  ultimately show ?thesis using task
    by (intro exI [of _ c_a] exI [of _ bytes_b])
      (simp add: task_connect_def set_task_def on_task_def task_finish_def end_task_def alist_simps)
qed

theorem accepted_connection_dropped_witness:
  "\<exists>c_a out. spawned_task ref_crates ref_snow (tcp_server_new ref_keys ''0.0.0.0:7878'')
      (new_responder ref_snow ref_keys (Fingerprint (replicate 20 1)) (replicate 32 2)) None
      \<lparr> rx = tx (co_stream c_a), rx_end = Io_Error True [], tx = [], tx_fault = \<lambda>_. None, flush_fault = \<lambda>_. None \<rparr>
      Finished (seconds 1005) (replicate 12 5) (seconds 1004) 0 = Ok out
    \<and> fst (conn_recv ref_crates ref_snow c_a) = Err ConnectionClosed"
proof -
  let ?s = "\<lparr> rx = [], rx_end = Io_Error True [], tx = [], tx_fault = \<lambda>_. None, flush_fault = \<lambda>_. None \<rparr>"
  have s: "healthy ?s" "tx ?s = []" "is_eof (rx_end ?s)" by (simp_all add: healthy_def)
  have c: "\<bar>timestamp (seconds 1000)\<bar> < 2 ^ 62" "\<bar>timestamp (seconds 1000) - timestamp (seconds 1004)\<bar> \<le> 30"
    "\<bar>timestamp (seconds 1005)\<bar> < 2 ^ 62" "\<bar>timestamp (seconds 1005) - timestamp (seconds 1010)\<bar> \<le> 30"
    by (simp_all add: timestamp_def seconds_def)
  have n: "length (replicate 12 4 :: bytes) = 12" "length (replicate 12 5 :: bytes) = 12" by simp_all
  let ?t = "\<lparr> ct_fingerprint = Fingerprint (replicate 20 1), ct_x25519_public = Some (x_pub (ik_x25519 ref_keys)), ct_phase = Connecting,
      ct_outgoing = [], ct_incoming = [], ct_receiver_alive = True \<rparr>"
  have t: "map_of (mg_tasks (manager_new\<lparr> mg_tasks := [(0, ?t)] \<rparr>)) 0 = Some ?t" "ct_fingerprint ?t = Fingerprint (replicate 20 1)"
    "ct_x25519_public ?t = Some (x_pub (ik_x25519 ref_keys))" by simp_all
  have key: "x_pub (ik_x25519 ref_keys) = replicate 32 2" by (simp add: ref_keys_def)
  from accepted_connection_dropped [OF ref_ct_eq_ok ref_blake3_ok ref_ed25519_ok ref_x25519_ok ref_snow_kk_ok
      ref_keys_wf ref_keys_fingerprint n(1) ref_keys_wf ref_keys_fingerprint n(2) c s(1,2) s t,
      of "[]" 0 "''0.0.0.0:7878''" 0 0]
  obtain c_a out where "spawned_task ref_crates ref_snow (tcp_server_new ref_keys ''0.0.0.0:7878'')
      (new_responder ref_snow ref_keys (Fingerprint (replicate 20 1)) (replicate 32 2)) None
      (?s\<lparr> rx := tx (co_stream c_a) \<rparr>) Finished (seconds 1005) (replicate 12 5) (seconds 1004) 0 = Ok out"
    "fst (conn_recv ref_crates ref_snow c_a) = Err ConnectionClosed"
    unfolding key by - (elim exE conjE, rule that)
  then show ?thesis by (intro exI [of _ c_a] exI [of _ out]) simp
qed

section \<open>The identity across restarts\<close>

lemma store_new_keeps: "fs_files (store_new d) STORAGE_FILE = fs_files d STORAGE_FILE" "fs_fault (store_new d) = fs_fault d"
  by (simp_all add: store_new_def cleanup_temp_files_def extension_def STORAGE_FILE_def Let_def)

text \<open>
  C29: A peer stays recognised after a restart. Let the store be empty and its calls succeed. The first start with a passphrase
  generates an identity and stores it; a later start with the same passphrase, whatever it would have drawn, loads exactly that identity
  and changes nothing; and a beacon made with it is reported, within a minute, as a peer with its X25519
  key under the fingerprint of the first run, which a manager that was told to trust that fingerprint trusts.
\<close>

theorem identity_survives_restart:
  assumes K: "argon2_ok K" "chacha_ok K" "hex_ok K" "ct_eq_ok K" "blake3_ok K" "ed25519_ok K" "x25519_ok K"
    and random: "length ed_seed = 32" "length x_seed = 32" "length salt = 32" "length nonce = 12"
    and pass: "length (str_bytes pass) < 2 ^ 32" and d: "fs_files d STORAGE_FILE = None" "fs_fault d = (\<lambda>_. None)"
    and ik: "identity_keys_generate K ed_seed x_seed = Ok ik" "keys_fingerprint K ik = Ok fp"
    and json: "js_from_slice J data = Some (beacon_create K (ik_ed25519 ik) (x_pub (ik_x25519 ik)) port name t)"
    and clock: "clock_ok now" "unat t \<le> unat now + 60" "unat now \<le> unat t + 60"
  shows "\<exists>d'. store_load_or_create K ed_seed x_seed salt nonce pass (store_new d) = (Ok ik, d')
    \<and> store_load_or_create K ed_seed' x_seed' salt' nonce' pass (store_new d') = (Ok ik, store_new d')
    \<and> (\<exists>p. process_beacon K J oc now clock ip data = Ok (Some p) \<and> pi_x25519_public p = Some (x_pub (ik_x25519 ik))
         \<and> is_trusted (pi_fingerprint p) (trust_peer fp m))"
proof -
  let ?d = "store_new d"
  have new: "fs_files ?d STORAGE_FILE = None" "fs_fault ?d = (\<lambda>_. None)" using d by (simp_all add: store_new_keeps)
  have wf: "wf_keys K ik" by (rule generated_wf_keys [OF random(1,2) ik(1)])
  obtain c where c: "store_encrypt K salt nonce ik pass = Ok c" "length c = 193" "store_decrypt K c pass = Ok ik"
    using store_decrypt_encrypt [OF K(1,2,5,6,7) wf pass random(3,4)] by blast
  obtain d' where d': "store_save K salt nonce ik pass ?d = (Ok (), d')"
    using c(1) new(2) by (simp add: store_save_def action_defs syscall_fault_def Let_def)
  with store_save_effect [OF d'] c(1) new(2) have stored: "fs_files d' STORAGE_FILE = Some c" "fs_fault d' = (\<lambda>_. None)" by auto
  have "store_load_or_create K ed_seed x_seed salt nonce pass ?d = (Ok ik, d')"
    using new ik(1) d' by (simp add: store_load_or_create_def store_create_def store_exists_def action_defs)
  moreover have "store_load_or_create K ed_seed' x_seed' salt' nonce' pass (store_new d') = (Ok ik, store_new d')"
    using stored c(2,3) by (simp add: store_load_or_create_def store_exists_def store_new_keeps store_load_content)
  moreover obtain p where "process_beacon K J oc now clock ip data = Ok (Some p)" "pi_fingerprint p = fp"
    "pi_x25519_public p = Some (x_pub (ik_x25519 ik))"
    using process_created_beacon [OF K(3-7) wf ik(2) refl clock json] by blast
  ultimately show ?thesis by (intro exI [of _ d']) (auto simp: is_trusted_def trust_peer_def)
qed

theorem identity_survives_restart_witness:
  "\<exists>d' ik' J p. store_load_or_create ref_crates (replicate 32 1) (replicate 32 2) (replicate 32 5) (replicate 12 6) [112]
       (store_new \<lparr> fs_files = Map.empty, fs_fault = (\<lambda>_. None), fs_partial = None \<rparr>) = (Ok ik', d')
    \<and> store_load_or_create ref_crates (replicate 32 8) (replicate 32 9) [] [] [112] (store_new d') = (Ok ik', store_new d')
    \<and> process_beacon ref_crates J True 1050 0 None [7] = Ok (Some p)"
proof -
  let ?d = "\<lparr> fs_files = Map.empty, fs_fault = (\<lambda>_. None), fs_partial = None \<rparr>"
  let ?b = "\<lambda>ik. beacon_create ref_crates (ik_ed25519 ik) (x_pub (ik_x25519 ik)) 7878 [65] 1000"
  obtain ik where ik: "identity_keys_generate ref_crates (replicate 32 1) (replicate 32 2) = Ok ik"
    by (simp add: identity_keys_generate_def ed25519_generate_def x25519_generate_def)
  obtain fp where fp: "keys_fingerprint ref_crates ik = Ok fp" using keys_fingerprint_Ok [OF ref_blake3_ok] by blast
  let ?J = "\<lparr> js_to_vec = \<lambda>_. Some [7], js_from_slice = \<lambda>_. Some (?b ik) \<rparr>"
  have pass: "length (str_bytes [112]) < 2 ^ 32" by (simp add: str_bytes_def encode_char_def)
  have json: "js_from_slice ?J [7] = Some (?b ik)" by simp
  have len: "length (replicate 32 1 :: bytes) = 32" "length (replicate 32 2 :: bytes) = 32" "length (replicate 32 5 :: bytes) = 32"
    "length (replicate 12 6 :: bytes) = 12" "fs_files ?d STORAGE_FILE = None" "fs_fault ?d = (\<lambda>_. None)" by simp_all
  have clock: "clock_ok 1050" "unat (1000 :: 64 word) \<le> unat (1050 :: 64 word) + 60" "unat (1050 :: 64 word) \<le> unat (1000 :: 64 word) + 60"
    by (simp_all add: clock_ok_def)
  from identity_survives_restart [OF ref_argon2_ok ref_chacha_ok ref_hex_ok ref_ct_eq_ok ref_blake3_ok ref_ed25519_ok ref_x25519_ok
      len(1-4) pass len(5,6) ik fp json clock, where oc = True and clock = 0 and ip = None and ed_seed' = "replicate 32 8"
      and x_seed' = "replicate 32 9" and salt' = "[]" and nonce' = "[]"]
  show ?thesis by blast
qed

end
